(* ===== verification/Prelude.thy ===== *)
theory Prelude
  imports
    Complex_Main
    "HOL-Library.AList"
    "HOL-Library.Char_ord"
    "HOL-Library.List_Lexorder"
    "HOL-Library.Product_Lexorder"
begin

text \<open>
  Shared vocabulary of the development.

  \<^item> Errors. \<open>error_code\<close> is the \<open>ErrorCode\<close> enumeration of \<open>domain/errors.py\<close>;
    \<open>py_error\<close> collects the exceptions the modelled code raises. A fallible function
    returns \<open>'a outcome\<close>. A method that may raise after it changed its object returns the
    outcome together with the object, so a raised exception keeps every mutation made before it.
  \<^item> Dictionaries. A Python \<open>dict\<close> is an association list in insertion order:
    \<open>dict_set\<close> overwrites in place and appends a new key at the end, as Python does.
  \<^item> Time. \<open>time.monotonic()\<close> is a stream of readings together with the number of readings
    taken; \<open>clock_of\<close> is the \<open>_now(now_s)\<close> helper of the fleet and safety modules.
  \<^item> Numbers. Python integers are \<open>int\<close>; Python floats are exact \<open>real\<close> numbers, so rounding,
    infinities and NaN are outside the model.
  \<^item> Strings are compared by code point (\<open>Char_ord\<close>, \<open>List_Lexorder\<close>) and tuples
    lexicographically (\<open>Product_Lexorder\<close>), which is the order of \<open>sorted\<close>, \<open>min\<close> and \<open>max\<close>.
  \<^item> Two locales lift one-step facts to all reachable states; one is the contract of a lease
    authority, and one that of the numbered evidence logs several components keep.
\<close>

named_theorems outcome_simps \<open>equations of the fallible helpers shared by the components\<close>

section \<open>Errors as values\<close>

datatype error_code =
    INVALID_COMMAND
  | INVALID_STATE
  | MODE_NOT_AUTHORIZED
  | CAPABILITY_MISSING
  | PREFLIGHT_FAILED
  | COMMAND_TIMEOUT
  | COMMAND_DROPPED
  | LINK_LOST
  | TELEMETRY_STALE
  | LOCALIZATION_INVALID
  | CRITICAL_BATTERY
  | GEOFENCE_BREACH
  | IDENTITY_MISMATCH
  | EMERGENCY_STOPPED
  | INTERNAL_ERROR

datatype py_error =
    CrazySwarmError error_code string
  | ValueError string
  | ValidationError string
  | KeyError
  | StopIteration
  | AssertionError
  | TimeoutError
  | CancelledError
  | ZeroDivisionError
  | OtherException string

type_synonym 'a outcome = "py_error + 'a"

definition succeeded :: "'a outcome \<times> 's \<Rightarrow> bool" where
  "succeeded r = (case fst r of Inl _ \<Rightarrow> False | Inr _ \<Rightarrow> True)"

lemma succeeded_simps [simp]:
  "succeeded (Inr x, s)" "\<not> succeeded (Inl e, s)"
  by (simp_all add: succeeded_def)

lemma succeeded_iff: "succeeded r \<longleftrightarrow> (\<exists>x s. r = (Inr x, s))"
  by (cases r; cases "fst r") (auto simp: succeeded_def)

section \<open>Insertion-ordered dictionaries\<close>

type_synonym ('k, 'v) dict = "('k \<times> 'v) list"

abbreviation dict_get :: "('k, 'v) dict \<Rightarrow> 'k \<Rightarrow> 'v option" where
  "dict_get \<equiv> map_of"

abbreviation dict_set :: "'k \<Rightarrow> 'v \<Rightarrow> ('k, 'v) dict \<Rightarrow> ('k, 'v) dict" where
  "dict_set \<equiv> AList.update"

abbreviation dict_keys :: "('k, 'v) dict \<Rightarrow> 'k list" where
  "dict_keys d \<equiv> map fst d"

abbreviation dict_values :: "('k, 'v) dict \<Rightarrow> 'v list" where
  "dict_values d \<equiv> map snd d"

definition dict_wf :: "('k, 'v) dict \<Rightarrow> bool" where
  "dict_wf d \<longleftrightarrow> distinct (dict_keys d)"

lemma dict_wf_Nil [simp, intro!]: "dict_wf []"
  by (simp add: dict_wf_def)

lemma dict_wf_set [simp, intro]: "dict_wf d \<Longrightarrow> dict_wf (dict_set k v d)"
  by (simp add: dict_wf_def distinct_update)

lemma dict_get_set [simp]: "dict_get (dict_set k v d) = (dict_get d)(k \<mapsto> v)"
  by (rule update_conv')

lemma dict_values_get: "dict_wf d \<Longrightarrow> x \<in> set (dict_values d) \<longleftrightarrow> (\<exists>k. dict_get d k = Some x)"
  unfolding dict_wf_def by (force simp: image_iff dest: map_of_SomeD)

lemma dict_get_values: "dict_get d k = Some x \<Longrightarrow> x \<in> set (dict_values d)"
  by (force dest: map_of_SomeD)

lemma dict_wf_Cons: "dict_wf ((k, v) # d) \<longleftrightarrow> dict_get d k = None \<and> dict_wf d"
  by (auto simp: dict_wf_def map_of_eq_None_iff)

lemma dict_get_set_same: "dict_get d k = Some v \<Longrightarrow> dict_wf d \<Longrightarrow> dict_set k v d = d"
  by (induction d) (auto simp: dict_wf_Cons)

lemma dict_keys_set: "dict_keys (dict_set k v d) = (if k \<in> set (dict_keys d) then dict_keys d else dict_keys d @ [k])"
  by (rule update_keys)

lemma dict_set_set [simp]: "dict_set k v (dict_set k w d) = dict_set k v d"
  by (induction d) auto

text \<open>
  Counting the entries that satisfy a predicate (Python's \<open>sum(p(x) for x in d.values())\<close>):
  a write changes the count by at most the entry written.
\<close>

definition count_values :: "('v \<Rightarrow> bool) \<Rightarrow> ('k, 'v) dict \<Rightarrow> nat" where
  "count_values p d = length (filter p (dict_values d))"

lemma count_values_Nil [simp]: "count_values p [] = 0"
  by (simp add: count_values_def)

lemma count_values_Cons [simp]:
  "count_values p (kv # d) = (if p (snd kv) then 1 else 0) + count_values p d"
  by (simp add: count_values_def)

lemma count_values_set:
  "dict_wf d \<Longrightarrow>
   count_values p (dict_set k v d) + (case dict_get d k of Some w \<Rightarrow> if p w then 1 else 0 | None \<Rightarrow> 0)
     = count_values p d + (if p v then 1 else 0)"
proof (induction d)
  case Nil
  then show ?case by simp
next
  case (Cons kv d)
  obtain k' w where kv: "kv = (k', w)" by (cases kv)
  from Cons.prems kv have "dict_wf d" by (simp add: dict_wf_Cons)
  with Cons.IH kv show ?case by (cases "k' = k") auto
qed

lemma count_values_set_new:
  assumes "dict_wf d" "dict_get d k = None"
  shows "count_values p (dict_set k v d) = count_values p d + (if p v then 1 else 0)"
  using count_values_set [OF assms(1), of p k v] assms(2) by simp

lemma count_values_set_old:
  assumes "dict_wf d" "dict_get d k = Some w" "p v = p w"
  shows "count_values p (dict_set k v d) = count_values p d"
  using count_values_set [OF assms(1), of p k v] assms(2,3) by simp

lemma count_values_set_drop:
  assumes "dict_wf d" "dict_get d k = Some w" "p v \<Longrightarrow> p w"
  shows "count_values p (dict_set k v d) \<le> count_values p d"
  using count_values_set [OF assms(1), of p k v] assms(2,3) by (auto split: if_splits)

lemma count_values_set_le:
  assumes "dict_wf d"
  shows "count_values p (dict_set k v d) \<le> count_values p d + (if p v then 1 else 0)"
  using count_values_set [OF assms, of p k v] by simp

section \<open>Monotonic clock readings\<close>

record clock =
  readings :: "nat \<Rightarrow> real"
  reads :: nat

definition monotonic :: "clock \<Rightarrow> real \<times> clock" where
  "monotonic c = (readings c (reads c), c\<lparr>reads := Suc (reads c)\<rparr>)"

definition clock_of :: "real option \<Rightarrow> clock \<Rightarrow> real \<times> clock" where
  "clock_of now_s c = (case now_s of None \<Rightarrow> monotonic c | Some t \<Rightarrow> (t, c))"

lemma monotonic_simps [simp]:
  "fst (monotonic c) = readings c (reads c)"
  "readings (snd (monotonic c)) = readings c"
  "reads (snd (monotonic c)) = Suc (reads c)"
  by (simp_all add: monotonic_def)

lemma clock_of_simps [simp]:
  "clock_of (Some t) c = (t, c)"
  "clock_of None c = monotonic c"
  "readings (snd (clock_of n c)) = readings c"
  by (simp_all add: clock_of_def split: option.split)

section \<open>Strings, identifiers and keyed minima\<close>

text \<open>\<open>Identifier\<close> of \<open>domain/models.py\<close>: 1 to 96 characters, a letter or digit first.\<close>

definition ascii_alnum :: "char \<Rightarrow> bool" where
  "ascii_alnum c = (let n = of_char c :: nat in
     (48 \<le> n \<and> n \<le> 57) \<or> (65 \<le> n \<and> n \<le> 90) \<or> (97 \<le> n \<and> n \<le> 122))"

definition identifier_char :: "char \<Rightarrow> bool" where
  "identifier_char c = (ascii_alnum c \<or> c \<in> {CHR ''_'', CHR ''.'', CHR '':'', CHR ''-''})"

definition valid_identifier :: "string \<Rightarrow> bool" where
  "valid_identifier s = (length s \<le> 96 \<and>
     (case s of [] \<Rightarrow> False | c # cs \<Rightarrow> ascii_alnum c \<and> list_all identifier_char cs))"

definition hex_char :: "char \<Rightarrow> bool" where
  "hex_char c = (let n = of_char c :: nat in (48 \<le> n \<and> n \<le> 57) \<or> (97 \<le> n \<and> n \<le> 102))"

text \<open>\<open>SHA256\<close> of \<open>domain/simulation.py\<close>: 64 lower-case hexadecimal digits.\<close>

definition valid_sha256 :: "string \<Rightarrow> bool" where
  "valid_sha256 s = (length s = 64 \<and> list_all hex_char s)"

definition opt_all :: "('a \<Rightarrow> bool) \<Rightarrow> 'a option \<Rightarrow> bool" where
  "opt_all p x = (case x of None \<Rightarrow> True | Some y \<Rightarrow> p y)"

lemma opt_all_simps [simp]: "opt_all p None" "opt_all p (Some y) = p y"
  by (simp_all add: opt_all_def)

lemma find_SomeD: "find P xs = Some x \<Longrightarrow> x \<in> set xs \<and> P x"
  by (induction xs) (auto split: if_splits)

text \<open>Decimal rendering of a non-negative integer, as in an f-string.\<close>

fun show_nat :: "nat \<Rightarrow> string" where
  "show_nat n = (if n < 10 then [char_of (48 + n)] else show_nat (n div 10) @ [char_of (48 + n mod 10)])"

declare show_nat.simps [simp del]

definition show_int :: "int \<Rightarrow> string" where
  "show_int i = (if i < 0 then CHR ''-'' # show_nat (nat (- i)) else show_nat (nat i))"

text \<open>\<open>min(xs, key=f)\<close> and \<open>max(xs, key=f)\<close>: the first element that attains the extremum.\<close>

fun min_by :: "('a \<Rightarrow> 'b::linorder) \<Rightarrow> 'a \<Rightarrow> 'a list \<Rightarrow> 'a" where
  "min_by f x [] = x"
| "min_by f x (y # ys) = min_by f (if f y < f x then y else x) ys"

fun max_by :: "('a \<Rightarrow> 'b::linorder) \<Rightarrow> 'a \<Rightarrow> 'a list \<Rightarrow> 'a" where
  "max_by f x [] = x"
| "max_by f x (y # ys) = max_by f (if f x < f y then y else x) ys"

lemma min_by_in: "min_by f x xs \<in> set (x # xs)"
proof (induction xs arbitrary: x)
  case (Cons a xs)
  from Cons.IH [of "if f a < f x then a else x"] show ?case by (auto split: if_splits)
qed simp

lemma max_by_in: "max_by f x xs \<in> set (x # xs)"
proof (induction xs arbitrary: x)
  case (Cons a xs)
  from Cons.IH [of "if f x < f a then a else x"] show ?case by (auto split: if_splits)
qed simp

lemma min_by_le: "y \<in> set (x # xs) \<Longrightarrow> f (min_by f x xs) \<le> f y"
proof (induction xs arbitrary: x y)
  case Nil
  then show ?case by simp
next
  case (Cons z zs)
  let ?w = "if f z < f x then z else x"
  have "f (min_by f ?w zs) \<le> f ?w" by (rule Cons.IH) simp
  moreover have "f ?w \<le> f x" "f ?w \<le> f z" by auto
  ultimately have "f (min_by f ?w zs) \<le> f x" "f (min_by f ?w zs) \<le> f z" by order+
  moreover have "v \<in> set zs \<Longrightarrow> f (min_by f ?w zs) \<le> f v" for v by (rule Cons.IH) simp
  ultimately show ?case using Cons.prems by auto
qed

lemma max_by_ge: "y \<in> set (x # xs) \<Longrightarrow> f y \<le> f (max_by f x xs)"
proof (induction xs arbitrary: x y)
  case Nil
  then show ?case by simp
next
  case (Cons z zs)
  let ?w = "if f x < f z then z else x"
  have "f ?w \<le> f (max_by f ?w zs)" by (rule Cons.IH) simp
  moreover have "f x \<le> f ?w" "f z \<le> f ?w" by auto
  ultimately have "f x \<le> f (max_by f ?w zs)" "f z \<le> f (max_by f ?w zs)" by order+
  moreover have "v \<in> set zs \<Longrightarrow> f v \<le> f (max_by f ?w zs)" for v by (rule Cons.IH) simp
  ultimately show ?case using Cons.prems by auto
qed

section \<open>Invariants of transition systems\<close>

text \<open>
  \<open>step\<close> is the relation between the states before and after one call of a component. The
  client of \<open>invariant_system\<close> proves that a call keeps \<open>inv\<close>; every state reached by any sequence
  of calls then has it. \<open>monotone_system\<close> adds a quantity no call decreases.
\<close>

locale invariant_system =
  fixes step :: "'s \<Rightarrow> 's \<Rightarrow> bool"
    and inv :: "'s \<Rightarrow> bool"
  assumes step_inv: "step s t \<Longrightarrow> inv s \<Longrightarrow> inv t"
begin

lemma reach_inv: "step\<^sup>*\<^sup>* s t \<Longrightarrow> inv s \<Longrightarrow> inv t"
  by (induction rule: rtranclp_induct) (auto intro: step_inv)

end

locale monotone_system = invariant_system step inv
  for step :: "'s \<Rightarrow> 's \<Rightarrow> bool" and inv :: "'s \<Rightarrow> bool" +
  fixes measure_of :: "'s \<Rightarrow> 'm"
    and below :: "'m \<Rightarrow> 'm \<Rightarrow> bool"
  assumes below_refl: "below m m"
    and below_trans: "below m n \<Longrightarrow> below n p \<Longrightarrow> below m p"
    and step_below: "step s t \<Longrightarrow> inv s \<Longrightarrow> below (measure_of s) (measure_of t)"
begin

lemma reach_below: "step\<^sup>*\<^sup>* s t \<Longrightarrow> inv s \<Longrightarrow> below (measure_of s) (measure_of t)"
proof (induction rule: rtranclp_induct)
  case base
  show ?case by (rule below_refl)
next
  case (step t u)
  then show ?case by (blast intro: below_trans step_below reach_inv)
qed

end

text \<open>
  A lease authority: \<open>holds m t v g\<close> says that holder \<open>v\<close> has the lease of task \<open>t\<close> under generation
  \<open>g\<close>. The provider promises that later leases of a task carry later generations, and that equal
  generations name equal holders; a superseded lease then never becomes current again.
\<close>

locale lease_authority = monotone_system step inv measure_of below
  for step :: "'s \<Rightarrow> 's \<Rightarrow> bool" and inv :: "'s \<Rightarrow> bool"
    and measure_of :: "'s \<Rightarrow> 'm" and below :: "'m \<Rightarrow> 'm \<Rightarrow> bool" +
  fixes holds :: "'m \<Rightarrow> 't \<Rightarrow> 'v \<Rightarrow> int \<Rightarrow> bool"
  assumes leases_ordered: "inv s \<Longrightarrow> inv s' \<Longrightarrow> below (measure_of s) (measure_of s') \<Longrightarrow>
    holds (measure_of s) t v g \<Longrightarrow> holds (measure_of s') t w h \<Longrightarrow> g \<le> h \<and> (g = h \<longrightarrow> v = w)"
begin

lemma fenced:
  assumes "step\<^sup>*\<^sup>* s s'" "inv s" "holds (measure_of s) t w h" "g < h"
  shows "\<not> holds (measure_of s') t v g"
  using leases_ordered [OF assms(2) reach_inv [OF assms(1,2)] reach_below [OF assms(1,2)] assms(3)] assms(4)
  by fastforce

lemma unique_holder:
  assumes "step\<^sup>*\<^sup>* s s'" "inv s" "holds (measure_of s) t v g" "holds (measure_of s') t w g"
  shows "v = w"
  using leases_ordered [OF assms(2) reach_inv [OF assms(1,2)] reach_below [OF assms(1,2)] assms(3,4)]
  by simp

end

section \<open>Numbered evidence logs\<close>

text \<open>
  The task ledger, the handover coordinator and the dock scheduler append evidence events to the
  record an operation touches and number them from one counter per object. A log is in order when
  its numbers rise strictly and none exceeds the counter.
\<close>

definition log_ok :: "('e \<Rightarrow> int) \<Rightarrow> int \<Rightarrow> 'e list \<Rightarrow> bool" where
  "log_ok num c es \<longleftrightarrow> sorted_wrt (<) (map num es) \<and> (\<forall>e \<in> set es. 1 \<le> num e \<and> num e \<le> c)"

lemma log_ok_Nil [simp]: "log_ok num c []"
  by (simp add: log_ok_def)

lemma log_ok_mono: "log_ok num c es \<Longrightarrow> c \<le> c' \<Longrightarrow> log_ok num c' es"
  by (auto simp: log_ok_def)

lemma log_ok_snoc:
  "log_ok num c es \<Longrightarrow> 0 \<le> c \<Longrightarrow> num e = c + 1 \<Longrightarrow> log_ok num (c + 1) (es @ [e])"
  by (auto simp: log_ok_def sorted_wrt_append intro: order_le_less_trans)

lemma log_ok_sort: "log_ok num c es \<Longrightarrow> sort_key num es = es"
  unfolding log_ok_def
  by (intro sort_key_id_if_sorted) (auto intro: strict_sorted_imp_sorted)

locale numbered_log =
  fixes stamp :: "'i \<Rightarrow> 'r \<Rightarrow> 's \<Rightarrow> 'r outcome \<times> 's"
    and log_of :: "'r \<Rightarrow> 'e list"
    and num :: "'e \<Rightarrow> int"
    and counter :: "'s \<Rightarrow> int"
  assumes stamp_counter: "counter (snd (stamp i r s)) = counter s + 1"
    and stamp_log: "stamp i r s = (Inr r', s') \<Longrightarrow>
        \<exists>e. log_of r' = log_of r @ [e] \<and> num e = counter s + 1"
begin

lemma stamp_log_ok:
  assumes "stamp i r s = (Inr r', s')" "log_ok num (counter s) (log_of r)" "0 \<le> counter s"
  shows "log_ok num (counter s') (log_of r')"
proof -
  from assms(1) have c: "counter s' = counter s + 1" using stamp_counter [of i r s] by simp
  from stamp_log [OF assms(1)] obtain e where
    "log_of r' = log_of r @ [e]" "num e = counter s + 1" by blast
  with assms(2,3) c show ?thesis by (simp add: log_ok_snoc)
qed

lemma stamp_log_extends:
  "stamp i r s = (Inr r', s') \<Longrightarrow> \<exists>e. log_of r' = log_of r @ [e]"
  by (blast dest: stamp_log)

end

end
