(* ===== verification/Domain.thy ===== *)
theory Domain
  imports Prelude
begin

text \<open>
  The value types of \<open>domain/models.py\<close> that the other components exchange: the enumerations, the
  three-dimensional vector, identities and backend profiles, and the capability test of
  \<open>VehicleCapabilities\<close> (the free-form \<open>details\<close> of a deck are left out). Constructor names keep
  the source's spelling, with a prefix where two enumerations share a name. Capabilities are ordered
  by their string value, which is the order \<open>sorted(item.value for item in ...)\<close> uses.
\<close>

section \<open>Enumerations\<close>

datatype operating_mode = SIM | LIVE | SHADOW | REPLAY

datatype authority_class = SIMULATION | PHYSICAL | OBSERVATION_ONLY

datatype coordinate_frame = WORLD | HOME | BODY | SENSOR

datatype vehicle_state =
    VS_DISCONNECTED
  | VS_CONNECTING
  | VS_READY
  | VS_ARMING
  | VS_TAKING_OFF
  | VS_FLYING
  | VS_RETURNING
  | VS_LANDING
  | VS_ABORTING
  | VS_FAULT
  | VS_EMERGENCY

fun vehicle_state_value :: "vehicle_state \<Rightarrow> string" where
  "vehicle_state_value VS_DISCONNECTED = ''DISCONNECTED''"
| "vehicle_state_value VS_CONNECTING = ''CONNECTING''"
| "vehicle_state_value VS_READY = ''READY''"
| "vehicle_state_value VS_ARMING = ''ARMING''"
| "vehicle_state_value VS_TAKING_OFF = ''TAKING_OFF''"
| "vehicle_state_value VS_FLYING = ''FLYING''"
| "vehicle_state_value VS_RETURNING = ''RETURNING''"
| "vehicle_state_value VS_LANDING = ''LANDING''"
| "vehicle_state_value VS_ABORTING = ''ABORTING''"
| "vehicle_state_value VS_FAULT = ''FAULT''"
| "vehicle_state_value VS_EMERGENCY = ''EMERGENCY''"

fun operating_mode_value :: "operating_mode \<Rightarrow> string" where
  "operating_mode_value SIM = ''SIM''"
| "operating_mode_value LIVE = ''LIVE''"
| "operating_mode_value SHADOW = ''SHADOW''"
| "operating_mode_value REPLAY = ''REPLAY''"

datatype backend_role = BR_FAST_SIM | BR_ISAAC_SIM | BR_REAL_CRAZYFLIE | BR_REPLAY | BR_TWIN_OBSERVER

datatype source_clock_policy = ACCELERATED_OR_REALTIME | REALTIME_MONOTONIC | REPLAY_CONTROLLED

datatype command_completion_mode = BLOCKING_COMPLETION | ASYNC_ACCEPTANCE

datatype command_source = CS_CLI | CS_UI | CS_MISSION | CS_SUPERVISOR | CS_TEST

datatype vehicle_capability =
    CAP_ARMING
  | CAP_RELATIVE_POSITIONING
  | CAP_GLOBAL_POSITIONING
  | CAP_HIGH_LEVEL_COMMANDS
  | CAP_RANGE_SENSING
  | CAP_PARAMETER_ACCESS
  | CAP_EMERGENCY_STOP
  | CAP_TIME_PARAMETERIZED_TRAJECTORY

fun capability_value :: "vehicle_capability \<Rightarrow> string" where
  "capability_value CAP_ARMING = ''arming''"
| "capability_value CAP_RELATIVE_POSITIONING = ''relative_positioning''"
| "capability_value CAP_GLOBAL_POSITIONING = ''global_positioning''"
| "capability_value CAP_HIGH_LEVEL_COMMANDS = ''high_level_commands''"
| "capability_value CAP_RANGE_SENSING = ''range_sensing''"
| "capability_value CAP_PARAMETER_ACCESS = ''parameter_access''"
| "capability_value CAP_EMERGENCY_STOP = ''emergency_stop''"
| "capability_value CAP_TIME_PARAMETERIZED_TRAJECTORY = ''time_parameterized_trajectory''"

lemma capability_value_inj: "capability_value a = capability_value b \<longleftrightarrow> a = b"
  by (cases a; cases b) simp_all

instantiation vehicle_capability :: linorder
begin

definition less_eq_vehicle_capability :: "vehicle_capability \<Rightarrow> vehicle_capability \<Rightarrow> bool" where
  "less_eq_vehicle_capability a b \<longleftrightarrow> capability_value a \<le> capability_value b"

definition less_vehicle_capability :: "vehicle_capability \<Rightarrow> vehicle_capability \<Rightarrow> bool" where
  "less_vehicle_capability a b \<longleftrightarrow> capability_value a < capability_value b"

instance
  by standard
    (auto simp: less_eq_vehicle_capability_def less_vehicle_capability_def capability_value_inj
       intro: order_trans dest: antisym)

end

section \<open>Vectors\<close>

record vector3 =
  vx :: real
  vy :: real
  vz :: real

definition vec :: "real \<Rightarrow> real \<Rightarrow> real \<Rightarrow> vector3" where
  "vec a b c = \<lparr>vx = a, vy = b, vz = c\<rparr>"

lemma vec_sel [simp]: "vx (vec a b c) = a" "vy (vec a b c) = b" "vz (vec a b c) = c"
  by (simp_all add: vec_def)

text \<open>
  Euclidean distance as the fleet modules write it
  (\<open>math.sqrt((a.x - b.x) ** 2 + ...)\<close>).
\<close>

definition distance :: "vector3 \<Rightarrow> vector3 \<Rightarrow> real" where
  "distance a b = sqrt ((vx a - vx b) ^ 2 + (vy a - vy b) ^ 2 + (vz a - vz b) ^ 2)"

lemma distance_nonneg [simp]: "0 \<le> distance a b"
  by (simp add: distance_def)

lemma distance_commute: "distance a b = distance b a"
  by (simp add: distance_def power2_commute)

lemma coordinate_le_distance:
  "\<bar>vx a - vx b\<bar> \<le> distance a b" "\<bar>vy a - vy b\<bar> \<le> distance a b" "\<bar>vz a - vz b\<bar> \<le> distance a b"
  by (simp_all add: distance_def real_le_rsqrt)

text \<open>
  A square root of a rational is computed when it is rational, so that concrete distances evaluate.
\<close>

fun isqrt :: "nat \<Rightarrow> int \<Rightarrow> int" where
  "isqrt 0 n = 0"
| "isqrt (Suc k) n =
     (if n < 1 then 0
      else let r = 2 * isqrt k (n div 4) in if (r + 1) * (r + 1) \<le> n then r + 1 else r)"

definition int_root :: "int \<Rightarrow> int option" where
  "int_root n = (let a = isqrt 64 n in if 0 \<le> a \<and> a * a = n then Some a else None)"

definition rat_root :: "rat \<Rightarrow> rat option" where
  "rat_root r = (let (p, q) = quotient_of r in
     case int_root p of None \<Rightarrow> None | Some a \<Rightarrow>
       (case int_root q of None \<Rightarrow> None | Some b \<Rightarrow> Some (of_int a / of_int b)))"

lemma int_root_Some: "int_root n = Some a \<Longrightarrow> 0 \<le> a \<and> a * a = n"
  by (auto simp: int_root_def Let_def split: if_splits)

lemma rat_root_Some: "rat_root r = Some s \<Longrightarrow> 0 \<le> s \<and> s * s = r"
proof -
  assume "rat_root r = Some s"
  then obtain p q a b where pq: "quotient_of r = (p, q)" and ab: "int_root p = Some a" "int_root q = Some b"
    and s: "s = of_int a / of_int b"
    by (auto simp: rat_root_def split: prod.splits option.splits)
  from quotient_of_div [OF pq] have "r = of_int p / of_int q" .
  with int_root_Some [OF ab(1)] int_root_Some [OF ab(2)] s show ?thesis
    by (auto simp flip: of_int_mult)
qed

lemma sqrt_rational [code]:
  "sqrt (Ratreal r) = (case rat_root r of Some s \<Rightarrow> Ratreal s | None \<Rightarrow> sqrt (Ratreal r))"
proof (cases "rat_root r")
  case (Some s)
  from rat_root_Some [OF Some] have "0 \<le> s" "of_rat r = (of_rat s * of_rat s :: real)" by (auto simp: of_rat_mult)
  then show ?thesis using Some by (simp add: Ratreal_def)
qed simp

section \<open>Attitude, identity and backend profile\<close>

record euler_attitude =
  roll_rad :: real
  pitch_rad :: real
  att_yaw_rad :: real

record vehicle_identity =
  vid_vehicle_id :: string
  vid_display_name :: string
  vid_adapter :: string
  vid_radio_uri :: "string option"
  vid_firmware_version :: "string option"

definition valid_vehicle_identity :: "vehicle_identity \<Rightarrow> bool" where
  "valid_vehicle_identity i \<longleftrightarrow> valid_identifier (vid_vehicle_id i)
     \<and> 1 \<le> length (vid_display_name i) \<and> length (vid_display_name i) \<le> 120
     \<and> valid_identifier (vid_adapter i)"

record backend_profile =
  bk_role :: backend_role
  bk_authority :: authority_class
  bk_clock_policy :: source_clock_policy
  bk_command_completion :: command_completion_mode
  bk_supports_duration_aware_timeout :: bool
  bk_supports_source_clock_reset :: bool
  bk_supports_parameters :: bool
  bk_recommended_watchdog_period_s :: real

definition is_simulation :: "backend_profile \<Rightarrow> bool" where
  "is_simulation b \<longleftrightarrow> bk_authority b = SIMULATION"

definition is_physical :: "backend_profile \<Rightarrow> bool" where
  "is_physical b \<longleftrightarrow> bk_authority b = PHYSICAL"

section \<open>Decks and capabilities\<close>

datatype deck_type = DECK_FLOW | DECK_MULTIRANGER | DECK_LIGHTHOUSE | DECK_LOCO | DECK_AI | DECK_UNKNOWN

datatype health_status = HS_HEALTHY | HS_DEGRADED | HS_FAILED | HS_UNKNOWN

record deck_status =
  deck_type_of :: deck_type
  deck_name :: string
  deck_present :: bool
  deck_health :: health_status

record vehicle_capabilities =
  cap_features :: "vehicle_capability set"
  cap_decks :: "deck_status list"

definition supports :: "vehicle_capability set \<Rightarrow> vehicle_capability set \<Rightarrow> bool" where
  "supports features required = (required \<subseteq> features)"

end
