(* ===== verification/SafetyPolicy.thy ===== *)
theory SafetyPolicy
  imports Domain
begin

text \<open>
  The safety envelope: the vehicle life-cycle table of \<open>safety/state_machine.py\<close> and the policy of
  \<open>safety/policy.py\<close>. A \<open>safety_policy\<close> holds upper limits, lower limits and a flight volume;
  \<open>tighten\<close> applies a mission's override and refuses one that relaxes a limit. The lemmas show that
  an accepted override only shrinks the envelope, and what the life-cycle table can reach.
\<close>

section \<open>Vehicle life cycle\<close>

fun allowed_transitions :: "vehicle_state \<Rightarrow> vehicle_state set" where
  "allowed_transitions VS_DISCONNECTED = {VS_CONNECTING}"
| "allowed_transitions VS_CONNECTING = {VS_READY, VS_DISCONNECTED, VS_FAULT}"
| "allowed_transitions VS_READY =
     {VS_ARMING, VS_TAKING_OFF, VS_DISCONNECTED, VS_FAULT, VS_EMERGENCY}"
| "allowed_transitions VS_ARMING = {VS_READY, VS_FAULT, VS_EMERGENCY}"
| "allowed_transitions VS_TAKING_OFF =
     {VS_FLYING, VS_LANDING, VS_ABORTING, VS_FAULT, VS_EMERGENCY}"
| "allowed_transitions VS_FLYING =
     {VS_RETURNING, VS_LANDING, VS_ABORTING, VS_FAULT, VS_EMERGENCY}"
| "allowed_transitions VS_RETURNING =
     {VS_FLYING, VS_LANDING, VS_ABORTING, VS_FAULT, VS_EMERGENCY}"
| "allowed_transitions VS_LANDING = {VS_READY, VS_FAULT, VS_EMERGENCY}"
| "allowed_transitions VS_ABORTING = {VS_LANDING, VS_READY, VS_FAULT, VS_EMERGENCY}"
| "allowed_transitions VS_FAULT = {VS_READY, VS_DISCONNECTED, VS_EMERGENCY}"
| "allowed_transitions VS_EMERGENCY = {VS_DISCONNECTED}"

definition can_transition :: "vehicle_state \<Rightarrow> vehicle_state \<Rightarrow> bool" where
  "can_transition current target \<longleftrightarrow> current = target \<or> target \<in> allowed_transitions current"

definition require_transition :: "vehicle_state \<Rightarrow> vehicle_state \<Rightarrow> unit outcome" where
  "require_transition current target =
     (if \<not> can_transition current target
      then Inl (CrazySwarmError INVALID_STATE
        (''transition '' @ vehicle_state_value current @ '' -> '' @ vehicle_state_value target
           @ '' is not permitted''))
      else Inr ())"

section \<open>Flight volume and policy\<close>

record flight_volume =
  minimum_m :: vector3
  maximum_m :: vector3

definition valid_bounds :: "flight_volume \<Rightarrow> bool" where
  "valid_bounds v \<longleftrightarrow> vx (minimum_m v) < vx (maximum_m v) \<and> vy (minimum_m v) < vy (maximum_m v)
     \<and> vz (minimum_m v) < vz (maximum_m v)"

definition contains :: "flight_volume \<Rightarrow> vector3 \<Rightarrow> bool" where
  "contains v p \<longleftrightarrow>
     vx (minimum_m v) \<le> vx p \<and> vx p \<le> vx (maximum_m v) \<and>
     vy (minimum_m v) \<le> vy p \<and> vy p \<le> vy (maximum_m v) \<and>
     vz (minimum_m v) \<le> vz p \<and> vz p \<le> vz (maximum_m v)"

record safety_policy =
  max_altitude_m :: real
  max_horizontal_speed_m_s :: real
  max_vertical_speed_m_s :: real
  max_acceleration_m_s2 :: real
  max_yaw_rate_rad_s :: real
  max_mission_duration_s :: real
  command_timeout_s :: real
  telemetry_timeout_s :: real
  health_watchdog_period_s :: real
  control_lease_timeout_s :: real
  preflight_valid_s :: real
  minimum_takeoff_battery_percent :: real
  critical_battery_percent :: real
  minimum_link_quality_percent :: real
  minimum_localization_quality_percent :: real
  flight_volume :: flight_volume

record safety_policy_override =
  o_max_altitude_m :: "real option"
  o_max_horizontal_speed_m_s :: "real option"
  o_max_vertical_speed_m_s :: "real option"
  o_max_acceleration_m_s2 :: "real option"
  o_max_yaw_rate_rad_s :: "real option"
  o_max_mission_duration_s :: "real option"
  o_command_timeout_s :: "real option"
  o_telemetry_timeout_s :: "real option"
  o_health_watchdog_period_s :: "real option"
  o_control_lease_timeout_s :: "real option"
  o_preflight_valid_s :: "real option"
  o_minimum_takeoff_battery_percent :: "real option"
  o_critical_battery_percent :: "real option"
  o_minimum_link_quality_percent :: "real option"
  o_minimum_localization_quality_percent :: "real option"
  o_flight_volume :: "flight_volume option"

definition default_volume :: flight_volume where
  "default_volume = \<lparr>minimum_m = vec (-2) (-2) 0, maximum_m = vec 2 2 1\<rparr>"

definition default_policy :: safety_policy where
  "default_policy = \<lparr>
     max_altitude_m = 1,
     max_horizontal_speed_m_s = 1 / 2,
     max_vertical_speed_m_s = 3 / 10,
     max_acceleration_m_s2 = 1,
     max_yaw_rate_rad_s = 15707963268 / 10000000000,
     max_mission_duration_s = 300,
     command_timeout_s = 10,
     telemetry_timeout_s = 1,
     health_watchdog_period_s = 2 / 100,
     control_lease_timeout_s = 2,
     preflight_valid_s = 30,
     minimum_takeoff_battery_percent = 30,
     critical_battery_percent = 10,
     minimum_link_quality_percent = 70,
     minimum_localization_quality_percent = 60,
     flight_volume = default_volume\<rparr>"

definition percentage :: "real \<Rightarrow> bool" where
  "percentage p \<longleftrightarrow> 0 \<le> p \<and> p \<le> 100"

text \<open>The field constraints of \<open>SafetyPolicy\<close> and its validator \<open>thresholds_are_consistent\<close>.\<close>

definition policy_fields_ok :: "safety_policy \<Rightarrow> bool" where
  "policy_fields_ok p \<longleftrightarrow>
     0 < max_altitude_m p \<and> 0 < max_horizontal_speed_m_s p \<and> 0 < max_vertical_speed_m_s p \<and>
     0 < max_acceleration_m_s2 p \<and> 0 < max_yaw_rate_rad_s p \<and> 0 < max_mission_duration_s p \<and>
     0 < command_timeout_s p \<and> 0 < telemetry_timeout_s p \<and>
     0 < health_watchdog_period_s p \<and> health_watchdog_period_s p \<le> 1 \<and>
     0 < control_lease_timeout_s p \<and> 0 < preflight_valid_s p \<and>
     percentage (minimum_takeoff_battery_percent p) \<and> percentage (critical_battery_percent p) \<and>
     percentage (minimum_link_quality_percent p) \<and>
     percentage (minimum_localization_quality_percent p) \<and> valid_bounds (flight_volume p)"

definition thresholds_are_consistent :: "safety_policy \<Rightarrow> bool" where
  "thresholds_are_consistent p \<longleftrightarrow>
     \<not> critical_battery_percent p \<ge> minimum_takeoff_battery_percent p \<and>
     \<not> vz (maximum_m (flight_volume p)) > max_altitude_m p"

definition validate_policy :: "safety_policy \<Rightarrow> safety_policy outcome" where
  "validate_policy p =
     (if \<not> policy_fields_ok p then Inl (ValidationError ''SafetyPolicy field out of range'')
      else if critical_battery_percent p \<ge> minimum_takeoff_battery_percent p
        then Inl (ValidationError ''critical battery must be below takeoff battery minimum'')
      else if vz (maximum_m (flight_volume p)) > max_altitude_m p
        then Inl (ValidationError ''flight volume cannot exceed maximum altitude'')
      else Inr p)"

section \<open>Tightening\<close>

definition contains_volume :: "safety_policy \<Rightarrow> flight_volume \<Rightarrow> bool" where
  "contains_volume p candidate \<longleftrightarrow>
     contains (flight_volume p) (minimum_m candidate) \<and> contains (flight_volume p) (maximum_m candidate)"

definition above :: "real option \<Rightarrow> real \<Rightarrow> bool" where
  "above v limit = (case v of None \<Rightarrow> False | Some x \<Rightarrow> x > limit)"

definition below_limit :: "real option \<Rightarrow> real \<Rightarrow> bool" where
  "below_limit v limit = (case v of None \<Rightarrow> False | Some x \<Rightarrow> x < limit)"

definition relaxes_maximum :: "safety_policy \<Rightarrow> safety_policy_override \<Rightarrow> bool" where
  "relaxes_maximum p v \<longleftrightarrow>
     above (o_max_altitude_m v) (max_altitude_m p) \<or>
     above (o_max_horizontal_speed_m_s v) (max_horizontal_speed_m_s p) \<or>
     above (o_max_vertical_speed_m_s v) (max_vertical_speed_m_s p) \<or>
     above (o_max_acceleration_m_s2 v) (max_acceleration_m_s2 p) \<or>
     above (o_max_yaw_rate_rad_s v) (max_yaw_rate_rad_s p) \<or>
     above (o_max_mission_duration_s v) (max_mission_duration_s p) \<or>
     above (o_command_timeout_s v) (command_timeout_s p) \<or>
     above (o_telemetry_timeout_s v) (telemetry_timeout_s p) \<or>
     above (o_health_watchdog_period_s v) (health_watchdog_period_s p) \<or>
     above (o_control_lease_timeout_s v) (control_lease_timeout_s p) \<or>
     above (o_preflight_valid_s v) (preflight_valid_s p)"

definition relaxes_minimum :: "safety_policy \<Rightarrow> safety_policy_override \<Rightarrow> bool" where
  "relaxes_minimum p v \<longleftrightarrow>
     below_limit (o_minimum_takeoff_battery_percent v) (minimum_takeoff_battery_percent p) \<or>
     below_limit (o_critical_battery_percent v) (critical_battery_percent p) \<or>
     below_limit (o_minimum_link_quality_percent v) (minimum_link_quality_percent p) \<or>
     below_limit (o_minimum_localization_quality_percent v) (minimum_localization_quality_percent p)"

definition relaxes_volume :: "safety_policy \<Rightarrow> safety_policy_override \<Rightarrow> bool" where
  "relaxes_volume p v \<longleftrightarrow>
     (case o_flight_volume v of None \<Rightarrow> False | Some vol \<Rightarrow> \<not> contains_volume p vol)"

definition pick :: "'a option \<Rightarrow> 'a \<Rightarrow> 'a" where
  "pick v old = (case v of None \<Rightarrow> old | Some x \<Rightarrow> x)"

definition apply_updates :: "safety_policy \<Rightarrow> safety_policy_override \<Rightarrow> safety_policy" where
  "apply_updates p v = \<lparr>
     max_altitude_m = pick (o_max_altitude_m v) (max_altitude_m p),
     max_horizontal_speed_m_s = pick (o_max_horizontal_speed_m_s v) (max_horizontal_speed_m_s p),
     max_vertical_speed_m_s = pick (o_max_vertical_speed_m_s v) (max_vertical_speed_m_s p),
     max_acceleration_m_s2 = pick (o_max_acceleration_m_s2 v) (max_acceleration_m_s2 p),
     max_yaw_rate_rad_s = pick (o_max_yaw_rate_rad_s v) (max_yaw_rate_rad_s p),
     max_mission_duration_s = pick (o_max_mission_duration_s v) (max_mission_duration_s p),
     command_timeout_s = pick (o_command_timeout_s v) (command_timeout_s p),
     telemetry_timeout_s = pick (o_telemetry_timeout_s v) (telemetry_timeout_s p),
     health_watchdog_period_s = pick (o_health_watchdog_period_s v) (health_watchdog_period_s p),
     control_lease_timeout_s = pick (o_control_lease_timeout_s v) (control_lease_timeout_s p),
     preflight_valid_s = pick (o_preflight_valid_s v) (preflight_valid_s p),
     minimum_takeoff_battery_percent =
       pick (o_minimum_takeoff_battery_percent v) (minimum_takeoff_battery_percent p),
     critical_battery_percent = pick (o_critical_battery_percent v) (critical_battery_percent p),
     minimum_link_quality_percent =
       pick (o_minimum_link_quality_percent v) (minimum_link_quality_percent p),
     minimum_localization_quality_percent =
       pick (o_minimum_localization_quality_percent v) (minimum_localization_quality_percent p),
     flight_volume = pick (o_flight_volume v) (flight_volume p)\<rparr>"

definition tighten :: "safety_policy \<Rightarrow> safety_policy_override \<Rightarrow> safety_policy outcome" where
  "tighten p v =
     (if relaxes_maximum p v then Inl (ValueError ''override would relax the safety envelope'')
      else if relaxes_minimum p v then Inl (ValueError ''override would relax the safety envelope'')
      else if relaxes_volume p v
        then Inl (ValueError ''flight_volume override would relax the safety envelope'')
      else validate_policy (apply_updates p v))"

section \<open>The envelope order\<close>

text \<open>
  \<open>at_least_as_strict q p\<close>: every limit of \<open>q\<close> admits no more than the limit of \<open>p\<close>. This is the
  contract of \<open>tighten\<close>, stated without reference to how an override is written down.
\<close>

definition volume_within :: "flight_volume \<Rightarrow> flight_volume \<Rightarrow> bool" where
  "volume_within u v \<longleftrightarrow> (\<forall>p. contains u p \<longrightarrow> contains v p)"

definition at_least_as_strict :: "safety_policy \<Rightarrow> safety_policy \<Rightarrow> bool" where
  "at_least_as_strict q p \<longleftrightarrow>
     max_altitude_m q \<le> max_altitude_m p \<and>
     max_horizontal_speed_m_s q \<le> max_horizontal_speed_m_s p \<and>
     max_vertical_speed_m_s q \<le> max_vertical_speed_m_s p \<and>
     max_acceleration_m_s2 q \<le> max_acceleration_m_s2 p \<and>
     max_yaw_rate_rad_s q \<le> max_yaw_rate_rad_s p \<and>
     max_mission_duration_s q \<le> max_mission_duration_s p \<and>
     command_timeout_s q \<le> command_timeout_s p \<and>
     telemetry_timeout_s q \<le> telemetry_timeout_s p \<and>
     health_watchdog_period_s q \<le> health_watchdog_period_s p \<and>
     control_lease_timeout_s q \<le> control_lease_timeout_s p \<and>
     preflight_valid_s q \<le> preflight_valid_s p \<and>
     minimum_takeoff_battery_percent p \<le> minimum_takeoff_battery_percent q \<and>
     critical_battery_percent p \<le> critical_battery_percent q \<and>
     minimum_link_quality_percent p \<le> minimum_link_quality_percent q \<and>
     minimum_localization_quality_percent p \<le> minimum_localization_quality_percent q \<and>
     volume_within (flight_volume q) (flight_volume p)"

lemma volume_within_refl [simp]: "volume_within v v"
  by (simp add: volume_within_def)

lemma volume_within_trans: "volume_within u v \<Longrightarrow> volume_within v w \<Longrightarrow> volume_within u w"
  by (auto simp: volume_within_def)

lemma contains_volume_within: "contains_volume p vol \<Longrightarrow> volume_within vol (flight_volume p)"
  by (auto simp: contains_volume_def contains_def volume_within_def)

lemma at_least_as_strict_refl [simp]: "at_least_as_strict p p"
  by (simp add: at_least_as_strict_def)

lemma at_least_as_strict_trans:
  "at_least_as_strict r q \<Longrightarrow> at_least_as_strict q p \<Longrightarrow> at_least_as_strict r p"
  unfolding at_least_as_strict_def by (auto intro: order_trans volume_within_trans)

lemma pick_not_above: "pick v x \<le> x \<longleftrightarrow> \<not> above v x"
  by (auto simp: above_def pick_def split: option.splits)

lemma pick_not_below: "x \<le> pick v x \<longleftrightarrow> \<not> below_limit v x"
  by (auto simp: below_limit_def pick_def split: option.splits)

lemma pick_volume:
  "\<not> relaxes_volume p v \<Longrightarrow> volume_within (pick (o_flight_volume v) (flight_volume p)) (flight_volume p)"
  by (auto simp: relaxes_volume_def pick_def contains_volume_within split: option.splits)

lemma apply_updates_strict:
  assumes "\<not> relaxes_maximum p v" "\<not> relaxes_minimum p v" "\<not> relaxes_volume p v"
  shows "at_least_as_strict (apply_updates p v) p"
  using assms
  by (simp add: at_least_as_strict_def apply_updates_def relaxes_maximum_def relaxes_minimum_def
      pick_not_above pick_not_below pick_volume)

lemma validate_policy_Inr:
  "validate_policy p = Inr q \<longleftrightarrow> q = p \<and> policy_fields_ok p \<and> thresholds_are_consistent p"
  by (auto simp: validate_policy_def thresholds_are_consistent_def)

lemma tighten_Inr:
  "tighten p v = Inr q \<longleftrightarrow>
     \<not> relaxes_maximum p v \<and> \<not> relaxes_minimum p v \<and> \<not> relaxes_volume p v \<and>
     q = apply_updates p v \<and> policy_fields_ok q \<and> thresholds_are_consistent q"
  by (auto simp: tighten_def validate_policy_Inr)

definition no_override :: safety_policy_override where
  "no_override = \<lparr>o_max_altitude_m = None, o_max_horizontal_speed_m_s = None,
     o_max_vertical_speed_m_s = None, o_max_acceleration_m_s2 = None, o_max_yaw_rate_rad_s = None,
     o_max_mission_duration_s = None, o_command_timeout_s = None, o_telemetry_timeout_s = None,
     o_health_watchdog_period_s = None, o_control_lease_timeout_s = None,
     o_preflight_valid_s = None, o_minimum_takeoff_battery_percent = None,
     o_critical_battery_percent = None, o_minimum_link_quality_percent = None,
     o_minimum_localization_quality_percent = None, o_flight_volume = None\<rparr>"

lemmas tighten_defs = tighten_def validate_policy_def policy_fields_ok_def relaxes_maximum_def
  relaxes_minimum_def relaxes_volume_def apply_updates_def above_def below_limit_def pick_def
  percentage_def valid_bounds_def contains_volume_def contains_def default_policy_def
  default_volume_def no_override_def

section \<open>Properties\<close>

text \<open>
  C36. An override that \<open>tighten\<close> accepts yields a valid policy that is at least as strict as the
  global one in every field: upper limits do not rise, lower limits do not fall, and every point of
  the new flight volume lies in the old one.
\<close>

theorem tighten_only_tightens:
  assumes "tighten p v = Inr q"
  shows "at_least_as_strict q p \<and> policy_fields_ok q \<and> thresholds_are_consistent q"
  using assms by (auto simp: tighten_Inr intro: apply_updates_strict)

theorem tighten_only_tightens_witness:
  "at_least_as_strict (default_policy\<lparr>max_altitude_m := 1, max_horizontal_speed_m_s := 1 / 4\<rparr>)
     default_policy"
proof -
  have "tighten default_policy (no_override\<lparr>o_max_horizontal_speed_m_s := Some (1 / 4)\<rparr>)
      = Inr (default_policy\<lparr>max_altitude_m := 1, max_horizontal_speed_m_s := 1 / 4\<rparr>)"
    by (simp add: tighten_defs)
  from tighten_only_tightens [OF this] show ?thesis by blast
qed

text \<open>
  Every refusal of \<open>tighten\<close> is justified: if it raises, then some field of the override lies
  outside the envelope, or the updated policy violates the schema. So a valid, non-relaxing override
  is always accepted.
\<close>

theorem tighten_complete:
  assumes "at_least_as_strict (apply_updates p v) p"
    and "opt_all valid_bounds (o_flight_volume v)"
    and "policy_fields_ok (apply_updates p v)" "thresholds_are_consistent (apply_updates p v)"
  shows "tighten p v = Inr (apply_updates p v)"
proof -
  have "\<not> relaxes_volume p v"
  proof (cases "o_flight_volume v")
    case (Some vol)
    with assms(1) have "volume_within vol (flight_volume p)"
      by (simp add: at_least_as_strict_def apply_updates_def pick_def)
    moreover from Some assms(2) have "contains vol (minimum_m vol)" "contains vol (maximum_m vol)"
      by (auto simp: valid_bounds_def contains_def)
    ultimately show ?thesis using Some
      by (simp add: relaxes_volume_def contains_volume_def volume_within_def)
  qed (simp add: relaxes_volume_def)
  moreover have "\<not> relaxes_maximum p v" "\<not> relaxes_minimum p v"
    using assms(1)
    by (simp_all add: at_least_as_strict_def apply_updates_def relaxes_maximum_def
        relaxes_minimum_def pick_not_above pick_not_below)
  ultimately show ?thesis using assms(3,4) by (simp add: tighten_Inr)
qed

theorem tighten_complete_witness:
  "tighten default_policy no_override = Inr default_policy"
proof -
  have same: "apply_updates default_policy no_override = default_policy"
    by (simp add: apply_updates_def no_override_def pick_def)
  have "policy_fields_ok default_policy" "thresholds_are_consistent default_policy"
    by (simp_all add: policy_fields_ok_def thresholds_are_consistent_def default_policy_def
        default_volume_def percentage_def valid_bounds_def)
  with tighten_complete [of default_policy no_override] same show ?thesis
    by (simp add: no_override_def)
qed

text \<open>
  The life-cycle table: from every airborne state a landing, an abort and an emergency stop are
  permitted; the only state from which flight (\<open>FLYING\<close>) is entered on the way up is
  \<open>TAKING_OFF\<close>, which only \<open>READY\<close> enters; and an emergency stop is left only by disconnecting.
\<close>

theorem life_cycle_table:
  "(s \<in> {VS_TAKING_OFF, VS_FLYING, VS_RETURNING} \<longrightarrow>
      {VS_LANDING, VS_ABORTING, VS_FAULT, VS_EMERGENCY} \<subseteq> allowed_transitions s)
   \<and> (VS_FLYING \<in> allowed_transitions s \<longrightarrow> s \<in> {VS_TAKING_OFF, VS_RETURNING})
   \<and> (VS_RETURNING \<in> allowed_transitions s \<longrightarrow> s = VS_FLYING)
   \<and> (VS_TAKING_OFF \<in> allowed_transitions s \<longrightarrow> s = VS_READY)
   \<and> (VS_READY \<in> allowed_transitions s \<longrightarrow> s \<notin> {VS_FLYING, VS_TAKING_OFF, VS_RETURNING})
   \<and> (can_transition VS_EMERGENCY s \<longleftrightarrow> s \<in> {VS_EMERGENCY, VS_DISCONNECTED})"
  by (cases s) (simp_all add: can_transition_def)

theorem life_cycle_table_witness:
  "{VS_LANDING, VS_ABORTING, VS_FAULT, VS_EMERGENCY} \<subseteq> allowed_transitions VS_FLYING"
  using life_cycle_table [of VS_FLYING] by blast

end
