(* ===== verification/Artifacts.thy ===== *)
theory Artifacts
  imports Domain
begin

text \<open>
  The immutable fleet contracts of \<open>fleet/artifacts.py\<close>: deployment manifest, backend binding
  profile and fleet session identity, with the validators each constructor runs. A contract object
  that exists has passed its validator, so \<open>valid_deployment\<close> and \<open>valid_binding_profile\<close> are the
  facts other components may rely on. \<open>canonical_sha256\<close> over a whole contract (JSON plus SHA-256)
  is a parameter \<open>sha\<close>.
\<close>

section \<open>Contracts\<close>

text \<open>\<open>dict[str, Any]\<close> payloads are JSON values that the modelled code carries but never reads.\<close>

datatype json =
    JNull
  | JBool bool
  | JNum real
  | JStr string
  | JList "json list"
  | JObj "(string \<times> json) list"

datatype execution_backend = FAST_SIM | MOCK_ISAAC | ISAAC | CRAZYFLIE

datatype initial_fleet_role = ROLE_ACTIVE | ROLE_RESERVE | ROLE_UNASSIGNED

datatype fleet_failure_policy = CONTINUE_HEALTHY | HOLD_ALL | LAND_ALL

record zone_geometry =
  zg_minimum_m :: vector3
  zg_maximum_m :: vector3

definition bounds_are_ordered :: "zone_geometry \<Rightarrow> bool" where
  "bounds_are_ordered g \<longleftrightarrow> vx (zg_minimum_m g) < vx (zg_maximum_m g)
     \<and> vy (zg_minimum_m g) < vy (zg_maximum_m g) \<and> vz (zg_minimum_m g) \<le> vz (zg_maximum_m g)"

definition center_m :: "zone_geometry \<Rightarrow> vector3" where
  "center_m g = vec ((vx (zg_minimum_m g) + vx (zg_maximum_m g)) / 2)
     ((vy (zg_minimum_m g) + vy (zg_maximum_m g)) / 2)
     ((vz (zg_minimum_m g) + vz (zg_maximum_m g)) / 2)"

record zone_definition =
  zone_id :: string
  geometry :: zone_geometry

record fleet_member =
  fm_vehicle_id :: string
  fm_display_name :: string
  fm_home :: vector3
  fm_initial_role :: initial_fleet_role
  fm_required :: bool
  fm_required_capabilities :: "vehicle_capability set"

record task_definition =
  td_task_id :: string
  td_task_type :: string
  td_zone_id :: string
  td_priority :: int
  td_mission_id :: string
  td_mission_parameters :: "(string, json) dict"
  td_required_capabilities :: "vehicle_capability set"
  td_completion_progress_percent :: real
  td_estimated_duration_s :: real
  td_estimated_energy_percent :: real
  td_energy_margin_percent :: real

definition valid_task_definition :: "task_definition \<Rightarrow> bool" where
  "valid_task_definition d \<longleftrightarrow>
     valid_identifier (td_task_id d) \<and> valid_identifier (td_task_type d) \<and>
     valid_identifier (td_zone_id d) \<and> 0 \<le> td_priority d \<and> td_priority d \<le> 1000 \<and>
     valid_identifier (td_mission_id d) \<and>
     0 < td_completion_progress_percent d \<and> td_completion_progress_percent d \<le> 100 \<and>
     0 < td_estimated_duration_s d \<and>
     0 < td_estimated_energy_percent d \<and> td_estimated_energy_percent d \<le> 100 \<and>
     0 \<le> td_energy_margin_percent d \<and> td_energy_margin_percent d \<le> 100"

text \<open>The energy a vehicle must show before it may take the task.\<close>

definition required_energy :: "task_definition \<Rightarrow> real" where
  "required_energy d = td_estimated_energy_percent d + td_energy_margin_percent d"

record dock_definition =
  dd_dock_id :: string
  dd_capacity :: int
  dd_supported_charging_capability :: string
  dd_charge_rate_percent_per_min :: real

definition valid_dock_definition :: "dock_definition \<Rightarrow> bool" where
  "valid_dock_definition d \<longleftrightarrow> valid_identifier (dd_dock_id d) \<and> 1 \<le> dd_capacity d
     \<and> valid_identifier (dd_supported_charging_capability d) \<and> 0 < dd_charge_rate_percent_per_min d"

record fleet_constraints =
  warning_separation_m :: real
  critical_separation_m :: real
  observation_freshness_s :: real
  child_failure_policy :: fleet_failure_policy

definition valid_constraints :: "fleet_constraints \<Rightarrow> bool" where
  "valid_constraints c \<longleftrightarrow> 0 < warning_separation_m c \<and> 0 < critical_separation_m c
     \<and> 0 < observation_freshness_s c \<and> \<not> warning_separation_m c \<le> critical_separation_m c"

record completion_policy =
  require_all_tasks :: bool
  allow_partial_fleet :: bool

record deployment_manifest =
  deployment_id :: string
  fleet :: "fleet_member list"
  zones :: "zone_definition list"
  tasks :: "task_definition list"
  constraints :: fleet_constraints
  docks :: "dock_definition list"
  dm_completion_policy :: completion_policy

section \<open>Validators\<close>

definition require_unique :: "string list \<Rightarrow> string \<Rightarrow> unit outcome" where
  "require_unique values label =
     (if length values \<noteq> card (set values) then Inl (ValueError (label @ '' identities must be unique''))
      else Inr ())"

lemma require_unique_Inr [simp]: "require_unique xs l = Inr () \<longleftrightarrow> distinct xs"
  by (auto simp: require_unique_def distinct_card intro: card_distinct)

definition references_are_unique_and_complete :: "deployment_manifest \<Rightarrow> deployment_manifest outcome" where
  "references_are_unique_and_complete d =
     (case require_unique (map fm_vehicle_id (fleet d)) ''fleet vehicle'' of Inl e \<Rightarrow> Inl e | Inr _ \<Rightarrow>
      case require_unique (map zone_id (zones d)) ''zone'' of Inl e \<Rightarrow> Inl e | Inr _ \<Rightarrow>
      case require_unique (map td_task_id (tasks d)) ''task'' of Inl e \<Rightarrow> Inl e | Inr _ \<Rightarrow>
      case require_unique (map dd_dock_id (docks d)) ''dock'' of Inl e \<Rightarrow> Inl e | Inr _ \<Rightarrow>
      if fleet d = [] then Inl (ValueError ''deployment requires at least one fleet member'')
      else if \<not> set (map td_zone_id (tasks d)) \<subseteq> set (map zone_id (zones d))
        then Inl (ValueError ''tasks reference unknown zones'')
      else Inr d)"

definition valid_deployment :: "deployment_manifest \<Rightarrow> bool" where
  "valid_deployment d \<longleftrightarrow>
     references_are_unique_and_complete d = Inr d \<and> list_all valid_task_definition (tasks d) \<and>
     list_all (\<lambda>z. valid_identifier (zone_id z) \<and> bounds_are_ordered (geometry z)) (zones d) \<and>
     list_all (\<lambda>m. valid_identifier (fm_vehicle_id m)) (fleet d) \<and>
     list_all valid_dock_definition (docks d) \<and> valid_constraints (constraints d)"

definition required_vehicle_ids :: "deployment_manifest \<Rightarrow> string set" where
  "required_vehicle_ids d = set (map fm_vehicle_id (filter fm_required (fleet d)))"

definition deployment_member :: "string \<Rightarrow> deployment_manifest \<Rightarrow> fleet_member outcome" where
  "deployment_member vid d =
     (case find (\<lambda>m. fm_vehicle_id m = vid) (fleet d) of
        Some m \<Rightarrow> Inr m
      | None \<Rightarrow> Inl (CrazySwarmError IDENTITY_MISMATCH
          (''vehicle is not declared by deployment: '' @ vid)))"

section \<open>Backend bindings and session identity\<close>

record vehicle_binding =
  vb_vehicle_id :: string
  vb_backend_identifier :: string
  vb_expected_vehicle_id :: string
  vb_operator_selected :: bool

record binding_profile =
  binding_id :: string
  bp_backend :: execution_backend
  bp_vehicles :: "vehicle_binding list"
  bp_backend_options :: "(string, json) dict"

definition bindings_are_unique_and_not_crossed :: "binding_profile \<Rightarrow> binding_profile outcome" where
  "bindings_are_unique_and_not_crossed b =
     (case require_unique (map vb_vehicle_id (bp_vehicles b)) ''logical binding'' of
        Inl e \<Rightarrow> Inl e | Inr _ \<Rightarrow>
      case require_unique (map vb_backend_identifier (bp_vehicles b)) ''backend binding'' of
        Inl e \<Rightarrow> Inl e | Inr _ \<Rightarrow>
      if list_ex (\<lambda>v. vb_expected_vehicle_id v \<noteq> vb_vehicle_id v) (bp_vehicles b)
        then Inl (ValueError ''cross-bound vehicle identities are forbidden'')
      else if bp_backend b = CRAZYFLIE \<and> list_ex (\<lambda>v. \<not> vb_operator_selected v) (bp_vehicles b)
        then Inl (ValueError ''every physical binding must be selected explicitly by an operator'')
      else Inr b)"

definition valid_binding_profile :: "binding_profile \<Rightarrow> bool" where
  "valid_binding_profile b \<longleftrightarrow> bindings_are_unique_and_not_crossed b = Inr b"

definition validate_for :: "binding_profile \<Rightarrow> deployment_manifest \<Rightarrow> unit outcome" where
  "validate_for b d =
     (let declared = set (map fm_vehicle_id (fleet d));
          bound = set (map vb_vehicle_id (bp_vehicles b))
      in if \<not> required_vehicle_ids d \<subseteq> bound \<or> \<not> bound \<subseteq> declared
         then Inl (CrazySwarmError IDENTITY_MISMATCH
           ''binding profile does not match the deployment fleet'')
         else Inr ())"

definition profile_binding :: "string \<Rightarrow> binding_profile \<Rightarrow> vehicle_binding outcome" where
  "profile_binding vid b =
     (case find (\<lambda>v. vb_vehicle_id v = vid) (bp_vehicles b) of
        Some v \<Rightarrow> Inr v
      | None \<Rightarrow> Inl (CrazySwarmError IDENTITY_MISMATCH (''vehicle has no backend binding: '' @ vid)))"

record mission_artifact =
  ma_mission_id :: string
  ma_mission_version :: string
  ma_source_sha256 :: string

record session_identity =
  si_fleet_session_id :: string
  si_fleet_run_id :: string
  si_backend :: execution_backend
  si_mission_sha256 :: string
  si_deployment_sha256 :: string
  si_binding_sha256 :: string
  si_model_id :: string
  si_scenario_id :: string
  si_initial_state_sha256 :: string

text \<open>What \<open>canonical_sha256\<close> is applied to here.\<close>

datatype hashed =
    HMission mission_artifact
  | HDeployment deployment_manifest
  | HBinding binding_profile
  | HState json

definition valid_session_identity :: "session_identity \<Rightarrow> bool" where
  "valid_session_identity i \<longleftrightarrow>
     valid_identifier (si_fleet_session_id i) \<and> valid_identifier (si_fleet_run_id i) \<and>
     valid_sha256 (si_mission_sha256 i) \<and> valid_sha256 (si_deployment_sha256 i) \<and>
     valid_sha256 (si_binding_sha256 i) \<and> valid_identifier (si_model_id i) \<and>
     valid_identifier (si_scenario_id i) \<and> valid_sha256 (si_initial_state_sha256 i)"

definition session_create ::
  "(hashed \<Rightarrow> string) \<Rightarrow> string \<Rightarrow> string \<Rightarrow> execution_backend \<Rightarrow> mission_artifact \<Rightarrow>
   deployment_manifest \<Rightarrow> binding_profile \<Rightarrow> string \<Rightarrow> string \<Rightarrow> json \<Rightarrow> session_identity outcome" where
  "session_create sha sid rid backend mission d b model scenario initial =
     (case validate_for b d of Inl e \<Rightarrow> Inl e | Inr _ \<Rightarrow>
      if bp_backend b \<noteq> backend
        then Inl (CrazySwarmError IDENTITY_MISMATCH ''session backend mismatch'')
      else let i = \<lparr>si_fleet_session_id = sid, si_fleet_run_id = rid, si_backend = backend,
          si_mission_sha256 = sha (HMission mission), si_deployment_sha256 = sha (HDeployment d),
          si_binding_sha256 = sha (HBinding b), si_model_id = model, si_scenario_id = scenario,
          si_initial_state_sha256 = sha (HState initial)\<rparr>
        in if valid_session_identity i then Inr i
           else Inl (ValidationError ''FleetSessionIdentity''))"

section \<open>Facts the other components use\<close>

lemma valid_deployment_unique:
  assumes "valid_deployment d"
  shows "distinct (map fm_vehicle_id (fleet d))" "distinct (map zone_id (zones d))"
    "distinct (map td_task_id (tasks d))" "distinct (map dd_dock_id (docks d))" "fleet d \<noteq> []"
    "set (map td_zone_id (tasks d)) \<subseteq> set (map zone_id (zones d))"
  using assms
  by (auto simp: valid_deployment_def references_are_unique_and_complete_def require_unique_def
      intro: card_distinct split: sum.splits if_splits)

lemma valid_binding_profile_facts:
  assumes "valid_binding_profile b"
  shows "distinct (map vb_vehicle_id (bp_vehicles b))"
    "distinct (map vb_backend_identifier (bp_vehicles b))"
    "\<forall>v \<in> set (bp_vehicles b). vb_expected_vehicle_id v = vb_vehicle_id v"
    "bp_backend b = CRAZYFLIE \<longrightarrow> (\<forall>v \<in> set (bp_vehicles b). vb_operator_selected v)"
  using assms
  by (auto simp: valid_binding_profile_def bindings_are_unique_and_not_crossed_def
      require_unique_def list_ex_iff intro: card_distinct split: sum.splits if_splits)

lemma find_distinct_key:
  assumes "distinct (map k xs)" "x \<in> set xs"
  shows "find (\<lambda>y. k y = k x) xs = Some x"
  using assms
proof (induction xs)
  case (Cons a xs)
  then show ?case by (auto simp: image_iff)
qed simp

end
