(* ===== verification/TaskLedger.thy ===== *)
theory TaskLedger
  imports Artifacts
begin

text \<open>
  \<open>fleet/tasks.py\<close>: the ledger that owns task state, generation-numbered leases and atomic owner
  transfer. A method returns its outcome together with the ledger, because a method that raises may
  already have changed the ledger; \<open>time.monotonic()\<close> is read from the ledger's clock in the order
  the source reads it. Constructors of the pydantic models (\<open>TaskLease\<close>, \<open>TaskEvidenceEvent\<close>) check
  their field constraints; \<open>model_copy(update=...)\<close> does not.

  The second half holds the ledger invariant, its preservation by every method, the lease-fencing
  results and the correctness of evidence replay.
\<close>

section \<open>Data\<close>

datatype task_state =
    TS_DECLARED
  | TS_ASSIGNED
  | TS_IN_PROGRESS
  | TS_PAUSED
  | TS_RETRY_PENDING
  | TS_COMPLETED
  | TS_ABORTED

datatype task_decision = TD_COMPLETE | TD_RETRY | TD_REASSIGN | TD_ABORT

record task_lease =
  lease_session_id :: string
  lease_run_id :: string
  lease_deployment_sha256 :: string
  lease_task_id :: string
  lease_vehicle_id :: string
  generation :: int
  issued_at :: real
  expires_at :: real

record task_event =
  te_session_id :: string
  te_run_id :: string
  te_deployment_sha256 :: string
  te_sequence :: int
  te_task_id :: string
  te_event_type :: string
  te_state :: task_state
  te_timestamp :: real
  te_owner :: "string option"
  te_generation :: int
  te_progress :: real
  te_reason :: "string option"
  te_child_run :: "string option"

record task_record =
  definition_of :: task_definition
  tstate :: task_state
  owner :: "string option"
  lease :: "task_lease option"
  lease_generation :: int
  progress :: real
  attempts :: int
  decision :: "task_decision option"
  terminal_reason :: "string option"
  child_run :: "string option"
  events :: "task_event list"

record task_ledger =
  session_id :: string
  run_id :: string
  deployment_sha256 :: string
  lease_duration_s :: real
  records :: "(string, task_record) dict"
  event_sequence :: int
  ledger_clock :: clock

definition new_record :: "task_definition \<Rightarrow> task_record" where
  "new_record d = \<lparr>definition_of = d, tstate = TS_DECLARED, owner = None, lease = None,
     lease_generation = 0, progress = 0, attempts = 0, decision = None, terminal_reason = None,
     child_run = None, events = []\<rparr>"

definition valid_lease :: "task_lease \<Rightarrow> bool" where
  "valid_lease l \<longleftrightarrow> valid_identifier (lease_session_id l) \<and> valid_identifier (lease_run_id l) \<and>
     valid_sha256 (lease_deployment_sha256 l) \<and> valid_identifier (lease_task_id l) \<and>
     valid_identifier (lease_vehicle_id l) \<and> 1 \<le> generation l \<and> 0 \<le> issued_at l \<and> 0 < expires_at l"

definition valid_event :: "task_event \<Rightarrow> bool" where
  "valid_event e \<longleftrightarrow> valid_identifier (te_session_id e) \<and> valid_identifier (te_run_id e) \<and>
     valid_sha256 (te_deployment_sha256 e) \<and> 1 \<le> te_sequence e \<and> valid_identifier (te_task_id e) \<and>
     valid_identifier (te_event_type e) \<and> 0 \<le> te_timestamp e \<and>
     opt_all valid_identifier (te_owner e) \<and> 0 \<le> te_generation e \<and>
     0 \<le> te_progress e \<and> te_progress e \<le> 100 \<and> opt_all (\<lambda>r. length r \<le> 500) (te_reason e) \<and>
     opt_all valid_identifier (te_child_run e)"

section \<open>Methods\<close>

definition record_of :: "string \<Rightarrow> task_ledger \<Rightarrow> task_record outcome" where
  "record_of tid L =
     (case dict_get (records L) tid of
        Some r \<Rightarrow> Inr r
      | None \<Rightarrow> Inl (CrazySwarmError INVALID_COMMAND (''unknown fleet task: '' @ tid)))"

definition all_records :: "task_ledger \<Rightarrow> task_record list" where
  "all_records L = map (\<lambda>k. the (dict_get (records L) k)) (sort (dict_keys (records L)))"

abbreviation put_record :: "string \<Rightarrow> task_record \<Rightarrow> task_ledger \<Rightarrow> task_ledger" where
  "put_record tid r L \<equiv> L\<lparr>records := dict_set tid r (records L)\<rparr>"

definition ledger_now :: "real option \<Rightarrow> task_ledger \<Rightarrow> real \<times> task_ledger" where
  "ledger_now now_s L = (let (t, c) = clock_of now_s (ledger_clock L) in (t, L\<lparr>ledger_clock := c\<rparr>))"

text \<open>
  The event that \<open>_emit\<close> builds: the counter is advanced and the clock read before the model
  constructor validates the fields.
\<close>

definition stamp_event ::
  "string \<times> string \<times> string option \<Rightarrow> task_record \<Rightarrow> task_ledger \<Rightarrow> task_record outcome \<times> task_ledger" where
  "stamp_event i r L =
     (let (tid, event_type, reason) = i;
          L1 = L\<lparr>event_sequence := event_sequence L + 1\<rparr>;
          (t, L2) = ledger_now None L1;
          ev = \<lparr>te_session_id = session_id L, te_run_id = run_id L,
            te_deployment_sha256 = deployment_sha256 L, te_sequence = event_sequence L1,
            te_task_id = tid, te_event_type = event_type, te_state = tstate r, te_timestamp = t,
            te_owner = owner r, te_generation = lease_generation r, te_progress = progress r,
            te_reason = reason, te_child_run = child_run r\<rparr>
      in if valid_event ev then (Inr (r\<lparr>events := events r @ [ev]\<rparr>), L2)
         else (Inl (ValidationError ''TaskEvidenceEvent''), L2))"

definition emit ::
  "string \<Rightarrow> string \<Rightarrow> string option \<Rightarrow> task_ledger \<Rightarrow> task_record outcome \<times> task_ledger" where
  "emit tid event_type reason L =
     (case record_of tid L of
        Inl e \<Rightarrow> (Inl e, L)
      | Inr r \<Rightarrow>
          (case stamp_event (tid, event_type, reason) r L of
             (Inl e, L') \<Rightarrow> (Inl e, L')
           | (Inr u, L') \<Rightarrow> (Inr u, put_record tid u L')))"

fun declare_all :: "string list \<Rightarrow> task_ledger \<Rightarrow> unit outcome \<times> task_ledger" where
  "declare_all [] L = (Inr (), L)"
| "declare_all (tid # tids) L =
     (case emit tid ''TASK_DECLARED'' None L of
        (Inl e, L') \<Rightarrow> (Inl e, L')
      | (Inr _, L') \<Rightarrow> declare_all tids L')"

fun records_of_definitions ::
  "task_definition list \<Rightarrow> (string, task_record) dict \<Rightarrow> (string, task_record) dict" where
  "records_of_definitions [] d = d"
| "records_of_definitions (t # ts) d =
     records_of_definitions ts (dict_set (td_task_id t) (new_record t) d)"

definition init_ledger ::
  "string \<Rightarrow> string \<Rightarrow> string \<Rightarrow> task_definition list \<Rightarrow> real \<Rightarrow> clock \<Rightarrow> task_ledger outcome" where
  "init_ledger sid rid dsha defs duration c =
     (if duration \<le> 0 then Inl (ValueError ''task lease duration must be positive'')
      else let recs = records_of_definitions defs [] in
        if length recs \<noteq> length defs then Inl (ValueError ''task identities must be unique'')
        else let L = \<lparr>session_id = sid, run_id = rid, deployment_sha256 = dsha,
            lease_duration_s = duration, records = recs, event_sequence = 0, ledger_clock = c\<rparr>
          in (case declare_all (sort (dict_keys recs)) L of
                (Inl e, _) \<Rightarrow> Inl e
              | (Inr _, L') \<Rightarrow> Inr L'))"

definition make_lease :: "string \<Rightarrow> string \<Rightarrow> int \<Rightarrow> real \<Rightarrow> task_ledger \<Rightarrow> task_lease outcome" where
  "make_lease tid vid gen now L =
     (let l = \<lparr>lease_session_id = session_id L, lease_run_id = run_id L,
          lease_deployment_sha256 = deployment_sha256 L, lease_task_id = tid,
          lease_vehicle_id = vid, generation = gen, issued_at = now,
          expires_at = now + lease_duration_s L\<rparr>
      in if valid_lease l then Inr l else Inl (ValidationError ''TaskLease''))"

definition capability_error :: py_error where
  "capability_error =
     CrazySwarmError CAPABILITY_MISSING ''vehicle does not satisfy task capabilities''"

definition energy_error :: py_error where
  "energy_error =
     CrazySwarmError CRITICAL_BATTERY ''task assignment has inadequate observed energy margin''"

definition inadequate_energy :: "task_definition \<Rightarrow> real option \<Rightarrow> bool" where
  "inadequate_energy d battery =
     (case battery of None \<Rightarrow> True | Some b \<Rightarrow> b < required_energy d)"

definition assign ::
  "string \<Rightarrow> string \<Rightarrow> vehicle_capability set \<Rightarrow> real option \<Rightarrow> bool \<Rightarrow> real option \<Rightarrow>
   task_ledger \<Rightarrow> task_record outcome \<times> task_ledger" where
  "assign tid vid capabilities battery allow_inadequate now_s L =
     (case record_of tid L of
        Inl e \<Rightarrow> (Inl e, L)
      | Inr r \<Rightarrow>
          if tstate r \<notin> {TS_DECLARED, TS_RETRY_PENDING}
            then (Inl (CrazySwarmError INVALID_STATE ''task is not available for assignment''), L)
          else if \<not> td_required_capabilities (definition_of r) \<subseteq> capabilities
            then (Inl capability_error, L)
          else if inadequate_energy (definition_of r) battery \<and> \<not> allow_inadequate
            then (Inl energy_error, L)
          else let (now, L1) = ledger_now now_s L; gen = lease_generation r + 1 in
            (case make_lease tid vid gen now L1 of
               Inl e \<Rightarrow> (Inl e, L1)
             | Inr l \<Rightarrow>
                 emit tid ''TASK_ASSIGNED'' None
                   (put_record tid
                      (r\<lparr>tstate := TS_ASSIGNED, owner := Some vid, lease := Some l,
                         lease_generation := gen, attempts := attempts r + 1, decision := None,
                         terminal_reason := None\<rparr>) L1)))"

definition require_current_lease ::
  "string \<Rightarrow> string \<Rightarrow> int \<Rightarrow> real option \<Rightarrow> task_ledger \<Rightarrow> task_record outcome \<times> task_ledger" where
  "require_current_lease tid vid gen now_s L =
     (case record_of tid L of
        Inl e \<Rightarrow> (Inl e, L)
      | Inr r \<Rightarrow>
          let (now, L1) = ledger_now now_s L in
            (case lease r of
               None \<Rightarrow>
                 (Inl (CrazySwarmError MODE_NOT_AUTHORIZED ''current task ownership is required''), L1)
             | Some l \<Rightarrow>
                 if lease_vehicle_id l \<noteq> vid \<or> generation l \<noteq> gen \<or> owner r \<noteq> Some vid
                   then (Inl (CrazySwarmError MODE_NOT_AUTHORIZED
                          ''current task ownership is required''), L1)
                 else if expires_at l \<le> now
                   then (Inl (CrazySwarmError MODE_NOT_AUTHORIZED ''task lease has expired''), L1)
                 else (Inr r, L1)))"

definition start ::
  "string \<Rightarrow> string \<Rightarrow> string \<Rightarrow> int \<Rightarrow> real option \<Rightarrow> task_ledger \<Rightarrow> task_record outcome \<times> task_ledger" where
  "start tid vid child gen now_s L =
     (case require_current_lease tid vid gen now_s L of
        (Inl e, L1) \<Rightarrow> (Inl e, L1)
      | (Inr r, L1) \<Rightarrow>
          if tstate r \<noteq> TS_ASSIGNED
            then (Inl (CrazySwarmError INVALID_STATE ''only an assigned task can start''), L1)
          else emit tid ''TASK_STARTED'' None
            (put_record tid (r\<lparr>tstate := TS_IN_PROGRESS, child_run := Some child\<rparr>) L1))"

definition renew ::
  "string \<Rightarrow> string \<Rightarrow> int \<Rightarrow> real option \<Rightarrow> task_ledger \<Rightarrow> task_lease outcome \<times> task_ledger" where
  "renew tid vid gen now_s L =
     (let (now, L0) = ledger_now now_s L in
      case require_current_lease tid vid gen (Some now) L0 of
        (Inl e, L1) \<Rightarrow> (Inl e, L1)
      | (Inr r, L1) \<Rightarrow>
          (case lease r of
             None \<Rightarrow> (Inl AssertionError, L1)
           | Some l0 \<Rightarrow>
               let l = l0\<lparr>expires_at := now + lease_duration_s L1\<rparr> in
               (case emit tid ''TASK_LEASE_RENEWED'' None (put_record tid (r\<lparr>lease := Some l\<rparr>) L1) of
                  (Inl e, L2) \<Rightarrow> (Inl e, L2)
                | (Inr _, L2) \<Rightarrow> (Inr l, L2))))"

definition update_progress ::
  "string \<Rightarrow> string \<Rightarrow> int \<Rightarrow> real \<Rightarrow> real option \<Rightarrow> task_ledger \<Rightarrow> task_record outcome \<times> task_ledger" where
  "update_progress tid vid gen percent now_s L =
     (case require_current_lease tid vid gen now_s L of
        (Inl e, L1) \<Rightarrow> (Inl e, L1)
      | (Inr r, L1) \<Rightarrow>
          if tstate r \<noteq> TS_IN_PROGRESS
            then (Inl (CrazySwarmError INVALID_STATE ''task is not in progress''), L1)
          else if percent < progress r \<or> percent > 100
            then (Inl (CrazySwarmError INVALID_COMMAND ''task progress must be monotonic''), L1)
          else emit tid ''TASK_PROGRESS'' None (put_record tid (r\<lparr>progress := percent\<rparr>) L1))"

definition pause ::
  "string \<Rightarrow> string \<Rightarrow> int \<Rightarrow> string \<Rightarrow> real option \<Rightarrow> task_ledger \<Rightarrow> task_record outcome \<times> task_ledger" where
  "pause tid vid gen reason now_s L =
     (case require_current_lease tid vid gen now_s L of
        (Inl e, L1) \<Rightarrow> (Inl e, L1)
      | (Inr r, L1) \<Rightarrow>
          if tstate r \<noteq> TS_IN_PROGRESS
            then (Inl (CrazySwarmError INVALID_STATE ''task is not in progress''), L1)
          else emit tid ''TASK_PAUSED'' (Some reason) (put_record tid (r\<lparr>tstate := TS_PAUSED\<rparr>) L1))"

definition resume ::
  "string \<Rightarrow> string \<Rightarrow> int \<Rightarrow> real option \<Rightarrow> task_ledger \<Rightarrow> task_record outcome \<times> task_ledger" where
  "resume tid vid gen now_s L =
     (case require_current_lease tid vid gen now_s L of
        (Inl e, L1) \<Rightarrow> (Inl e, L1)
      | (Inr r, L1) \<Rightarrow>
          if tstate r \<noteq> TS_PAUSED
            then (Inl (CrazySwarmError INVALID_STATE ''task is not paused''), L1)
          else emit tid ''TASK_RESUMED'' None (put_record tid (r\<lparr>tstate := TS_IN_PROGRESS\<rparr>) L1))"

definition retry :: "string \<Rightarrow> string \<Rightarrow> task_ledger \<Rightarrow> task_record outcome \<times> task_ledger" where
  "retry tid reason L =
     (case record_of tid L of
        Inl e \<Rightarrow> (Inl e, L)
      | Inr r \<Rightarrow>
          if tstate r \<notin> {TS_ASSIGNED, TS_IN_PROGRESS, TS_PAUSED}
            then (Inl (CrazySwarmError INVALID_STATE ''task cannot enter retry''), L)
          else emit tid ''TASK_RETRY_PENDING'' (Some reason)
            (put_record tid
               (r\<lparr>tstate := TS_RETRY_PENDING, owner := None, lease := None,
                  decision := Some TD_RETRY, terminal_reason := Some reason,
                  child_run := None\<rparr>) L))"

definition reassign ::
  "string \<Rightarrow> string \<Rightarrow> vehicle_capability set \<Rightarrow> real option \<Rightarrow> string \<Rightarrow> real option \<Rightarrow>
   task_ledger \<Rightarrow> task_record outcome \<times> task_ledger" where
  "reassign tid vid capabilities battery reason now_s L =
     (case record_of tid L of
        Inl e \<Rightarrow> (Inl e, L)
      | Inr r \<Rightarrow>
          if tstate r \<in> {TS_COMPLETED, TS_ABORTED, TS_DECLARED}
            then (Inl (CrazySwarmError INVALID_STATE ''task cannot be reassigned''), L)
          else (case retry tid reason L of
              (Inl e, L1) \<Rightarrow> (Inl e, L1)
            | (Inr _, L1) \<Rightarrow>
                (case assign tid vid capabilities battery False now_s L1 of
                   (Inl e, L2) \<Rightarrow> (Inl e, L2)
                 | (Inr r2, L2) \<Rightarrow>
                     emit tid ''TASK_REASSIGNED'' (Some reason)
                       (put_record tid (r2\<lparr>decision := Some TD_REASSIGN\<rparr>) L2))))"

definition validate_assignment ::
  "task_record \<Rightarrow> vehicle_capability set \<Rightarrow> real option \<Rightarrow> unit outcome" where
  "validate_assignment r capabilities battery =
     (if \<not> td_required_capabilities (definition_of r) \<subseteq> capabilities then Inl capability_error
      else if inadequate_energy (definition_of r) battery then Inl energy_error
      else Inr ())"

definition transfer ::
  "string \<Rightarrow> string \<Rightarrow> string \<Rightarrow> int \<Rightarrow> vehicle_capability set \<Rightarrow> real option \<Rightarrow> string \<Rightarrow>
   real option \<Rightarrow> task_ledger \<Rightarrow> task_record outcome \<times> task_ledger" where
  "transfer tid outgoing incoming expected capabilities battery reason now_s L =
     (if outgoing = incoming
        then (Inl (CrazySwarmError INVALID_COMMAND ''handover requires a new owner''), L)
      else case require_current_lease tid outgoing expected now_s L of
        (Inl e, L1) \<Rightarrow> (Inl e, L1)
      | (Inr r, L1) \<Rightarrow>
          if tstate r \<notin> {TS_ASSIGNED, TS_IN_PROGRESS, TS_PAUSED}
            then (Inl (CrazySwarmError INVALID_STATE ''task cannot be transferred''), L1)
          else (case validate_assignment r capabilities battery of
              Inl e \<Rightarrow> (Inl e, L1)
            | Inr _ \<Rightarrow>
                let (now, L2) = ledger_now now_s L1; gen = lease_generation r + 1 in
                (case make_lease tid incoming gen now L2 of
                   Inl e \<Rightarrow> (Inl e, L2)
                 | Inr l \<Rightarrow>
                     emit tid ''TASK_OWNERSHIP_TRANSFERRED'' (Some reason)
                       (put_record tid
                          (r\<lparr>tstate := TS_ASSIGNED, owner := Some incoming, lease := Some l,
                             lease_generation := gen, attempts := attempts r + 1,
                             decision := Some TD_REASSIGN, terminal_reason := Some reason,
                             child_run := None\<rparr>) L2))))"

definition complete ::
  "string \<Rightarrow> string \<Rightarrow> int \<Rightarrow> string \<Rightarrow> real option \<Rightarrow> task_ledger \<Rightarrow> task_record outcome \<times> task_ledger" where
  "complete tid vid gen reason now_s L =
     (case require_current_lease tid vid gen now_s L of
        (Inl e, L1) \<Rightarrow> (Inl e, L1)
      | (Inr r, L1) \<Rightarrow>
          if tstate r \<noteq> TS_IN_PROGRESS
            then (Inl (CrazySwarmError INVALID_STATE ''task is not in progress''), L1)
          else if progress r < td_completion_progress_percent (definition_of r)
            then (Inl (CrazySwarmError INVALID_STATE ''task completion criteria are not satisfied''), L1)
          else emit tid ''TASK_COMPLETED'' (Some reason)
            (put_record tid
               (r\<lparr>tstate := TS_COMPLETED, lease := None, decision := Some TD_COMPLETE,
                  terminal_reason := Some reason\<rparr>) L1))"

definition abort :: "string \<Rightarrow> string \<Rightarrow> task_ledger \<Rightarrow> task_record outcome \<times> task_ledger" where
  "abort tid reason L =
     (case record_of tid L of
        Inl e \<Rightarrow> (Inl e, L)
      | Inr r \<Rightarrow>
          if tstate r \<in> {TS_COMPLETED, TS_ABORTED} then (Inr r, L)
          else emit tid ''TASK_ABORTED'' (Some reason)
            (put_record tid
               (r\<lparr>tstate := TS_ABORTED, lease := None, decision := Some TD_ABORT,
                  terminal_reason := Some reason\<rparr>) L))"

definition replay_decision :: "task_state \<Rightarrow> task_decision option" where
  "replay_decision s = (case s of
     TS_COMPLETED \<Rightarrow> Some TD_COMPLETE
   | TS_ABORTED \<Rightarrow> Some TD_ABORT
   | TS_RETRY_PENDING \<Rightarrow> Some TD_RETRY
   | _ \<Rightarrow> None)"

definition replay_task :: "task_definition \<Rightarrow> task_event list \<Rightarrow> task_record outcome" where
  "replay_task d evs =
     (if list_ex (\<lambda>e. te_task_id e \<noteq> td_task_id d) evs
        then Inl (CrazySwarmError IDENTITY_MISMATCH ''task evidence identity mismatch'')
      else let ordered = sort_key te_sequence evs in
        if ordered = [] then Inr (new_record d)
        else let latest = last ordered in
          Inr ((new_record d)\<lparr>tstate := te_state latest, owner := te_owner latest,
            lease_generation := te_generation latest, progress := te_progress latest,
            decision := replay_decision (te_state latest), terminal_reason := te_reason latest,
            child_run := te_child_run latest, events := ordered\<rparr>))"

section \<open>One call, seen from one record\<close>

text \<open>
  The abstract task machine. \<open>task_step L tid r r'\<close> is a permitted change of the record of task
  \<open>tid\<close>, apart from the evidence log; \<open>lease_for\<close> says that a lease was issued by this ledger. Every
  method of the ledger is a sequence of such changes (\<open>ledger_step_writes\<close> below), so the safety of
  the ledger is proved once, over the rules of \<open>task_step\<close>.
\<close>

definition active :: "task_state \<Rightarrow> bool" where
  "active s \<longleftrightarrow> s \<in> {TS_ASSIGNED, TS_IN_PROGRESS, TS_PAUSED}"

definition terminal :: "task_state \<Rightarrow> bool" where
  "terminal s \<longleftrightarrow> s \<in> {TS_COMPLETED, TS_ABORTED}"

definition lease_for :: "task_ledger \<Rightarrow> string \<Rightarrow> string \<Rightarrow> int \<Rightarrow> task_lease \<Rightarrow> bool" where
  "lease_for L tid vid gen l \<longleftrightarrow> lease_session_id l = session_id L \<and> lease_run_id l = run_id L \<and>
     lease_deployment_sha256 l = deployment_sha256 L \<and> lease_task_id l = tid \<and>
     lease_vehicle_id l = vid \<and> generation l = gen \<and> valid_identifier vid"

definition holds_lease :: "task_record \<Rightarrow> string \<Rightarrow> int \<Rightarrow> bool" where
  "holds_lease r vid gen \<longleftrightarrow>
     (\<exists>l. lease r = Some l \<and> lease_vehicle_id l = vid \<and> generation l = gen \<and> owner r = Some vid)"

inductive task_step :: "task_ledger \<Rightarrow> string \<Rightarrow> task_record \<Rightarrow> task_record \<Rightarrow> bool" for L tid where
  ts_assign: "tstate r \<in> {TS_DECLARED, TS_RETRY_PENDING} \<Longrightarrow>
     lease_for L tid vid (lease_generation r + 1) l \<Longrightarrow>
     task_step L tid r (r\<lparr>tstate := TS_ASSIGNED, owner := Some vid, lease := Some l,
       lease_generation := lease_generation r + 1, attempts := attempts r + 1, decision := None,
       terminal_reason := None\<rparr>)"
| ts_start: "tstate r = TS_ASSIGNED \<Longrightarrow>
     task_step L tid r (r\<lparr>tstate := TS_IN_PROGRESS, child_run := Some child\<rparr>)"
| ts_renew: "lease r = Some l \<Longrightarrow>
     task_step L tid r (r\<lparr>lease := Some (l\<lparr>expires_at := t\<rparr>)\<rparr>)"
| ts_progress: "tstate r = TS_IN_PROGRESS \<Longrightarrow> progress r \<le> p \<Longrightarrow> p \<le> 100 \<Longrightarrow>
     task_step L tid r (r\<lparr>progress := p\<rparr>)"
| ts_pause: "tstate r = TS_IN_PROGRESS \<Longrightarrow> task_step L tid r (r\<lparr>tstate := TS_PAUSED\<rparr>)"
| ts_resume: "tstate r = TS_PAUSED \<Longrightarrow> task_step L tid r (r\<lparr>tstate := TS_IN_PROGRESS\<rparr>)"
| ts_retry: "active (tstate r) \<Longrightarrow>
     task_step L tid r (r\<lparr>tstate := TS_RETRY_PENDING, owner := None, lease := None,
       decision := Some TD_RETRY, terminal_reason := Some reason, child_run := None\<rparr>)"
| ts_reassigned: "tstate r = TS_ASSIGNED \<Longrightarrow>
     task_step L tid r (r\<lparr>decision := Some TD_REASSIGN\<rparr>)"
| ts_transfer: "active (tstate r) \<Longrightarrow> lease_for L tid vid (lease_generation r + 1) l \<Longrightarrow>
     task_step L tid r (r\<lparr>tstate := TS_ASSIGNED, owner := Some vid, lease := Some l,
       lease_generation := lease_generation r + 1, attempts := attempts r + 1,
       decision := Some TD_REASSIGN, terminal_reason := Some reason, child_run := None\<rparr>)"
| ts_complete: "tstate r = TS_IN_PROGRESS \<Longrightarrow>
     td_completion_progress_percent (definition_of r) \<le> progress r \<Longrightarrow>
     task_step L tid r (r\<lparr>tstate := TS_COMPLETED, lease := None, decision := Some TD_COMPLETE,
       terminal_reason := Some reason\<rparr>)"
| ts_abort: "\<not> terminal (tstate r) \<Longrightarrow>
     task_step L tid r (r\<lparr>tstate := TS_ABORTED, lease := None, decision := Some TD_ABORT,
       terminal_reason := Some reason\<rparr>)"

text \<open>
  How a method leaves the ledger: \<open>quiet\<close>, only the clock has been read; or \<open>wrote\<close>, one record
  replaced and one event number used, with the event appended when it validated.
\<close>

definition quiet :: "task_ledger \<Rightarrow> task_ledger \<Rightarrow> bool" where
  "quiet L L' \<longleftrightarrow> (\<exists>c. L' = L\<lparr>ledger_clock := c\<rparr> \<and> readings c = readings (ledger_clock L))"

definition describes :: "task_event \<Rightarrow> task_record \<Rightarrow> bool" where
  "describes e r \<longleftrightarrow> te_state e = tstate r \<and> te_owner e = owner r \<and>
     te_generation e = lease_generation r \<and> te_progress e = progress r \<and> te_child_run e = child_run r"

definition wrote :: "task_ledger \<Rightarrow> string \<Rightarrow> task_record \<Rightarrow> task_record \<Rightarrow> task_ledger \<Rightarrow> bool" where
  "wrote L tid r u L' \<longleftrightarrow>
     (\<exists>c. readings c = readings (ledger_clock L) \<and>
        L' = L\<lparr>records := dict_set tid u (records L), event_sequence := event_sequence L + 1,
               ledger_clock := c\<rparr>) \<and>
     (u = r \<or> (\<exists>e. u = r\<lparr>events := events r @ [e]\<rparr> \<and> describes e r \<and>
        te_sequence e = event_sequence L + 1 \<and> te_task_id e = tid))"

lemma quiet_refl [simp, intro]: "quiet L L"
  by (auto simp: quiet_def intro: exI [of _ "ledger_clock L"])

lemma quiet_trans: "quiet L L' \<Longrightarrow> quiet L' L'' \<Longrightarrow> quiet L L''"
  by (auto simp: quiet_def)

lemma quiet_simps:
  "quiet L L' \<Longrightarrow> records L' = records L"
  "quiet L L' \<Longrightarrow> session_id L' = session_id L"
  "quiet L L' \<Longrightarrow> run_id L' = run_id L"
  "quiet L L' \<Longrightarrow> deployment_sha256 L' = deployment_sha256 L"
  "quiet L L' \<Longrightarrow> lease_duration_s L' = lease_duration_s L"
  "quiet L L' \<Longrightarrow> event_sequence L' = event_sequence L"
  by (auto simp: quiet_def)

lemma quiet_record_of: "quiet L L' \<Longrightarrow> record_of tid L' = record_of tid L"
  by (auto simp: quiet_def record_of_def)

lemma quiet_lease_for: "quiet L L' \<Longrightarrow> lease_for L' tid vid gen l = lease_for L tid vid gen l"
  by (auto simp: quiet_def lease_for_def)

lemma ledger_now_quiet: "ledger_now n L = (t, L') \<Longrightarrow> quiet L L'"
  by (auto simp: ledger_now_def quiet_def split: prod.splits)
    (metis clock_of_simps(3) snd_conv)

lemma record_of_Inr [simp]: "record_of tid L = Inr r \<longleftrightarrow> dict_get (records L) tid = Some r"
  by (simp add: record_of_def split: option.splits)

lemma record_of_Some [simp]: "dict_get (records L) tid = Some r \<Longrightarrow> record_of tid L = Inr r"
  by simp

lemma require_current_lease_quiet:
  "require_current_lease tid vid gen n L = (res, L') \<Longrightarrow> quiet L L'"
  by (auto simp: require_current_lease_def dest: ledger_now_quiet
      split: sum.splits prod.splits option.splits if_splits)

lemma require_current_lease_Inr:
  assumes "require_current_lease tid vid gen n L = (Inr r, L')"
  shows "dict_get (records L) tid = Some r \<and> holds_lease r vid gen \<and> quiet L L'"
  using assms
  by (auto simp: require_current_lease_def holds_lease_def dest: ledger_now_quiet
      split: sum.splits prod.splits option.splits if_splits)

lemma make_lease_Inr:
  "make_lease tid vid gen now L = Inr l \<Longrightarrow> lease_for L tid vid gen l"
  by (auto simp: make_lease_def lease_for_def valid_lease_def Let_def split: if_splits)

subsection \<open>The evidence log of the ledger\<close>

lemma stamp_event_cases:
  obtains e L1 where
    "stamp_event (tid, et, reason) r L
       = (if valid_event e then Inr (r\<lparr>events := events r @ [e]\<rparr>) else Inl (ValidationError ''TaskEvidenceEvent''), L1)"
    "quiet (L\<lparr>event_sequence := event_sequence L + 1\<rparr>) L1" "describes e r"
    "te_sequence e = event_sequence L + 1" "te_task_id e = tid" "te_reason e = reason"
    "te_event_type e = et" "te_session_id e = session_id L" "te_run_id e = run_id L"
    "te_deployment_sha256 e = deployment_sha256 L"
    "te_timestamp e = readings (ledger_clock L) (reads (ledger_clock L))"
proof -
  obtain t L1 where now: "ledger_now None (L\<lparr>event_sequence := event_sequence L + 1\<rparr>) = (t, L1)"
    by (cases "ledger_now None (L\<lparr>event_sequence := event_sequence L + 1\<rparr>)")
  then have t: "t = readings (ledger_clock L) (reads (ledger_clock L))"
    by (auto simp: ledger_now_def monotonic_def)
  show thesis
    by (rule that [of "\<lparr>te_session_id = session_id L, te_run_id = run_id L,
            te_deployment_sha256 = deployment_sha256 L, te_sequence = event_sequence L + 1,
            te_task_id = tid, te_event_type = et, te_state = tstate r, te_timestamp = t,
            te_owner = owner r, te_generation = lease_generation r, te_progress = progress r,
            te_reason = reason, te_child_run = child_run r\<rparr>" L1])
      (simp_all add: stamp_event_def now t describes_def ledger_now_quiet [OF now])
qed

interpretation task_log: numbered_log stamp_event events te_sequence event_sequence
proof
  fix i :: "string \<times> string \<times> string option" and r L
  obtain tid et reason where i: "i = (tid, et, reason)" by (cases i)
  show "event_sequence (snd (stamp_event i r L)) = event_sequence L + 1"
    unfolding i by (rule stamp_event_cases [of tid et reason r L]) (auto simp: quiet_simps)
next
  fix i :: "string \<times> string \<times> string option" and r L r' L'
  assume "stamp_event i r L = (Inr r', L')"
  moreover obtain tid et reason where i: "i = (tid, et, reason)" by (cases i)
  ultimately show "\<exists>e. events r' = events r @ [e] \<and> te_sequence e = event_sequence L + 1"
    unfolding i by (cases rule: stamp_event_cases [of tid et reason r L]) (auto split: if_splits)
qed

lemma emit_wrote:
  assumes "quiet L L1" "emit tid et reason (put_record tid r L1) = (res, L')"
  shows "\<exists>u. wrote L tid r u L' \<and>
    (case res of Inl _ \<Rightarrow> u = r | Inr v \<Rightarrow> v = u \<and> events u \<noteq> [] \<and> describes (last (events u)) u
       \<and> te_reason (last (events u)) = reason)"
proof -
  obtain e L2 where st: "stamp_event (tid, et, reason) r (put_record tid r L1)
       = (if valid_event e then Inr (r\<lparr>events := events r @ [e]\<rparr>) else Inl (ValidationError ''TaskEvidenceEvent''), L2)"
    and q: "quiet ((put_record tid r L1)\<lparr>event_sequence := event_sequence L1 + 1\<rparr>) L2"
    and e: "describes e r" "te_sequence e = event_sequence L1 + 1" "te_task_id e = tid"
      "te_reason e = reason"
    by (rule stamp_event_cases [of tid et reason r "put_record tid r L1"]) simp
  from assms(1) obtain c where c: "L1 = L\<lparr>ledger_clock := c\<rparr>" "readings c = readings (ledger_clock L)"
    by (auto simp: quiet_def)
  from q c obtain c2 where c2: "readings c2 = readings (ledger_clock L)"
    "L2 = L\<lparr>records := dict_set tid r (records L), event_sequence := event_sequence L + 1,
            ledger_clock := c2\<rparr>"
    by (auto simp: quiet_def)
  show ?thesis
  proof (cases "valid_event e")
    case True
    let ?u = "r\<lparr>events := events r @ [e]\<rparr>"
    from True st assms(2) have res: "res = Inr ?u" "L' = put_record tid ?u L2"
      by (simp_all add: emit_def record_of_def)
    have "wrote L tid r ?u L'"
      unfolding wrote_def using c c2 e res by (auto intro!: exI [of _ c2])
    with res e show ?thesis by (intro exI [of _ ?u]) (simp add: describes_def)
  next
    case False
    with st assms(2) have "res = Inl (ValidationError ''TaskEvidenceEvent'')" "L' = L2"
      by (simp_all add: emit_def record_of_def)
    with c2 show ?thesis by (auto simp: wrote_def)
  qed
qed

subsection \<open>Every method is a sequence of permitted record changes\<close>

definition ledger_write :: "task_ledger \<Rightarrow> task_ledger \<Rightarrow> bool" where
  "ledger_write L L' \<longleftrightarrow> quiet L L' \<or>
     (\<exists>tid r r1 u. dict_get (records L) tid = Some r \<and> task_step L tid r r1 \<and> wrote L tid r1 u L')"

lemma write_quiet [intro]: "quiet L L' \<Longrightarrow> ledger_write L L'"
  by (simp add: ledger_write_def)

lemma write_emit:
  assumes "dict_get (records L) tid = Some r" "task_step L tid r r1" "quiet L L1"
    "emit tid et reason (put_record tid r1 L1) = (res, L')"
  shows "ledger_write L L'"
  using emit_wrote [OF assms(3,4)] assms(1,2) by (auto simp: ledger_write_def)

lemma assign_write:
  assumes "assign tid vid capabilities battery allow now_s L = (res, L')"
  shows "ledger_write L L'"
proof (cases "record_of tid L")
  case (Inr r)
  obtain now L1 where now: "ledger_now now_s L = (now, L1)" by (cases "ledger_now now_s L")
  have q: "quiet L L1" by (rule ledger_now_quiet [OF now])
  show ?thesis
  proof (cases "make_lease tid vid (lease_generation r + 1) now L1")
    case (Inl e)
    with Inr assms now q show ?thesis by (auto simp: assign_def split: if_splits)
  next
    case (Inr l)
    have "lease_for L tid vid (lease_generation r + 1) l"
      using make_lease_Inr [OF Inr] quiet_lease_for [OF q] by simp
    with Inr \<open>record_of tid L = Inr r\<close> assms now q show ?thesis
      by (auto simp: assign_def split: if_splits intro: write_emit task_step.intros)
  qed
qed (use assms in \<open>auto simp: assign_def\<close>)

lemma guarded_write:
  assumes "require_current_lease tid vid gen now_s L = (res0, L1)"
    and "\<And>e. res0 = Inl e \<Longrightarrow> L' = L1"
    and "\<And>r. res0 = Inr r \<Longrightarrow> dict_get (records L) tid = Some r \<Longrightarrow> holds_lease r vid gen \<Longrightarrow>
      quiet L L1 \<Longrightarrow> ledger_write L L'"
  shows "ledger_write L L'"
proof (cases res0)
  case (Inl e)
  with assms(1,2) require_current_lease_quiet show ?thesis by blast
next
  case (Inr r)
  with assms(1) require_current_lease_Inr assms(3) show ?thesis by blast
qed

lemma start_write: "start tid vid child gen now_s L = (res, L') \<Longrightarrow> ledger_write L L'"
  by (cases "require_current_lease tid vid gen now_s L", rule guarded_write, assumption)
    (auto simp: start_def split: if_splits intro: write_emit task_step.intros)

lemma update_progress_write:
  "update_progress tid vid gen percent now_s L = (res, L') \<Longrightarrow> ledger_write L L'"
  by (cases "require_current_lease tid vid gen now_s L", rule guarded_write, assumption)
    (auto simp: update_progress_def not_less split: if_splits intro: write_emit ts_progress)

lemma pause_write: "pause tid vid gen reason now_s L = (res, L') \<Longrightarrow> ledger_write L L'"
  by (cases "require_current_lease tid vid gen now_s L", rule guarded_write, assumption)
    (auto simp: pause_def split: if_splits intro: write_emit ts_pause)

lemma resume_write: "resume tid vid gen now_s L = (res, L') \<Longrightarrow> ledger_write L L'"
  by (cases "require_current_lease tid vid gen now_s L", rule guarded_write, assumption)
    (auto simp: resume_def split: if_splits intro: write_emit ts_resume)

lemma complete_write: "complete tid vid gen reason now_s L = (res, L') \<Longrightarrow> ledger_write L L'"
  by (cases "require_current_lease tid vid gen now_s L", rule guarded_write, assumption)
    (auto simp: complete_def not_less split: if_splits intro: write_emit ts_complete)

lemma renew_write:
  assumes "renew tid vid gen now_s L = (res, L')"
  shows "ledger_write L L'"
proof -
  obtain now L0 where now: "ledger_now now_s L = (now, L0)" by (cases "ledger_now now_s L")
  note q = ledger_now_quiet [OF now]
  obtain res1 L1 where rq: "require_current_lease tid vid gen (Some now) L0 = (res1, L1)" by fastforce
  note q1 = quiet_trans [OF q require_current_lease_quiet [OF rq]]
  show ?thesis
  proof (cases res1)
    case (Inr r)
    from require_current_lease_Inr [of tid vid gen "Some now" L0 r L1] rq Inr obtain l where
      r: "dict_get (records L) tid = Some r" "lease r = Some l"
      by (auto simp: holds_lease_def quiet_simps [OF q])
    from assms now rq Inr r obtain res2 where
      "emit tid ''TASK_LEASE_RENEWED'' None
         (put_record tid (r\<lparr>lease := Some (l\<lparr>expires_at := now + lease_duration_s L1\<rparr>)\<rparr>) L1) = (res2, L')"
      by (auto simp: renew_def Let_def split: prod.splits sum.splits)
    from write_emit [OF r(1) ts_renew [OF r(2)] q1 this] show ?thesis .
  qed (use assms now rq q1 in \<open>auto simp: renew_def\<close>)
qed

lemma retry_write: "retry tid reason L = (res, L') \<Longrightarrow> ledger_write L L'"
  by (auto simp: retry_def active_def split: sum.splits if_splits
      intro: write_emit [OF _ ts_retry quiet_refl])

lemma abort_write: "abort tid reason L = (res, L') \<Longrightarrow> ledger_write L L'"
  by (auto simp: abort_def terminal_def split: sum.splits if_splits
      intro: write_emit [OF _ ts_abort quiet_refl])

lemma transfer_write:
  assumes "transfer tid outgoing incoming expected capabilities battery reason now_s L = (res, L')"
  shows "ledger_write L L'"
proof (cases "outgoing = incoming")
  case False
  obtain res1 L1 where rq: "require_current_lease tid outgoing expected now_s L = (res1, L1)"
    by fastforce
  obtain now L2 where now: "ledger_now now_s L1 = (now, L2)" by (cases "ledger_now now_s L1")
  note q1 = require_current_lease_quiet [OF rq]
  note q2 = quiet_trans [OF q1 ledger_now_quiet [OF now]]
  show ?thesis
  proof (cases res1)
    case (Inr r)
    from require_current_lease_Inr rq Inr have r: "dict_get (records L) tid = Some r" by blast
    show ?thesis
    proof (cases "make_lease tid incoming (lease_generation r + 1) now L2")
      case (Inl e)
      with False assms rq now q1 q2 \<open>res1 = Inr r\<close> show ?thesis
        by (auto simp: transfer_def split: if_splits sum.splits)
    next
      case (Inr l)
      have "lease_for L tid incoming (lease_generation r + 1) l"
        using make_lease_Inr [OF Inr] quiet_lease_for [OF q2] by simp
      with Inr False assms rq now q1 q2 \<open>res1 = Inr r\<close> r show ?thesis
        by (auto simp: transfer_def active_def split: if_splits sum.splits
            intro: write_emit [OF _ ts_transfer])
    qed
  qed (use False assms rq q1 in \<open>auto simp: transfer_def\<close>)
qed (use assms in \<open>auto simp: transfer_def\<close>)

lemma assign_Inr_record:
  assumes "assign tid vid capabilities battery allow now_s L = (Inr r, L')"
  shows "dict_get (records L') tid = Some r \<and> tstate r = TS_ASSIGNED \<and> owner r = Some vid"
proof -
  obtain now L1 where now: "ledger_now now_s L = (now, L1)" by (cases "ledger_now now_s L")
  with assms obtain r0 et reason where w: "emit tid et reason (put_record tid r0 L1) = (Inr r, L')"
    "tstate r0 = TS_ASSIGNED" "owner r0 = Some vid"
    by (auto simp: assign_def Let_def split: sum.splits if_splits)
  from emit_wrote [OF quiet_refl w(1)] w(2,3) show ?thesis by (auto simp: wrote_def)
qed

lemma reassign_write:
  assumes "reassign tid vid capabilities battery reason now_s L = (res, L')"
  shows "ledger_write\<^sup>*\<^sup>* L L'"
proof -
  obtain res1 L1 where r1: "retry tid reason L = (res1, L1)" by fastforce
  obtain res2 L2 where r2: "assign tid vid capabilities battery False now_s L1 = (res2, L2)"
    by fastforce
  note w = retry_write [OF r1] assign_write [OF r2]
  show ?thesis
  proof (cases "\<exists>r v. record_of tid L = Inr r \<and> tstate r \<notin> {TS_COMPLETED, TS_ABORTED, TS_DECLARED}
      \<and> res1 = Inr v")
    case True
    show ?thesis
    proof (cases res2)
      case (Inl e)
      with True assms r1 r2 have "L' = L2" by (auto simp: reassign_def split: if_splits)
      with w show ?thesis by (auto intro: rtranclp.intros)
    next
      case (Inr r)
      with True assms r1 r2 have
        "emit tid ''TASK_REASSIGNED'' (Some reason) (put_record tid (r\<lparr>decision := Some TD_REASSIGN\<rparr>) L2)
           = (res, L')"
        by (auto simp: reassign_def split: if_splits)
      moreover have "dict_get (records L2) tid = Some r" "tstate r = TS_ASSIGNED"
        using assign_Inr_record r2 Inr by auto
      ultimately have "ledger_write L2 L'"
        by (blast intro: write_emit [OF _ ts_reassigned quiet_refl])
      with w show ?thesis by (meson converse_rtranclp_into_rtranclp r_into_rtranclp)
    qed
  next
    case False
    with assms r1 have "L' = L \<or> L' = L1"
      by (auto simp: reassign_def split: sum.splits if_splits)
    with w(1) show ?thesis by auto
  qed
qed

text \<open>
  One call of a public method: \<open>ledger_call L ok L'\<close> relates the ledger before and after, and \<open>ok\<close>
  says whether the method returned (rather than raised). The environment chooses the method and its
  arguments.
\<close>

inductive ledger_call :: "task_ledger \<Rightarrow> bool \<Rightarrow> task_ledger \<Rightarrow> bool" where
  call_assign: "assign tid vid caps battery allow now_s L = (res, L') \<Longrightarrow> ledger_call L (\<not> isl res) L'"
| call_start: "start tid vid child gen now_s L = (res, L') \<Longrightarrow> ledger_call L (\<not> isl res) L'"
| call_renew: "renew tid vid gen now_s L = (lres, L') \<Longrightarrow> ledger_call L (\<not> isl lres) L'"
| call_progress: "update_progress tid vid gen percent now_s L = (res, L') \<Longrightarrow>
     ledger_call L (\<not> isl res) L'"
| call_pause: "pause tid vid gen reason now_s L = (res, L') \<Longrightarrow> ledger_call L (\<not> isl res) L'"
| call_resume: "resume tid vid gen now_s L = (res, L') \<Longrightarrow> ledger_call L (\<not> isl res) L'"
| call_retry: "retry tid reason L = (res, L') \<Longrightarrow> ledger_call L (\<not> isl res) L'"
| call_reassign: "reassign tid vid caps battery reason now_s L = (res, L') \<Longrightarrow>
     ledger_call L (\<not> isl res) L'"
| call_transfer: "transfer tid vid vid' gen caps battery reason now_s L = (res, L') \<Longrightarrow>
     ledger_call L (\<not> isl res) L'"
| call_complete: "complete tid vid gen reason now_s L = (res, L') \<Longrightarrow> ledger_call L (\<not> isl res) L'"
| call_abort: "abort tid reason L = (res, L') \<Longrightarrow> ledger_call L (\<not> isl res) L'"

definition ledger_step :: "task_ledger \<Rightarrow> task_ledger \<Rightarrow> bool" where
  "ledger_step L L' \<longleftrightarrow> (\<exists>ok. ledger_call L ok L')"

lemmas method_writes = assign_write start_write renew_write update_progress_write pause_write
  resume_write retry_write transfer_write complete_write abort_write

lemma ledger_call_writes: "ledger_call L ok L' \<Longrightarrow> ledger_write\<^sup>*\<^sup>* L L'"
  by (induction rule: ledger_call.induct) (auto intro: method_writes r_into_rtranclp reassign_write)

lemma ledger_step_writes: "ledger_step L L' \<Longrightarrow> ledger_write\<^sup>*\<^sup>* L L'"
  by (auto simp: ledger_step_def dest: ledger_call_writes)

section \<open>The ledger invariant\<close>

definition record_inv :: "task_ledger \<Rightarrow> string \<Rightarrow> task_record \<Rightarrow> bool" where
  "record_inv L tid r \<longleftrightarrow>
     td_task_id (definition_of r) = tid \<and>
     0 \<le> lease_generation r \<and> attempts r = lease_generation r \<and>
     0 \<le> progress r \<and> progress r \<le> 100 \<and>
     (lease r \<noteq> None \<longleftrightarrow> active (tstate r)) \<and>
     (\<forall>l. lease r = Some l \<longrightarrow>
        (\<exists>vid. owner r = Some vid \<and> lease_for L tid vid (lease_generation r) l)) \<and>
     (tstate r = TS_COMPLETED \<longrightarrow> td_completion_progress_percent (definition_of r) \<le> progress r) \<and>
     opt_all valid_identifier (owner r)"

definition log_inv :: "task_ledger \<Rightarrow> string \<Rightarrow> task_record \<Rightarrow> bool" where
  "log_inv L tid r \<longleftrightarrow> log_ok te_sequence (event_sequence L) (events r) \<and>
     (\<forall>e \<in> set (events r). te_task_id e = tid)"

definition numbers_unique :: "task_ledger \<Rightarrow> bool" where
  "numbers_unique L \<longleftrightarrow> (\<forall>tid tid' r r'. dict_get (records L) tid = Some r \<longrightarrow>
     dict_get (records L) tid' = Some r' \<longrightarrow> tid \<noteq> tid' \<longrightarrow>
     te_sequence ` set (events r) \<inter> te_sequence ` set (events r') = {})"

definition ledger_inv :: "task_ledger \<Rightarrow> bool" where
  "ledger_inv L \<longleftrightarrow> dict_wf (records L) \<and> 0 \<le> event_sequence L \<and> numbers_unique L \<and>
     (\<forall>tid r. dict_get (records L) tid = Some r \<longrightarrow> record_inv L tid r \<and> log_inv L tid r)"

text \<open>
  What a record never loses: its definition, its log, its generation count and progress; a terminal
  record is frozen; and within one lease generation the owner can only be dropped, not replaced.
\<close>

definition task_advances :: "task_record \<Rightarrow> task_record \<Rightarrow> bool" where
  "task_advances r r' \<longleftrightarrow>
     definition_of r' = definition_of r \<and> lease_generation r \<le> lease_generation r' \<and>
     progress r \<le> progress r' \<and> (\<exists>es. events r' = events r @ es) \<and>
     (lease_generation r' = lease_generation r \<longrightarrow> owner r' = owner r \<or> owner r' = None) \<and>
     (terminal (tstate r) \<longrightarrow> tstate r' = tstate r \<and> owner r' = owner r \<and>
        lease_generation r' = lease_generation r \<and> progress r' = progress r)"

lemma task_advances_refl [simp, intro]: "task_advances r r"
  by (simp add: task_advances_def)

lemma task_advances_trans: "task_advances r s \<Longrightarrow> task_advances s t \<Longrightarrow> task_advances r t"
  unfolding task_advances_def by (auto intro: order_trans)

lemma task_step_keeps_log: "task_step L tid r r1 \<Longrightarrow> events r1 = events r"
  by (induction rule: task_step.induct) simp_all

lemma task_step_inv: "task_step L tid r r1 \<Longrightarrow> record_inv L tid r \<Longrightarrow> record_inv L tid r1"
  by (induction rule: task_step.induct)
    (auto simp: record_inv_def lease_for_def active_def terminal_def)

lemma task_step_advances: "task_step L tid r r1 \<Longrightarrow> record_inv L tid r \<Longrightarrow> task_advances r r1"
  by (induction rule: task_step.induct)
    (auto simp: task_advances_def record_inv_def active_def terminal_def)

lemma wrote_record:
  assumes "wrote L tid r u L'"
  shows "definition_of u = definition_of r" "tstate u = tstate r" "owner u = owner r" "lease u = lease r"
    "lease_generation u = lease_generation r" "progress u = progress r" "attempts u = attempts r"
    "decision u = decision r" "terminal_reason u = terminal_reason r" "child_run u = child_run r"
    "events u = events r \<or> (\<exists>e. events u = events r @ [e] \<and> te_sequence e = event_sequence L + 1 \<and>
       te_task_id e = tid)"
  using assms by (auto simp: wrote_def)

lemma wrote_ledger:
  assumes "wrote L tid r u L'"
  shows "records L' = dict_set tid u (records L)" "event_sequence L' = event_sequence L + 1"
    "session_id L' = session_id L" "run_id L' = run_id L" "deployment_sha256 L' = deployment_sha256 L"
    "lease_duration_s L' = lease_duration_s L"
  using assms by (auto simp: wrote_def)

lemma record_inv_cong:
  "session_id L' = session_id L \<Longrightarrow> run_id L' = run_id L \<Longrightarrow>
   deployment_sha256 L' = deployment_sha256 L \<Longrightarrow> record_inv L' tid r = record_inv L tid r"
  by (simp add: record_inv_def lease_for_def)

lemma wrote_record_inv: "wrote L tid r u L' \<Longrightarrow> record_inv L' tid' u = record_inv L tid' r"
  by (simp add: record_inv_cong [of L' L] wrote_ledger, simp add: record_inv_def wrote_record)

lemma wrote_log_inv:
  assumes "wrote L tid r u L'" "log_inv L tid r" "0 \<le> event_sequence L"
  shows "log_inv L' tid u"
  using wrote_record(11) [OF assms(1)] assms(2,3) wrote_ledger(2) [OF assms(1)]
  by (auto simp: log_inv_def intro: log_ok_snoc log_ok_mono)

lemma wrote_numbers_unique:
  assumes "wrote L tid r1 u L'" "dict_get (records L) tid = Some r" "events r1 = events r" "ledger_inv L"
  shows "numbers_unique L'"
proof -
  have old: "te_sequence e \<le> event_sequence L" if "dict_get (records L) t = Some s" "e \<in> set (events s)"
    for t s e
    using that assms(4) by (auto simp: ledger_inv_def log_inv_def log_ok_def)
  have u: "te_sequence ` set (events u) \<subseteq> insert (event_sequence L + 1) (te_sequence ` set (events r))"
    using wrote_record(11) [OF assms(1)] assms(3) by auto
  have disj: "te_sequence ` set (events r) \<inter> te_sequence ` set (events s) = {}"
    if "dict_get (records L) t = Some s" "t \<noteq> tid" for t s
    using that assms(2,4) unfolding ledger_inv_def numbers_unique_def by blast
  have new: "te_sequence ` set (events u) \<inter> te_sequence ` set (events s) = {}"
    if "dict_get (records L) t = Some s" "t \<noteq> tid" for t s
    using u disj [OF that] old [OF that(1)] by fastforce
  have old_pairs: "te_sequence ` set (events s) \<inter> te_sequence ` set (events s') = {}"
    if "dict_get (records L) t = Some s" "dict_get (records L) t' = Some s'" "t \<noteq> t'" for t t' s s'
    using that assms(4) unfolding ledger_inv_def numbers_unique_def by blast
  show ?thesis
    unfolding numbers_unique_def wrote_ledger(1) [OF assms(1)] dict_get_set
    using new old_pairs by (auto split: if_splits)
qed

lemma wrote_inv:
  assumes "wrote L tid r1 u L'" "dict_get (records L) tid = Some r" "events r1 = events r"
    "record_inv L tid r1" "ledger_inv L"
  shows "ledger_inv L'"
proof -
  have li: "dict_wf (records L)" "0 \<le> event_sequence L" "log_inv L tid r"
    using assms(2,5) by (auto simp: ledger_inv_def)
  have "log_inv L tid r1" using li(3) assms(3) by (simp add: log_inv_def)
  note new = wrote_log_inv [OF assms(1) this li(2)]
  have other: "record_inv L' t s \<and> log_inv L' t s" if "dict_get (records L) t = Some s" for t s
    using that assms(5) wrote_ledger [OF assms(1)]
    by (auto simp: ledger_inv_def record_inv_cong [of L' L] log_inv_def
        intro: log_ok_mono [of _ "event_sequence L"])
  show ?thesis
    unfolding ledger_inv_def
    using wrote_numbers_unique [OF assms(1,2,3,5)] li new other assms(4)
      wrote_ledger(1,2) [OF assms(1)] wrote_record_inv [OF assms(1)] by simp
qed

lemma quiet_inv: "quiet L L' \<Longrightarrow> ledger_inv L' = ledger_inv L"
  by (simp add: ledger_inv_def quiet_simps numbers_unique_def log_inv_def record_inv_cong [of L' L])

lemma ledger_write_inv:
  assumes "ledger_write L L'" "ledger_inv L"
  shows "ledger_inv L'"
  using assms(1) unfolding ledger_write_def
proof
  assume "quiet L L'"
  with assms(2) show ?thesis by (simp add: quiet_inv)
next
  assume "\<exists>tid r r1 u. dict_get (records L) tid = Some r \<and> task_step L tid r r1 \<and> wrote L tid r1 u L'"
  then obtain tid r r1 u where w: "dict_get (records L) tid = Some r" "task_step L tid r r1"
    "wrote L tid r1 u L'" by blast
  from w(1) assms(2) have "record_inv L tid r" by (simp add: ledger_inv_def)
  with w(2) have "record_inv L tid r1" by (rule task_step_inv)
  with w assms(2) show ?thesis
    using wrote_inv task_step_keeps_log by blast
qed

definition all_advance :: "(string \<rightharpoonup> task_record) \<Rightarrow> (string \<rightharpoonup> task_record) \<Rightarrow> bool" where
  "all_advance m m' \<longleftrightarrow> (\<forall>tid r. m tid = Some r \<longrightarrow> (\<exists>r'. m' tid = Some r' \<and> task_advances r r'))"

lemma all_advance_refl [simp]: "all_advance m m"
  by (auto simp: all_advance_def)

lemma all_advance_trans: "all_advance m n \<Longrightarrow> all_advance n p \<Longrightarrow> all_advance m p"
  unfolding all_advance_def by (meson task_advances_trans)

lemma all_advanceD: "all_advance m m' \<Longrightarrow> m tid = Some r \<Longrightarrow> m' tid = Some r' \<Longrightarrow> task_advances r r'"
  by (fastforce simp: all_advance_def)

lemma ledger_write_advances:
  assumes "ledger_write L L'" "ledger_inv L"
  shows "all_advance (dict_get (records L)) (dict_get (records L'))"
  using assms(1) unfolding ledger_write_def
proof
  assume "quiet L L'"
  then show ?thesis by (simp add: all_advance_def quiet_simps)
next
  assume "\<exists>tid r r1 u. dict_get (records L) tid = Some r \<and> task_step L tid r r1 \<and> wrote L tid r1 u L'"
  then obtain tid r r1 u where w: "dict_get (records L) tid = Some r" "task_step L tid r r1"
    "wrote L tid r1 u L'" by blast
  from w(1) assms(2) have "record_inv L tid r" by (simp add: ledger_inv_def)
  with w(2) have "task_advances r r1" by (rule task_step_advances)
  moreover have "task_advances r1 u"
    using wrote_record [OF w(3)] by (auto simp: task_advances_def)
  ultimately have "task_advances r u" by (rule task_advances_trans)
  with w(1) show ?thesis by (auto simp: all_advance_def wrote_ledger [OF w(3)])
qed

text \<open>
  The contract of the ledger as a transition system, first over single record changes, then over
  whole method calls.
\<close>

interpretation writes: monotone_system ledger_write ledger_inv "\<lambda>L. dict_get (records L)" all_advance
  by unfold_locales
    (auto intro: ledger_write_inv ledger_write_advances all_advance_trans)

interpretation ledger: monotone_system ledger_step ledger_inv "\<lambda>L. dict_get (records L)" all_advance
  by unfold_locales
    (auto intro: all_advance_trans writes.reach_inv writes.reach_below dest: ledger_step_writes)

section \<open>Construction\<close>

lemma holds_lease_generation:
  "ledger_inv L \<Longrightarrow> dict_get (records L) tid = Some r \<Longrightarrow> holds_lease r v g \<Longrightarrow> g = lease_generation r"
  by (force simp: ledger_inv_def record_inv_def holds_lease_def lease_for_def)

definition task_lease_held :: "(string \<rightharpoonup> task_record) \<Rightarrow> string \<Rightarrow> string \<Rightarrow> int \<Rightarrow> bool" where
  "task_lease_held m tid v g \<longleftrightarrow> (\<exists>r. m tid = Some r \<and> holds_lease r v g)"

lemma task_leases_ordered:
  assumes "ledger_inv L" "ledger_inv L'" "all_advance (dict_get (records L)) (dict_get (records L'))"
    "task_lease_held (dict_get (records L)) t v g" "task_lease_held (dict_get (records L')) t w h"
  shows "g \<le> h \<and> (g = h \<longrightarrow> v = w)"
proof -
  from assms(4,5) obtain r r' where r: "dict_get (records L) t = Some r" "holds_lease r v g"
    "dict_get (records L') t = Some r'" "holds_lease r' w h"
    by (auto simp: task_lease_held_def)
  have g: "g = lease_generation r" by (rule holds_lease_generation [OF assms(1) r(1,2)])
  have h: "h = lease_generation r'" by (rule holds_lease_generation [OF assms(2) r(3,4)])
  have o: "owner r = Some v" "owner r' = Some w" using r(2,4) by (auto simp: holds_lease_def)
  have "task_advances r r'" by (rule all_advanceD [OF assms(3) r(1,3)])
  then show ?thesis using o unfolding task_advances_def g h by simp
qed

interpretation leases: lease_authority ledger_step ledger_inv "\<lambda>L. dict_get (records L)" all_advance
  task_lease_held
  by unfold_locales (rule task_leases_ordered)

lemma records_of_definitions_get:
  "dict_get (records_of_definitions defs d) tid = Some r \<Longrightarrow>
     dict_get d tid = Some r \<or> (\<exists>t \<in> set defs. r = new_record t \<and> td_task_id t = tid)"
  by (induction defs arbitrary: d) (fastforce split: if_splits)+

lemma records_of_definitions_wf: "dict_wf d \<Longrightarrow> dict_wf (records_of_definitions defs d)"
  by (induction defs arbitrary: d) auto

lemma emit_inv:
  assumes "emit tid et reason L = (res, L')" "ledger_inv L"
  shows "ledger_inv L'"
proof (cases "dict_get (records L) tid")
  case None
  with assms show ?thesis by (auto simp: emit_def record_of_def)
next
  case (Some r)
  with assms(2) have same: "put_record tid r L = L"
    by (simp add: ledger_inv_def dict_get_set_same)
  from emit_wrote [OF quiet_refl, of tid et reason r L] assms(1) same
  obtain u where "wrote L tid r u L'" by auto
  moreover have "record_inv L tid r" using Some assms(2) by (simp add: ledger_inv_def)
  ultimately show ?thesis using Some assms(2) by (blast intro: wrote_inv)
qed

lemma declare_all_inv: "declare_all tids L = (res, L') \<Longrightarrow> ledger_inv L \<Longrightarrow> ledger_inv L'"
  by (induction tids arbitrary: L) (auto split: prod.splits sum.splits intro: emit_inv)

lemma init_ledger_starts:
  assumes "init_ledger sid rid dsha defs duration c = Inr L"
  obtains x L0 where "declare_all (sort (dict_keys (records L0))) L0 = (Inr x, L)" "ledger_inv L0"
proof -
  let ?recs = "records_of_definitions defs []"
  let ?L0 = "\<lparr>session_id = sid, run_id = rid, deployment_sha256 = dsha,
            lease_duration_s = duration, records = ?recs, event_sequence = 0, ledger_clock = c\<rparr>"
  from assms obtain x where d: "declare_all (sort (dict_keys ?recs)) ?L0 = (Inr x, L)"
    by (auto simp: init_ledger_def Let_def split: if_splits prod.splits sum.splits)
  have new: "\<exists>t. r = new_record t \<and> td_task_id t = tid" if "dict_get ?recs tid = Some r" for tid r
    using records_of_definitions_get [OF that] by auto
  have "ledger_inv ?L0"
    unfolding ledger_inv_def numbers_unique_def
    by (auto simp: records_of_definitions_wf record_inv_def log_inv_def active_def new_record_def
        dest!: new)
  with d show thesis by (intro that [of ?L0 x]) simp_all
qed

lemma init_ledger_inv: "init_ledger sid rid dsha defs duration c = Inr L \<Longrightarrow> ledger_inv L"
  by (erule init_ledger_starts) (rule declare_all_inv)

section \<open>Evidence and replay\<close>

definition evidence_current :: "task_record \<Rightarrow> bool" where
  "evidence_current r \<longleftrightarrow> events r \<noteq> [] \<and> describes (last (events r)) r"

definition evidenced :: "task_ledger \<Rightarrow> bool" where
  "evidenced L \<longleftrightarrow> (\<forall>tid r. dict_get (records L) tid = Some r \<longrightarrow> evidence_current r)"

definition touches :: "task_ledger \<Rightarrow> task_ledger \<Rightarrow> bool" where
  "touches L L' \<longleftrightarrow> records L' = records L \<or>
     (\<exists>tid u. records L' = dict_set tid u (records L) \<and> evidence_current u)"

lemma touches_evidenced: "touches L L' \<Longrightarrow> evidenced L \<Longrightarrow> evidenced L'"
  by (auto simp: touches_def evidenced_def split: if_splits)

lemma emit_put_touches:
  assumes "quiet L L1" "emit tid et reason (put_record tid r L1) = (Inr u, L')"
  shows "touches L L'" and "records L' = dict_set tid u (records L) \<and> evidence_current u"
  using emit_wrote [OF assms] by (auto simp: touches_def evidence_current_def dest: wrote_ledger(1))

lemma assign_touches:
  assumes "assign tid vid capabilities battery allow now_s L = (Inr u, L')"
  shows "records L' = dict_set tid u (records L) \<and> evidence_current u"
  using assms
  by (auto simp: assign_def Let_def split: prod.splits sum.splits if_splits
      dest!: ledger_now_quiet dest: emit_put_touches(2))

lemma retry_touches:
  assumes "retry tid reason L = (Inr u, L')"
  shows "records L' = dict_set tid u (records L) \<and> evidence_current u"
  using assms
  by (auto simp: retry_def split: sum.splits if_splits dest: emit_put_touches(2) [OF quiet_refl])

lemma guarded_touches:
  assumes "require_current_lease tid vid gen now_s L = (res0, L1)"
    and "\<And>r. res0 = Inr r \<Longrightarrow> dict_get (records L) tid = Some r \<Longrightarrow> quiet L L1 \<Longrightarrow> touches L L'"
    and "\<And>e. res0 = Inl e \<Longrightarrow> touches L L'"
  shows "touches L L'"
  using assms by (cases res0) (auto dest!: require_current_lease_Inr)

lemma start_touches: "start tid vid child gen now_s L = (Inr u, L') \<Longrightarrow> touches L L'"
  by (cases "require_current_lease tid vid gen now_s L", rule guarded_touches, assumption)
    (auto simp: start_def split: if_splits dest: emit_put_touches(1))

lemma update_progress_touches:
  "update_progress tid vid gen percent now_s L = (Inr u, L') \<Longrightarrow> touches L L'"
  by (cases "require_current_lease tid vid gen now_s L", rule guarded_touches, assumption)
    (auto simp: update_progress_def split: if_splits dest: emit_put_touches(1))

lemma pause_touches: "pause tid vid gen reason now_s L = (Inr u, L') \<Longrightarrow> touches L L'"
  by (cases "require_current_lease tid vid gen now_s L", rule guarded_touches, assumption)
    (auto simp: pause_def split: if_splits dest: emit_put_touches(1))

lemma resume_touches: "resume tid vid gen now_s L = (Inr u, L') \<Longrightarrow> touches L L'"
  by (cases "require_current_lease tid vid gen now_s L", rule guarded_touches, assumption)
    (auto simp: resume_def split: if_splits dest: emit_put_touches(1))

lemma complete_touches: "complete tid vid gen reason now_s L = (Inr u, L') \<Longrightarrow> touches L L'"
  by (cases "require_current_lease tid vid gen now_s L", rule guarded_touches, assumption)
    (auto simp: complete_def split: if_splits dest: emit_put_touches(1))

lemma abort_touches: "abort tid reason L = (Inr u, L') \<Longrightarrow> touches L L'"
  by (auto simp: abort_def touches_def split: sum.splits if_splits
      dest!: emit_put_touches(2) [OF quiet_refl])

lemma transfer_touches:
  assumes "transfer tid v w gen capabilities battery reason now_s L = (Inr u, L')"
  shows "touches L L'"
proof -
  obtain res1 L1 where rq: "require_current_lease tid v gen now_s L = (res1, L1)" by fastforce
  note q1 = require_current_lease_quiet [OF rq]
  obtain now L2 where now: "ledger_now now_s L1 = (now, L2)" by (cases "ledger_now now_s L1")
  note q2 = quiet_trans [OF q1 ledger_now_quiet [OF now]]
  from assms rq now obtain r et rs where "emit tid et rs (put_record tid r L2) = (Inr u, L')"
    by (auto simp: transfer_def Let_def split: sum.splits if_splits)
  with q2 show ?thesis by (rule emit_put_touches(1))
qed

lemma renew_touches:
  assumes "renew tid vid gen now_s L = (Inr l, L')"
  shows "touches L L'"
proof -
  obtain now L0 where now: "ledger_now now_s L = (now, L0)" by (cases "ledger_now now_s L")
  obtain res1 L1 where rq: "require_current_lease tid vid gen (Some now) L0 = (res1, L1)" by fastforce
  note q = quiet_trans [OF ledger_now_quiet [OF now] require_current_lease_quiet [OF rq]]
  from assms now rq obtain u r et rs where "emit tid et rs (put_record tid r L1) = (Inr u, L')"
    by (auto simp: renew_def Let_def split: sum.splits prod.splits option.splits)
  with q show ?thesis by (rule emit_put_touches(1))
qed

lemma reassign_touches:
  assumes "reassign tid vid capabilities battery reason now_s L = (Inr u, L')"
  shows "touches L L'"
proof -
  obtain res1 L1 where r1: "retry tid reason L = (res1, L1)" by fastforce
  obtain res2 L2 where r2: "assign tid vid capabilities battery False now_s L1 = (res2, L2)"
    by fastforce
  from assms r1 r2 obtain v1 v2 where v: "res1 = Inr v1" "res2 = Inr v2"
    and e: "emit tid ''TASK_REASSIGNED'' (Some reason)
      (put_record tid (v2\<lparr>decision := Some TD_REASSIGN\<rparr>) L2) = (Inr u, L')"
    by (auto simp: reassign_def split: sum.splits if_splits)
  show ?thesis
    unfolding touches_def
    using retry_touches r1 assign_touches r2 v emit_put_touches(2) [OF quiet_refl e] by auto
qed

lemmas method_touches = start_touches update_progress_touches pause_touches resume_touches
  complete_touches abort_touches transfer_touches renew_touches reassign_touches

lemma ledger_call_touches: "ledger_call L True L' \<Longrightarrow> touches L L'"
proof (induction L "True" L' rule: ledger_call.induct)
  case (call_assign tid vid caps battery allow now_s L res L')
  then show ?case by (cases res) (auto simp: touches_def dest: assign_touches)
next
  case (call_retry tid reason L res L')
  then show ?case by (cases res) (auto simp: touches_def dest: retry_touches)
next
  case (call_renew tid vid gen now_s L lres L')
  then show ?case by (cases lres) (auto intro: renew_touches)
qed (case_tac res; auto intro: method_touches)+

text \<open>
  A \<open>clean_step\<close> is a call that returned, or one that raised without touching a record.
\<close>

definition clean_step :: "task_ledger \<Rightarrow> task_ledger \<Rightarrow> bool" where
  "clean_step L L' \<longleftrightarrow> (\<exists>ok. ledger_call L ok L' \<and> (ok \<or> records L' = records L))"

interpretation evidence: invariant_system clean_step "\<lambda>L. ledger_inv L \<and> evidenced L"
proof
  fix L L'
  assume "clean_step L L'" and inv: "ledger_inv L \<and> evidenced L"
  then obtain ok where c: "ledger_call L ok L'" "ok \<or> records L' = records L"
    by (auto simp: clean_step_def)
  have "touches L L'"
  proof (cases ok)
    case True
    with c(1) show ?thesis by (simp add: ledger_call_touches)
  next
    case False
    with c(2) show ?thesis by (simp add: touches_def)
  qed
  moreover from c(1) inv have "ledger_inv L'"
    using ledger.step_inv by (auto simp: ledger_step_def)
  ultimately show "ledger_inv L' \<and> evidenced L'" using inv touches_evidenced by blast
qed

lemma declare_all_evidenced:
  "declare_all tids L = (Inr x, L') \<Longrightarrow> ledger_inv L \<Longrightarrow>
   (\<forall>tid r. dict_get (records L) tid = Some r \<longrightarrow> tid \<in> set tids \<or> evidence_current r) \<Longrightarrow> evidenced L'"
proof (induction tids arbitrary: L)
  case (Cons tid tids)
  from Cons.prems(1) obtain u L1 where e: "emit tid ''TASK_DECLARED'' None L = (Inr u, L1)"
    and rest: "declare_all tids L1 = (Inr x, L')"
    by (auto split: prod.splits sum.splits)
  from e obtain r where r: "dict_get (records L) tid = Some r"
    by (auto simp: emit_def split: sum.splits prod.splits)
  with Cons.prems(2) have same: "put_record tid r L = L"
    by (simp add: ledger_inv_def dict_get_set_same)
  from emit_put_touches(2) [OF quiet_refl, of tid "''TASK_DECLARED''" None r L u L1] e same
  have t: "records L1 = dict_set tid u (records L)" "evidence_current u" by simp_all
  show ?case
  proof (rule Cons.IH [OF rest emit_inv [OF e Cons.prems(2)]])
    show "\<forall>t s. dict_get (records L1) t = Some s \<longrightarrow> t \<in> set tids \<or> evidence_current s"
      using Cons.prems(3) t by (auto split: if_splits)
  qed
qed (auto simp: evidenced_def)

lemma init_ledger_evidenced:
  "init_ledger sid rid dsha defs duration c = Inr L \<Longrightarrow> evidenced L"
  by (erule init_ledger_starts) (erule declare_all_evidenced, auto dest!: map_of_SomeD intro: rev_image_eqI)

text \<open>Replaying the log of a record whose evidence is current rebuilds its observable state.\<close>

lemma replay_current:
  assumes "log_ok te_sequence n (events r)" "\<forall>e \<in> set (events r). te_task_id e = td_task_id (definition_of r)"
    "evidence_current r"
  shows "replay_task (definition_of r) (events r) = Inr ((new_record (definition_of r))\<lparr>
     tstate := tstate r, owner := owner r, lease_generation := lease_generation r,
     progress := progress r, decision := replay_decision (tstate r),
     terminal_reason := te_reason (last (events r)), child_run := child_run r, events := events r\<rparr>)"
  using assms by (auto simp: replay_task_def Let_def log_ok_sort list_ex_iff evidence_current_def describes_def)

section \<open>A sample ledger\<close>

text \<open>One task, one capable vehicle: the concrete input of the witnesses below.\<close>

definition sample_task :: task_definition where
  "sample_task = \<lparr>td_task_id = ''t1'', td_task_type = ''coverage'', td_zone_id = ''z1'',
     td_priority = 100, td_mission_id = ''m1'', td_mission_parameters = [],
     td_required_capabilities = {CAP_ARMING}, td_completion_progress_percent = 100,
     td_estimated_duration_s = 60, td_estimated_energy_percent = 20, td_energy_margin_percent = 10\<rparr>"

definition sample_clock :: clock where
  "sample_clock = \<lparr>readings = (\<lambda>n. real n), reads = 0\<rparr>"

definition sample_sha :: string where
  "sample_sha = replicate 64 CHR ''a''"

definition sample_init :: "task_ledger outcome" where
  "sample_init = init_ledger ''s1'' ''r1'' sample_sha [sample_task] 10 sample_clock"

definition sample_L0 :: task_ledger where
  "sample_L0 = projr sample_init"

definition sample_assign :: "task_record outcome \<times> task_ledger" where
  "sample_assign = assign ''t1'' ''v1'' {CAP_ARMING} (Some 90) False (Some 0) sample_L0"

definition sample_L1 :: task_ledger where
  "sample_L1 = snd sample_assign"

definition sample_transfer :: "task_record outcome \<times> task_ledger" where
  "sample_transfer =
     transfer ''t1'' ''v1'' ''v2'' 1 {CAP_ARMING} (Some 80) ''low battery'' (Some 1) sample_L1"

definition sample_L2 :: task_ledger where
  "sample_L2 = snd sample_transfer"

lemma not_isl_projr: "\<not> isl x \<Longrightarrow> x = Inr (projr x)"
  by (cases x) simp_all

lemma sample_init_ok: "init_ledger ''s1'' ''r1'' sample_sha [sample_task] 10 sample_clock = Inr sample_L0"
proof -
  have "\<not> isl sample_init" by code_simp
  from not_isl_projr [OF this] show ?thesis by (simp add: sample_init_def sample_L0_def)
qed

lemma sample_assign_ok:
  "assign ''t1'' ''v1'' {CAP_ARMING} (Some 90) False (Some 0) sample_L0 = (Inr (projr (fst sample_assign)), sample_L1)"
proof -
  have "\<not> isl (fst sample_assign)" by code_simp
  from not_isl_projr [OF this] show ?thesis
    by (simp add: sample_assign_def [symmetric] sample_L1_def prod_eq_iff)
qed

lemma sample_transfer_ok:
  "transfer ''t1'' ''v1'' ''v2'' 1 {CAP_ARMING} (Some 80) ''low battery'' (Some 1) sample_L1
     = (Inr (projr (fst sample_transfer)), sample_L2)"
proof -
  have "\<not> isl (fst sample_transfer)" by code_simp
  from not_isl_projr [OF this] show ?thesis
    by (simp add: sample_transfer_def [symmetric] sample_L2_def prod_eq_iff)
qed

lemma sample_steps:
  "ledger_step\<^sup>*\<^sup>* sample_L0 sample_L1" "ledger_step\<^sup>*\<^sup>* sample_L1 sample_L2" "ledger_step\<^sup>*\<^sup>* sample_L0 sample_L2"
  "clean_step\<^sup>*\<^sup>* sample_L0 sample_L2"
proof -
  have c: "ledger_call sample_L0 True sample_L1" "ledger_call sample_L1 True sample_L2"
    using call_assign [OF sample_assign_ok] call_transfer [OF sample_transfer_ok] by simp_all
  then have s: "ledger_step sample_L0 sample_L1" "ledger_step sample_L1 sample_L2"
    "clean_step sample_L0 sample_L1" "clean_step sample_L1 sample_L2"
    by (auto simp: ledger_step_def clean_step_def)
  show "ledger_step\<^sup>*\<^sup>* sample_L0 sample_L1" "ledger_step\<^sup>*\<^sup>* sample_L1 sample_L2"
    "ledger_step\<^sup>*\<^sup>* sample_L0 sample_L2" "clean_step\<^sup>*\<^sup>* sample_L0 sample_L2"
    using s by (auto intro: converse_rtranclp_into_rtranclp)
qed

section \<open>Properties\<close>

lemma transfer_Inr:
  assumes "transfer tid v w g capabilities battery reason now_s L = (Inr u, L')"
  shows "\<exists>r. dict_get (records L) tid = Some r \<and> holds_lease r v g \<and> v \<noteq> w \<and> active (tstate r) \<and>
    td_required_capabilities (definition_of r) \<subseteq> capabilities \<and>
    \<not> inadequate_energy (definition_of r) battery \<and>
    records L' = dict_set tid u (records L) \<and>
    tstate u = TS_ASSIGNED \<and> owner u = Some w \<and> lease_generation u = lease_generation r + 1 \<and>
    progress u = progress r \<and> definition_of u = definition_of r \<and> holds_lease u w (lease_generation u) \<and>
    (\<forall>t. now_s = Some t \<longrightarrow> 0 \<le> t)"
proof -
  obtain res1 L1 where rq: "require_current_lease tid v g now_s L = (res1, L1)" by fastforce
  note q1 = require_current_lease_quiet [OF rq]
  obtain now L2 where now: "ledger_now now_s L1 = (now, L2)" by (cases "ledger_now now_s L1")
  note q2 = quiet_trans [OF q1 ledger_now_quiet [OF now]]
  from assms rq obtain r where r: "res1 = Inr r" by (cases res1) (auto simp: transfer_def split: if_splits)
  with rq require_current_lease_Inr have d: "dict_get (records L) tid = Some r" "holds_lease r v g"
    by blast+
  from assms rq now r obtain l where guards: "v \<noteq> w" "active (tstate r)"
      "td_required_capabilities (definition_of r) \<subseteq> capabilities"
      "\<not> inadequate_energy (definition_of r) battery"
    and l: "make_lease tid w (lease_generation r + 1) now L2 = Inr l"
    and e: "emit tid ''TASK_OWNERSHIP_TRANSFERRED'' (Some reason) (put_record tid
        (r\<lparr>tstate := TS_ASSIGNED, owner := Some w, lease := Some l,
           lease_generation := lease_generation r + 1, attempts := attempts r + 1,
           decision := Some TD_REASSIGN, terminal_reason := Some reason, child_run := None\<rparr>) L2)
       = (Inr u, L')"
    by (auto simp: transfer_def Let_def active_def validate_assignment_def split: sum.splits if_splits)
  from emit_wrote [OF q2 e] obtain u' where
    w: "wrote L tid (r\<lparr>tstate := TS_ASSIGNED, owner := Some w, lease := Some l,
           lease_generation := lease_generation r + 1, attempts := attempts r + 1,
           decision := Some TD_REASSIGN, terminal_reason := Some reason, child_run := None\<rparr>) u L'"
    by auto
  have "0 \<le> now" using l by (auto simp: make_lease_def Let_def valid_lease_def split: if_splits)
  moreover have "now = t" if "now_s = Some t" for t using now that by (simp add: ledger_now_def)
  ultimately show ?thesis
    using d guards wrote_record [OF w] wrote_ledger [OF w] make_lease_Inr [OF l]
    by (auto simp: holds_lease_def lease_for_def)
qed

lemma emit_returns:
  assumes "emit tid et reason (put_record tid r L) = (res, L')" "valid_identifier et"
    "valid_identifier (session_id L)" "valid_identifier (run_id L)" "valid_sha256 (deployment_sha256 L)"
    "valid_identifier tid" "0 \<le> event_sequence L" "opt_all valid_identifier (owner r)"
    "0 \<le> lease_generation r" "0 \<le> progress r" "progress r \<le> 100" "opt_all valid_identifier (child_run r)"
    "opt_all (\<lambda>x. length x \<le> 500) reason" "\<forall>i. 0 \<le> readings (ledger_clock L) i"
  shows "\<exists>u. res = Inr u"
proof -
  obtain e L2 where st: "stamp_event (tid, et, reason) r (put_record tid r L)
       = (if valid_event e then Inr (r\<lparr>events := events r @ [e]\<rparr>) else Inl (ValidationError ''TaskEvidenceEvent''), L2)"
    and e: "describes e r" "te_sequence e = event_sequence L + 1" "te_task_id e = tid"
      "te_reason e = reason" "te_event_type e = et" "te_session_id e = session_id L"
      "te_run_id e = run_id L" "te_deployment_sha256 e = deployment_sha256 L"
      "te_timestamp e = readings (ledger_clock L) (reads (ledger_clock L))"
    by (rule stamp_event_cases [of tid et reason r "put_record tid r L"]) simp
  have "valid_event e" using e assms(2-) by (simp add: valid_event_def describes_def)
  with st assms(1) show ?thesis by (auto simp: emit_def record_of_def)
qed

text \<open>
  \<open>transfer\<close> is all or nothing: if it raises, no record has changed, provided that the reason fits
  the evidence schema (500 characters) and the clock never reads a negative time.
\<close>

lemma transfer_all_or_nothing:
  assumes "transfer tid v w g capabilities battery reason now_s L = (Inl e, L')" "ledger_inv L"
    "length reason \<le> 500" "\<forall>i. 0 \<le> readings (ledger_clock L) i"
  shows "quiet L L'"
proof -
  obtain res1 L1 where rq: "require_current_lease tid v g now_s L = (res1, L1)" by fastforce
  note q1 = require_current_lease_quiet [OF rq]
  obtain now L2 where now: "ledger_now now_s L1 = (now, L2)" by (cases "ledger_now now_s L1")
  note q2 = quiet_trans [OF q1 ledger_now_quiet [OF now]]
  show ?thesis
  proof (rule ccontr)
    assume nq: "\<not> quiet L L'"
    with assms(1) rq q1 obtain r where r: "res1 = Inr r"
      by (cases res1) (auto simp: transfer_def split: if_splits)
    let ?r = "\<lambda>l. r\<lparr>tstate := TS_ASSIGNED, owner := Some w, lease := Some l,
           lease_generation := lease_generation r + 1, attempts := attempts r + 1,
           decision := Some TD_REASSIGN, terminal_reason := Some reason, child_run := None\<rparr>"
    from assms(1) nq rq now q1 q2 r obtain l where
      l: "make_lease tid w (lease_generation r + 1) now L2 = Inr l" and
      em: "emit tid ''TASK_OWNERSHIP_TRANSFERRED'' (Some reason) (put_record tid (?r l) L2) = (Inl e, L')"
      by (auto simp: transfer_def Let_def split: sum.splits if_splits)
    from rq r require_current_lease_Inr have "dict_get (records L) tid = Some r" by blast
    with assms(2) have inv: "record_inv L tid r" by (simp add: ledger_inv_def)
    have vl: "valid_lease l" "lease_for L2 tid w (lease_generation r + 1) l"
      using l make_lease_Inr [OF l] by (auto simp: make_lease_def Let_def split: if_splits)
    have et: "valid_identifier ''TASK_OWNERSHIP_TRANSFERRED''" by code_simp
    have clock: "\<forall>i. 0 \<le> readings (ledger_clock L2) i" using q2 assms(4) by (auto simp: quiet_def)
    have seq: "0 \<le> event_sequence L2" using q2 assms(2) by (simp add: ledger_inv_def quiet_simps)
    have "\<exists>u. (Inl e :: task_record outcome) = Inr u"
      by (rule emit_returns [OF em et _ _ _ _ seq _ _ _ _ _ _ clock])
        (use vl inv assms(3) in \<open>simp_all add: valid_lease_def lease_for_def record_inv_def\<close>)
    then show False by simp
  qed
qed

text \<open>
  Without these conditions a raising transfer may still have replaced the record: it has either changed
  nothing, or moved the lease to the incoming vehicle before the evidence event was refused.
\<close>

lemma transfer_raises:
  assumes "transfer tid v w g capabilities battery reason now_s L = (Inl e, L')" "ledger_inv L"
  shows "quiet L L' \<or> \<not> (length reason \<le> 500 \<and> (\<forall>i. 0 \<le> readings (ledger_clock L) i))
    \<and> (\<exists>r u. dict_get (records L) tid = Some r \<and> holds_lease r v g \<and> records L' = dict_set tid u (records L)
          \<and> holds_lease u w (lease_generation r + 1) \<and> progress u = progress r)"
proof (cases "quiet L L'")
  case False
  obtain res1 L1 where rq: "require_current_lease tid v g now_s L = (res1, L1)" by fastforce
  note q1 = require_current_lease_quiet [OF rq]
  obtain now L2 where now: "ledger_now now_s L1 = (now, L2)" by (cases "ledger_now now_s L1")
  note q2 = quiet_trans [OF q1 ledger_now_quiet [OF now]]
  from False assms(1) rq q1 obtain r where r: "res1 = Inr r"
    by (cases res1) (auto simp: transfer_def split: if_splits)
  let ?r = "\<lambda>l. r\<lparr>tstate := TS_ASSIGNED, owner := Some w, lease := Some l,
         lease_generation := lease_generation r + 1, attempts := attempts r + 1,
         decision := Some TD_REASSIGN, terminal_reason := Some reason, child_run := None\<rparr>"
  from assms(1) False rq now q1 q2 r obtain l where
    l: "make_lease tid w (lease_generation r + 1) now L2 = Inr l" and
    em: "emit tid ''TASK_OWNERSHIP_TRANSFERRED'' (Some reason) (put_record tid (?r l) L2) = (Inl e, L')"
    by (auto simp: transfer_def Let_def split: sum.splits if_splits)
  have d: "dict_get (records L) tid = Some r" "holds_lease r v g" using rq r require_current_lease_Inr by blast+
  obtain ev L3 where "stamp_event (tid, ''TASK_OWNERSHIP_TRANSFERRED'', Some reason) (?r l) (put_record tid (?r l) L2)
       = (if valid_event ev then Inr ((?r l)\<lparr>events := events (?r l) @ [ev]\<rparr>) else Inl (ValidationError ''TaskEvidenceEvent''), L3)"
    "quiet ((put_record tid (?r l) L2)\<lparr>event_sequence := event_sequence (put_record tid (?r l) L2) + 1\<rparr>) L3"
    by (rule stamp_event_cases [of tid "''TASK_OWNERSHIP_TRANSFERRED''" "Some reason" "?r l" "put_record tid (?r l) L2"]) simp
  with em have "records L' = records (put_record tid (?r l) L2)"
    by (auto simp: emit_def record_of_def quiet_simps split: if_splits)
  then have "records L' = dict_set tid (?r l) (records L)" using q2 by (simp add: quiet_simps)
  moreover have "holds_lease (?r l) w (lease_generation r + 1)"
    using make_lease_Inr [OF l] by (auto simp: holds_lease_def lease_for_def)
  moreover have "\<not> (length reason \<le> 500 \<and> (\<forall>i. 0 \<le> readings (ledger_clock L) i))"
    using transfer_all_or_nothing [OF assms] False by blast
  ultimately show ?thesis using d by (intro disjI2 conjI exI [of _ r] exI [of _ "?r l"]) simp_all
qed simp

lemma transfer_before_emit:
  assumes "transfer tid v w g capabilities battery reason now_s L = (Inr u, L')"
  obtains r l L2 where "lease_generation u = lease_generation r + 1"
    "\<forall>x. transfer tid v w g capabilities battery x now_s L
       = emit tid ''TASK_OWNERSHIP_TRANSFERRED'' (Some x) (put_record tid
           (r\<lparr>tstate := TS_ASSIGNED, owner := Some w, lease := Some l,
              lease_generation := lease_generation r + 1, attempts := attempts r + 1,
              decision := Some TD_REASSIGN, terminal_reason := Some x, child_run := None\<rparr>) L2)"
proof -
  obtain res1 L1 where rq: "require_current_lease tid v g now_s L = (res1, L1)" by fastforce
  obtain now L2 where now: "ledger_now now_s L1 = (now, L2)" by (cases "ledger_now now_s L1")
  from assms rq obtain r where r: "res1 = Inr r" by (cases res1) (auto simp: transfer_def split: if_splits)
  from assms rq now r obtain l where c: "v \<noteq> w" "tstate r \<in> {TS_ASSIGNED, TS_IN_PROGRESS, TS_PAUSED}"
    "validate_assignment r capabilities battery = Inr ()" "make_lease tid w (lease_generation r + 1) now L2 = Inr l"
    by (auto simp: transfer_def Let_def split: sum.splits if_splits)
  have eq: "transfer tid v w g capabilities battery x now_s L
       = emit tid ''TASK_OWNERSHIP_TRANSFERRED'' (Some x) (put_record tid
           (r\<lparr>tstate := TS_ASSIGNED, owner := Some w, lease := Some l,
              lease_generation := lease_generation r + 1, attempts := attempts r + 1,
              decision := Some TD_REASSIGN, terminal_reason := Some x, child_run := None\<rparr>) L2)" for x
    using c rq now r by (simp add: transfer_def Let_def)
  have "lease_generation u = lease_generation r + 1"
    using emit_wrote [OF quiet_refl assms [unfolded eq]] by (auto dest: wrote_record(5))
  then show thesis by (rule that) (use eq in blast)
qed

lemma emit_long_reason:
  assumes "500 < length x"
  shows "\<exists>L'. emit tid et (Some x) (put_record tid r L) = (Inl (ValidationError ''TaskEvidenceEvent''), L') \<and>
    dict_get (records L') tid = Some r"
proof -
  obtain e L2 where st: "stamp_event (tid, et, Some x) r (put_record tid r L)
       = (if valid_event e then Inr (r\<lparr>events := events r @ [e]\<rparr>) else Inl (ValidationError ''TaskEvidenceEvent''), L2)"
    and q: "quiet ((put_record tid r L)\<lparr>event_sequence := event_sequence L + 1\<rparr>) L2" and e: "te_reason e = Some x"
    by (rule stamp_event_cases [of tid et "Some x" r "put_record tid r L"]) simp
  have "\<not> valid_event e" using e assms by (simp add: valid_event_def)
  with st q show ?thesis by (auto simp: emit_def record_of_def quiet_simps)
qed

lemma require_current_lease_refused:
  assumes "dict_get (records L) tid = Some r" "\<not> holds_lease r v g"
  shows "fst (require_current_lease tid v g n L)
    = Inl (CrazySwarmError MODE_NOT_AUTHORIZED ''current task ownership is required'')"
  using assms
  by (auto simp: require_current_lease_def holds_lease_def split: prod.splits option.splits)

text \<open>
  C32. Handover fencing: once \<open>transfer\<close> has moved a task from vehicle \<open>v\<close> (lease generation \<open>g\<close>) to
  another vehicle, the old lease \<open>(v, g)\<close> is refused for good, in every ledger state that any later
  sequence of calls can reach, whatever time is presented. All lease-guarded methods start with this
  check, so the outgoing vehicle can no longer change the task.
\<close>

theorem transfer_fences_old_lease:
  assumes "init_ledger sid rid dsha defs duration c = Inr L0" "ledger_step\<^sup>*\<^sup>* L0 L"
    and "transfer tid v w g capabilities battery reason now_s L = (Inr u, L1)"
    and "ledger_step\<^sup>*\<^sup>* L1 L2"
  shows "fst (require_current_lease tid v g n L2)
    = Inl (CrazySwarmError MODE_NOT_AUTHORIZED ''current task ownership is required'')"
proof -
  have inv: "ledger_inv L" using ledger.reach_inv [OF assms(2) init_ledger_inv [OF assms(1)]] .
  moreover have "ledger_step L L1"
    using call_transfer [OF assms(3)] by (auto simp: ledger_step_def)
  ultimately have inv1: "ledger_inv L1" by (blast intro: ledger.step_inv)
  from transfer_Inr [OF assms(3)] obtain r where "dict_get (records L) tid = Some r" "holds_lease r v g"
    and u: "dict_get (records L1) tid = Some u" "lease_generation u = lease_generation r + 1"
      "holds_lease u w (lease_generation u)"
    by auto
  with inv have g: "g < lease_generation u" by (auto dest: holds_lease_generation)
  have "task_lease_held (dict_get (records L1)) tid w (lease_generation u)"
    using u by (simp add: task_lease_held_def)
  from leases.fenced [OF assms(4) inv1 this g, of v]
  have "\<not> task_lease_held (dict_get (records L2)) tid v g" .
  moreover from ledger.reach_below [OF assms(4) inv1] u(1) obtain r2 where
    "dict_get (records L2) tid = Some r2" unfolding all_advance_def by blast
  ultimately show ?thesis by (auto simp: task_lease_held_def intro: require_current_lease_refused)
qed

theorem transfer_fences_old_lease_witness:
  "fst (require_current_lease ''t1'' ''v1'' 1 (Some 2) sample_L2)
     = Inl (CrazySwarmError MODE_NOT_AUTHORIZED ''current task ownership is required'')"
  using transfer_fences_old_lease
    [OF sample_init_ok sample_steps(1) sample_transfer_ok rtranclp.rtrancl_refl] .

text \<open>
  C33. Split-brain freedom: in any two states of one run, if vehicle \<open>v\<close> holds a task under lease
  generation \<open>g\<close> in the first and vehicle \<open>w\<close> holds the same task under the same generation in the
  second, then \<open>v = w\<close>. A generation number identifies one owner for the whole run.
\<close>

theorem one_owner_per_generation:
  assumes "init_ledger sid rid dsha defs duration c = Inr L0" "ledger_step\<^sup>*\<^sup>* L0 L"
    and "ledger_step\<^sup>*\<^sup>* L L'"
    and "dict_get (records L) tid = Some r" "holds_lease r v g"
    and "dict_get (records L') tid = Some r'" "holds_lease r' w g"
  shows "v = w"
proof -
  have inv: "ledger_inv L" using ledger.reach_inv [OF assms(2) init_ledger_inv [OF assms(1)]] .
  show ?thesis
    by (rule leases.unique_holder [OF assms(3) inv])
      (use assms(4-7) in \<open>auto simp: task_lease_held_def\<close>)
qed

theorem one_owner_per_generation_witness:
  "\<exists>r. dict_get (records sample_L1) ''t1'' = Some r \<and> holds_lease r ''v1'' 1 \<and>
     (\<forall>w. holds_lease r w 1 \<longrightarrow> ''v1'' = w)"
proof -
  obtain r where r: "dict_get (records sample_L1) ''t1'' = Some r" "holds_lease r ''v1'' 1"
    using transfer_Inr [OF sample_transfer_ok] by blast
  with one_owner_per_generation [OF sample_init_ok sample_steps(1) rtranclp.rtrancl_refl r r(1)] show ?thesis
    by blast
qed

text \<open>
  C34. The ledger invariant holds in every reachable state, also after calls that raised: a record is
  filed under its own task id; a lease exists exactly while the task is assigned, running or paused,
  was issued by this ledger for this task, and names the recorded owner and generation; progress stays
  within 0 to 100; a completed task has met its completion threshold; and evidence numbers rise within
  a task and are never shared between tasks.
\<close>

theorem ledger_reachable_inv:
  assumes "init_ledger sid rid dsha defs duration c = Inr L0" "ledger_step\<^sup>*\<^sup>* L0 L"
    and "dict_get (records L) tid = Some r"
  shows "td_task_id (definition_of r) = tid \<and> 0 \<le> progress r \<and> progress r \<le> 100 \<and>
    (lease r \<noteq> None \<longleftrightarrow> tstate r \<in> {TS_ASSIGNED, TS_IN_PROGRESS, TS_PAUSED}) \<and>
    (\<forall>l. lease r = Some l \<longrightarrow> owner r = Some (lease_vehicle_id l) \<and> generation l = lease_generation r \<and>
       lease_task_id l = tid \<and> lease_session_id l = session_id L \<and> lease_run_id l = run_id L) \<and>
    (tstate r = TS_COMPLETED \<longrightarrow> td_completion_progress_percent (definition_of r) \<le> progress r) \<and>
    attempts r = lease_generation r \<and> sorted_wrt (<) (map te_sequence (events r)) \<and>
    (\<forall>tid' r'. dict_get (records L) tid' = Some r' \<longrightarrow> tid' \<noteq> tid \<longrightarrow>
       te_sequence ` set (events r) \<inter> te_sequence ` set (events r') = {})"
proof -
  have inv: "ledger_inv L" using ledger.reach_inv [OF assms(2) init_ledger_inv [OF assms(1)]] .
  then have "record_inv L tid r" "log_inv L tid r" "numbers_unique L"
    using assms(3) by (auto simp: ledger_inv_def)
  then show ?thesis
    using assms(3)
    by (auto simp: record_inv_def log_inv_def log_ok_def lease_for_def active_def numbers_unique_def)
qed

theorem ledger_reachable_inv_witness:
  "\<exists>r. dict_get (records sample_L2) ''t1'' = Some r \<and> lease r \<noteq> None \<and> attempts r = lease_generation r
     \<and> tstate r = TS_ASSIGNED"
proof -
  obtain r where r: "dict_get (records sample_L2) ''t1'' = Some r" "tstate r = TS_ASSIGNED"
    using transfer_Inr [OF sample_transfer_ok] by auto
  with ledger_reachable_inv [OF sample_init_ok sample_steps(3) r(1)] show ?thesis by auto
qed

text \<open>
  Nothing recorded is undone: along any run from a state the ledger can reach, a task keeps its
  definition, its progress and its lease generation never decrease, its evidence log only grows at the
  end, and a completed or aborted task keeps its state, owner, generation and progress.
\<close>

theorem ledger_never_regresses:
  assumes "init_ledger sid rid dsha defs duration c = Inr L0" "ledger_step\<^sup>*\<^sup>* L0 L" "ledger_step\<^sup>*\<^sup>* L L'"
    and "dict_get (records L) tid = Some r"
  shows "\<exists>r'. dict_get (records L') tid = Some r' \<and> definition_of r' = definition_of r \<and>
    progress r \<le> progress r' \<and> lease_generation r \<le> lease_generation r' \<and>
    (\<exists>es. events r' = events r @ es) \<and>
    (tstate r \<in> {TS_COMPLETED, TS_ABORTED} \<longrightarrow> tstate r' = tstate r \<and> owner r' = owner r \<and>
       progress r' = progress r)"
  using ledger.reach_below [OF assms(3) ledger.reach_inv [OF assms(2) init_ledger_inv [OF assms(1)]]]
    assms(4) by (fastforce simp: all_advance_def task_advances_def terminal_def)

theorem ledger_never_regresses_witness:
  "\<exists>r r'. dict_get (records sample_L1) ''t1'' = Some r \<and> dict_get (records sample_L2) ''t1'' = Some r' \<and>
     lease_generation r \<le> lease_generation r'"
proof -
  obtain r where r: "dict_get (records sample_L1) ''t1'' = Some r"
    using transfer_Inr [OF sample_transfer_ok] by blast
  with ledger_never_regresses [OF sample_init_ok sample_steps(1,2) r] show ?thesis by blast
qed

text \<open>
  C35. Evidence replay: after any sequence of calls that each returned, or raised without touching a
  record, \<open>replay_task\<close> applied to the log of a task rebuilds its state, owner, lease generation,
  progress and child run, and returns the log unchanged. A call that raises after it wrote a record is
  outside the theorem, and rightly so: a transfer with too long a reason leaves a record its log does not
  describe (\<open>transfer_long_reason_moves_owner\<close>).
\<close>

theorem replay_rebuilds_record:
  assumes "init_ledger sid rid dsha defs duration c = Inr L0" "clean_step\<^sup>*\<^sup>* L0 L"
    and "dict_get (records L) tid = Some r"
  shows "\<exists>r'. replay_task (definition_of r) (events r) = Inr r' \<and> tstate r' = tstate r \<and>
    owner r' = owner r \<and> lease_generation r' = lease_generation r \<and> progress r' = progress r \<and>
    child_run r' = child_run r \<and> events r' = events r"
proof -
  from evidence.reach_inv [OF assms(2)] init_ledger_inv [OF assms(1)] init_ledger_evidenced [OF assms(1)]
  have "ledger_inv L" "evidenced L" by auto
  with assms(3) have "record_inv L tid r" "log_inv L tid r" "evidence_current r"
    by (auto simp: ledger_inv_def evidenced_def)
  then show ?thesis by (auto simp: record_inv_def log_inv_def replay_current)
qed

theorem replay_rebuilds_record_witness:
  "\<exists>r r'. dict_get (records sample_L2) ''t1'' = Some r \<and>
     replay_task (definition_of r) (events r) = Inr r' \<and> owner r' = Some ''v2''"
proof -
  obtain r where r: "dict_get (records sample_L2) ''t1'' = Some r" "owner r = Some ''v2''"
    using transfer_Inr [OF sample_transfer_ok] by auto
  with replay_rebuilds_record [OF sample_init_ok sample_steps(4) r(1)] show ?thesis by auto
qed

text \<open>
  \<open>transfer\<close> validates its reason only when the evidence event is built, after the record was
  replaced. With a reason of more than 500 characters, a transfer that would otherwise succeed raises,
  and yet the task already belongs to the incoming vehicle under the next generation.
\<close>

theorem transfer_long_reason_moves_owner:
  assumes "transfer tid v w g capabilities battery reason now_s L = (Inr u, L1)" "500 < length x"
  shows "\<exists>L2 u2. transfer tid v w g capabilities battery x now_s L = (Inl (ValidationError ''TaskEvidenceEvent''), L2) \<and>
    dict_get (records L2) tid = Some u2 \<and> owner u2 = Some w \<and> lease_generation u2 = lease_generation u"
proof -
  obtain r l L2 where r: "lease_generation u = lease_generation r + 1" and
    eq: "\<forall>x. transfer tid v w g capabilities battery x now_s L
       = emit tid ''TASK_OWNERSHIP_TRANSFERRED'' (Some x) (put_record tid
           (r\<lparr>tstate := TS_ASSIGNED, owner := Some w, lease := Some l,
              lease_generation := lease_generation r + 1, attempts := attempts r + 1,
              decision := Some TD_REASSIGN, terminal_reason := Some x, child_run := None\<rparr>) L2)"
    by (rule transfer_before_emit [OF assms(1)])
  let ?r = "r\<lparr>tstate := TS_ASSIGNED, owner := Some w, lease := Some l,
              lease_generation := lease_generation r + 1, attempts := attempts r + 1,
              decision := Some TD_REASSIGN, terminal_reason := Some x, child_run := None\<rparr>"
  obtain L3 where L3: "transfer tid v w g capabilities battery x now_s L
      = (Inl (ValidationError ''TaskEvidenceEvent''), L3)" "dict_get (records L3) tid = Some ?r"
    using emit_long_reason [OF assms(2), of tid "''TASK_OWNERSHIP_TRANSFERRED''" ?r L2] eq [rule_format, of x] by auto
  show ?thesis by (rule exI [of _ L3], rule exI [of _ ?r]) (simp add: L3 r)
qed

theorem transfer_long_reason_moves_owner_witness:
  "\<exists>L2 u2. transfer ''t1'' ''v1'' ''v2'' 1 {CAP_ARMING} (Some 80) (replicate 501 CHR ''x'') (Some 1) sample_L1
      = (Inl (ValidationError ''TaskEvidenceEvent''), L2) \<and> dict_get (records L2) ''t1'' = Some u2 \<and> owner u2 = Some ''v2''"
proof -
  have "500 < length (replicate 501 CHR ''x'')" by simp
  from transfer_long_reason_moves_owner [OF sample_transfer_ok this] show ?thesis by blast
qed

end
