(* ===== verification/Persistent.thy ===== *)
theory Persistent
  imports TaskLedger
begin

text \<open>
  \<open>fleet/persistent.py\<close>: the allocator of a persistent-coverage fleet and the handover state machine
  that replaces the owner of a task by a reserve vehicle. The coordinator owns a task ledger
  (\<open>TaskLedger\<close>); both read the same monotonic clock, which the model keeps in the ledger. A method
  returns its outcome together with the coordinator, so the state after an exception is visible.

  The constructors \<open>AllocationDecision\<close> and \<open>CoverageSeparation\<close> only receive fields of validated
  candidates and task definitions and cannot fail; \<open>HandoverRecord\<close>, \<open>HandoverEvent\<close> and
  \<open>PersistentCoverageResult\<close> are checked. SHA-256 over canonical JSON is the parameter \<open>sha\<close>.

  The lemmas show that takeover moves the lease atomically, that a task has at most one active
  handover and a reserve vehicle serves at most one, and that the allocator picks a best serviceable
  vehicle.
\<close>

section \<open>Data\<close>

datatype coverage_vehicle_state = CV_ACTIVE | CV_RESERVE | CV_HANDOVER | CV_RETURNING | CV_UNAVAILABLE

datatype handover_phase =
    HP_REQUESTED
  | HP_REPLACEMENT_SELECTED
  | HP_PREPARING
  | HP_TAKEOVER_PENDING
  | HP_TAKEOVER_CONFIRMED
  | HP_OUTGOING_RELEASED
  | HP_COMPLETED
  | HP_DEGRADED
  | HP_FAILED

datatype separation_threshold = SEP_CLEAR | SEP_WARNING | SEP_CRITICAL

datatype separation_action = ACT_NONE | ACT_HOLD | ACT_BLOCK_HANDOVER

datatype coverage_status = COV_SUCCEEDED | COV_DEGRADED | COV_FAILED

record coverage_candidate =
  cc_vehicle_id :: string
  cc_capabilities :: "vehicle_capability set"
  cc_battery_percent :: real
  cc_position_m :: vector3
  cc_state :: coverage_vehicle_state
  cc_connected :: bool
  cc_armed :: bool
  cc_available :: bool

definition reserve_ready :: "coverage_candidate \<Rightarrow> bool" where
  "reserve_ready c \<longleftrightarrow> cc_available c \<and> cc_connected c \<and> \<not> cc_armed c \<and> cc_state c = CV_RESERVE"

record allocation_decision =
  ad_task_id :: string
  ad_vehicle_id :: string
  ad_task_priority :: int
  ad_distance_m :: real
  ad_observed_battery_percent :: real
  ad_predicted_energy_margin_percent :: real
  ad_score :: real
  ad_reason :: string

record coverage_separation =
  cs_first_vehicle_id :: string
  cs_second_vehicle_id :: string
  cs_distance_m :: real
  cs_threshold :: separation_threshold
  cs_action :: separation_action

record handover_event =
  he_sequence :: int
  he_handover_id :: string
  he_task_id :: string
  he_phase :: handover_phase
  he_timestamp :: real
  he_outgoing_vehicle_id :: string
  he_incoming_vehicle_id :: "string option"
  he_lease_generation :: int
  he_reason :: string

record handover_record =
  ho_handover_id :: string
  ho_task_id :: string
  ho_outgoing_vehicle_id :: string
  ho_incoming_vehicle_id :: "string option"
  ho_reason :: string
  ho_phase :: handover_phase
  ho_outgoing_lease_generation :: int
  ho_incoming_lease_generation :: "int option"
  ho_requested_at :: real
  ho_replacement_ready_at :: "real option"
  ho_takeover_confirmed_at :: "real option"
  ho_outgoing_released_at :: "real option"
  ho_predicted_energy_margin_percent :: "real option"
  ho_takeover_confirmed :: bool
  ho_release_reason :: "string option"
  ho_events :: "handover_event list"

definition valid_handover_event :: "handover_event \<Rightarrow> bool" where
  "valid_handover_event e \<longleftrightarrow> 1 \<le> he_sequence e \<and> valid_identifier (he_handover_id e) \<and>
     valid_identifier (he_task_id e) \<and> 0 \<le> he_timestamp e \<and>
     valid_identifier (he_outgoing_vehicle_id e) \<and> opt_all valid_identifier (he_incoming_vehicle_id e) \<and>
     1 \<le> he_lease_generation e"

definition valid_handover_record :: "handover_record \<Rightarrow> bool" where
  "valid_handover_record h \<longleftrightarrow> valid_identifier (ho_handover_id h) \<and> valid_identifier (ho_task_id h) \<and>
     valid_identifier (ho_outgoing_vehicle_id h) \<and> opt_all valid_identifier (ho_incoming_vehicle_id h) \<and>
     1 \<le> ho_outgoing_lease_generation h \<and> opt_all (\<lambda>g. 2 \<le> g) (ho_incoming_lease_generation h) \<and>
     0 \<le> ho_requested_at h \<and> opt_all (\<lambda>t. 0 \<le> t) (ho_replacement_ready_at h) \<and>
     opt_all (\<lambda>t. 0 \<le> t) (ho_takeover_confirmed_at h) \<and> opt_all (\<lambda>t. 0 \<le> t) (ho_outgoing_released_at h)"

record coordinator =
  deployment :: deployment_manifest
  ledger_of :: task_ledger
  vehicle_states :: "(string, coverage_vehicle_state) dict"
  handovers :: "(string, handover_record) dict"
  handover_sequence :: int
  separation :: "coverage_separation list"

definition init_coordinator ::
  "(hashed \<Rightarrow> string) \<Rightarrow> string \<Rightarrow> string \<Rightarrow> deployment_manifest \<Rightarrow> real \<Rightarrow> clock \<Rightarrow> coordinator outcome" where
  "init_coordinator sha sid rid d duration c =
     (if length (fleet d) < 3 \<or> length (tasks d) < 2
        then Inl (ValueError ''persistent coverage requires at least three vehicles and two tasks'')
      else case init_ledger sid rid (sha (HDeployment d)) (tasks d) duration c of
        Inl e \<Rightarrow> Inl e
      | Inr L \<Rightarrow> Inr \<lparr>deployment = d, ledger_of = L,
          vehicle_states = fold (\<lambda>m. dict_set (fm_vehicle_id m)
            (if fm_initial_role m = ROLE_RESERVE then CV_RESERVE else CV_ACTIVE)) (fleet d) [],
          handovers = [], handover_sequence = 0, separation = []\<rparr>)"

section \<open>Helpers\<close>

definition coordinator_now :: "real option \<Rightarrow> coordinator \<Rightarrow> real \<times> coordinator" where
  "coordinator_now now_s C = (let (t, L) = ledger_now now_s (ledger_of C) in (t, C\<lparr>ledger_of := L\<rparr>))"

definition put_handover :: "string \<Rightarrow> handover_record \<Rightarrow> coordinator \<Rightarrow> coordinator" where
  "put_handover hid h C = C\<lparr>handovers := dict_set hid h (handovers C)\<rparr>"

definition set_vehicle_state :: "string \<Rightarrow> coverage_vehicle_state \<Rightarrow> coordinator \<Rightarrow> coordinator" where
  "set_vehicle_state vid s C = C\<lparr>vehicle_states := dict_set vid s (vehicle_states C)\<rparr>"

definition handover_of :: "string \<Rightarrow> coordinator \<Rightarrow> handover_record outcome" where
  "handover_of hid C =
     (case dict_get (handovers C) hid of
        Some h \<Rightarrow> Inr h
      | None \<Rightarrow> Inl (CrazySwarmError INVALID_COMMAND ''unknown handover''))"

fun candidate_of :: "coverage_candidate list \<Rightarrow> string \<Rightarrow> coverage_candidate outcome" where
  "candidate_of [] vid = Inl (CrazySwarmError IDENTITY_MISMATCH ''handover vehicle is unavailable'')"
| "candidate_of (c # cs) vid = (if cc_vehicle_id c = vid then Inr c else candidate_of cs vid)"

text \<open>
  \<open>_event\<close>: the counter is advanced before the event is validated. \<open>incoming_generation or
  outgoing_generation\<close> falls back for 0 as well as for None.
\<close>

definition handover_event_generation :: "handover_record \<Rightarrow> int" where
  "handover_event_generation h =
     (case ho_incoming_lease_generation h of
        Some g \<Rightarrow> if g = 0 then ho_outgoing_lease_generation h else g
      | None \<Rightarrow> ho_outgoing_lease_generation h)"

definition stamp_handover ::
  "handover_phase \<times> string \<times> real \<Rightarrow> handover_record \<Rightarrow> coordinator \<Rightarrow> handover_record outcome \<times> coordinator" where
  "stamp_handover i h C =
     (let (phase, reason, timestamp) = i;
          C1 = C\<lparr>handover_sequence := handover_sequence C + 1\<rparr>;
          ev = \<lparr>he_sequence = handover_sequence C1, he_handover_id = ho_handover_id h,
            he_task_id = ho_task_id h, he_phase = phase, he_timestamp = timestamp,
            he_outgoing_vehicle_id = ho_outgoing_vehicle_id h,
            he_incoming_vehicle_id = ho_incoming_vehicle_id h,
            he_lease_generation = handover_event_generation h, he_reason = reason\<rparr>
      in if valid_handover_event ev then (Inr (h\<lparr>ho_phase := phase, ho_events := ho_events h @ [ev]\<rparr>), C1)
         else (Inl (ValidationError ''HandoverEvent''), C1))"

definition terminal_phase :: "handover_phase \<Rightarrow> bool" where
  "terminal_phase p \<longleftrightarrow> p \<in> {HP_COMPLETED, HP_DEGRADED, HP_FAILED}"

section \<open>Selection and allocation\<close>

definition serviceable :: "task_definition \<Rightarrow> bool \<Rightarrow> coverage_candidate \<Rightarrow> bool" where
  "serviceable d allow c \<longleftrightarrow> td_required_capabilities d \<subseteq> cc_capabilities c \<and>
     \<not> (cc_battery_percent c - required_energy d < 0 \<and> \<not> allow)"

definition decision_for :: "string \<Rightarrow> task_definition \<Rightarrow> zone_definition \<Rightarrow> coverage_candidate \<Rightarrow> allocation_decision" where
  "decision_for tid d z c =
     (let margin = cc_battery_percent c - required_energy d;
          gap = distance (cc_position_m c) (center_m (geometry z))
      in \<lparr>ad_task_id = tid, ad_vehicle_id = cc_vehicle_id c, ad_task_priority = td_priority d,
          ad_distance_m = gap, ad_observed_battery_percent = cc_battery_percent c,
          ad_predicted_energy_margin_percent = margin,
          ad_score = of_int (td_priority d) * 1000 + margin - gap * 10,
          ad_reason = ''capability, availability, energy margin, distance, and priority''\<rparr>)"

definition decision_key :: "allocation_decision \<Rightarrow> real \<times> string" where
  "decision_key a = (ad_score a, ad_vehicle_id a)"

definition select :: "string \<Rightarrow> coverage_candidate list \<Rightarrow> bool \<Rightarrow> coordinator \<Rightarrow> allocation_decision outcome" where
  "select tid candidates allow C =
     (case record_of tid (ledger_of C) of
        Inl e \<Rightarrow> Inl e
      | Inr r \<Rightarrow>
          let d = definition_of r in
          (case find (\<lambda>z. zone_id z = td_zone_id d) (zones (deployment C)) of
             None \<Rightarrow> Inl StopIteration
           | Some z \<Rightarrow>
               (case map (decision_for tid d z) (filter (serviceable d allow) candidates) of
                  [] \<Rightarrow> Inl (CrazySwarmError PREFLIGHT_FAILED
                         ''no serviceable vehicle satisfies coverage allocation'')
                | a # as \<Rightarrow> Inr (max_by decision_key a as))))"

definition initially_eligible ::
  "string list \<Rightarrow> (string, string) dict option \<Rightarrow> string \<Rightarrow> coverage_candidate \<Rightarrow> bool" where
  "initially_eligible claimed preferred tid c \<longleftrightarrow>
     cc_vehicle_id c \<notin> set claimed \<and> cc_available c \<and> cc_connected c \<and> cc_state c = CV_ACTIVE \<and>
     (case preferred of None \<Rightarrow> True | Some p \<Rightarrow> dict_get p tid = Some (cc_vehicle_id c))"

fun allocate_loop ::
  "task_definition list \<Rightarrow> (string, coverage_candidate) dict \<Rightarrow> bool \<Rightarrow> (string, string) dict option \<Rightarrow>
   real option \<Rightarrow> allocation_decision list \<Rightarrow> string list \<Rightarrow> coordinator \<Rightarrow>
   allocation_decision list outcome \<times> coordinator" where
  "allocate_loop [] available allow preferred now_s decisions claimed C = (Inr decisions, C)"
| "allocate_loop (d # ds) available allow preferred now_s decisions claimed C =
     (case select (td_task_id d)
         (filter (initially_eligible claimed preferred (td_task_id d)) (dict_values available)) allow C of
        Inl e \<Rightarrow> (Inl e, C)
      | Inr a \<Rightarrow>
          (case dict_get available (ad_vehicle_id a) of
             None \<Rightarrow> (Inl KeyError, C)
           | Some c \<Rightarrow>
               (case assign (td_task_id d) (ad_vehicle_id a) (cc_capabilities c)
                   (Some (cc_battery_percent c)) allow now_s (ledger_of C) of
                  (Inl e, L) \<Rightarrow> (Inl e, C\<lparr>ledger_of := L\<rparr>)
                | (Inr _, L) \<Rightarrow>
                    allocate_loop ds available allow preferred now_s (decisions @ [a])
                      (ad_vehicle_id a # claimed) (C\<lparr>ledger_of := L\<rparr>))))"

definition allocate_initial ::
  "coverage_candidate list \<Rightarrow> bool \<Rightarrow> (string, string) dict option \<Rightarrow> real option \<Rightarrow> coordinator \<Rightarrow>
   allocation_decision list outcome \<times> coordinator" where
  "allocate_initial candidates allow preferred now_s C =
     (let available = fold (\<lambda>c. dict_set (cc_vehicle_id c) c) candidates [];
          ordered = sort_key (\<lambda>d. (- td_priority d, td_task_id d)) (tasks (deployment C))
      in case allocate_loop ordered available allow preferred now_s [] [] C of
           (Inl e, C') \<Rightarrow> (Inl e, C')
         | (Inr decisions, C') \<Rightarrow>
             if length decisions \<noteq> length (tasks (deployment C))
               then (Inl (CrazySwarmError PREFLIGHT_FAILED ''coverage allocation is incomplete''), C')
             else (Inr decisions, C'))"

section \<open>Separation\<close>

definition classify_separation :: "fleet_constraints \<Rightarrow> real \<Rightarrow> separation_threshold \<times> separation_action" where
  "classify_separation k gap =
     (if gap \<le> critical_separation_m k then (SEP_CRITICAL, ACT_BLOCK_HANDOVER)
      else if gap \<le> warning_separation_m k then (SEP_WARNING, ACT_HOLD)
      else (SEP_CLEAR, ACT_NONE))"

definition observe_pair :: "fleet_constraints \<Rightarrow> coverage_candidate \<Rightarrow> coverage_candidate \<Rightarrow> coverage_separation" where
  "observe_pair k a b =
     (let gap = distance (cc_position_m a) (cc_position_m b);
          (threshold, action) = classify_separation k gap
      in \<lparr>cs_first_vehicle_id = cc_vehicle_id a, cs_second_vehicle_id = cc_vehicle_id b,
          cs_distance_m = gap, cs_threshold = threshold, cs_action = action\<rparr>)"

fun observe_pairs :: "fleet_constraints \<Rightarrow> coverage_candidate list \<Rightarrow> coverage_separation list" where
  "observe_pairs k [] = []"
| "observe_pairs k (a # bs) = map (observe_pair k a) bs @ observe_pairs k bs"

definition enforce_separation ::
  "coverage_candidate list \<Rightarrow> coordinator \<Rightarrow> coverage_separation list outcome \<times> coordinator" where
  "enforce_separation candidates C =
     (let positioned = sort_key cc_vehicle_id (filter cc_available candidates);
          observations = observe_pairs (constraints (deployment C)) positioned;
          C' = C\<lparr>separation := separation C @ observations\<rparr>
      in if list_ex (\<lambda>s. cs_threshold s = SEP_CRITICAL) observations
           then (Inl (CrazySwarmError PREFLIGHT_FAILED ''critical separation blocks handover''), C')
         else (Inr observations, C'))"

section \<open>Handover\<close>

definition current_owners :: "task_ledger \<Rightarrow> string list" where
  "current_owners L = filter (\<lambda>v. v \<noteq> []) (List.map_filter owner (all_records L))"

definition reserved_vehicles :: "coordinator \<Rightarrow> string option list" where
  "reserved_vehicles C =
     map ho_incoming_vehicle_id (filter (\<lambda>h. \<not> terminal_phase (ho_phase h)) (dict_values (handovers C)))"

definition reserve_eligible :: "coordinator \<Rightarrow> coverage_candidate \<Rightarrow> bool" where
  "reserve_eligible C c \<longleftrightarrow> reserve_ready c \<and> cc_vehicle_id c \<notin> set (current_owners (ledger_of C)) \<and>
     Some (cc_vehicle_id c) \<notin> set (reserved_vehicles C)"

definition active_handover :: "string \<Rightarrow> handover_record \<Rightarrow> bool" where
  "active_handover tid h \<longleftrightarrow> ho_task_id h = tid \<and> \<not> terminal_phase (ho_phase h)"

definition handover_id_for :: "string \<Rightarrow> int \<Rightarrow> string" where
  "handover_id_for tid g = ''handover-'' @ tid @ ''-'' @ show_int (g + 1)"

definition requested_handover :: "string \<Rightarrow> string \<Rightarrow> int \<Rightarrow> string \<Rightarrow> real \<Rightarrow> handover_record" where
  "requested_handover tid outgoing g reason t =
     \<lparr>ho_handover_id = handover_id_for tid g, ho_task_id = tid, ho_outgoing_vehicle_id = outgoing,
      ho_incoming_vehicle_id = None, ho_reason = reason, ho_phase = HP_REQUESTED,
      ho_outgoing_lease_generation = g, ho_incoming_lease_generation = None, ho_requested_at = t,
      ho_replacement_ready_at = None, ho_takeover_confirmed_at = None, ho_outgoing_released_at = None,
      ho_predicted_energy_margin_percent = None, ho_takeover_confirmed = False,
      ho_release_reason = None, ho_events = []\<rparr>"

text \<open>The part of \<open>begin_handover\<close> that follows a successful selection.\<close>

definition prepare_replacement ::
  "allocation_decision \<Rightarrow> string \<Rightarrow> real \<Rightarrow> handover_record \<Rightarrow> coordinator \<Rightarrow>
   handover_record outcome \<times> coordinator" where
  "prepare_replacement a reason t h C =
     (case stamp_handover (HP_REPLACEMENT_SELECTED, reason, t)
         (h\<lparr>ho_incoming_vehicle_id := Some (ad_vehicle_id a), ho_phase := HP_PREPARING,
            ho_predicted_energy_margin_percent := Some (ad_predicted_energy_margin_percent a)\<rparr>) C of
        (Inl e, C1) \<Rightarrow> (Inl e, C1)
      | (Inr h1, C1) \<Rightarrow>
          (case stamp_handover (HP_PREPARING, ''replacement preparation started'', t) h1 C1 of
             (Inl e, C2) \<Rightarrow> (Inl e, C2)
           | (Inr h2, C2) \<Rightarrow>
               (Inr h2, put_handover (ho_handover_id h) h2
                          (set_vehicle_state (ad_vehicle_id a) CV_HANDOVER C2))))"

text \<open>The \<open>try ... except CrazySwarmError\<close> around the selection, and what follows it.\<close>

definition settle_request ::
  "string \<Rightarrow> string \<Rightarrow> coverage_candidate list \<Rightarrow> real \<Rightarrow> handover_record \<Rightarrow> coordinator \<Rightarrow>
   handover_record outcome \<times> coordinator" where
  "settle_request tid reason candidates t h C =
     (case select tid (filter (reserve_eligible C) candidates) False C of
        Inr a \<Rightarrow> prepare_replacement a reason t h C
      | Inl (CrazySwarmError c m) \<Rightarrow>
          (case stamp_handover (HP_DEGRADED, ''NO_SERVICEABLE_RESERVE'', t)
              (h\<lparr>ho_phase := HP_DEGRADED\<rparr>) C of
             (Inl e, C1) \<Rightarrow> (Inl e, C1)
           | (Inr u, C1) \<Rightarrow> (Inr u, put_handover (ho_handover_id h) u C1))
      | Inl e \<Rightarrow> (Inl e, C))"

definition begin_handover ::
  "string \<Rightarrow> string \<Rightarrow> coverage_candidate list \<Rightarrow> real option \<Rightarrow> coordinator \<Rightarrow>
   handover_record outcome \<times> coordinator" where
  "begin_handover tid reason candidates now_s C =
     (case record_of tid (ledger_of C) of
        Inl e \<Rightarrow> (Inl e, C)
      | Inr r \<Rightarrow>
          if owner r = None \<or> lease r = None
            then (Inl (CrazySwarmError INVALID_STATE ''task has no current owner''), C)
          else if list_ex (active_handover tid) (dict_values (handovers C))
            then (Inl (CrazySwarmError INVALID_STATE ''task already has an active handover''), C)
          else let (t, C1) = coordinator_now now_s C;
                   h = requested_handover tid (the (owner r)) (lease_generation r) reason t in
            if \<not> valid_handover_record h then (Inl (ValidationError ''HandoverRecord''), C1)
            else (case stamp_handover (HP_REQUESTED, reason, t) h C1 of
                (Inl e, C2) \<Rightarrow> (Inl e, C2)
              | (Inr h1, C2) \<Rightarrow> settle_request tid reason candidates t h1 C2))"

definition confirm_replacement_ready ::
  "string \<Rightarrow> coverage_candidate list \<Rightarrow> real option \<Rightarrow> coordinator \<Rightarrow> handover_record outcome \<times> coordinator" where
  "confirm_replacement_ready hid candidates now_s C =
     (case handover_of hid C of
        Inl e \<Rightarrow> (Inl e, C)
      | Inr h \<Rightarrow>
          (case ho_incoming_vehicle_id h of
             None \<Rightarrow> (Inl (CrazySwarmError INVALID_STATE ''handover is not preparing''), C)
           | Some vid \<Rightarrow>
               if ho_phase h \<noteq> HP_PREPARING
                 then (Inl (CrazySwarmError INVALID_STATE ''handover is not preparing''), C)
               else (case candidate_of candidates vid of
                   Inl e \<Rightarrow> (Inl e, C)
                 | Inr c \<Rightarrow>
                     if \<not> cc_connected c \<or> \<not> cc_available c
                       then (Inl (CrazySwarmError PREFLIGHT_FAILED ''replacement is unavailable''), C)
                     else let (t, C1) = coordinator_now now_s C in
                       (case stamp_handover (HP_TAKEOVER_PENDING,
                             ''replacement ready; outgoing lease retained'', t)
                           (h\<lparr>ho_phase := HP_TAKEOVER_PENDING, ho_replacement_ready_at := Some t\<rparr>) C1 of
                          (Inl e, C2) \<Rightarrow> (Inl e, C2)
                        | (Inr u, C2) \<Rightarrow> (Inr u, put_handover hid u C2)))))"

definition confirm_takeover ::
  "string \<Rightarrow> coverage_candidate list \<Rightarrow> real option \<Rightarrow> coordinator \<Rightarrow> handover_record outcome \<times> coordinator" where
  "confirm_takeover hid candidates now_s C =
     (case handover_of hid C of
        Inl e \<Rightarrow> (Inl e, C)
      | Inr h \<Rightarrow>
          (case ho_incoming_vehicle_id h of
             None \<Rightarrow> (Inl (CrazySwarmError INVALID_STATE ''replacement is not ready for takeover''), C)
           | Some vid \<Rightarrow>
               if ho_phase h \<noteq> HP_TAKEOVER_PENDING
                 then (Inl (CrazySwarmError INVALID_STATE ''replacement is not ready for takeover''), C)
               else (case candidate_of candidates vid of
                   Inl e \<Rightarrow> (Inl e, C)
                 | Inr c \<Rightarrow>
                     (case enforce_separation candidates C of
                        (Inl e, C1) \<Rightarrow> (Inl e, C1)
                      | (Inr _, C1) \<Rightarrow>
                          let (t, C2) = coordinator_now now_s C1 in
                          (case transfer (ho_task_id h) (ho_outgoing_vehicle_id h) (cc_vehicle_id c)
                              (ho_outgoing_lease_generation h) (cc_capabilities c)
                              (Some (cc_battery_percent c)) (ho_reason h) (Some t) (ledger_of C2) of
                             (Inl e, L) \<Rightarrow> (Inl e, C2\<lparr>ledger_of := L\<rparr>)
                           | (Inr r, L) \<Rightarrow>
                               (case stamp_handover (HP_TAKEOVER_CONFIRMED,
                                     ''atomic task lease transfer confirmed'', t)
                                   (h\<lparr>ho_phase := HP_TAKEOVER_CONFIRMED,
                                      ho_incoming_lease_generation := Some (lease_generation r),
                                      ho_takeover_confirmed_at := Some t,
                                      ho_takeover_confirmed := True\<rparr>) (C2\<lparr>ledger_of := L\<rparr>) of
                                  (Inl e, C3) \<Rightarrow> (Inl e, C3)
                                | (Inr u, C3) \<Rightarrow>
                                    (Inr u, put_handover hid u
                                       (set_vehicle_state (ho_outgoing_vehicle_id h) CV_RETURNING
                                          (set_vehicle_state (cc_vehicle_id c) CV_ACTIVE C3)))))))))"

definition release_outgoing ::
  "string \<Rightarrow> string \<Rightarrow> real option \<Rightarrow> coordinator \<Rightarrow> handover_record outcome \<times> coordinator" where
  "release_outgoing hid reason now_s C =
     (case handover_of hid C of
        Inl e \<Rightarrow> (Inl e, C)
      | Inr h \<Rightarrow>
          if ho_phase h \<noteq> HP_TAKEOVER_CONFIRMED \<or> \<not> ho_takeover_confirmed h
            then (Inl (CrazySwarmError MODE_NOT_AUTHORIZED
                    ''outgoing vehicle cannot be released before confirmed takeover''), C)
          else let (t, C1) = coordinator_now now_s C in
            (case stamp_handover (HP_OUTGOING_RELEASED, reason, t)
                (h\<lparr>ho_phase := HP_OUTGOING_RELEASED, ho_outgoing_released_at := Some t,
                   ho_release_reason := Some reason\<rparr>) C1 of
               (Inl e, C2) \<Rightarrow> (Inl e, C2)
             | (Inr h1, C2) \<Rightarrow>
                 (case stamp_handover (HP_COMPLETED, ''handover completed'', t)
                     (h1\<lparr>ho_phase := HP_COMPLETED\<rparr>) C2 of
                    (Inl e, C3) \<Rightarrow> (Inl e, C3)
                  | (Inr u, C3) \<Rightarrow> (Inr u, put_handover hid u C3))))"

definition reset_incoming :: "handover_record \<Rightarrow> coverage_vehicle_state \<Rightarrow> coordinator \<Rightarrow> coordinator" where
  "reset_incoming h s C =
     (case ho_incoming_vehicle_id h of None \<Rightarrow> C | Some vid \<Rightarrow> set_vehicle_state vid s C)"

definition terminate_handover ::
  "string \<Rightarrow> string \<Rightarrow> bool \<Rightarrow> real option \<Rightarrow> coordinator \<Rightarrow> handover_record outcome \<times> coordinator" where
  "terminate_handover hid reason failed now_s C =
     (case handover_of hid C of
        Inl e \<Rightarrow> (Inl e, C)
      | Inr h \<Rightarrow>
          if ho_takeover_confirmed h \<or> ho_phase h = HP_COMPLETED
            then (Inl (CrazySwarmError INVALID_STATE
                    ''confirmed or completed handover cannot be terminated as unconfirmed''), C)
          else let (t, C1) = coordinator_now now_s C;
                   phase = (if failed then HP_FAILED else HP_DEGRADED) in
            (case stamp_handover (phase, reason, t)
                (h\<lparr>ho_phase := phase, ho_release_reason := Some reason\<rparr>) C1 of
               (Inl e, C2) \<Rightarrow> (Inl e, C2)
             | (Inr u, C2) \<Rightarrow> (Inr u, put_handover hid u (reset_incoming h CV_RESERVE C2))))"

definition fail_handover ::
  "string \<Rightarrow> string \<Rightarrow> real option \<Rightarrow> coordinator \<Rightarrow> handover_record outcome \<times> coordinator" where
  "fail_handover hid reason now_s C =
     (case handover_of hid C of
        Inl e \<Rightarrow> (Inl e, C)
      | Inr h \<Rightarrow>
          if ho_phase h = HP_FAILED then (Inr h, C)
          else let (t, C1) = coordinator_now now_s C in
            (case stamp_handover (HP_FAILED, reason, t)
                (h\<lparr>ho_phase := HP_FAILED, ho_release_reason := Some reason\<rparr>) C1 of
               (Inl e, C2) \<Rightarrow> (Inl e, C2)
             | (Inr u, C2) \<Rightarrow> (Inr u, put_handover hid u (reset_incoming h CV_UNAVAILABLE C2))))"

section \<open>Outcome of a coverage run\<close>

record coverage_result =
  cr_status :: coverage_status
  cr_reason_code :: string
  cr_active_owners :: "(string, string) dict"
  cr_handovers :: "handover_record list"
  cr_separation :: "coverage_separation list"
  cr_normalized_outcome_sha256 :: string

text \<open>The two values \<open>canonical_sha256\<close> is applied to: a handover summary and the run summary.\<close>

datatype coverage_hashed =
    HHandover string string string "string option" handover_phase int "int option" bool "string option"
  | HOutcome coverage_status "(string, string) dict" "string list"
      "(string \<times> string \<times> separation_threshold \<times> separation_action \<times> real) list"

text \<open>Python's \<open>round(x, 6)\<close>: to the nearest multiple, ties to even.\<close>

definition round6 :: "real \<Rightarrow> real" where
  "round6 x = (let y = x * 1000000; f = \<lfloor>y\<rfloor>; d = y - of_int f in
     of_int (if d < 1 / 2 \<or> (d = 1 / 2 \<and> even f) then f else f + 1) / 1000000)"

definition handover_normalized_sha256 :: "(coverage_hashed \<Rightarrow> string) \<Rightarrow> handover_record \<Rightarrow> string" where
  "handover_normalized_sha256 sha h =
     sha (HHandover (ho_handover_id h) (ho_task_id h) (ho_outgoing_vehicle_id h) (ho_incoming_vehicle_id h)
       (ho_phase h) (ho_outgoing_lease_generation h) (ho_incoming_lease_generation h)
       (ho_takeover_confirmed h) (ho_release_reason h))"

definition active_owners :: "task_ledger \<Rightarrow> (string, string) dict" where
  "active_owners L =
     fold (\<lambda>r d. case owner r of None \<Rightarrow> d | Some v \<Rightarrow> dict_set (td_task_id (definition_of r)) v d)
       (all_records L) []"

definition coverage_outcome :: "(coverage_hashed \<Rightarrow> string) \<Rightarrow> coordinator \<Rightarrow> coverage_result outcome" where
  "coverage_outcome sha C =
     (let hs = map (\<lambda>k. the (dict_get (handovers C) k)) (sort (dict_keys (handovers C)));
          degraded = list_ex (\<lambda>h. ho_phase h = HP_DEGRADED) hs;
          failed = list_ex (\<lambda>h. ho_phase h = HP_FAILED) hs;
          status = (if failed then COV_FAILED else if degraded then COV_DEGRADED else COV_SUCCEEDED);
          owners = active_owners (ledger_of C);
          res = \<lparr>cr_status = status,
            cr_reason_code = (case status of COV_SUCCEEDED \<Rightarrow> ''COVERAGE_MAINTAINED''
              | COV_DEGRADED \<Rightarrow> ''NO_SERVICEABLE_RESERVE'' | COV_FAILED \<Rightarrow> ''HANDOVER_FAILED''),
            cr_active_owners = owners, cr_handovers = hs, cr_separation = separation C,
            cr_normalized_outcome_sha256 =
              sha (HOutcome status owners (map (handover_normalized_sha256 sha) hs)
                (map (\<lambda>s. (cs_first_vehicle_id s, cs_second_vehicle_id s, cs_threshold s, cs_action s,
                   round6 (cs_distance_m s))) (separation C)))\<rparr>
      in if list_all (\<lambda>(k, v). valid_identifier k \<and> valid_identifier v) owners \<and>
            valid_sha256 (cr_normalized_outcome_sha256 res)
         then Inr res else Inl (ValidationError ''PersistentCoverageResult''))"

section \<open>Method summaries\<close>

lemma handover_of_Inr [simp]: "handover_of hid C = Inr h \<longleftrightarrow> dict_get (handovers C) hid = Some h"
  by (simp add: handover_of_def split: option.splits)

lemma coordinator_now_moves:
  assumes "coordinator_now n C = (t, C1)"
  obtains L where "C1 = C\<lparr>ledger_of := L\<rparr>" "quiet (ledger_of C) L"
  using assms by (auto simp: coordinator_now_def dest!: ledger_now_quiet split: prod.splits)

lemma stamp_handover_moves:
  assumes "stamp_handover (p, reason, t) h C = (res, C')"
  shows "C' = C\<lparr>handover_sequence := handover_sequence C + 1\<rparr>"
    and "res = Inr u \<Longrightarrow> \<exists>e. u = h\<lparr>ho_phase := p, ho_events := ho_events h @ [e]\<rparr> \<and>
      he_sequence e = handover_sequence C + 1 \<and> valid_identifier (ho_handover_id h) \<and>
      valid_identifier (ho_task_id h) \<and> valid_identifier (ho_outgoing_vehicle_id h) \<and>
      opt_all valid_identifier (ho_incoming_vehicle_id h) \<and> 0 \<le> t"
  using assms by (auto simp: stamp_handover_def valid_handover_event_def Let_def split: if_splits)

interpretation handover_log: numbered_log stamp_handover ho_events he_sequence handover_sequence
proof
  fix i :: "handover_phase \<times> string \<times> real" and h C
  show "handover_sequence (snd (stamp_handover i h C)) = handover_sequence C + 1"
    by (auto simp: stamp_handover_def Let_def split: prod.splits)
next
  fix i :: "handover_phase \<times> string \<times> real" and h C h' C'
  assume "stamp_handover i h C = (Inr h', C')"
  moreover obtain p reason t where "i = (p, reason, t)" by (cases i)
  ultimately show "\<exists>e. ho_events h' = ho_events h @ [e] \<and> he_sequence e = handover_sequence C + 1"
    using stamp_handover_moves(2) by fastforce
qed

lemma put_handover_simps [simp]:
  "handovers (put_handover hid h C) = dict_set hid h (handovers C)"
  "ledger_of (put_handover hid h C) = ledger_of C"
  "deployment (put_handover hid h C) = deployment C"
  "handover_sequence (put_handover hid h C) = handover_sequence C"
  "vehicle_states (put_handover hid h C) = vehicle_states C"
  by (simp_all add: put_handover_def)

lemma set_vehicle_state_simps [simp]:
  "handovers (set_vehicle_state vid s C) = handovers C"
  "ledger_of (set_vehicle_state vid s C) = ledger_of C"
  "deployment (set_vehicle_state vid s C) = deployment C"
  "handover_sequence (set_vehicle_state vid s C) = handover_sequence C"
  "vehicle_states (set_vehicle_state vid s C) = dict_set vid s (vehicle_states C)"
  by (simp_all add: set_vehicle_state_def)

lemma reset_incoming_simps [simp]:
  "handovers (reset_incoming h s C) = handovers C"
  "ledger_of (reset_incoming h s C) = ledger_of C"
  "deployment (reset_incoming h s C) = deployment C"
  "handover_sequence (reset_incoming h s C) = handover_sequence C"
  by (simp_all add: reset_incoming_def split: option.splits)

lemma candidate_of_Inr: "candidate_of cs vid = Inr c \<Longrightarrow> c \<in> set cs \<and> cc_vehicle_id c = vid"
  by (induction cs vid rule: candidate_of.induct) (auto split: if_splits)

lemma enforce_separation_moves:
  "enforce_separation cs C = (res, C') \<Longrightarrow> \<exists>s. C' = C\<lparr>separation := s\<rparr>"
  by (auto simp: enforce_separation_def Let_def split: if_splits)

section \<open>The coordinator invariant\<close>

definition handover_ok :: "int \<Rightarrow> string \<Rightarrow> handover_record \<Rightarrow> bool" where
  "handover_ok n hid h \<longleftrightarrow> ho_handover_id h = hid \<and> valid_handover_record h \<and>
     log_ok he_sequence n (ho_events h) \<and>
     ho_phase h \<notin> {HP_REQUESTED, HP_REPLACEMENT_SELECTED, HP_OUTGOING_RELEASED} \<and>
     (\<not> terminal_phase (ho_phase h) \<longrightarrow> ho_incoming_vehicle_id h \<noteq> None) \<and>
     (ho_takeover_confirmed h \<longrightarrow> ho_incoming_vehicle_id h \<noteq> None \<and>
        ho_incoming_lease_generation h = Some (ho_outgoing_lease_generation h + 1)) \<and>
     (\<not> ho_takeover_confirmed h \<longrightarrow> ho_incoming_lease_generation h = None) \<and>
     (ho_phase h \<in> {HP_TAKEOVER_CONFIRMED, HP_COMPLETED} \<longrightarrow> ho_takeover_confirmed h) \<and>
     (ho_phase h \<in> {HP_PREPARING, HP_TAKEOVER_PENDING, HP_DEGRADED} \<longrightarrow> \<not> ho_takeover_confirmed h)"

definition clashes :: "handover_record \<Rightarrow> handover_record \<Rightarrow> bool" where
  "clashes h u \<longleftrightarrow> \<not> terminal_phase (ho_phase h) \<and> \<not> terminal_phase (ho_phase u) \<and>
     (ho_task_id h = ho_task_id u \<or> ho_incoming_vehicle_id h = ho_incoming_vehicle_id u)"

definition exclusive :: "(string, handover_record) dict \<Rightarrow> bool" where
  "exclusive hs \<longleftrightarrow> (\<forall>k k' h h'. dict_get hs k = Some h \<longrightarrow> dict_get hs k' = Some h' \<longrightarrow> k \<noteq> k' \<longrightarrow> \<not> clashes h h')"

definition coordinator_inv :: "coordinator \<Rightarrow> bool" where
  "coordinator_inv C \<longleftrightarrow> ledger_inv (ledger_of C) \<and> 0 \<le> handover_sequence C \<and> dict_wf (handovers C) \<and>
     (\<forall>hid h. dict_get (handovers C) hid = Some h \<longrightarrow> handover_ok (handover_sequence C) hid h) \<and>
     exclusive (handovers C)"

text \<open>
  What one method may do: move the ledger by ledger writes, advance the counter, and replace at most
  one handover record by a consistent one that clashes with no other.
\<close>

definition admissible :: "coordinator \<Rightarrow> int \<Rightarrow> string \<Rightarrow> handover_record \<Rightarrow> bool" where
  "admissible C n hid u \<longleftrightarrow> handover_ok n hid u \<and>
     (\<forall>k h. dict_get (handovers C) k = Some h \<longrightarrow> k \<noteq> hid \<longrightarrow> \<not> clashes h u)"

definition coordinator_move :: "coordinator \<Rightarrow> coordinator \<Rightarrow> bool" where
  "coordinator_move C C' \<longleftrightarrow> deployment C' = deployment C \<and>
     ledger_write\<^sup>*\<^sup>* (ledger_of C) (ledger_of C') \<and> handover_sequence C \<le> handover_sequence C' \<and>
     (handovers C' = handovers C \<or>
      (\<exists>hid u. handovers C' = dict_set hid u (handovers C) \<and> admissible C (handover_sequence C') hid u))"

lemma valid_handover_record_update [simp]:
  "valid_handover_record (h\<lparr>ho_phase := p, ho_events := es\<rparr>) = valid_handover_record h"
  by (simp add: valid_handover_record_def)

lemma quiet_writes [intro]: "quiet L L' \<Longrightarrow> ledger_write\<^sup>*\<^sup>* L L'"
  by (intro r_into_rtranclp write_quiet)

lemma handover_ok_mono: "handover_ok n hid h \<Longrightarrow> n \<le> m \<Longrightarrow> handover_ok m hid h"
  by (auto simp: handover_ok_def intro: log_ok_mono)

lemma clashes_sym: "clashes h u = clashes u h"
  by (auto simp: clashes_def)

lemma coordinator_move_inv:
  assumes "coordinator_move C C'" "coordinator_inv C"
  shows "coordinator_inv C'"
proof -
  have L: "ledger_inv (ledger_of C')"
    using assms by (auto simp: coordinator_move_def coordinator_inv_def intro: writes.reach_inv)
  have old: "handover_ok (handover_sequence C') k h" if "dict_get (handovers C) k = Some h" for k h
    using that assms by (auto simp: coordinator_move_def coordinator_inv_def intro: handover_ok_mono)
  have n: "0 \<le> handover_sequence C'"
    using assms by (auto simp: coordinator_move_def coordinator_inv_def)
  consider "handovers C' = handovers C"
    | hid u where "handovers C' = dict_set hid u (handovers C)" "admissible C (handover_sequence C') hid u"
    using assms(1) by (auto simp: coordinator_move_def)
  then show ?thesis
  proof cases
    case 1
    with L n old assms(2) show ?thesis by (auto simp: coordinator_inv_def)
  next
    case 2
    from assms(2) have ex: "exclusive (handovers C)" by (simp add: coordinator_inv_def)
    have "exclusive (handovers C')"
      using ex 2(2) clashes_sym unfolding exclusive_def 2(1) admissible_def
      by (auto split: if_splits)
    with L n old 2 assms(2) show ?thesis by (auto simp: coordinator_inv_def admissible_def split: if_splits)
  qed
qed

lemma coordinator_move_quiet:
  assumes "deployment C' = deployment C" "ledger_write\<^sup>*\<^sup>* (ledger_of C) (ledger_of C')"
    "handover_sequence C \<le> handover_sequence C'" "handovers C' = handovers C"
  shows "coordinator_move C C'"
  using assms by (simp add: coordinator_move_def)

lemma coordinator_move_refl [simp, intro]: "coordinator_move C C"
  by (simp add: coordinator_move_def)

lemma admissible_update:
  assumes "coordinator_inv C" "dict_get (handovers C) hid = Some h" "handover_ok n hid u"
    "ho_task_id u = ho_task_id h" "ho_incoming_vehicle_id u = ho_incoming_vehicle_id h"
    "\<not> terminal_phase (ho_phase u) \<Longrightarrow> \<not> terminal_phase (ho_phase h)"
  shows "admissible C n hid u"
proof -
  have "\<not> clashes k u" if "dict_get (handovers C) i = Some k" "i \<noteq> hid" for i k
  proof -
    from assms(1) that assms(2) have "\<not> clashes k h"
      unfolding coordinator_inv_def exclusive_def by blast
    with assms(4-6) show ?thesis by (auto simp: clashes_def)
  qed
  with assms(3) show ?thesis by (auto simp: admissible_def)
qed

lemma coordinator_inv_handover:
  "coordinator_inv C \<Longrightarrow> dict_get (handovers C) hid = Some h \<Longrightarrow> handover_ok (handover_sequence C) hid h"
  by (simp add: coordinator_inv_def)

text \<open>
  The methods that change a handover stamp one event on a changed copy \<open>g\<close> of the stored record \<open>h\<close>
  and store the result. \<open>changed n h g p t\<close> says what the copy must satisfy.
\<close>

definition changed :: "handover_record \<Rightarrow> handover_record \<Rightarrow> handover_phase \<Rightarrow> real \<Rightarrow> bool" where
  "changed h g p t \<longleftrightarrow> ho_handover_id g = ho_handover_id h \<and> ho_task_id g = ho_task_id h \<and>
     ho_outgoing_vehicle_id g = ho_outgoing_vehicle_id h \<and>
     ho_incoming_vehicle_id g = ho_incoming_vehicle_id h \<and> ho_events g = ho_events h \<and>
     ho_outgoing_lease_generation g = ho_outgoing_lease_generation h \<and>
     (\<not> terminal_phase p \<longrightarrow> \<not> terminal_phase (ho_phase h)) \<and>
     (0 \<le> t \<longrightarrow> valid_handover_record h \<longrightarrow> valid_handover_record g) \<and>
     (ho_takeover_confirmed g \<longrightarrow> ho_incoming_vehicle_id h \<noteq> None \<and>
        ho_incoming_lease_generation g = Some (ho_outgoing_lease_generation h + 1)) \<and>
     (\<not> ho_takeover_confirmed g \<longrightarrow> ho_incoming_lease_generation g = None) \<and>
     p \<notin> {HP_REQUESTED, HP_REPLACEMENT_SELECTED, HP_OUTGOING_RELEASED} \<and>
     (p \<in> {HP_TAKEOVER_CONFIRMED, HP_COMPLETED} \<longrightarrow> ho_takeover_confirmed g) \<and>
     (p \<in> {HP_PREPARING, HP_TAKEOVER_PENDING, HP_DEGRADED} \<longrightarrow> \<not> ho_takeover_confirmed g)"

lemma stamp_changed:
  assumes "coordinator_inv C" "dict_get (handovers C) hid = Some h" "changed h g p t"
    "stamp_handover (p, reason, t) g C1 = (Inr u, C2)" "handover_sequence C1 = handover_sequence C"
  shows "admissible C (handover_sequence C2) hid u"
proof -
  note ok = coordinator_inv_handover [OF assms(1,2)]
  from stamp_handover_moves [OF assms(4)] obtain e where
    u: "u = g\<lparr>ho_phase := p, ho_events := ho_events g @ [e]\<rparr>" "0 \<le> t"
    and n: "handover_sequence C2 = handover_sequence C1 + 1"
    by auto
  have "log_ok he_sequence (handover_sequence C2) (ho_events u)"
    using handover_log.stamp_log_ok [OF assms(4)] ok assms(1,3,5)
    by (simp add: handover_ok_def changed_def coordinator_inv_def)
  moreover have "valid_handover_record u"
    using assms(3) ok u by (simp add: changed_def handover_ok_def)
  ultimately have "handover_ok (handover_sequence C2) hid u"
    using assms(3) ok u unfolding handover_ok_def changed_def by auto
  then show ?thesis
    using assms(3) u by (intro admissible_update [OF assms(1,2)]) (auto simp: changed_def)
qed

lemma stamp_changed_move:
  assumes "coordinator_inv C" "dict_get (handovers C) hid = Some h" "changed h g p t"
    "stamp_handover (p, reason, t) g C1 = (res, C2)"
    "deployment C1 = deployment C" "ledger_write\<^sup>*\<^sup>* (ledger_of C) (ledger_of C1)"
    "handover_sequence C1 = handover_sequence C" "handovers C1 = handovers C"
    and "\<And>e. res = Inl e \<Longrightarrow> C' = C2"
    and "\<And>u. res = Inr u \<Longrightarrow> deployment C' = deployment C2 \<and> ledger_of C' = ledger_of C2 \<and>
      handover_sequence C' = handover_sequence C2 \<and> handovers C' = dict_set hid u (handovers C2)"
  shows "coordinator_move C C'"
proof (cases res)
  case (Inl e)
  with assms stamp_handover_moves(1) [OF assms(4)] show ?thesis by (simp add: coordinator_move_def)
next
  case (Inr u)
  with stamp_changed [OF assms(1-3) _ assms(7)] assms(4)
  have "admissible C (handover_sequence C2) hid u" by simp
  with Inr assms(5-8,10) stamp_handover_moves(1) [OF assms(4)] show ?thesis
    by (auto simp: coordinator_move_def)
qed

lemma coordinator_now_ledger:
  assumes "coordinator_now n C = (t, C1)"
  shows "deployment C1 = deployment C" "ledger_write\<^sup>*\<^sup>* (ledger_of C) (ledger_of C1)"
    "handover_sequence C1 = handover_sequence C" "handovers C1 = handovers C"
    "records (ledger_of C1) = records (ledger_of C)" "quiet (ledger_of C) (ledger_of C1)"
  using assms by (auto elim!: coordinator_now_moves simp: quiet_simps)

section \<open>Every method is a permitted move\<close>

lemma confirm_replacement_ready_move:
  assumes "confirm_replacement_ready hid cs n C = (res, C')" "coordinator_inv C"
  shows "coordinator_move C C'"
proof (cases "C' = C")
  case False
  obtain t C1 where now: "coordinator_now n C = (t, C1)" by (cases "coordinator_now n C")
  from False assms(1) obtain h vid where h: "dict_get (handovers C) hid = Some h"
      "ho_incoming_vehicle_id h = Some vid" "ho_phase h = HP_PREPARING"
    by (auto simp: confirm_replacement_ready_def split: sum.splits option.splits if_splits)
  let ?g = "h\<lparr>ho_phase := HP_TAKEOVER_PENDING, ho_replacement_ready_at := Some t\<rparr>"
  obtain r2 C2 where st: "stamp_handover (HP_TAKEOVER_PENDING,
      ''replacement ready; outgoing lease retained'', t) ?g C1 = (r2, C2)" by fastforce
  have ch: "changed h ?g HP_TAKEOVER_PENDING t"
    using coordinator_inv_handover [OF assms(2) h(1)] h
    by (simp add: changed_def handover_ok_def terminal_phase_def valid_handover_record_def)
  show ?thesis
    by (rule stamp_changed_move [OF assms(2) h(1) ch st coordinator_now_ledger(1-4) [OF now]])
      (use assms(1) h now st False in
        \<open>auto simp: confirm_replacement_ready_def split: sum.splits if_splits\<close>)
qed simp

lemma terminate_handover_move:
  assumes "terminate_handover hid reason failed n C = (res, C')" "coordinator_inv C"
  shows "coordinator_move C C'"
proof (cases "C' = C")
  case False
  obtain t C1 where now: "coordinator_now n C = (t, C1)" by (cases "coordinator_now n C")
  from False assms(1) obtain h where h: "dict_get (handovers C) hid = Some h"
      "\<not> ho_takeover_confirmed h" "ho_phase h \<noteq> HP_COMPLETED"
    by (auto simp: terminate_handover_def split: sum.splits if_splits)
  let ?p = "if failed then HP_FAILED else HP_DEGRADED"
  let ?g = "h\<lparr>ho_phase := ?p, ho_release_reason := Some reason\<rparr>"
  obtain r2 C2 where st: "stamp_handover (?p, reason, t) ?g C1 = (r2, C2)" by fastforce
  have ch: "changed h ?g ?p t"
    using coordinator_inv_handover [OF assms(2) h(1)] h
    by (simp add: changed_def handover_ok_def terminal_phase_def valid_handover_record_def)
  show ?thesis
    by (rule stamp_changed_move [OF assms(2) h(1) ch st coordinator_now_ledger(1-4) [OF now]])
      (use assms(1) h now st in \<open>simp_all add: terminate_handover_def handover_of_def Let_def\<close>,
       use assms(1) h now st in \<open>auto simp: terminate_handover_def handover_of_def Let_def\<close>)
qed simp

lemma fail_handover_move:
  assumes "fail_handover hid reason n C = (res, C')" "coordinator_inv C"
  shows "coordinator_move C C'"
proof (cases "C' = C")
  case False
  obtain t C1 where now: "coordinator_now n C = (t, C1)" by (cases "coordinator_now n C")
  from False assms(1) obtain h where h: "dict_get (handovers C) hid = Some h" "ho_phase h \<noteq> HP_FAILED"
    by (auto simp: fail_handover_def split: sum.splits if_splits)
  let ?g = "h\<lparr>ho_phase := HP_FAILED, ho_release_reason := Some reason\<rparr>"
  obtain r2 C2 where st: "stamp_handover (HP_FAILED, reason, t) ?g C1 = (r2, C2)" by fastforce
  have ch: "changed h ?g HP_FAILED t"
    using coordinator_inv_handover [OF assms(2) h(1)] h
    by (simp add: changed_def handover_ok_def terminal_phase_def valid_handover_record_def)
  show ?thesis
    by (rule stamp_changed_move [OF assms(2) h(1) ch st coordinator_now_ledger(1-4) [OF now]])
      (use assms(1) h now st in \<open>auto simp: fail_handover_def handover_of_def Let_def\<close>)
qed simp

lemma release_outgoing_move:
  assumes "release_outgoing hid reason n C = (res, C')" "coordinator_inv C"
  shows "coordinator_move C C'"
proof (cases "C' = C")
  case False
  obtain t C1 where now: "coordinator_now n C = (t, C1)" by (cases "coordinator_now n C")
  from False assms(1) obtain h where h: "dict_get (handovers C) hid = Some h"
      "ho_phase h = HP_TAKEOVER_CONFIRMED" "ho_takeover_confirmed h"
    by (auto simp: release_outgoing_def split: sum.splits if_splits)
  note ok = coordinator_inv_handover [OF assms(2) h(1)]
  let ?g = "h\<lparr>ho_phase := HP_OUTGOING_RELEASED, ho_outgoing_released_at := Some t,
                   ho_release_reason := Some reason\<rparr>"
  obtain r1 C2 where st1: "stamp_handover (HP_OUTGOING_RELEASED, reason, t) ?g C1 = (r1, C2)" by fastforce
  note now1 = coordinator_now_ledger [OF now]
  note C2 = stamp_handover_moves(1) [OF st1]
  show ?thesis
  proof (cases r1)
    case (Inl e)
    with assms(1) h now st1 now1 C2 show ?thesis
      by (auto simp: release_outgoing_def handover_of_def Let_def coordinator_move_def)
  next
    case (Inr h1)
    from stamp_handover_moves(2) [OF st1 Inr] obtain e where
      h1: "h1 = ?g\<lparr>ho_phase := HP_OUTGOING_RELEASED, ho_events := ho_events h @ [e]\<rparr>" "0 \<le> t"
      by auto
    obtain r2 C3 where st2: "stamp_handover (HP_COMPLETED, ''handover completed'', t)
        (h1\<lparr>ho_phase := HP_COMPLETED\<rparr>) C2 = (r2, C3)" by fastforce
    note C3 = stamp_handover_moves(1) [OF st2]
    show ?thesis
    proof (cases r2)
      case (Inl e)
      with assms(1) h now st1 Inr st2 now1 C2 C3 show ?thesis
        by (auto simp: release_outgoing_def handover_of_def Let_def coordinator_move_def)
    next
      case u: (Inr u)
      have log1: "log_ok he_sequence (handover_sequence C2) (ho_events h1)"
        using handover_log.stamp_log_ok [OF st1 [unfolded Inr]] ok assms(2) now1
        by (simp add: handover_ok_def coordinator_inv_def)
      then have "log_ok he_sequence (handover_sequence C3) (ho_events u)"
        using handover_log.stamp_log_ok [OF st2 [unfolded u]] assms(2) now1 C2
        by (simp add: coordinator_inv_def)
      moreover obtain e' where "u = h1\<lparr>ho_phase := HP_COMPLETED, ho_events := ho_events h1 @ [e']\<rparr>"
        using stamp_handover_moves(2) [OF st2 u] by auto
      ultimately have "handover_ok (handover_sequence C3) hid u"
        "ho_task_id u = ho_task_id h" "ho_incoming_vehicle_id u = ho_incoming_vehicle_id h"
        "terminal_phase (ho_phase u)"
        using ok h h1 by (auto simp: handover_ok_def valid_handover_record_def terminal_phase_def)
      then have "admissible C (handover_sequence C3) hid u"
        by (intro admissible_update [OF assms(2) h(1)]) simp_all
      with assms(1) h now st1 Inr st2 u now1 C2 C3 show ?thesis
        by (auto simp: release_outgoing_def handover_of_def Let_def coordinator_move_def)
    qed
  qed
qed simp

lemma confirm_takeover_move:
  assumes "confirm_takeover hid cs n C = (res, C')" "coordinator_inv C"
  shows "coordinator_move C C'"
proof (cases "C' = C")
  case False
  from False assms(1) obtain h vid c where h: "dict_get (handovers C) hid = Some h"
      "ho_incoming_vehicle_id h = Some vid" "ho_phase h = HP_TAKEOVER_PENDING" "candidate_of cs vid = Inr c"
    by (auto simp: confirm_takeover_def split: sum.splits option.splits if_splits)
  obtain rs C1 where sep: "enforce_separation cs C = (rs, C1)" by fastforce
  from enforce_separation_moves [OF sep] obtain s where C1: "C1 = C\<lparr>separation := s\<rparr>" by blast
  obtain t C2 where now: "coordinator_now n C1 = (t, C2)" by (cases "coordinator_now n C1")
  note now1 = coordinator_now_ledger [OF now]
  obtain rt L where tr: "transfer (ho_task_id h) (ho_outgoing_vehicle_id h) (cc_vehicle_id c)
      (ho_outgoing_lease_generation h) (cc_capabilities c) (Some (cc_battery_percent c)) (ho_reason h)
      (Some t) (ledger_of C2) = (rt, L)" by fastforce
  have w: "ledger_write\<^sup>*\<^sup>* (ledger_of C) L"
    using rtranclp.rtrancl_into_rtrancl [OF now1(2) transfer_write [OF tr]] C1 by simp
  show ?thesis
  proof (cases rs)
    case (Inl e)
    with assms(1) h sep C1 show ?thesis
      by (auto simp: confirm_takeover_def handover_of_def intro!: coordinator_move_quiet)
  next
    case Inr
    note rs = Inr
    show ?thesis
    proof (cases rt)
      case (Inl e)
      with assms(1) h sep C1 rs now tr w now1 show ?thesis
        by (auto simp: confirm_takeover_def handover_of_def Let_def intro!: coordinator_move_quiet)
    next
      case (Inr r)
      from transfer_Inr [OF tr [unfolded Inr]] obtain r0 where
        r: "dict_get (records (ledger_of C2)) (ho_task_id h) = Some r0"
          "holds_lease r0 (ho_outgoing_vehicle_id h) (ho_outgoing_lease_generation h)"
          "lease_generation r = lease_generation r0 + 1" by blast
      have "ledger_inv (ledger_of C2)"
        using writes.reach_inv [OF now1(2)] assms(2) C1 by (simp add: coordinator_inv_def)
      with r have gen: "lease_generation r = ho_outgoing_lease_generation h + 1"
        by (metis holds_lease_generation)
      let ?g = "h\<lparr>ho_phase := HP_TAKEOVER_CONFIRMED,
          ho_incoming_lease_generation := Some (lease_generation r),
          ho_takeover_confirmed_at := Some t, ho_takeover_confirmed := True\<rparr>"
      obtain r2 C3 where st: "stamp_handover (HP_TAKEOVER_CONFIRMED,
          ''atomic task lease transfer confirmed'', t) ?g (C2\<lparr>ledger_of := L\<rparr>) = (r2, C3)" by fastforce
      have ch: "changed h ?g HP_TAKEOVER_CONFIRMED t"
        using coordinator_inv_handover [OF assms(2) h(1)] h gen
        by (simp add: changed_def handover_ok_def terminal_phase_def valid_handover_record_def)
      show ?thesis
        by (rule stamp_changed_move [OF assms(2) h(1) ch st])
          (use assms(1) h sep C1 rs now tr Inr w now1 st in
            \<open>auto simp: confirm_takeover_def handover_of_def Let_def\<close>)
    qed
  qed
qed simp

lemma select_Inr:
  assumes "select tid cs allow C = Inr a"
  shows "\<exists>r z c. dict_get (records (ledger_of C)) tid = Some r \<and>
    find (\<lambda>z. zone_id z = td_zone_id (definition_of r)) (zones (deployment C)) = Some z \<and>
    c \<in> set cs \<and> serviceable (definition_of r) allow c \<and> a = decision_for tid (definition_of r) z c \<and>
    (\<forall>c' \<in> set cs. serviceable (definition_of r) allow c' \<longrightarrow>
       decision_key (decision_for tid (definition_of r) z c') \<le> decision_key a)"
proof -
  from assms obtain r z b bs where r: "dict_get (records (ledger_of C)) tid = Some r"
    "find (\<lambda>z. zone_id z = td_zone_id (definition_of r)) (zones (deployment C)) = Some z"
    and b: "map (decision_for tid (definition_of r) z) (filter (serviceable (definition_of r) allow) cs) = b # bs"
    and a: "a = max_by decision_key b bs"
    by (auto simp: select_def Let_def split: sum.splits option.splits list.splits)
  have "a \<in> set (b # bs)" unfolding a by (rule max_by_in)
  moreover have "decision_key x \<le> decision_key a" if "x \<in> set (b # bs)" for x
    using that unfolding a by (rule max_by_ge)
  ultimately show ?thesis using r unfolding b [symmetric] by auto
qed

lemma decision_for_sel [simp]:
  "ad_task_id (decision_for tid d z c) = tid" "ad_vehicle_id (decision_for tid d z c) = cc_vehicle_id c"
  "ad_predicted_energy_margin_percent (decision_for tid d z c) = cc_battery_percent c - required_energy d"
  by (simp_all add: decision_for_def Let_def)

lemma prepare_replacement_frame:
  assumes "prepare_replacement a reason t h C = (res, C')"
  shows "deployment C' = deployment C" "ledger_of C' = ledger_of C" "handover_sequence C \<le> handover_sequence C'"
    and "res = Inl e \<Longrightarrow> handovers C' = handovers C"
  using assms
  by (auto simp: prepare_replacement_def dest!: stamp_handover_moves(1) split: prod.splits sum.splits)

lemma prepare_replacement_Inr:
  assumes "prepare_replacement a reason t h C = (Inr u, C')"
  shows "handovers C' = dict_set (ho_handover_id h) u (handovers C) \<and>
      ho_handover_id u = ho_handover_id h \<and> ho_phase u = HP_PREPARING \<and> ho_task_id u = ho_task_id h \<and>
      ho_incoming_vehicle_id u = Some (ad_vehicle_id a) \<and> valid_identifier (ad_vehicle_id a) \<and>
      ho_takeover_confirmed u = ho_takeover_confirmed h \<and>
      ho_incoming_lease_generation u = ho_incoming_lease_generation h \<and>
      ho_outgoing_vehicle_id u = ho_outgoing_vehicle_id h \<and>
      ho_outgoing_lease_generation u = ho_outgoing_lease_generation h \<and>
      ho_predicted_energy_margin_percent u = Some (ad_predicted_energy_margin_percent a) \<and>
      (valid_handover_record h \<longrightarrow> valid_handover_record u) \<and>
      (0 \<le> handover_sequence C \<longrightarrow> log_ok he_sequence (handover_sequence C) (ho_events h) \<longrightarrow>
         log_ok he_sequence (handover_sequence C') (ho_events u)) \<and>
      vehicle_states C' = dict_set (ad_vehicle_id a) CV_HANDOVER (vehicle_states C)"
proof -
  let ?g = "h\<lparr>ho_incoming_vehicle_id := Some (ad_vehicle_id a), ho_phase := HP_PREPARING,
          ho_predicted_energy_margin_percent := Some (ad_predicted_energy_margin_percent a)\<rparr>"
  from assms obtain h1 C1 C2 where
    st1: "stamp_handover (HP_REPLACEMENT_SELECTED, reason, t) ?g C = (Inr h1, C1)" and
    st2: "stamp_handover (HP_PREPARING, ''replacement preparation started'', t) h1 C1 = (Inr u, C2)" and
    C': "C' = put_handover (ho_handover_id h) u (set_vehicle_state (ad_vehicle_id a) CV_HANDOVER C2)"
    by (auto simp: prepare_replacement_def split: prod.splits sum.splits)
  from stamp_handover_moves(2) [OF st1 refl] obtain e where
    h1: "h1 = ?g\<lparr>ho_phase := HP_REPLACEMENT_SELECTED, ho_events := ho_events h @ [e]\<rparr>"
      "valid_identifier (ad_vehicle_id a)" by auto
  from stamp_handover_moves(2) [OF st2 refl] obtain e' where
    "u = h1\<lparr>ho_phase := HP_PREPARING, ho_events := ho_events h1 @ [e']\<rparr>" by blast
  moreover have "log_ok he_sequence (handover_sequence C2) (ho_events u)"
    if "0 \<le> handover_sequence C" "log_ok he_sequence (handover_sequence C) (ho_events h)"
    using handover_log.stamp_log_ok [OF st1] handover_log.stamp_log_ok [OF st2] that
      stamp_handover_moves(1) [OF st1] by simp
  ultimately show ?thesis
    using h1 stamp_handover_moves(1) [OF st1] stamp_handover_moves(1) [OF st2]
    unfolding C' by (simp add: valid_handover_record_def)
qed

lemma settle_request_frame:
  assumes "settle_request tid reason cs t h C = (res, C')"
  shows "deployment C' = deployment C" "ledger_of C' = ledger_of C" "handover_sequence C \<le> handover_sequence C'"
    and "res = Inl e \<Longrightarrow> handovers C' = handovers C"
proof -
  have "deployment C' = deployment C \<and> ledger_of C' = ledger_of C \<and>
    handover_sequence C \<le> handover_sequence C' \<and> (res = Inl e \<longrightarrow> handovers C' = handovers C)"
  proof (cases "select tid (filter (reserve_eligible C) cs) False C")
    case (Inr a)
    with assms have "prepare_replacement a reason t h C = (res, C')" by (simp add: settle_request_def)
    from prepare_replacement_frame [OF this] show ?thesis by simp
  next
    case (Inl x)
    with assms show ?thesis
      by (cases x) (auto simp: settle_request_def dest!: stamp_handover_moves(1) split: prod.splits sum.splits)
  qed
  then show "deployment C' = deployment C" "ledger_of C' = ledger_of C"
    "handover_sequence C \<le> handover_sequence C'" "res = Inl e \<Longrightarrow> handovers C' = handovers C" by simp_all
qed

text \<open>A returning \<open>begin_handover\<close> has stored the record it returns: a degraded or a prepared one.\<close>

lemma begin_handover_Inr:
  assumes "begin_handover tid reason cs n C = (Inr u, C')"
  obtains r t C1 h C2 where "dict_get (records (ledger_of C)) tid = Some r" "owner r \<noteq> None" "lease r \<noteq> None"
      "\<not> list_ex (active_handover tid) (dict_values (handovers C))" "coordinator_now n C = (t, C1)"
      "valid_handover_record (requested_handover tid (the (owner r)) (lease_generation r) reason t)"
      "stamp_handover (HP_REQUESTED, reason, t)
         (requested_handover tid (the (owner r)) (lease_generation r) reason t) C1 = (Inr h, C2)"
      "settle_request tid reason cs t h C2 = (Inr u, C')"
proof -
  obtain t C1 where now: "coordinator_now n C = (t, C1)" by (cases "coordinator_now n C")
  with assms show thesis
    by (auto simp: begin_handover_def Let_def split: sum.splits if_splits prod.splits intro: that)
qed

lemma begin_handover_frame:
  assumes "begin_handover tid reason cs n C = (res, C')"
  shows "deployment C' = deployment C" "quiet (ledger_of C) (ledger_of C')"
    "handover_sequence C \<le> handover_sequence C'" "res = Inl e \<Longrightarrow> handovers C' = handovers C"
proof -
  obtain t C1 where now: "coordinator_now n C = (t, C1)" by (cases "coordinator_now n C")
  note now1 = coordinator_now_ledger [OF now]
  have "deployment C' = deployment C \<and> quiet (ledger_of C) (ledger_of C') \<and>
    handover_sequence C \<le> handover_sequence C' \<and> (res = Inl e \<longrightarrow> handovers C' = handovers C)"
  proof (cases "record_of tid (ledger_of C)")
    case (Inl e)
    with assms show ?thesis by (auto simp: begin_handover_def)
  next
    case (Inr r)
    let ?h = "requested_handover tid (the (owner r)) (lease_generation r) reason t"
    obtain r1 C2 where st: "stamp_handover (HP_REQUESTED, reason, t) ?h C1 = (r1, C2)" by fastforce
    note C2 = stamp_handover_moves(1) [OF st]
    show ?thesis
    proof (cases "C' = C \<or> C' = C1 \<or> C' = C2")
      case True
      with now1 C2 show ?thesis by auto
    next
      case False
      with assms Inr now st obtain h where "settle_request tid reason cs t h C2 = (res, C')"
        by (auto simp: begin_handover_def Let_def split: sum.splits if_splits)
      from settle_request_frame [OF this] now1 C2 show ?thesis by auto
    qed
  qed
  then show "deployment C' = deployment C" "quiet (ledger_of C) (ledger_of C')"
    "handover_sequence C \<le> handover_sequence C'" "res = Inl e \<Longrightarrow> handovers C' = handovers C" by simp_all
qed

lemma requested_handover_sel [simp]:
  "ho_task_id (requested_handover tid v g reason t) = tid"
  "ho_outgoing_vehicle_id (requested_handover tid v g reason t) = v"
  "ho_outgoing_lease_generation (requested_handover tid v g reason t) = g"
  "ho_handover_id (requested_handover tid v g reason t) = handover_id_for tid g"
  "ho_takeover_confirmed (requested_handover tid v g reason t) = False"
  "ho_incoming_lease_generation (requested_handover tid v g reason t) = None"
  "ho_events (requested_handover tid v g reason t) = []"
  "ho_reason (requested_handover tid v g reason t) = reason"
  by (simp_all add: requested_handover_def)

lemma reserved_vehiclesI:
  "dict_get (handovers C) k = Some h \<Longrightarrow> \<not> terminal_phase (ho_phase h) \<Longrightarrow>
   ho_incoming_vehicle_id h \<in> set (reserved_vehicles C)"
  by (auto simp: reserved_vehicles_def dest!: dict_get_values)

lemma settle_request_admissible:
  assumes "settle_request tid reason cs t h C2 = (Inr u, C')" "coordinator_inv C"
    and "handovers C2 = handovers C" "0 \<le> handover_sequence C2"
    and "log_ok he_sequence (handover_sequence C2) (ho_events h)" "valid_handover_record h"
    and "\<not> ho_takeover_confirmed h" "ho_incoming_lease_generation h = None"
    and "\<not> list_ex (active_handover (ho_task_id h)) (dict_values (handovers C))"
  shows "handovers C' = dict_set (ho_handover_id h) u (handovers C) \<and>
    admissible C (handover_sequence C') (ho_handover_id h) u"
proof (cases "select tid (filter (reserve_eligible C2) cs) False C2")
  case (Inr a)
  with assms(1) have pr: "prepare_replacement a reason t h C2 = (Inr u, C')" by (simp add: settle_request_def)
  note u = prepare_replacement_Inr [OF this]
  have "reserve_eligible C2 c" if "cc_vehicle_id c = ad_vehicle_id a" "c \<in> set (filter (reserve_eligible C2) cs)" for c
    using that by simp
  then have res: "Some (ad_vehicle_id a) \<notin> set (reserved_vehicles C2)"
    using select_Inr [OF Inr] by (auto simp: reserve_eligible_def)
  have "\<not> clashes k u" if "dict_get (handovers C) i = Some k" "\<not> terminal_phase (ho_phase k)" for i k
  proof -
    from that(1) have "k \<in> set (dict_values (handovers C))" by (rule dict_get_values)
    with assms(9) that have "ho_task_id k \<noteq> ho_task_id h" by (auto simp: list_ex_iff active_handover_def)
    moreover have "ho_incoming_vehicle_id k \<noteq> Some (ad_vehicle_id a)"
      using reserved_vehiclesI [of C2 i k] that assms(3) res by auto
    ultimately show ?thesis using u by (auto simp: clashes_def)
  qed
  then have "\<not> clashes k u" if "dict_get (handovers C) i = Some k" for i k
    using that by (auto simp: clashes_def)
  moreover have "handover_ok (handover_sequence C') (ho_handover_id h) u"
    using u assms(4-8) by (simp add: handover_ok_def terminal_phase_def)
  ultimately show ?thesis using u assms(3) by (simp add: admissible_def)
next
  case (Inl x)
  with assms(1) obtain C3 where st: "stamp_handover (HP_DEGRADED, ''NO_SERVICEABLE_RESERVE'', t)
      (h\<lparr>ho_phase := HP_DEGRADED\<rparr>) C2 = (Inr u, C3)" and C': "C' = put_handover (ho_handover_id h) u C3"
    by (cases x) (auto simp: settle_request_def split: prod.splits sum.splits)
  from stamp_handover_moves(2) [OF st refl] obtain e where
    u: "u = h\<lparr>ho_phase := HP_DEGRADED, ho_events := ho_events h @ [e]\<rparr>" by auto
  have "log_ok he_sequence (handover_sequence C3) (ho_events u)"
    using handover_log.stamp_log_ok [OF st] assms(4,5) by simp
  then have "handover_ok (handover_sequence C') (ho_handover_id h) u"
    using u C' assms(6-8) by (simp add: handover_ok_def terminal_phase_def)
  moreover have "\<not> clashes k u" for k using u by (simp add: clashes_def terminal_phase_def)
  ultimately show ?thesis using C' assms(3) stamp_handover_moves(1) [OF st] by (simp add: admissible_def)
qed

lemma begin_handover_move:
  assumes "begin_handover tid reason cs n C = (res, C')" "coordinator_inv C"
  shows "coordinator_move C C'"
proof (cases res)
  case (Inl e)
  note f = begin_handover_frame [OF assms(1)]
  from f(1,3) quiet_writes [OF f(2)] f(4) [OF Inl] show ?thesis by (simp add: coordinator_move_def)
next
  case (Inr u)
  note f = begin_handover_frame [OF assms(1)]
  obtain r t C1 h C2 where
    "dict_get (records (ledger_of C)) tid = Some r" "owner r \<noteq> None" "lease r \<noteq> None" and
    r: "\<not> list_ex (active_handover tid) (dict_values (handovers C))" "coordinator_now n C = (t, C1)"
      "valid_handover_record (requested_handover tid (the (owner r)) (lease_generation r) reason t)" and
    st: "stamp_handover (HP_REQUESTED, reason, t)
         (requested_handover tid (the (owner r)) (lease_generation r) reason t) C1 = (Inr h, C2)" and
    se: "settle_request tid reason cs t h C2 = (Inr u, C')"
    by (rule begin_handover_Inr [OF assms(1) [unfolded Inr]])
  note now1 = coordinator_now_ledger [OF r(2)]
  note C2 = stamp_handover_moves(1) [OF st]
  from stamp_handover_moves(2) [OF st refl] obtain e where
    h: "h = (requested_handover tid (the (owner r)) (lease_generation r) reason t)
          \<lparr>ho_phase := HP_REQUESTED, ho_events := [e]\<rparr>" by auto
  have "log_ok he_sequence (handover_sequence C2) (ho_events h)"
    using handover_log.stamp_log_ok [OF st] now1(3) assms(2) by (simp add: coordinator_inv_def)
  moreover have "handovers C2 = handovers C" "0 \<le> handover_sequence C2"
    using now1 C2 assms(2) by (simp_all add: coordinator_inv_def)
  ultimately have "handovers C' = dict_set (ho_handover_id h) u (handovers C) \<and>
    admissible C (handover_sequence C') (ho_handover_id h) u"
    using h r(1,3) by (intro settle_request_admissible [OF se assms(2)]) simp_all
  with f(1,3) quiet_writes [OF f(2)] show ?thesis by (auto simp: coordinator_move_def)
qed

lemma coordinator_ledger_id: "\<exists>L. C = C\<lparr>ledger_of := L\<rparr>"
  by (rule exI [of _ "ledger_of C"]) simp

lemma allocate_loop_move:
  "allocate_loop ds available allow preferred n acc claimed C = (res, C') \<Longrightarrow>
   ledger_write\<^sup>*\<^sup>* (ledger_of C) (ledger_of C') \<and> (\<exists>L. C' = C\<lparr>ledger_of := L\<rparr>)"
proof (induction ds arbitrary: acc claimed C)
  case (Cons d ds)
  show ?case
  proof (cases "C' = C")
    case False
    with Cons.prems obtain a c where
      "select (td_task_id d) (filter (initially_eligible claimed preferred (td_task_id d))
         (dict_values available)) allow C = Inr a" "dict_get available (ad_vehicle_id a) = Some c"
      by (auto split: sum.splits option.splits)
    moreover obtain ra L where as: "assign (td_task_id d) (ad_vehicle_id a) (cc_capabilities c)
        (Some (cc_battery_percent c)) allow n (ledger_of C) = (ra, L)" by fastforce
    ultimately consider e where "ra = Inl e" "C' = C\<lparr>ledger_of := L\<rparr>"
      | u where "ra = Inr u" "allocate_loop ds available allow preferred n (acc @ [a])
          (ad_vehicle_id a # claimed) (C\<lparr>ledger_of := L\<rparr>) = (res, C')"
      using Cons.prems by (cases ra) auto
    then show ?thesis
    proof cases
      case 1
      with assign_write [OF as] show ?thesis by auto
    next
      case 2
      from Cons.IH [OF this(2)] assign_write [OF as] show ?thesis
        by (auto intro: converse_rtranclp_into_rtranclp)
    qed
  qed (auto intro: coordinator_ledger_id)
qed (auto intro: coordinator_ledger_id)

lemma allocate_initial_move:
  assumes "allocate_initial cs allow preferred n C = (res, C')"
  shows "coordinator_move C C'"
proof -
  from assms obtain acc res' where "allocate_loop (sort_key (\<lambda>d. (- td_priority d, td_task_id d)) (tasks (deployment C)))
      (fold (\<lambda>c. dict_set (cc_vehicle_id c) c) cs []) allow preferred n [] [] C = (res', C')"
    by (auto simp: allocate_initial_def Let_def split: prod.splits sum.splits if_splits)
  from allocate_loop_move [OF this] show ?thesis by (auto simp: coordinator_move_def)
qed

subsection \<open>Runs of the coordinator\<close>

text \<open>
  A run interleaves coordinator methods with direct ledger calls: \<open>tasks\<close> is a public attribute that
  the fleet manager uses to start, renew, update and complete tasks.
\<close>

inductive coordinator_call :: "coordinator \<Rightarrow> coordinator \<Rightarrow> bool" where
  cc_ledger: "ledger_step (ledger_of C) L \<Longrightarrow> coordinator_call C (C\<lparr>ledger_of := L\<rparr>)"
| cc_allocate: "allocate_initial cs allow preferred n C = (ares, C') \<Longrightarrow> coordinator_call C C'"
| cc_begin: "begin_handover tid reason cs n C = (res, C') \<Longrightarrow> coordinator_call C C'"
| cc_ready: "confirm_replacement_ready hid cs n C = (res, C') \<Longrightarrow> coordinator_call C C'"
| cc_takeover: "confirm_takeover hid cs n C = (res, C') \<Longrightarrow> coordinator_call C C'"
| cc_release: "release_outgoing hid reason n C = (res, C') \<Longrightarrow> coordinator_call C C'"
| cc_terminate: "terminate_handover hid reason failed n C = (res, C') \<Longrightarrow> coordinator_call C C'"
| cc_fail: "fail_handover hid reason n C = (res, C') \<Longrightarrow> coordinator_call C C'"
| cc_separation: "enforce_separation cs C = (sres, C') \<Longrightarrow> coordinator_call C C'"

lemma coordinator_call_move: "coordinator_call C C' \<Longrightarrow> coordinator_inv C \<Longrightarrow> coordinator_move C C'"
proof (induction rule: coordinator_call.induct)
  case (cc_ledger C L)
  then show ?case by (auto simp: coordinator_move_def dest: ledger_step_writes)
next
  case (cc_separation cs C sres C')
  then show ?case by (auto simp: coordinator_move_def dest!: enforce_separation_moves)
qed (auto intro: allocate_initial_move begin_handover_move confirm_replacement_ready_move
    confirm_takeover_move release_outgoing_move terminate_handover_move fail_handover_move)

interpretation coordination: monotone_system coordinator_call coordinator_inv
  "\<lambda>C. dict_get (records (ledger_of C))" all_advance
proof
  fix C C' assume c: "coordinator_call C C'" "coordinator_inv C"
  note move = coordinator_call_move [OF this]
  from coordinator_move_inv [OF move c(2)] show "coordinator_inv C'" .
  show "all_advance (dict_get (records (ledger_of C))) (dict_get (records (ledger_of C')))"
    using move c(2) by (auto simp: coordinator_move_def coordinator_inv_def intro: writes.reach_below)
qed (auto intro: all_advance_trans)

lemma init_coordinator_inv: "init_coordinator sha sid rid d duration c = Inr C \<Longrightarrow> coordinator_inv C"
  by (auto simp: init_coordinator_def coordinator_inv_def exclusive_def dest: init_ledger_inv
      split: if_splits sum.splits)

section \<open>Takeover\<close>

interpretation handover_leases: lease_authority coordinator_call coordinator_inv
  "\<lambda>C. dict_get (records (ledger_of C))" all_advance task_lease_held
proof
  fix C C' t v g w h
  assume "coordinator_inv C" "coordinator_inv C'"
  then have "ledger_inv (ledger_of C)" "ledger_inv (ledger_of C')" by (simp_all add: coordinator_inv_def)
  moreover assume "all_advance (dict_get (records (ledger_of C))) (dict_get (records (ledger_of C')))"
    "task_lease_held (dict_get (records (ledger_of C))) t v g"
    "task_lease_held (dict_get (records (ledger_of C'))) t w h"
  ultimately show "g \<le> h \<and> (g = h \<longrightarrow> v = w)" by (rule task_leases_ordered)
qed

lemma observe_pairs_cover:
  "a \<in> set xs \<Longrightarrow> b \<in> set xs \<Longrightarrow> a \<noteq> b \<Longrightarrow>
   observe_pair k a b \<in> set (observe_pairs k xs) \<or> observe_pair k b a \<in> set (observe_pairs k xs)"
  by (induction k xs rule: observe_pairs.induct) auto

lemma observe_pair_threshold:
  "cs_threshold (observe_pair k a b) = SEP_CRITICAL \<longleftrightarrow>
   distance (cc_position_m a) (cc_position_m b) \<le> critical_separation_m k"
  by (simp add: observe_pair_def classify_separation_def Let_def)

lemma enforce_separation_Inr:
  assumes "enforce_separation cs C = (Inr obs, C')" "a \<in> set cs" "b \<in> set cs" "cc_available a" "cc_available b"
    "a \<noteq> b"
  shows "critical_separation_m (constraints (deployment C)) < distance (cc_position_m a) (cc_position_m b)"
proof -
  let ?k = "constraints (deployment C)" and ?xs = "sort_key cc_vehicle_id (filter cc_available cs)"
  from assms(1) have "\<not> list_ex (\<lambda>s. cs_threshold s = SEP_CRITICAL) (observe_pairs ?k ?xs)"
    by (auto simp: enforce_separation_def Let_def split: if_splits)
  then have none: "cs_threshold s \<noteq> SEP_CRITICAL" if "s \<in> set (observe_pairs ?k ?xs)" for s
    using that by (auto simp: list_ex_iff)
  have "observe_pair ?k a b \<in> set (observe_pairs ?k ?xs) \<or> observe_pair ?k b a \<in> set (observe_pairs ?k ?xs)"
    using assms(2-6) by (intro observe_pairs_cover) auto
  with none show ?thesis
    using observe_pair_threshold [of ?k a b] observe_pair_threshold [of ?k b a]
    by (auto simp: distance_commute not_le)
qed

text \<open>The steps of a takeover, in the order the code takes them.\<close>

lemma confirm_takeover_cases:
  assumes "confirm_takeover hid cs n C = (res, C')" "dict_get (handovers C) hid = Some h"
  obtains
    (refused) e where "res = Inl e" "quiet (ledger_of C) (ledger_of C')" "handovers C' = handovers C"
      "vehicle_states C' = vehicle_states C" "deployment C' = deployment C"
  | (attempt) vid c obs C1 t C2 rt L where "ho_incoming_vehicle_id h = Some vid" "ho_phase h = HP_TAKEOVER_PENDING"
      "candidate_of cs vid = Inr c" "enforce_separation cs C = (Inr obs, C1)" "coordinator_now n C1 = (t, C2)"
      "transfer (ho_task_id h) (ho_outgoing_vehicle_id h) (cc_vehicle_id c)
         (ho_outgoing_lease_generation h) (cc_capabilities c) (Some (cc_battery_percent c)) (ho_reason h)
         (Some t) (ledger_of C2) = (rt, L)"
      "case rt of Inl e \<Rightarrow> res = Inl e \<and> C' = C2\<lparr>ledger_of := L\<rparr>
       | Inr r \<Rightarrow> (case stamp_handover (HP_TAKEOVER_CONFIRMED, ''atomic task lease transfer confirmed'', t)
             (h\<lparr>ho_phase := HP_TAKEOVER_CONFIRMED, ho_incoming_lease_generation := Some (lease_generation r),
                ho_takeover_confirmed_at := Some t, ho_takeover_confirmed := True\<rparr>) (C2\<lparr>ledger_of := L\<rparr>) of
           (Inl e, C3) \<Rightarrow> res = Inl e \<and> C' = C3
         | (Inr u, C3) \<Rightarrow> res = Inr u \<and> C' = put_handover hid u
             (set_vehicle_state (ho_outgoing_vehicle_id h) CV_RETURNING
                (set_vehicle_state (cc_vehicle_id c) CV_ACTIVE C3)))"
proof (cases "ho_incoming_vehicle_id h")
  case None
  with assms show thesis
    by (intro refused) (auto simp: confirm_takeover_def handover_of_def)
next
  case (Some vid)
  obtain rs C1 where sep: "enforce_separation cs C = (rs, C1)" by fastforce
  obtain t C2 where now: "coordinator_now n C1 = (t, C2)" by (cases "coordinator_now n C1")
  show thesis
  proof (cases "ho_phase h = HP_TAKEOVER_PENDING \<and> (\<exists>c. candidate_of cs vid = Inr c) \<and> (\<exists>x. rs = Inr x)")
    case False
    with assms Some sep enforce_separation_moves [OF sep]
    have "(\<exists>e. res = Inl e) \<and> (\<exists>s. C' = C\<lparr>separation := s\<rparr>)"
      by (auto simp: confirm_takeover_def handover_of_def split: if_splits sum.splits
          intro: exI [of _ "separation C'"])
    then show thesis by (auto intro: refused)
  next
    case True
    then obtain c obs where c: "ho_phase h = HP_TAKEOVER_PENDING" "candidate_of cs vid = Inr c" "rs = Inr obs" by blast
    obtain rt L where tr: "transfer (ho_task_id h) (ho_outgoing_vehicle_id h) (cc_vehicle_id c)
         (ho_outgoing_lease_generation h) (cc_capabilities c) (Some (cc_battery_percent c)) (ho_reason h)
         (Some t) (ledger_of C2) = (rt, L)" by fastforce
    show thesis
      by (rule attempt [OF Some c(1,2) sep [unfolded c(3)] now tr])
        (use assms Some c sep now tr in \<open>auto simp: confirm_takeover_def handover_of_def split: sum.splits prod.splits\<close>)
  qed
qed

lemma confirm_takeover_Inr:
  assumes "confirm_takeover hid cs n C = (Inr u, C')" "coordinator_inv C" "dict_get (handovers C) hid = Some h"
  shows "\<exists>v r r'. ho_incoming_vehicle_id h = Some v \<and>
    dict_get (records (ledger_of C)) (ho_task_id h) = Some r \<and>
    holds_lease r (ho_outgoing_vehicle_id h) (ho_outgoing_lease_generation h) \<and>
    records (ledger_of C') = dict_set (ho_task_id h) r' (records (ledger_of C)) \<and>
    holds_lease r' v (ho_outgoing_lease_generation h + 1) \<and> progress r' = progress r \<and>
    handovers C' = dict_set hid u (handovers C) \<and> ho_takeover_confirmed u \<and>
    ho_incoming_lease_generation u = Some (ho_outgoing_lease_generation h + 1) \<and>
    ho_task_id u = ho_task_id h \<and> ho_incoming_vehicle_id u = Some v \<and>
    ho_outgoing_vehicle_id u = ho_outgoing_vehicle_id h \<and>
    dict_get (vehicle_states C') (ho_outgoing_vehicle_id h) = Some CV_RETURNING \<and>
    dict_get (vehicle_states C') v = Some CV_ACTIVE"
  using assms(1,3)
proof (cases rule: confirm_takeover_cases)
  case (attempt vid c obs C1 t C2 rt L)
  from attempt(7) obtain r' where r': "rt = Inr r'" by (cases rt) auto
  let ?g = "h\<lparr>ho_phase := HP_TAKEOVER_CONFIRMED, ho_incoming_lease_generation := Some (lease_generation r'),
         ho_takeover_confirmed_at := Some t, ho_takeover_confirmed := True\<rparr>"
  obtain r2 C3 where st0: "stamp_handover (HP_TAKEOVER_CONFIRMED, ''atomic task lease transfer confirmed'', t)
      ?g (C2\<lparr>ledger_of := L\<rparr>) = (r2, C3)" by fastforce
  with attempt(7) r' have st: "stamp_handover (HP_TAKEOVER_CONFIRMED, ''atomic task lease transfer confirmed'', t)
      ?g (C2\<lparr>ledger_of := L\<rparr>) = (Inr u, C3)" and
    C': "C' = put_handover hid u (set_vehicle_state (ho_outgoing_vehicle_id h) CV_RETURNING
         (set_vehicle_state (cc_vehicle_id c) CV_ACTIVE C3))"
    by (cases r2; auto)+
  note now1 = coordinator_now_ledger [OF attempt(5)]
  obtain s where C1: "C1 = C\<lparr>separation := s\<rparr>" using enforce_separation_moves [OF attempt(4)] by blast
  from candidate_of_Inr [OF attempt(3)] have vid: "cc_vehicle_id c = vid" by simp
  have inv2: "ledger_inv (ledger_of C2)"
    using writes.reach_inv [OF now1(2)] C1 assms(2) by (simp add: coordinator_inv_def)
  from transfer_Inr [OF attempt(6) [unfolded r']] obtain r where
    r: "dict_get (records (ledger_of C)) (ho_task_id h) = Some r"
      "holds_lease r (ho_outgoing_vehicle_id h) (ho_outgoing_lease_generation h)"
      "ho_outgoing_vehicle_id h \<noteq> vid" "records L = dict_set (ho_task_id h) r' (records (ledger_of C))"
      "lease_generation r' = lease_generation r + 1" "progress r' = progress r"
      "holds_lease r' vid (lease_generation r')"
    using now1(5) C1 vid by auto
  have g: "ho_outgoing_lease_generation h = lease_generation r"
    using holds_lease_generation [OF _ r(1,2)] assms(2) by (simp add: coordinator_inv_def)
  from stamp_handover_moves(2) [OF st refl] obtain e where
    u: "u = ?g\<lparr>ho_phase := HP_TAKEOVER_CONFIRMED, ho_events := ho_events ?g @ [e]\<rparr>"
    by blast
  show ?thesis
    using attempt(1) r g u C' vid stamp_handover_moves(1) [OF st] now1 C1
    by (intro exI [of _ vid] exI [of _ r] exI [of _ r']) simp
qed simp

text \<open>The lease of a task has moved from the outgoing to the selected vehicle of a handover, once.\<close>

definition lease_moved :: "handover_record \<Rightarrow> coordinator \<Rightarrow> coordinator \<Rightarrow> bool" where
  "lease_moved h C C' \<longleftrightarrow> (\<exists>v r r'. ho_incoming_vehicle_id h = Some v \<and>
     dict_get (records (ledger_of C)) (ho_task_id h) = Some r \<and>
     holds_lease r (ho_outgoing_vehicle_id h) (ho_outgoing_lease_generation h) \<and>
     records (ledger_of C') = dict_set (ho_task_id h) r' (records (ledger_of C)) \<and>
     holds_lease r' v (ho_outgoing_lease_generation h + 1) \<and> progress r' = progress r)"

lemma confirm_takeover_Inl:
  assumes "confirm_takeover hid cs n C = (Inl e, C')" "coordinator_inv C" "dict_get (handovers C) hid = Some h"
  shows "handovers C' = handovers C \<and> vehicle_states C' = vehicle_states C
    \<and> (records (ledger_of C') = records (ledger_of C)
       \<or> lease_moved h C C' \<and> \<not> (length (ho_reason h) \<le> 500 \<and> (\<forall>i. 0 \<le> readings (ledger_clock (ledger_of C)) i)))"
  using assms(1,3)
proof (cases rule: confirm_takeover_cases)
  case (attempt vid c obs C1 t C2 rt L)
  obtain s where C1: "C1 = C\<lparr>separation := s\<rparr>" using enforce_separation_moves [OF attempt(4)] by blast
  obtain L2 where C2: "C2 = C1\<lparr>ledger_of := L2\<rparr>" "quiet (ledger_of C1) L2"
    using coordinator_now_moves [OF attempt(5)] by blast
  have inv2: "ledger_inv (ledger_of C2)" using C1 C2 assms(2) by (simp add: coordinator_inv_def quiet_inv)
  have same: "records (ledger_of C2) = records (ledger_of C)"
    "readings (ledger_clock (ledger_of C2)) = readings (ledger_clock (ledger_of C))"
    using C1 C2 by (auto simp: quiet_def)
  show ?thesis
  proof (cases rt)
    case (Inl e')
    have C': "C' = C2\<lparr>ledger_of := L\<rparr>" using Inl attempt(7) by simp
    from transfer_raises [OF attempt(6) [unfolded Inl] inv2] show ?thesis
    proof (elim disjE conjE exE)
      assume "quiet (ledger_of C2) L"
      then show ?thesis using C' C1 C2 same by (auto simp: quiet_simps)
    next
      fix r u
      assume bad: "\<not> (length (ho_reason h) \<le> 500 \<and> (\<forall>i. 0 \<le> readings (ledger_clock (ledger_of C2)) i))"
        and r: "dict_get (records (ledger_of C2)) (ho_task_id h) = Some r"
          "holds_lease r (ho_outgoing_vehicle_id h) (ho_outgoing_lease_generation h)"
          "records L = dict_set (ho_task_id h) u (records (ledger_of C2))"
          "holds_lease u (cc_vehicle_id c) (lease_generation r + 1)" "progress u = progress r"
      have "ho_outgoing_lease_generation h = lease_generation r" using holds_lease_generation [OF inv2 r(1,2)] .
      moreover have "cc_vehicle_id c = vid" using candidate_of_Inr [OF attempt(3)] by simp
      ultimately have "lease_moved h C C'" using r same(1) attempt(1) C' by (auto simp: lease_moved_def)
      with bad same(2) C' C1 C2 show ?thesis by simp
    qed
  next
    case (Inr r')
    note ok = coordinator_inv_handover [OF assms(2,3)]
    from transfer_Inr [OF attempt(6) [unfolded Inr]] obtain r where
      r: "dict_get (records (ledger_of C2)) (ho_task_id h) = Some r" "lease_generation r' = lease_generation r + 1"
        "0 \<le> t" by blast
    with inv2 have "0 \<le> lease_generation r" by (auto simp: ledger_inv_def record_inv_def)
    with r ok have "\<exists>u C3. stamp_handover (HP_TAKEOVER_CONFIRMED, ''atomic task lease transfer confirmed'', t)
        (h\<lparr>ho_phase := HP_TAKEOVER_CONFIRMED, ho_incoming_lease_generation := Some (lease_generation r'),
           ho_takeover_confirmed_at := Some t, ho_takeover_confirmed := True\<rparr>) (C2\<lparr>ledger_of := L\<rparr>) = (Inr u, C3)"
      using C1 C2 assms(2)
      by (auto simp: stamp_handover_def valid_handover_event_def handover_event_generation_def
          handover_ok_def valid_handover_record_def coordinator_inv_def Let_def)
    with Inr attempt(7) show ?thesis by auto
  qed
qed (simp add: quiet_simps)

section \<open>A sample coverage run\<close>

text \<open>Three vehicles, two tasks, one reserve: the concrete run of the witnesses below.\<close>

definition sample_zone :: zone_definition where
  "sample_zone = \<lparr>zone_id = ''z1'', geometry = \<lparr>zg_minimum_m = vec 0 0 0, zg_maximum_m = vec 2 2 0\<rparr>\<rparr>"

definition sample_member :: "string \<Rightarrow> initial_fleet_role \<Rightarrow> fleet_member" where
  "sample_member vid role = \<lparr>fm_vehicle_id = vid, fm_display_name = vid, fm_home = vec 0 0 0,
     fm_initial_role = role, fm_required = True, fm_required_capabilities = {CAP_ARMING}\<rparr>"

definition sample_deployment :: deployment_manifest where
  "sample_deployment = \<lparr>deployment_id = ''d1'',
     fleet = [sample_member ''v1'' ROLE_ACTIVE, sample_member ''v2'' ROLE_ACTIVE, sample_member ''v3'' ROLE_RESERVE],
     zones = [sample_zone], tasks = [sample_task, sample_task\<lparr>td_task_id := ''t2''\<rparr>],
     constraints = \<lparr>warning_separation_m = 1, critical_separation_m = 1 / 2, observation_freshness_s = 1,
       child_failure_policy = CONTINUE_HEALTHY\<rparr>,
     docks = [], dm_completion_policy = \<lparr>require_all_tasks = True, allow_partial_fleet = False\<rparr>\<rparr>"

definition sample_candidate :: "string \<Rightarrow> real \<Rightarrow> coverage_vehicle_state \<Rightarrow> coverage_candidate" where
  "sample_candidate vid x st = \<lparr>cc_vehicle_id = vid, cc_capabilities = {CAP_ARMING}, cc_battery_percent = 90,
     cc_position_m = vec x 1 0, cc_state = st, cc_connected = True, cc_armed = False, cc_available = True\<rparr>"

definition sample_candidates :: "coverage_candidate list" where
  "sample_candidates = [sample_candidate ''v1'' 1 CV_ACTIVE, sample_candidate ''v2'' 5 CV_ACTIVE,
     sample_candidate ''v3'' 9 CV_RESERVE]"

definition sample_preferred :: "(string, string) dict option" where
  "sample_preferred = Some [(''t1'', ''v1''), (''t2'', ''v2'')]"

definition sample_hid :: string where
  "sample_hid = ''handover-t1-2''"

definition cov_init :: "coordinator outcome" where
  "cov_init = init_coordinator (\<lambda>_. sample_sha) ''s1'' ''r1'' sample_deployment 30 sample_clock"

definition cov0 :: coordinator where "cov0 = projr cov_init"

definition cov_allocate :: "allocation_decision list outcome \<times> coordinator" where
  "cov_allocate = allocate_initial sample_candidates False sample_preferred (Some 0) cov0"

definition cov1 :: coordinator where "cov1 = snd cov_allocate"

definition cov_begin :: "handover_record outcome \<times> coordinator" where
  "cov_begin = begin_handover ''t1'' ''low battery'' sample_candidates (Some 1) cov1"

definition cov2 :: coordinator where "cov2 = snd cov_begin"

definition cov_ready :: "handover_record outcome \<times> coordinator" where
  "cov_ready = confirm_replacement_ready sample_hid sample_candidates (Some 2) cov2"

definition cov3 :: coordinator where "cov3 = snd cov_ready"

definition cov_takeover :: "handover_record outcome \<times> coordinator" where
  "cov_takeover = confirm_takeover sample_hid sample_candidates (Some 3) cov3"

definition cov4 :: coordinator where "cov4 = snd cov_takeover"

lemma outcome_Inr: "\<not> isl (fst p) \<Longrightarrow> p = (Inr (projr (fst p)), snd p)"
  by (cases p; cases "fst p") auto

lemma cov_init_ok: "init_coordinator (\<lambda>_. sample_sha) ''s1'' ''r1'' sample_deployment 30 sample_clock = Inr cov0"
proof -
  have "\<not> isl cov_init" by code_simp
  from not_isl_projr [OF this] show ?thesis by (simp add: cov_init_def cov0_def)
qed

lemma cov_allocate_ok:
  "allocate_initial sample_candidates False sample_preferred (Some 0) cov0 = (Inr (projr (fst cov_allocate)), cov1)"
proof -
  have "\<not> isl (fst cov_allocate)" by code_simp
  from outcome_Inr [OF this] show ?thesis by (simp add: cov_allocate_def cov1_def)
qed

lemma cov_begin_ok:
  "begin_handover ''t1'' ''low battery'' sample_candidates (Some 1) cov1
     = (Inr (projr (fst cov_begin)), cov2)"
proof -
  have "\<not> isl (fst cov_begin)" by code_simp
  from outcome_Inr [OF this] show ?thesis by (simp add: cov_begin_def cov2_def)
qed

lemma cov_takeover_ok:
  "confirm_takeover sample_hid sample_candidates (Some 3) cov3
     = (Inr (projr (fst cov_takeover)), cov4)"
proof -
  have "\<not> isl (fst cov_takeover)" by code_simp
  from outcome_Inr [OF this] show ?thesis by (simp add: cov_takeover_def cov4_def)
qed

section \<open>Properties\<close>

text \<open>No call changes the readings the clock will give.\<close>

abbreviation clock_readings :: "task_ledger \<Rightarrow> nat \<Rightarrow> real" where
  "clock_readings L \<equiv> readings (ledger_clock L)"

lemma ledger_write_readings: "ledger_write L L' \<Longrightarrow> clock_readings L' = clock_readings L"
  by (auto simp: ledger_write_def quiet_def wrote_def)

lemma ledger_writes_readings: "ledger_write\<^sup>*\<^sup>* L L' \<Longrightarrow> clock_readings L' = clock_readings L"
  by (induction rule: rtranclp_induct) (simp_all add: ledger_write_readings)

lemma emit_readings: "emit tid et reason L = (res, L') \<Longrightarrow> clock_readings L' = clock_readings L"
  by (auto simp: emit_def stamp_event_def ledger_now_def monotonic_def Let_def
      split: sum.splits prod.splits if_splits)

lemma declare_all_readings: "declare_all tids L = (res, L') \<Longrightarrow> clock_readings L' = clock_readings L"
  by (induction tids L rule: declare_all.induct) (auto dest: emit_readings split: prod.splits sum.splits)

lemma init_coordinator_readings:
  assumes "init_coordinator sha sid rid d duration c = Inr C"
  shows "clock_readings (ledger_of C) = readings c"
  using assms
  by (auto simp: init_coordinator_def init_ledger_def Let_def dest!: declare_all_readings
      split: if_splits sum.splits prod.splits)

lemma coordinator_readings:
  assumes "coordinator_call\<^sup>*\<^sup>* C0 C" "init_coordinator sha sid rid d duration c = Inr C0"
  shows "clock_readings (ledger_of C) = readings c"
  using assms
proof (induction rule: rtranclp_induct)
  case base
  then show ?case by (rule init_coordinator_readings)
next
  case (step C C')
  have "coordinator_inv C" by (rule coordination.reach_inv [OF step.hyps(1) init_coordinator_inv [OF step.prems]])
  from coordinator_call_move [OF step.hyps(2) this] step.IH [OF step.prems] show ?case
    unfolding coordinator_move_def by (metis ledger_writes_readings)
qed

lemma reachable_inv:
  "init_coordinator sha sid rid d duration c = Inr C0 \<Longrightarrow> coordinator_call\<^sup>*\<^sup>* C0 C \<Longrightarrow> coordinator_inv C"
  by (rule coordination.reach_inv [OF _ init_coordinator_inv])

lemma cov_steps:
  "coordinator_call\<^sup>*\<^sup>* cov0 cov1" "coordinator_call\<^sup>*\<^sup>* cov0 cov2" "coordinator_call\<^sup>*\<^sup>* cov0 cov3"
  "coordinator_call\<^sup>*\<^sup>* cov0 cov4"
proof -
  have s: "coordinator_call cov0 cov1" "coordinator_call cov1 cov2" "coordinator_call cov2 cov3"
    "coordinator_call cov3 cov4"
    using cc_allocate [of sample_candidates False sample_preferred "Some 0" cov0 "fst cov_allocate" cov1]
      cc_begin [of "''t1''" "''low battery''" sample_candidates "Some 1" cov1 "fst cov_begin" cov2]
      cc_ready [of sample_hid sample_candidates "Some 2" cov2 "fst cov_ready" cov3]
      cc_takeover [of sample_hid sample_candidates "Some 3" cov3 "fst cov_takeover" cov4]
    by (simp_all add: cov1_def cov_allocate_def cov2_def cov_begin_def cov3_def cov_ready_def
        cov4_def cov_takeover_def)
  then show "coordinator_call\<^sup>*\<^sup>* cov0 cov1" "coordinator_call\<^sup>*\<^sup>* cov0 cov2"
    "coordinator_call\<^sup>*\<^sup>* cov0 cov3" "coordinator_call\<^sup>*\<^sup>* cov0 cov4"
    by (meson rtranclp.rtrancl_into_rtrancl rtranclp.rtrancl_refl)+
qed

lemma cov_pending:
  "\<exists>h. dict_get (handovers cov3) sample_hid = Some h \<and> ho_task_id h = ''t1'' \<and>
     ho_outgoing_vehicle_id h = ''v1'' \<and> ho_outgoing_lease_generation h = 1 \<and> ho_reason h = ''low battery''"
proof -
  have "(case dict_get (handovers cov3) sample_hid of None \<Rightarrow> False | Some h \<Rightarrow> ho_task_id h = ''t1'' \<and>
     ho_outgoing_vehicle_id h = ''v1'' \<and> ho_outgoing_lease_generation h = 1 \<and> ho_reason h = ''low battery'')"
    by code_simp
  then show ?thesis by (auto split: option.splits)
qed

text \<open>
  C37. Takeover is all or nothing, with one exception. In any state a run reaches, \<open>confirm_takeover\<close>
  either returns, and then the lease of the task has moved from the outgoing vehicle to the selected
  replacement under the next generation, with the progress kept, the handover confirmed and the outgoing
  vehicle marked as returning; or it raises, and then no handover record and no vehicle state has
  changed, and no task record either, unless the reason of the handover has more than 500 characters
  (or the clock reads a negative time). Then the transfer raises only after it has written the task
  record, and the lease has moved although the takeover failed; nothing else can happen.
\<close>

theorem takeover_all_or_nothing:
  assumes "init_coordinator sha sid rid d duration c = Inr C0" "coordinator_call\<^sup>*\<^sup>* C0 C"
    and "dict_get (handovers C) hid = Some h"
    and "confirm_takeover hid cs n C = (res, C')"
  shows "case res of
      Inl e \<Rightarrow> handovers C' = handovers C \<and> vehicle_states C' = vehicle_states C \<and>
        (records (ledger_of C') = records (ledger_of C)
         \<or> lease_moved h C C' \<and> (500 < length (ho_reason h) \<or> (\<exists>i. readings c i < 0)))
    | Inr u \<Rightarrow> lease_moved h C C' \<and> handovers C' = dict_set hid u (handovers C) \<and> ho_takeover_confirmed u \<and>
        dict_get (vehicle_states C') (ho_outgoing_vehicle_id h) = Some CV_RETURNING"
proof -
  note inv = reachable_inv [OF assms(1,2)]
  have clock: "readings (ledger_clock (ledger_of C)) = readings c"
    using coordinator_readings [OF assms(2,1)] .
  show ?thesis
  proof (cases res)
    case (Inl e)
    from confirm_takeover_Inl [OF assms(4) [unfolded Inl] inv assms(3)] Inl show ?thesis
      by (auto simp: clock not_le)
  next
    case (Inr u)
    from confirm_takeover_Inr [OF assms(4) [unfolded Inr] inv assms(3)] Inr show ?thesis by (fastforce simp: lease_moved_def)
  qed
qed

theorem takeover_all_or_nothing_witness:
  "\<exists>h r. dict_get (handovers cov3) sample_hid = Some h \<and> lease_moved h cov3 cov4 \<and>
     dict_get (records (ledger_of cov4)) ''t1'' = Some r \<and> (\<exists>v. holds_lease r v 2)"
proof -
  obtain h where h: "dict_get (handovers cov3) sample_hid = Some h" "ho_task_id h = ''t1''"
    "ho_outgoing_lease_generation h = 1"
    using cov_pending by blast
  from takeover_all_or_nothing [OF cov_init_ok cov_steps(3) h(1) cov_takeover_ok] have m: "lease_moved h cov3 cov4" by simp
  then obtain r v where "dict_get (records (ledger_of cov4)) ''t1'' = Some r" "holds_lease r v 2"
    using h by (auto simp: lease_moved_def)
  with m h(1) show ?thesis by blast
qed

text \<open>
  After a confirmed takeover the outgoing vehicle's lease is refused in every later state of the
  run, whatever coordinator or ledger calls follow.
\<close>

theorem takeover_fences_outgoing:
  assumes "init_coordinator sha sid rid d duration c = Inr C0" "coordinator_call\<^sup>*\<^sup>* C0 C"
    and "dict_get (handovers C) hid = Some h" "confirm_takeover hid cs n C = (Inr u, C1)"
    and "coordinator_call\<^sup>*\<^sup>* C1 C2"
  shows "fst (require_current_lease (ho_task_id h) (ho_outgoing_vehicle_id h)
      (ho_outgoing_lease_generation h) m (ledger_of C2))
    = Inl (CrazySwarmError MODE_NOT_AUTHORIZED ''current task ownership is required'')"
proof -
  note inv = reachable_inv [OF assms(1,2)]
  have inv1: "coordinator_inv C1" using coordination.step_inv [OF cc_takeover [OF assms(4)] inv] .
  from confirm_takeover_Inr [OF assms(4) inv assms(3)] obtain v r' where
    r': "dict_get (records (ledger_of C1)) (ho_task_id h) = Some r'"
      "holds_lease r' v (ho_outgoing_lease_generation h + 1)" by auto
  then have "task_lease_held (dict_get (records (ledger_of C1))) (ho_task_id h) v
      (ho_outgoing_lease_generation h + 1)" by (simp add: task_lease_held_def)
  from handover_leases.fenced [OF assms(5) inv1 this, of "ho_outgoing_lease_generation h"]
  have "\<not> task_lease_held (dict_get (records (ledger_of C2))) (ho_task_id h) (ho_outgoing_vehicle_id h)
      (ho_outgoing_lease_generation h)" by simp
  moreover from coordination.reach_below [OF assms(5) inv1] r'(1) obtain r2 where
    "dict_get (records (ledger_of C2)) (ho_task_id h) = Some r2" unfolding all_advance_def by blast
  ultimately show ?thesis by (auto simp: task_lease_held_def intro: require_current_lease_refused)
qed

theorem takeover_fences_outgoing_witness:
  "fst (require_current_lease ''t1'' ''v1'' 1 (Some 4) (ledger_of cov4))
     = Inl (CrazySwarmError MODE_NOT_AUTHORIZED ''current task ownership is required'')"
proof -
  obtain h where h: "dict_get (handovers cov3) sample_hid = Some h" "ho_task_id h = ''t1''"
    "ho_outgoing_vehicle_id h = ''v1''" "ho_outgoing_lease_generation h = 1"
    using cov_pending by blast
  from takeover_fences_outgoing [OF cov_init_ok cov_steps(3) h(1) cov_takeover_ok rtranclp.rtrancl_refl, of "Some 4"] h
  show ?thesis by simp
qed

text \<open>
  A takeover never happens inside the critical separation: when \<open>confirm_takeover\<close> returns, every
  two different available candidates were farther apart than the deployment's critical separation.
\<close>

theorem takeover_needs_separation:
  assumes "confirm_takeover hid cs n C = (Inr u, C')" "a \<in> set cs" "b \<in> set cs"
    and "cc_available a" "cc_available b" "cc_vehicle_id a \<noteq> cc_vehicle_id b"
  shows "critical_separation_m (constraints (deployment C)) < distance (cc_position_m a) (cc_position_m b)"
proof -
  from assms(1) obtain h where h: "dict_get (handovers C) hid = Some h"
    by (auto simp: confirm_takeover_def split: sum.splits)
  from assms(1) h show ?thesis
  proof (cases rule: confirm_takeover_cases)
    case (attempt vid c obs C1 t C2 rt L)
    show ?thesis by (rule enforce_separation_Inr [OF attempt(4) assms(2-5)]) (use assms(6) in auto)
  qed simp
qed

theorem takeover_needs_separation_witness:
  "critical_separation_m (constraints (deployment cov3)) < distance (vec 1 1 0) (vec 5 1 0)"
proof -
  from takeover_needs_separation [OF cov_takeover_ok, of "sample_candidate ''v1'' 1 CV_ACTIVE"
    "sample_candidate ''v2'' 5 CV_ACTIVE"] show ?thesis
    by (simp add: sample_candidates_def sample_candidate_def)
qed

text \<open>
  The handover records of every reachable coordinator state are consistent: a completed handover
  has a confirmed takeover and its replacement holds the generation right after the outgoing one; a
  degraded handover has none; a handover in progress names its replacement; and of two handovers in
  progress neither the task nor the replacement is the same.
\<close>

theorem handover_records_consistent:
  assumes "init_coordinator sha sid rid d duration c = Inr C0" "coordinator_call\<^sup>*\<^sup>* C0 C"
    and "dict_get (handovers C) hid = Some h"
  shows "ho_handover_id h = hid \<and>
    (ho_phase h = HP_COMPLETED \<longrightarrow> ho_takeover_confirmed h) \<and>
    (ho_phase h = HP_DEGRADED \<longrightarrow> \<not> ho_takeover_confirmed h) \<and>
    (ho_takeover_confirmed h \<longrightarrow> ho_incoming_lease_generation h = Some (ho_outgoing_lease_generation h + 1)) \<and>
    (\<not> terminal_phase (ho_phase h) \<longrightarrow> ho_incoming_vehicle_id h \<noteq> None) \<and>
    sorted_wrt (<) (map he_sequence (ho_events h)) \<and>
    (\<forall>hid' h'. dict_get (handovers C) hid' = Some h' \<longrightarrow> hid' \<noteq> hid \<longrightarrow>
       \<not> terminal_phase (ho_phase h) \<longrightarrow> \<not> terminal_phase (ho_phase h') \<longrightarrow>
       ho_task_id h' \<noteq> ho_task_id h \<and> ho_incoming_vehicle_id h' \<noteq> ho_incoming_vehicle_id h)"
proof -
  note inv = reachable_inv [OF assms(1,2)]
  from coordinator_inv_handover [OF inv assms(3)] have "handover_ok (handover_sequence C) hid h" .
  moreover from inv have "exclusive (handovers C)" by (simp add: coordinator_inv_def)
  then have "\<not> clashes h' h" if "dict_get (handovers C) hid' = Some h'" "hid' \<noteq> hid" for hid' h'
    using that assms(3) unfolding exclusive_def by blast
  ultimately show ?thesis by (auto simp: handover_ok_def log_ok_def clashes_def)
qed

theorem handover_records_consistent_witness:
  "\<exists>h. dict_get (handovers cov4) sample_hid = Some h \<and> ho_takeover_confirmed h \<and>
     ho_incoming_lease_generation h = Some 2"
proof -
  obtain h0 where h0: "dict_get (handovers cov3) sample_hid = Some h0" "ho_outgoing_lease_generation h0 = 1"
    using cov_pending by blast
  from confirm_takeover_Inr [OF cov_takeover_ok reachable_inv [OF cov_init_ok cov_steps(3)] h0(1)] h0(2)
  obtain h where h: "dict_get (handovers cov4) sample_hid = Some h" "ho_takeover_confirmed h"
    "ho_incoming_lease_generation h = Some 2" by auto
  from handover_records_consistent [OF cov_init_ok cov_steps(4) h(1)] h show ?thesis by auto
qed

lemma confirm_replacement_ready_records:
  "records (ledger_of (snd (confirm_replacement_ready hid cs n C))) = records (ledger_of C)"
proof -
  obtain t C1 where now: "coordinator_now n C = (t, C1)" by (cases "coordinator_now n C")
  note now1 = coordinator_now_ledger(5) [OF now]
  show ?thesis
    using now now1
    by (auto simp: confirm_replacement_ready_def split: sum.splits option.splits prod.splits
        dest!: stamp_handover_moves(1))
qed

lemma release_outgoing_records:
  "records (ledger_of (snd (release_outgoing hid reason n C))) = records (ledger_of C)"
proof -
  obtain t C1 where now: "coordinator_now n C = (t, C1)" by (cases "coordinator_now n C")
  note now1 = coordinator_now_ledger(5) [OF now]
  show ?thesis
    using now now1
    by (auto simp: release_outgoing_def split: sum.splits prod.splits dest!: stamp_handover_moves(1))
qed

lemma terminate_handover_records:
  "records (ledger_of (snd (terminate_handover hid reason failed n C))) = records (ledger_of C)"
proof -
  obtain t C1 where now: "coordinator_now n C = (t, C1)" by (cases "coordinator_now n C")
  note now1 = coordinator_now_ledger(5) [OF now]
  show ?thesis
    using now now1
    by (auto simp: terminate_handover_def Let_def split: sum.splits prod.splits dest!: stamp_handover_moves(1))
qed

lemma fail_handover_records:
  "records (ledger_of (snd (fail_handover hid reason n C))) = records (ledger_of C)"
proof -
  obtain t C1 where now: "coordinator_now n C = (t, C1)" by (cases "coordinator_now n C")
  note now1 = coordinator_now_ledger(5) [OF now]
  show ?thesis
    using now now1
    by (auto simp: fail_handover_def split: sum.splits prod.splits dest!: stamp_handover_moves(1))
qed

text \<open>
  Only a takeover moves a lease: requesting, preparing, releasing, terminating and failing a
  handover leave every task record of the ledger as it was, whether the call returns or raises. In
  particular an unconfirmed handover that is terminated leaves the outgoing vehicle its lease.
\<close>

theorem only_takeover_moves_leases:
  "records (ledger_of (snd (begin_handover tid reason cs n C))) = records (ledger_of C) \<and>
   records (ledger_of (snd (confirm_replacement_ready hid cs n C))) = records (ledger_of C) \<and>
   records (ledger_of (snd (release_outgoing hid reason n C))) = records (ledger_of C) \<and>
   records (ledger_of (snd (terminate_handover hid reason failed n C))) = records (ledger_of C) \<and>
   records (ledger_of (snd (fail_handover hid reason n C))) = records (ledger_of C)"
  using begin_handover_frame(2) [of tid reason cs n C "fst (begin_handover tid reason cs n C)"
      "snd (begin_handover tid reason cs n C)"]
  by (simp add: quiet_simps confirm_replacement_ready_records release_outgoing_records
      terminate_handover_records fail_handover_records)

text \<open>
  Replacement selection: a handover that \<open>begin_handover\<close> starts names a candidate that is a
  connected, available, disarmed reserve, owns no task, is not promised to another handover, has the
  task's capabilities and its energy margin, and no other such candidate scores higher.
\<close>

theorem replacement_is_best_reserve:
  assumes "begin_handover tid reason cs n C = (Inr u, C')" "ho_phase u \<noteq> HP_DEGRADED"
  shows "\<exists>r z c. dict_get (records (ledger_of C)) tid = Some r \<and>
    zone_id z = td_zone_id (definition_of r) \<and> z \<in> set (zones (deployment C)) \<and>
    c \<in> set cs \<and> ho_incoming_vehicle_id u = Some (cc_vehicle_id c) \<and>
    reserve_ready c \<and> cc_vehicle_id c \<notin> set (current_owners (ledger_of C)) \<and>
    Some (cc_vehicle_id c) \<notin> set (reserved_vehicles C) \<and>
    td_required_capabilities (definition_of r) \<subseteq> cc_capabilities c \<and>
    required_energy (definition_of r) \<le> cc_battery_percent c \<and>
    (\<forall>c' \<in> set cs. reserve_eligible C c' \<and> serviceable (definition_of r) False c' \<longrightarrow>
       ad_score (decision_for tid (definition_of r) z c') \<le> ad_score (decision_for tid (definition_of r) z c))"
proof -
  obtain r0 t C1 h C2 where
    "dict_get (records (ledger_of C)) tid = Some r0" "owner r0 \<noteq> None" "lease r0 \<noteq> None"
    "\<not> list_ex (active_handover tid) (dict_values (handovers C))" and now: "coordinator_now n C = (t, C1)" and
    "valid_handover_record (requested_handover tid (the (owner r0)) (lease_generation r0) reason t)" and
    st: "stamp_handover (HP_REQUESTED, reason, t)
         (requested_handover tid (the (owner r0)) (lease_generation r0) reason t) C1 = (Inr h, C2)" and
    se: "settle_request tid reason cs t h C2 = (Inr u, C')"
    by (rule begin_handover_Inr [OF assms(1)])
  note now1 = coordinator_now_ledger [OF now]
  note C2 = stamp_handover_moves(1) [OF st]
  have same: "records (ledger_of C2) = records (ledger_of C)" "zones (deployment C2) = zones (deployment C)"
    "handovers C2 = handovers C" using now1 C2 by simp_all
  then have el: "reserve_eligible C2 = reserve_eligible C"
    by (auto simp: reserve_eligible_def current_owners_def all_records_def reserved_vehicles_def fun_eq_iff)
  from se assms(2) obtain a where a: "select tid (filter (reserve_eligible C2) cs) False C2 = Inr a"
    and pr: "prepare_replacement a reason t h C2 = (Inr u, C')"
    by (auto simp: settle_request_def dest!: stamp_handover_moves(2)
        split: sum.splits py_error.splits prod.splits)
  from select_Inr [OF a] obtain r z c where
    r: "dict_get (records (ledger_of C)) tid = Some r"
      "find (\<lambda>z. zone_id z = td_zone_id (definition_of r)) (zones (deployment C)) = Some z" and
    c: "c \<in> set cs" "reserve_eligible C c" "serviceable (definition_of r) False c"
      "a = decision_for tid (definition_of r) z c" and
    best: "\<forall>c' \<in> set (filter (reserve_eligible C) cs). serviceable (definition_of r) False c' \<longrightarrow>
       decision_key (decision_for tid (definition_of r) z c') \<le> decision_key a"
    unfolding same el by auto
  from find_SomeD [OF r(2)] prepare_replacement_Inr [OF pr] r(1) c best show ?thesis
    by (intro exI [of _ r] exI [of _ z] exI [of _ c])
      (auto simp: reserve_eligible_def serviceable_def decision_key_def less_eq_prod_def)
qed

theorem replacement_is_best_reserve_witness:
  "\<exists>c \<in> set sample_candidates. ho_incoming_vehicle_id (projr (fst cov_begin)) = Some (cc_vehicle_id c) \<and> reserve_ready c"
proof -
  have "ho_phase (projr (fst cov_begin)) \<noteq> HP_DEGRADED" by code_simp
  from replacement_is_best_reserve [OF cov_begin_ok this] show ?thesis by blast
qed
lemma assign_Inr:
  assumes "assign tid vid caps battery allow n L = (Inr u, L')"
  shows "\<exists>r. dict_get (records L) tid = Some r \<and> tstate r \<in> {TS_DECLARED, TS_RETRY_PENDING} \<and>
    records L' = dict_set tid u (records L) \<and> tstate u = TS_ASSIGNED \<and> owner u = Some vid"
proof -
  obtain now L1 where now: "ledger_now n L = (now, L1)" by (cases "ledger_now n L")
  note q = ledger_now_quiet [OF now]
  from assms now obtain r l where r: "dict_get (records L) tid = Some r" "tstate r \<in> {TS_DECLARED, TS_RETRY_PENDING}" and
    e: "emit tid ''TASK_ASSIGNED'' None (put_record tid (r\<lparr>tstate := TS_ASSIGNED, owner := Some vid, lease := Some l,
      lease_generation := lease_generation r + 1, attempts := attempts r + 1, decision := None,
      terminal_reason := None\<rparr>) L1) = (Inr u, L')"
    by (auto simp: assign_def Let_def split: sum.splits if_splits)
  from emit_wrote [OF q e] have "wrote L tid (r\<lparr>tstate := TS_ASSIGNED, owner := Some vid, lease := Some l,
      lease_generation := lease_generation r + 1, attempts := attempts r + 1, decision := None,
      terminal_reason := None\<rparr>) u L'" by auto
  from wrote_record [OF this] wrote_ledger [OF this] r show ?thesis by simp
qed

definition allocated :: "coordinator \<Rightarrow> allocation_decision \<Rightarrow> bool" where
  "allocated C a \<longleftrightarrow> (\<exists>r. dict_get (records (ledger_of C)) (ad_task_id a) = Some r \<and>
     tstate r = TS_ASSIGNED \<and> owner r = Some (ad_vehicle_id a))"

definition drawn_from :: "(string, coverage_candidate) dict \<Rightarrow> allocation_decision \<Rightarrow> bool" where
  "drawn_from available a \<longleftrightarrow> (\<exists>c \<in> set (dict_values available). cc_vehicle_id c = ad_vehicle_id a \<and>
     cc_available c \<and> cc_connected c \<and> cc_state c = CV_ACTIVE)"

lemma assign_keeps_allocated:
  assumes "assign tid vid caps battery allow n (ledger_of C) = (Inr u, L)" "allocated C a"
  shows "allocated (C\<lparr>ledger_of := L\<rparr>) a"
  using assign_Inr [OF assms(1)] assms(2) by (auto simp: allocated_def)

lemma allocate_loop_Inr:
  assumes "allocate_loop ds available allow preferred n acc claimed C = (Inr out, C')"
    "set claimed = set (map ad_vehicle_id acc)" "distinct (map ad_vehicle_id acc)"
    "\<forall>a \<in> set acc. allocated C a \<and> drawn_from available a"
  shows "distinct (map ad_vehicle_id out) \<and> map ad_task_id out = map ad_task_id acc @ map td_task_id ds \<and>
    (\<forall>a \<in> set out. allocated C' a \<and> drawn_from available a)"
  using assms
proof (induction ds arbitrary: acc claimed C)
  case (Cons d ds)
  from Cons.prems(1) obtain a where sel: "select (td_task_id d)
      (filter (initially_eligible claimed preferred (td_task_id d)) (dict_values available)) allow C = Inr a"
    by (simp split: sum.splits)
  with Cons.prems(1) obtain c where c: "dict_get available (ad_vehicle_id a) = Some c"
    by (simp split: option.splits)
  obtain ra L where ra: "assign (td_task_id d) (ad_vehicle_id a) (cc_capabilities c)
      (Some (cc_battery_percent c)) allow n (ledger_of C) = (ra, L)" by fastforce
  with Cons.prems(1) sel c obtain u where u: "ra = Inr u" by (cases ra) simp_all
  note as = ra [unfolded u]
  from Cons.prems(1) sel c as have rest: "allocate_loop ds available allow preferred n (acc @ [a])
      (ad_vehicle_id a # claimed) (C\<lparr>ledger_of := L\<rparr>) = (Inr out, C')" by simp
  from select_Inr [OF sel] have a: "ad_task_id a = td_task_id d" "ad_vehicle_id a \<notin> set claimed" "drawn_from available a"
    by (auto simp: initially_eligible_def drawn_from_def intro: rev_bexI)
  have "allocated (C\<lparr>ledger_of := L\<rparr>) a" using assign_Inr [OF as] a(1) by (auto simp: allocated_def)
  then have "\<forall>b \<in> set (acc @ [a]). allocated (C\<lparr>ledger_of := L\<rparr>) b \<and> drawn_from available b"
    using a(3) Cons.prems(4) assign_keeps_allocated [OF as] by auto
  with Cons.IH [OF rest] Cons.prems(2,3) a(1,2) show ?case by auto
qed simp

lemma fold_dict_values:
  "x \<in> set (dict_values (fold (\<lambda>c. dict_set (k c) c) cs d)) \<Longrightarrow> x \<in> set cs \<or> x \<in> set (dict_values d)"
proof (induction cs arbitrary: d)
  case (Cons c cs)
  have sub: "set (dict_values (dict_set i v d)) \<subseteq> insert v (set (dict_values d))" for i v
    by (induction d) auto
  from Cons.prems have "x \<in> set (dict_values (fold (\<lambda>c. dict_set (k c) c) cs (dict_set (k c) c d)))" by simp
  from Cons.IH [OF this] sub show ?case by auto
qed simp

text \<open>
  C38. Initial allocation is a matching: when \<open>allocate_initial\<close> returns, it decided every task of the
  deployment exactly once, in priority order; no vehicle got two tasks; each chosen vehicle is an
  available, connected, active candidate; and the ledger shows each task assigned to the vehicle of
  its decision.
\<close>

theorem allocation_is_matching:
  assumes "allocate_initial cs allow preferred n C = (Inr ds, C')"
  shows "map ad_task_id ds = map td_task_id (sort_key (\<lambda>d. (- td_priority d, td_task_id d)) (tasks (deployment C))) \<and>
    distinct (map ad_vehicle_id ds) \<and>
    (\<forall>a \<in> set ds. (\<exists>r. dict_get (records (ledger_of C')) (ad_task_id a) = Some r \<and>
        tstate r = TS_ASSIGNED \<and> owner r = Some (ad_vehicle_id a)) \<and>
      (\<exists>c \<in> set cs. cc_vehicle_id c = ad_vehicle_id a \<and> cc_available c \<and> cc_connected c \<and> cc_state c = CV_ACTIVE))"
proof -
  let ?av = "fold (\<lambda>c. dict_set (cc_vehicle_id c) c) cs []"
  let ?ts = "sort_key (\<lambda>d. (- td_priority d, td_task_id d)) (tasks (deployment C))"
  obtain r1 C1 where al: "allocate_loop ?ts ?av allow preferred n [] [] C = (r1, C1)"
    by (rule prod.exhaust)
  from assms have eq: "(case (r1, C1) of (Inl e, C') \<Rightarrow> (Inl e, C') | (Inr decisions, C') \<Rightarrow>
      if length decisions \<noteq> length (tasks (deployment C))
        then (Inl (CrazySwarmError PREFLIGHT_FAILED ''coverage allocation is incomplete''), C')
      else (Inr decisions, C')) = (Inr ds, C')"
    unfolding allocate_initial_def Let_def al .
  then have "r1 = Inr ds \<and> C1 = C'" by (cases r1) (simp_all split: if_splits)
  with al have "allocate_loop ?ts ?av allow preferred n [] [] C = (Inr ds, C')" by simp
  from allocate_loop_Inr [OF this] have m: "distinct (map ad_vehicle_id ds)"
    "map ad_task_id ds = map td_task_id (sort_key (\<lambda>d. (- td_priority d, td_task_id d)) (tasks (deployment C)))"
    "\<forall>a \<in> set ds. allocated C' a \<and> drawn_from ?av a" by simp_all
  have "x \<in> set cs" if "x \<in> set (dict_values ?av)" for x
    using fold_dict_values [OF that] by simp
  with m(3) have "\<forall>a \<in> set ds. allocated C' a \<and> (\<exists>c \<in> set cs. cc_vehicle_id c = ad_vehicle_id a \<and>
      cc_available c \<and> cc_connected c \<and> cc_state c = CV_ACTIVE)"
    unfolding drawn_from_def by blast
  with m(1,2) show ?thesis by (simp add: allocated_def)
qed

theorem allocation_is_matching_witness:
  "distinct (map ad_vehicle_id (projr (fst cov_allocate))) \<and> length (projr (fst cov_allocate)) = 2"
proof -
  note m = allocation_is_matching [OF cov_allocate_ok]
  have "length (projr (fst cov_allocate)) = length (tasks (deployment cov0))"
    using arg_cong [OF conjunct1 [OF m], of length] by simp
  moreover have "length (tasks (deployment cov0)) = 2" by code_simp
  moreover from m have "distinct (map ad_vehicle_id (projr (fst cov_allocate)))" by (elim conjE)
  ultimately show ?thesis by simp
qed
end
