(* ===== verification/Docks.thy ===== *)
theory Docks
  imports Persistent
begin

text \<open>
  \<open>fleet/docks.py\<close>: the software-only scheduler of docks (capacity, queue, docking attempts, modelled
  charging). A method returns its outcome together with the manager. The dictionaries \<open>definitions\<close>
  and \<open>health\<close> have the same keys. \<open>DockEvent\<close> and \<open>DockReservation\<close> constructors are checked, in the
  order the code calls them; a \<open>DockSnapshot\<close> only receives validated parts.

  The lemmas show that capacity and queue limits hold in every reachable state, that a vehicle has at
  most one open request, that attempts are bounded, and that \<open>READY\<close> is only reached through an
  observed landing with contact and confirmed charging.
\<close>

section \<open>Data\<close>

datatype dock_health = DH_AVAILABLE | DH_DEGRADED | DH_UNAVAILABLE

datatype dock_state =
    DS_AVAILABLE
  | DS_RESERVED
  | DS_RETURN_TO_DOCK_AREA
  | DS_APPROACH_REQUESTED
  | DS_DOCK_ATTEMPT
  | DS_LANDED_UNCONFIRMED
  | DS_CHARGING_CONFIRMED
  | DS_CHARGING
  | DS_READY
  | DS_FAILED
  | DS_RETRY_PENDING
  | DS_DIVERTED
  | DS_QUEUED

fun dock_state_value :: "dock_state \<Rightarrow> string" where
  "dock_state_value DS_AVAILABLE = ''AVAILABLE''"
| "dock_state_value DS_RESERVED = ''RESERVED''"
| "dock_state_value DS_RETURN_TO_DOCK_AREA = ''RETURN_TO_DOCK_AREA''"
| "dock_state_value DS_APPROACH_REQUESTED = ''APPROACH_REQUESTED''"
| "dock_state_value DS_DOCK_ATTEMPT = ''DOCK_ATTEMPT''"
| "dock_state_value DS_LANDED_UNCONFIRMED = ''LANDED_UNCONFIRMED''"
| "dock_state_value DS_CHARGING_CONFIRMED = ''CHARGING_CONFIRMED''"
| "dock_state_value DS_CHARGING = ''CHARGING''"
| "dock_state_value DS_READY = ''READY''"
| "dock_state_value DS_FAILED = ''FAILED''"
| "dock_state_value DS_RETRY_PENDING = ''RETRY_PENDING''"
| "dock_state_value DS_DIVERTED = ''DIVERTED''"
| "dock_state_value DS_QUEUED = ''QUEUED''"

record dock_event =
  de_sequence :: int
  de_reservation_id :: string
  de_dock_id :: string
  de_vehicle_id :: string
  de_state :: dock_state
  de_timestamp :: real
  de_event_type :: string
  de_reason :: string

record dock_reservation =
  dr_reservation_id :: string
  dr_dock_id :: string
  dr_vehicle_id :: string
  dr_state :: dock_state
  dr_created_at :: real
  dr_expires_at :: real
  dr_queue_position :: "int option"
  dr_attempts :: int
  dr_maximum_attempts :: int
  dr_landing_observed :: bool
  dr_contact_observed :: bool
  dr_charging_confirmed :: bool
  dr_battery_percent :: "real option"
  dr_target_battery_percent :: real
  dr_charging_started_at :: "real option"
  dr_estimated_ready_at :: "real option"
  dr_terminal_reason :: "string option"
  dr_events :: "dock_event list"

record dock_snapshot =
  dsn_dock_id :: string
  dsn_capacity :: int
  dsn_health :: dock_health
  dsn_charging_capability :: string
  dsn_occupied :: "string list"
  dsn_queued :: "string list"
  dsn_reservations :: "dock_reservation list"

record dock_manager =
  dock_definitions :: "(string, dock_definition) dict"
  dock_healths :: "(string, dock_health) dict"
  reservation_ttl_s :: real
  maximum_attempts :: int
  queue_limit :: int
  reservations :: "(string, dock_reservation) dict"
  dock_sequence :: int
  dock_clock :: clock

definition valid_dock_event :: "dock_event \<Rightarrow> bool" where
  "valid_dock_event e \<longleftrightarrow> 1 \<le> de_sequence e \<and> valid_identifier (de_reservation_id e) \<and>
     valid_identifier (de_dock_id e) \<and> valid_identifier (de_vehicle_id e) \<and> 0 \<le> de_timestamp e \<and>
     valid_identifier (de_event_type e)"

definition valid_reservation :: "dock_reservation \<Rightarrow> bool" where
  "valid_reservation r \<longleftrightarrow> valid_identifier (dr_reservation_id r) \<and> valid_identifier (dr_dock_id r) \<and>
     valid_identifier (dr_vehicle_id r) \<and> 0 \<le> dr_created_at r \<and> 0 < dr_expires_at r \<and>
     opt_all (\<lambda>p. 1 \<le> p) (dr_queue_position r) \<and> 0 \<le> dr_attempts r \<and> 1 \<le> dr_maximum_attempts r \<and>
     opt_all (\<lambda>b. 0 \<le> b \<and> b \<le> 100) (dr_battery_percent r) \<and>
     0 < dr_target_battery_percent r \<and> dr_target_battery_percent r \<le> 100 \<and>
     opt_all (\<lambda>t. 0 \<le> t) (dr_charging_started_at r) \<and> opt_all (\<lambda>t. 0 \<le> t) (dr_estimated_ready_at r)"

definition occupies_capacity :: "dock_state \<Rightarrow> bool" where
  "occupies_capacity s \<longleftrightarrow> s \<notin> {DS_AVAILABLE, DS_READY, DS_FAILED, DS_DIVERTED, DS_QUEUED}"

definition dock_terminal :: "dock_state \<Rightarrow> bool" where
  "dock_terminal s \<longleftrightarrow> s \<in> {DS_READY, DS_FAILED, DS_DIVERTED}"

section \<open>Helpers\<close>

definition init_docks ::
  "dock_definition list \<Rightarrow> real \<Rightarrow> int \<Rightarrow> int \<Rightarrow> clock \<Rightarrow> dock_manager outcome" where
  "init_docks defs ttl max_attempts limit c =
     (if defs = [] then Inl (ValueError ''dock manager requires at least one dock'')
      else if ttl \<le> 0 \<or> max_attempts < 1 \<or> limit < 1
        then Inl (ValueError ''dock scheduler bounds must be positive'')
      else Inr \<lparr>dock_definitions = fold (\<lambda>d. dict_set (dd_dock_id d) d) defs [],
        dock_healths = fold (\<lambda>d. dict_set (dd_dock_id d) DH_AVAILABLE) defs [],
        reservation_ttl_s = ttl, maximum_attempts = max_attempts, queue_limit = limit,
        reservations = [], dock_sequence = 0, dock_clock = c\<rparr>)"

definition dock_now :: "real option \<Rightarrow> dock_manager \<Rightarrow> real \<times> dock_manager" where
  "dock_now now_s M = (let (t, c) = clock_of now_s (dock_clock M) in (t, M\<lparr>dock_clock := c\<rparr>))"

definition put_reservation :: "string \<Rightarrow> dock_reservation \<Rightarrow> dock_manager \<Rightarrow> dock_manager" where
  "put_reservation rid r M = M\<lparr>reservations := dict_set rid r (reservations M)\<rparr>"

definition dock_definition_of :: "string option \<Rightarrow> dock_manager \<Rightarrow> dock_definition outcome" where
  "dock_definition_of d M =
     (case d of
        None \<Rightarrow> Inl (CrazySwarmError INVALID_COMMAND ''dock identity is required'')
      | Some did \<Rightarrow>
          (case dict_get (dock_definitions M) did of
             None \<Rightarrow> Inl (CrazySwarmError INVALID_COMMAND ''unknown dock'')
           | Some x \<Rightarrow> Inr x))"

definition reservation_of :: "string \<Rightarrow> dock_manager \<Rightarrow> dock_reservation outcome" where
  "reservation_of rid M =
     (case dict_get (reservations M) rid of
        None \<Rightarrow> Inl (CrazySwarmError INVALID_COMMAND ''unknown dock reservation'')
      | Some r \<Rightarrow> Inr r)"

definition occupies :: "string \<Rightarrow> dock_reservation \<Rightarrow> bool" where
  "occupies did r \<longleftrightarrow> dr_dock_id r = did \<and> occupies_capacity (dr_state r)"

definition waits :: "string \<Rightarrow> dock_reservation \<Rightarrow> bool" where
  "waits did r \<longleftrightarrow> dr_dock_id r = did \<and> dr_state r = DS_QUEUED"

definition occupancy :: "string \<Rightarrow> dock_manager \<Rightarrow> int" where
  "occupancy did M = int (count_values (occupies did) (reservations M))"

definition queue_length :: "string \<Rightarrow> dock_manager \<Rightarrow> int" where
  "queue_length did M = int (count_values (waits did) (reservations M))"

text \<open>\<open>_event\<close>: the counter is advanced before the event is validated.\<close>

definition stamp_dock ::
  "string \<times> string \<times> real \<Rightarrow> dock_reservation \<Rightarrow> dock_manager \<Rightarrow> dock_reservation outcome \<times> dock_manager" where
  "stamp_dock i r M =
     (let (event_type, reason, timestamp) = i;
          M1 = M\<lparr>dock_sequence := dock_sequence M + 1\<rparr>;
          ev = \<lparr>de_sequence = dock_sequence M1, de_reservation_id = dr_reservation_id r,
            de_dock_id = dr_dock_id r, de_vehicle_id = dr_vehicle_id r, de_state = dr_state r,
            de_timestamp = timestamp, de_event_type = event_type, de_reason = reason\<rparr>
      in if valid_dock_event ev then (Inr (r\<lparr>dr_events := dr_events r @ [ev]\<rparr>), M1)
         else (Inl (ValidationError ''DockEvent''), M1))"

text \<open>Stamp an event on \<open>r\<close> and store it under \<open>rid\<close>: the last two lines of most methods.\<close>

definition commit ::
  "string \<Rightarrow> string \<times> string \<times> real \<Rightarrow> dock_reservation \<Rightarrow> dock_manager \<Rightarrow>
   dock_reservation outcome \<times> dock_manager" where
  "commit rid i r M =
     (case stamp_dock i r M of
        (Inl e, M') \<Rightarrow> (Inl e, M')
      | (Inr u, M') \<Rightarrow> (Inr u, put_reservation rid u M'))"

section \<open>Reserving\<close>

definition reservation_id_for :: "string \<Rightarrow> string \<Rightarrow> string" where
  "reservation_id_for did vid = ''dock-'' @ did @ ''-'' @ vid"

definition open_request :: "string \<Rightarrow> dock_reservation \<Rightarrow> bool" where
  "open_request vid r \<longleftrightarrow> dr_vehicle_id r = vid \<and> \<not> dock_terminal (dr_state r)"

definition dock_candidates :: "string option \<Rightarrow> dock_manager \<Rightarrow> dock_definition list outcome" where
  "dock_candidates preferred M =
     (case preferred of
        Some d \<Rightarrow> (case dock_definition_of (Some d) M of Inl e \<Rightarrow> Inl e | Inr x \<Rightarrow> Inr [x])
      | None \<Rightarrow> Inr (map (\<lambda>k. the (dict_get (dock_definitions M) k)) (sort (dict_keys (dock_definitions M)))))"

definition reserve_at ::
  "dock_definition \<Rightarrow> string \<Rightarrow> real option \<Rightarrow> real \<Rightarrow> real option \<Rightarrow> dock_manager \<Rightarrow>
   dock_reservation outcome \<times> dock_manager" where
  "reserve_at selected vid battery target now_s M =
     (let did = dd_dock_id selected; queued = dd_capacity selected \<le> occupancy did M in
      if queued \<and> queue_limit M \<le> queue_length did M
        then (Inl (CrazySwarmError INVALID_STATE ''dock queue capacity is exhausted''), M)
      else let (t, M1) = dock_now now_s M;
               rid = reservation_id_for did vid;
               r = \<lparr>dr_reservation_id = rid, dr_dock_id = did, dr_vehicle_id = vid,
                 dr_state = (if queued then DS_QUEUED else DS_RESERVED), dr_created_at = t,
                 dr_expires_at = t + reservation_ttl_s M,
                 dr_queue_position = (if queued then Some (queue_length did M + 1) else None),
                 dr_attempts = 0, dr_maximum_attempts = maximum_attempts M, dr_landing_observed = False,
                 dr_contact_observed = False, dr_charging_confirmed = False, dr_battery_percent = battery,
                 dr_target_battery_percent = target, dr_charging_started_at = None,
                 dr_estimated_ready_at = None, dr_terminal_reason = None, dr_events = []\<rparr>
           in if \<not> valid_reservation r then (Inl (ValidationError ''DockReservation''), M1)
              else commit rid (if queued then ''DOCK_QUEUED'' else ''DOCK_RESERVED'',
                ''software dock allocation'', t) r M1)"

definition reserve ::
  "string \<Rightarrow> string option \<Rightarrow> real option \<Rightarrow> real \<Rightarrow> real option \<Rightarrow> dock_manager \<Rightarrow>
   dock_reservation outcome \<times> dock_manager" where
  "reserve vid preferred battery target now_s M =
     (if list_ex (open_request vid) (dict_values (reservations M))
        then (Inl (CrazySwarmError INVALID_STATE ''vehicle already has a dock request''), M)
      else case dock_candidates preferred M of
        Inl e \<Rightarrow> (Inl e, M)
      | Inr candidates \<Rightarrow>
          (case filter (\<lambda>d. dict_get (dock_healths M) (dd_dock_id d) \<noteq> Some DH_UNAVAILABLE) candidates of
             [] \<Rightarrow> (Inl (CrazySwarmError PREFLIGHT_FAILED ''no dock is available''), M)
           | d # ds \<Rightarrow>
               reserve_at (min_by (\<lambda>x. (occupancy (dd_dock_id x) M, dd_dock_id x)) d ds)
                 vid battery target now_s M))"

section \<open>The docking life cycle\<close>

fun allowed_dock_targets :: "dock_state \<Rightarrow> dock_state set" where
  "allowed_dock_targets DS_RESERVED = {DS_RETURN_TO_DOCK_AREA}"
| "allowed_dock_targets DS_RETURN_TO_DOCK_AREA = {DS_APPROACH_REQUESTED}"
| "allowed_dock_targets DS_APPROACH_REQUESTED = {DS_DOCK_ATTEMPT}"
| "allowed_dock_targets DS_RETRY_PENDING = {DS_APPROACH_REQUESTED, DS_DIVERTED}"
| "allowed_dock_targets _ = {}"

definition dock_transition ::
  "string \<Rightarrow> dock_state \<Rightarrow> string \<Rightarrow> real option \<Rightarrow> dock_manager \<Rightarrow> dock_reservation outcome \<times> dock_manager" where
  "dock_transition rid target reason now_s M =
     (case reservation_of rid M of
        Inl e \<Rightarrow> (Inl e, M)
      | Inr r \<Rightarrow>
          if target \<notin> allowed_dock_targets (dr_state r)
            then (Inl (CrazySwarmError INVALID_STATE ''invalid dock lifecycle transition''), M)
          else let (t, M1) = dock_now now_s M in
            commit rid (''DOCK_'' @ dock_state_value target, reason, t)
              (r\<lparr>dr_state := target,
                 dr_attempts := dr_attempts r + (if target = DS_DOCK_ATTEMPT then 1 else 0)\<rparr>) M1)"

definition reserve_after_handover ::
  "handover_record \<Rightarrow> real option \<Rightarrow> real option \<Rightarrow> dock_manager \<Rightarrow> dock_reservation outcome \<times> dock_manager" where
  "reserve_after_handover h battery now_s M =
     (if ho_phase h \<noteq> HP_COMPLETED \<or> \<not> ho_takeover_confirmed h
        then (Inl (CrazySwarmError MODE_NOT_AUTHORIZED
          ''dock return cannot start before confirmed takeover and release''), M)
      else case reserve (ho_outgoing_vehicle_id h) None battery 90 now_s M of
        (Inl e, M1) \<Rightarrow> (Inl e, M1)
      | (Inr r, M1) \<Rightarrow>
          if dr_state r = DS_RESERVED
            then dock_transition (dr_reservation_id r) DS_RETURN_TO_DOCK_AREA
              ''outgoing vehicle released after takeover'' now_s M1
          else (Inr r, M1))"

definition confirm_modeled_landing ::
  "string \<Rightarrow> bool \<Rightarrow> real option \<Rightarrow> dock_manager \<Rightarrow> dock_reservation outcome \<times> dock_manager" where
  "confirm_modeled_landing rid contact now_s M =
     (case reservation_of rid M of
        Inl e \<Rightarrow> (Inl e, M)
      | Inr r \<Rightarrow>
          if dr_state r \<noteq> DS_DOCK_ATTEMPT
            then (Inl (CrazySwarmError INVALID_STATE ''dock attempt is not active''), M)
          else let (t, M1) = dock_now now_s M in
            commit rid (''MODELED_LANDING_OBSERVED'',
                if contact then ''modeled contact observed'' else ''modeled contact absent'', t)
              (r\<lparr>dr_state := DS_LANDED_UNCONFIRMED, dr_landing_observed := True,
                 dr_contact_observed := contact\<rparr>) M1)"

definition percent_or_zero :: "real option \<Rightarrow> real" where
  "percent_or_zero b = (case b of None \<Rightarrow> 0 | Some x \<Rightarrow> x)"

definition confirm_modeled_charging ::
  "string \<Rightarrow> bool \<Rightarrow> real option \<Rightarrow> dock_manager \<Rightarrow> dock_reservation outcome \<times> dock_manager" where
  "confirm_modeled_charging rid confirmed now_s M =
     (case reservation_of rid M of
        Inl e \<Rightarrow> (Inl e, M)
      | Inr r \<Rightarrow>
          if dr_state r \<noteq> DS_LANDED_UNCONFIRMED
            then (Inl (CrazySwarmError INVALID_STATE ''modeled landing is not awaiting charge''), M)
          else let (t, M1) = dock_now now_s M in
            if \<not> confirmed \<or> \<not> dr_contact_observed r
              then let exhausted = dr_maximum_attempts r \<le> dr_attempts r in
                commit rid (''MODELED_CHARGING_CONFIRMATION_FAILED'',
                    ''landed but modeled charging was not confirmed'', t)
                  (r\<lparr>dr_state := (if exhausted then DS_FAILED else DS_RETRY_PENDING),
                     dr_terminal_reason := (if exhausted then Some ''LANDED_NOT_CHARGING'' else None)\<rparr>) M1
            else (case dock_definition_of (Some (dr_dock_id r)) M1 of
                Inl e \<Rightarrow> (Inl e, M1)
              | Inr d \<Rightarrow>
                  let duration = max 0 ((dr_target_battery_percent r - percent_or_zero (dr_battery_percent r))
                        / dd_charge_rate_percent_per_min d * 60)
                  in commit rid (''MODELED_CHARGING_CONFIRMED'',
                        ''software scheduling model only; no physical charge claim'', t)
                      (r\<lparr>dr_state := DS_CHARGING_CONFIRMED, dr_charging_confirmed := True,
                         dr_charging_started_at := Some t, dr_estimated_ready_at := Some (t + duration)\<rparr>) M1))"

definition promote_queue :: "string \<Rightarrow> real \<Rightarrow> dock_manager \<Rightarrow> unit outcome \<times> dock_manager" where
  "promote_queue did now M =
     (case dock_definition_of (Some did) M of
        Inl e \<Rightarrow> (Inl e, M)
      | Inr d \<Rightarrow>
          if dd_capacity d \<le> occupancy did M then (Inr (), M)
          else (case sort_key (\<lambda>r. (dr_created_at r, dr_reservation_id r))
                  (filter (waits did) (dict_values (reservations M))) of
              [] \<Rightarrow> (Inr (), M)
            | q # _ \<Rightarrow>
                (case commit (dr_reservation_id q) (''DOCK_QUEUE_PROMOTED'', ''capacity released'', now)
                    (q\<lparr>dr_state := DS_RESERVED, dr_queue_position := None\<rparr>) M of
                   (Inl e, M1) \<Rightarrow> (Inl e, M1)
                 | (Inr _, M1) \<Rightarrow> (Inr (), M1))))"

text \<open>The modelled battery after charging from \<open>began\<close> until \<open>t\<close>, as the code computes it.\<close>

definition charged_battery :: "dock_definition \<Rightarrow> dock_reservation \<Rightarrow> real \<Rightarrow> real \<Rightarrow> real" where
  "charged_battery d r began t =
     min (dr_target_battery_percent r)
       (percent_or_zero (dr_battery_percent r) + max 0 (t - began) / 60 * dd_charge_rate_percent_per_min d)"

definition update_modeled_charge ::
  "string \<Rightarrow> real option \<Rightarrow> dock_manager \<Rightarrow> dock_reservation outcome \<times> dock_manager" where
  "update_modeled_charge rid now_s M =
     (case reservation_of rid M of
        Inl e \<Rightarrow> (Inl e, M)
      | Inr r \<Rightarrow>
          if dr_state r \<notin> {DS_CHARGING_CONFIRMED, DS_CHARGING}
            then (Inl (CrazySwarmError INVALID_STATE ''modeled charging is not active''), M)
          else (case dr_charging_started_at r of
              None \<Rightarrow> (Inl AssertionError, M)
            | Some began \<Rightarrow>
                let (t, M1) = dock_now now_s M in
                (case dock_definition_of (Some (dr_dock_id r)) M1 of
                   Inl e \<Rightarrow> (Inl e, M1)
                 | Inr d \<Rightarrow>
                     let battery = charged_battery d r began t;
                         ready = dr_target_battery_percent r \<le> battery
                     in (case commit rid (if ready then ''MODELED_CHARGE_READY'' else ''MODELED_CHARGE_PROGRESS'',
                             ''software scheduling model'', t)
                           (r\<lparr>dr_state := (if ready then DS_READY else DS_CHARGING),
                              dr_battery_percent := Some battery\<rparr>) M1 of
                           (Inl e, M2) \<Rightarrow> (Inl e, M2)
                         | (Inr u, M2) \<Rightarrow>
                             if ready
                               then (case promote_queue (dr_dock_id r) t M2 of
                                   (Inl e, M3) \<Rightarrow> (Inl e, M3)
                                 | (Inr _, M3) \<Rightarrow> (Inr u, M3))
                             else (Inr u, M2)))))"

section \<open>Health and snapshots\<close>

fun divert_all :: "string \<Rightarrow> real \<Rightarrow> dock_reservation list \<Rightarrow> dock_manager \<Rightarrow> unit outcome \<times> dock_manager" where
  "divert_all did t [] M = (Inr (), M)"
| "divert_all did t (r # rs) M =
     (if dr_dock_id r = did \<and> \<not> dock_terminal (dr_state r)
      then (case commit (dr_reservation_id r) (''DOCK_UNAVAILABLE'', ''dock health changed to unavailable'', t)
            (r\<lparr>dr_state := (if dr_state r = DS_QUEUED then DS_QUEUED else DS_DIVERTED),
               dr_terminal_reason := Some ''DOCK_UNAVAILABLE''\<rparr>) M of
              (Inl e, M1) \<Rightarrow> (Inl e, M1)
            | (Inr _, M1) \<Rightarrow> divert_all did t rs M1)
      else divert_all did t rs M)"

definition snapshot :: "string \<Rightarrow> dock_manager \<Rightarrow> dock_snapshot outcome" where
  "snapshot did M =
     (case dock_definition_of (Some did) M of
        Inl e \<Rightarrow> Inl e
      | Inr d \<Rightarrow>
          (case dict_get (dock_healths M) did of
             None \<Rightarrow> Inl KeyError
           | Some h \<Rightarrow>
               let rs = sort_key dr_reservation_id (filter (\<lambda>r. dr_dock_id r = did) (dict_values (reservations M)))
               in Inr \<lparr>dsn_dock_id = did, dsn_capacity = dd_capacity d, dsn_health = h,
                    dsn_charging_capability = dd_supported_charging_capability d,
                    dsn_occupied = map dr_vehicle_id (filter (\<lambda>r. occupies_capacity (dr_state r)) rs),
                    dsn_queued = map dr_vehicle_id (filter (\<lambda>r. dr_state r = DS_QUEUED) rs),
                    dsn_reservations = rs\<rparr>))"

definition set_health ::
  "string \<Rightarrow> dock_health \<Rightarrow> real option \<Rightarrow> dock_manager \<Rightarrow> dock_snapshot outcome \<times> dock_manager" where
  "set_health did h now_s M =
     (case dock_definition_of (Some did) M of
        Inl e \<Rightarrow> (Inl e, M)
      | Inr _ \<Rightarrow>
          let M1 = M\<lparr>dock_healths := dict_set did h (dock_healths M)\<rparr> in
          if h = DH_UNAVAILABLE
            then let (t, M2) = dock_now now_s M1 in
              (case divert_all did t (dict_values (reservations M2)) M2 of
                 (Inl e, M3) \<Rightarrow> (Inl e, M3)
               | (Inr _, M3) \<Rightarrow> (snapshot did M3, M3))
          else (snapshot did M1, M1))"

section \<open>The scheduler invariant\<close>

text \<open>
  What one reservation record satisfies. \<open>attempts\<close> stays below the limit while a further docking
  attempt is possible, and the charging states keep the evidence that led to them.
\<close>

definition reservation_ok :: "dock_manager \<Rightarrow> string \<Rightarrow> dock_reservation \<Rightarrow> bool" where
  "reservation_ok M rid r \<longleftrightarrow> dr_reservation_id r = rid \<and>
     dict_get (dock_definitions M) (dr_dock_id r) \<noteq> None \<and>
     dr_maximum_attempts r = maximum_attempts M \<and> 0 \<le> dr_attempts r \<and> dr_attempts r \<le> maximum_attempts M \<and>
     (dr_state r \<in> {DS_RESERVED, DS_RETURN_TO_DOCK_AREA, DS_APPROACH_REQUESTED, DS_RETRY_PENDING, DS_QUEUED} \<longrightarrow>
        dr_attempts r < maximum_attempts M) \<and>
     (dr_state r \<in> {DS_CHARGING_CONFIRMED, DS_CHARGING, DS_READY} \<longrightarrow>
        dr_landing_observed r \<and> dr_contact_observed r \<and> dr_charging_confirmed r \<and>
        dr_charging_started_at r \<noteq> None) \<and>
     (dr_state r = DS_LANDED_UNCONFIRMED \<longrightarrow> dr_landing_observed r) \<and>
     (dr_state r = DS_READY \<longrightarrow> dr_battery_percent r = Some (dr_target_battery_percent r)) \<and>
     dr_state r \<noteq> DS_AVAILABLE \<and> opt_all (\<lambda>b. 0 \<le> b \<and> b \<le> 100) (dr_battery_percent r) \<and>
     0 < dr_target_battery_percent r \<and> dr_target_battery_percent r \<le> 100"

definition limits_ok :: "dock_manager \<Rightarrow> bool" where
  "limits_ok M \<longleftrightarrow> (\<forall>did d. dict_get (dock_definitions M) did = Some d \<longrightarrow>
     occupancy did M \<le> dd_capacity d \<and> queue_length did M \<le> queue_limit M)"

definition one_open_request :: "dock_manager \<Rightarrow> bool" where
  "one_open_request M \<longleftrightarrow> (\<forall>k k' r r' vid. dict_get (reservations M) k = Some r \<longrightarrow>
     dict_get (reservations M) k' = Some r' \<longrightarrow> open_request vid r \<longrightarrow> open_request vid r' \<longrightarrow> k = k')"

definition dock_inv :: "dock_manager \<Rightarrow> bool" where
  "dock_inv M \<longleftrightarrow> 0 \<le> dock_sequence M \<and> 1 \<le> maximum_attempts M \<and> dict_wf (reservations M) \<and>
     (\<forall>did d. dict_get (dock_definitions M) did = Some d \<longrightarrow> dd_dock_id d = did \<and> valid_dock_definition d) \<and>
     (\<forall>rid r. dict_get (reservations M) rid = Some r \<longrightarrow>
        reservation_ok M rid r \<and> log_ok de_sequence (dock_sequence M) (dr_events r)) \<and>
     limits_ok M \<and> one_open_request M"

text \<open>A record that may be written under \<open>rid\<close>: it needs capacity, queue space and an open request
  only as far as the record it replaces had them already.\<close>

definition fits :: "dock_manager \<Rightarrow> string \<Rightarrow> dock_reservation \<Rightarrow> bool" where
  "fits M rid r \<longleftrightarrow> reservation_ok M rid r \<and> log_ok de_sequence (dock_sequence M) (dr_events r) \<and>
     (occupies_capacity (dr_state r) \<longrightarrow>
        (\<exists>w. dict_get (reservations M) rid = Some w \<and> occupies (dr_dock_id r) w) \<or>
        (\<forall>d. dict_get (dock_definitions M) (dr_dock_id r) = Some d \<longrightarrow> occupancy (dr_dock_id r) M < dd_capacity d)) \<and>
     (dr_state r = DS_QUEUED \<longrightarrow>
        (\<exists>w. dict_get (reservations M) rid = Some w \<and> waits (dr_dock_id r) w) \<or>
        queue_length (dr_dock_id r) M < queue_limit M) \<and>
     (\<not> dock_terminal (dr_state r) \<longrightarrow>
        (\<exists>w. dict_get (reservations M) rid = Some w \<and> open_request (dr_vehicle_id r) w) \<or>
        (\<forall>k w. dict_get (reservations M) k = Some w \<longrightarrow> \<not> open_request (dr_vehicle_id r) w))"

interpretation dock_log: numbered_log stamp_dock dr_events de_sequence dock_sequence
proof
  fix i :: "string \<times> string \<times> real" and r M
  show "dock_sequence (snd (stamp_dock i r M)) = dock_sequence M + 1"
    by (auto simp: stamp_dock_def Let_def split: prod.splits)
next
  fix i :: "string \<times> string \<times> real" and r M r' M'
  assume "stamp_dock i r M = (Inr r', M')"
  then show "\<exists>e. dr_events r' = dr_events r @ [e] \<and> de_sequence e = dock_sequence M + 1"
    by (auto simp: stamp_dock_def Let_def split: prod.splits if_splits)
qed

lemma stamp_dock_cases:
  assumes "stamp_dock i r M = (res, M')"
  shows "M' = M\<lparr>dock_sequence := dock_sequence M + 1\<rparr>"
    and "res = Inr u \<Longrightarrow> \<exists>e. u = r\<lparr>dr_events := dr_events r @ [e]\<rparr>"
  using assms by (auto simp: stamp_dock_def Let_def split: prod.splits if_splits)

lemma commit_cases:
  assumes "commit rid i r M = (res, M')"
  obtains
    (raised) e where "res = Inl e" "M' = M\<lparr>dock_sequence := dock_sequence M + 1\<rparr>"
  | (stored) u e where "res = Inr u" "u = r\<lparr>dr_events := dr_events r @ [e]\<rparr>"
      "stamp_dock i r M = (Inr u, M\<lparr>dock_sequence := dock_sequence M + 1\<rparr>)"
      "M' = M\<lparr>dock_sequence := dock_sequence M + 1, reservations := dict_set rid u (reservations M)\<rparr>"
proof -
  obtain r1 M1 where st: "stamp_dock i r M = (r1, M1)" by fastforce
  note M1 = stamp_dock_cases(1) [OF st]
  show thesis
  proof (cases r1)
    case (Inl e)
    with assms st M1 show thesis by (intro raised [of e]) (simp_all add: commit_def)
  next
    case (Inr u)
    with stamp_dock_cases(2) [OF st] obtain e where "u = r\<lparr>dr_events := dr_events r @ [e]\<rparr>" by blast
    with assms st M1 Inr show thesis
      by (intro stored [of u e]) (simp_all add: commit_def put_reservation_def)
  qed
qed

lemma limits_ok_set:
  assumes "dict_wf (reservations M)" "limits_ok M" "fits M rid r"
    and "dr_state u = dr_state r" "dr_dock_id u = dr_dock_id r"
  shows "limits_ok (M\<lparr>reservations := dict_set rid u (reservations M)\<rparr>)"
  unfolding limits_ok_def
proof (intro allI impI)
  fix did d assume "dict_get (dock_definitions (M\<lparr>reservations := dict_set rid u (reservations M)\<rparr>)) did = Some d"
  then have d: "dict_get (dock_definitions M) did = Some d" by simp
  with assms(2) have old: "occupancy did M \<le> dd_capacity d" "queue_length did M \<le> queue_limit M"
    by (auto simp: limits_ok_def)
  let ?M = "M\<lparr>reservations := dict_set rid u (reservations M)\<rparr>"
  have occ: "occupancy did ?M \<le> dd_capacity d"
  proof (cases "occupies did u \<longrightarrow> (\<exists>w. dict_get (reservations M) rid = Some w \<and> occupies did w)")
    case True
    then have "occupancy did ?M \<le> occupancy did M"
      using count_values_set [OF assms(1), of "occupies did" rid u]
      by (auto simp: occupancy_def split: option.splits if_splits)
    with old show ?thesis by simp
  next
    case False
    with assms(3-5) d have "occupancy did M < dd_capacity d" by (auto simp: fits_def occupies_def)
    with count_values_set_le [OF assms(1), of "occupies did" rid u] show ?thesis
      by (auto simp: occupancy_def split: if_splits)
  qed
  have que: "queue_length did ?M \<le> queue_limit M"
  proof (cases "waits did u \<longrightarrow> (\<exists>w. dict_get (reservations M) rid = Some w \<and> waits did w)")
    case True
    then have "queue_length did ?M \<le> queue_length did M"
      using count_values_set [OF assms(1), of "waits did" rid u]
      by (auto simp: queue_length_def split: option.splits if_splits)
    with old show ?thesis by simp
  next
    case False
    with assms(3-5) have "queue_length did M < queue_limit M" by (auto simp: fits_def waits_def)
    with count_values_set_le [OF assms(1), of "waits did" rid u] show ?thesis
      by (auto simp: queue_length_def split: if_splits)
  qed
  from occ que show "occupancy did ?M \<le> dd_capacity d \<and> queue_length did ?M \<le> queue_limit ?M" by simp
qed

lemma one_open_request_set:
  assumes "one_open_request M" "fits M rid r" "dr_state u = dr_state r" "dr_vehicle_id u = dr_vehicle_id r"
  shows "one_open_request (M\<lparr>reservations := dict_set rid u (reservations M)\<rparr>)"
proof -
  have other: "k = rid" if "open_request vid u" "dict_get (reservations M) k = Some w" "open_request vid w" for vid k w
    using that assms unfolding one_open_request_def fits_def open_request_def by metis
  have old: "k = k'" if "dict_get (reservations M) k = Some w" "dict_get (reservations M) k' = Some w'"
    "open_request vid w" "open_request vid w'" for vid k k' w w'
    using that assms(1) unfolding one_open_request_def by blast
  show ?thesis unfolding one_open_request_def
    by (auto split: if_splits dest: other old)
qed

lemma reservation_ok_frame [simp]:
  "reservation_ok (M\<lparr>dock_sequence := n\<rparr>) = reservation_ok M"
  "reservation_ok (M\<lparr>dock_clock := c\<rparr>) = reservation_ok M"
  "reservation_ok (M\<lparr>dock_healths := h\<rparr>) = reservation_ok M"
  "reservation_ok (M\<lparr>reservations := rs\<rparr>) = reservation_ok M"
  by (simp_all add: reservation_ok_def fun_eq_iff)

lemma limits_ok_frame [simp]:
  "limits_ok (M\<lparr>dock_sequence := n\<rparr>) = limits_ok M"
  "limits_ok (M\<lparr>dock_clock := c\<rparr>) = limits_ok M"
  "limits_ok (M\<lparr>dock_healths := h\<rparr>) = limits_ok M"
  "limits_ok (M\<lparr>dock_sequence := n, reservations := rs\<rparr>) = limits_ok (M\<lparr>reservations := rs\<rparr>)"
  by (simp_all add: limits_ok_def occupancy_def queue_length_def)

lemma one_open_request_frame [simp]:
  "one_open_request (M\<lparr>dock_sequence := n\<rparr>) = one_open_request M"
  "one_open_request (M\<lparr>dock_clock := c\<rparr>) = one_open_request M"
  "one_open_request (M\<lparr>dock_healths := h\<rparr>) = one_open_request M"
  "one_open_request (M\<lparr>dock_sequence := n, reservations := rs\<rparr>) = one_open_request (M\<lparr>reservations := rs\<rparr>)"
  by (simp_all add: one_open_request_def)

lemma fits_frame [simp]:
  "fits (M\<lparr>dock_clock := c\<rparr>) = fits M"
  by (simp add: fits_def occupancy_def queue_length_def fun_eq_iff)

lemma dock_inv_frame [simp]:
  "dock_inv (M\<lparr>dock_clock := c\<rparr>) = dock_inv M"
  "dock_inv (M\<lparr>dock_healths := h\<rparr>) = dock_inv M"
  by (simp_all add: dock_inv_def)

lemma log_ok_Suc: "log_ok num n es \<Longrightarrow> log_ok num (n + 1) es"
  by (erule log_ok_mono) simp

lemma dock_inv_seq: "dock_inv M \<Longrightarrow> dock_inv (M\<lparr>dock_sequence := dock_sequence M + 1\<rparr>)"
  by (simp add: dock_inv_def log_ok_Suc)

lemma commit_inv:
  assumes "commit rid i r M = (res, M')" "dock_inv M" "fits M rid r"
  shows "dock_inv M'"
  using assms(1)
proof (cases rule: commit_cases)
  case (raised e)
  with assms(2) show ?thesis by (simp add: dock_inv_seq)
next
  case (stored u e)
  let ?M1 = "M\<lparr>reservations := dict_set rid u (reservations M)\<rparr>"
  have wf: "dict_wf (reservations M)" using assms(2) by (simp add: dock_inv_def)
  have lim: "limits_ok ?M1" "one_open_request ?M1"
    using assms(2,3) stored(2) wf
    by (auto intro!: limits_ok_set one_open_request_set simp: dock_inv_def)
  have "log_ok de_sequence (dock_sequence M + 1) (dr_events u)"
    using dock_log.stamp_log_ok [OF stored(3)] assms(2,3) by (simp add: fits_def dock_inv_def)
  moreover have "reservation_ok M rid u" using assms(3) stored(2) by (simp add: fits_def reservation_ok_def)
  ultimately show ?thesis
    using assms(2) lim wf unfolding stored(4) by (simp add: dock_inv_def log_ok_Suc)
qed

section \<open>Every method keeps the invariant\<close>

lemma reservation_of_Inr [simp]: "reservation_of rid M = Inr r \<longleftrightarrow> dict_get (reservations M) rid = Some r"
  by (simp add: reservation_of_def split: option.splits)

lemma dock_definition_of_Inr [simp]:
  "dock_definition_of (Some did) M = Inr d \<longleftrightarrow> dict_get (dock_definitions M) did = Some d"
  by (simp add: dock_definition_of_def split: option.splits)

lemma dock_now_cases:
  obtains t c where "dock_now n M = (t, M\<lparr>dock_clock := c\<rparr>)"
  by (cases "clock_of n (dock_clock M)") (auto simp: dock_now_def intro: that)

lemma dock_inv_reservation:
  "dock_inv M \<Longrightarrow> dict_get (reservations M) rid = Some r \<Longrightarrow>
   reservation_ok M rid r \<and> log_ok de_sequence (dock_sequence M) (dr_events r)"
  by (simp add: dock_inv_def)

lemma reservation_ok_dock:
  "reservation_ok M rid r \<Longrightarrow> \<exists>d. dict_get (dock_definitions M) (dr_dock_id r) = Some d"
  unfolding reservation_ok_def by blast

lemma reservation_ok_facts:
  assumes "reservation_ok M rid r"
  shows "dr_state r \<in> {DS_CHARGING_CONFIRMED, DS_CHARGING, DS_READY} \<Longrightarrow> dr_charging_started_at r \<noteq> None"
    and "dr_battery_percent r = Some b \<Longrightarrow> 0 \<le> b"
    and "0 < dr_target_battery_percent r" "dr_target_battery_percent r \<le> 100"
    and "0 \<le> percent_or_zero (dr_battery_percent r)"
proof -
  from assms have b: "opt_all (\<lambda>b. 0 \<le> b \<and> b \<le> 100) (dr_battery_percent r)"
    and c: "dr_state r \<in> {DS_CHARGING_CONFIRMED, DS_CHARGING, DS_READY} \<longrightarrow> dr_charging_started_at r \<noteq> None"
    and "0 < dr_target_battery_percent r" "dr_target_battery_percent r \<le> 100"
    unfolding reservation_ok_def by blast+
  then show "0 < dr_target_battery_percent r" "dr_target_battery_percent r \<le> 100"
    "dr_state r \<in> {DS_CHARGING_CONFIRMED, DS_CHARGING, DS_READY} \<Longrightarrow> dr_charging_started_at r \<noteq> None"
    by blast+
  show "dr_battery_percent r = Some b \<Longrightarrow> 0 \<le> b" using b by simp
  show "0 \<le> percent_or_zero (dr_battery_percent r)"
    using b by (cases "dr_battery_percent r") (simp_all add: percent_or_zero_def)
qed

lemma fits_update:
  assumes "dock_inv M" "dict_get (reservations M) rid = Some w" "reservation_ok M rid r"
    "dr_events r = dr_events w" "dr_dock_id r = dr_dock_id w" "dr_vehicle_id r = dr_vehicle_id w"
    "occupies_capacity (dr_state r) \<Longrightarrow> occupies_capacity (dr_state w)"
    "dr_state r = DS_QUEUED \<Longrightarrow> dr_state w = DS_QUEUED"
    "\<not> dock_terminal (dr_state r) \<Longrightarrow> \<not> dock_terminal (dr_state w)"
  shows "fits M rid r"
  using assms dock_inv_reservation [OF assms(1,2)]
  by (auto simp: fits_def occupies_def waits_def open_request_def)

lemmas dock_state_simps = occupies_capacity_def dock_terminal_def

text \<open>Reserving: the selected dock has room, or space in its queue.\<close>

lemma reserve_at_inv:
  assumes "reserve_at d vid battery target n M = (res, M')" "dock_inv M"
    "dict_get (dock_definitions M) (dd_dock_id d) = Some d"
    "\<not> list_ex (open_request vid) (dict_values (reservations M))"
  shows "dock_inv M'"
proof -
  let ?did = "dd_dock_id d"
  obtain t c where now: "dock_now n M = (t, M\<lparr>dock_clock := c\<rparr>)" by (rule dock_now_cases)
  have none: "\<not> open_request vid w" if "dict_get (reservations M) k = Some w" for k w
    using assms(4) dict_get_values [OF that] by (auto simp: list_ex_iff)
  define q where "q = (dd_capacity d \<le> occupancy ?did M)"
  define r where "r = \<lparr>dr_reservation_id = reservation_id_for ?did vid, dr_dock_id = ?did, dr_vehicle_id = vid,
                 dr_state = (if q then DS_QUEUED else DS_RESERVED), dr_created_at = t,
                 dr_expires_at = t + reservation_ttl_s M,
                 dr_queue_position = (if q then Some (queue_length ?did M + 1) else None),
                 dr_attempts = 0, dr_maximum_attempts = maximum_attempts M, dr_landing_observed = False,
                 dr_contact_observed = False, dr_charging_confirmed = False, dr_battery_percent = battery,
                 dr_target_battery_percent = target, dr_charging_started_at = None,
                 dr_estimated_ready_at = None, dr_terminal_reason = None, dr_events = []\<rparr>"
  let ?i = "(if q then ''DOCK_QUEUED'' else ''DOCK_RESERVED'', ''software dock allocation'', t)"
  have eq: "reserve_at d vid battery target n M =
      (if q \<and> queue_limit M \<le> queue_length ?did M
         then (Inl (CrazySwarmError INVALID_STATE ''dock queue capacity is exhausted''), M)
       else if \<not> valid_reservation r then (Inl (ValidationError ''DockReservation''), M\<lparr>dock_clock := c\<rparr>)
       else commit (reservation_id_for ?did vid) ?i r (M\<lparr>dock_clock := c\<rparr>))"
    unfolding reserve_at_def Let_def now q_def [symmetric] prod.case r_def [symmetric] ..
  show ?thesis
  proof (cases "(q \<and> queue_limit M \<le> queue_length ?did M) \<or> \<not> valid_reservation r")
    case True
    with assms(1,2) show ?thesis unfolding eq by (auto split: if_splits)
  next
    case False
    then have "\<not> (q \<and> queue_limit M \<le> queue_length ?did M)" "\<not> \<not> valid_reservation r" by simp_all
    with assms(1) have c: "commit (reservation_id_for ?did vid) ?i r (M\<lparr>dock_clock := c\<rparr>) = (res, M')"
      unfolding eq by (simp only: if_False)
    have "dr_state r = (if q then DS_QUEUED else DS_RESERVED)" "dr_dock_id r = ?did" "dr_vehicle_id r = vid"
      "dr_events r = []" "dr_attempts r = 0" "dr_maximum_attempts r = maximum_attempts M"
      "dr_reservation_id r = reservation_id_for ?did vid" by (simp_all add: r_def)
    note f = this
    have max: "1 \<le> maximum_attempts M" using assms(2) by (simp add: dock_inv_def)
    have "reservation_ok M (reservation_id_for ?did vid) r"
      using False assms(3) f max by (simp add: reservation_ok_def valid_reservation_def)
    then have "fits M (reservation_id_for ?did vid) r"
      using False assms(3) none f unfolding fits_def q_def
      by (auto simp: dock_state_simps not_le split: if_splits)
    then show ?thesis using assms(2) commit_inv [OF c] by simp
  qed
qed

lemma dock_candidates_in:
  assumes "dock_candidates preferred M = Inr ds" "d \<in> set ds" "dock_inv M"
  shows "dict_get (dock_definitions M) (dd_dock_id d) = Some d"
proof -
  have id: "dd_dock_id x = did" if "dict_get (dock_definitions M) did = Some x" for did x
    using assms(3) that by (auto simp: dock_inv_def)
  have "\<exists>did. dict_get (dock_definitions M) did = Some d"
  proof (cases preferred)
    case None
    with assms(1,2) have "d \<in> (\<lambda>k. the (dict_get (dock_definitions M) k)) ` set (dict_keys (dock_definitions M))"
      by (auto simp: dock_candidates_def)
    then obtain k where "k \<in> set (dict_keys (dock_definitions M))" "d = the (dict_get (dock_definitions M) k)"
      by (rule imageE)
    then show ?thesis by (cases "dict_get (dock_definitions M) k") (auto simp: map_of_eq_None_iff)
  next
    case (Some p)
    with assms(1,2) show ?thesis by (auto simp: dock_candidates_def split: sum.splits)
  qed
  with id show ?thesis by auto
qed

lemma reserve_inv:
  assumes "reserve vid preferred battery target n M = (res, M')" "dock_inv M"
  shows "dock_inv M'"
proof (cases "M' = M")
  case False
  let ?key = "\<lambda>x. (occupancy (dd_dock_id x) M, dd_dock_id x)"
  from False assms(1) obtain cs d ds where c: "dock_candidates preferred M = Inr cs"
    "filter (\<lambda>d. dict_get (dock_healths M) (dd_dock_id d) \<noteq> Some DH_UNAVAILABLE) cs = d # ds"
    "\<not> list_ex (open_request vid) (dict_values (reservations M))"
    "reserve_at (min_by ?key d ds) vid battery target n M = (res, M')"
    by (simp add: reserve_def split: if_splits sum.splits list.splits)
  have "min_by ?key d ds \<in> set (d # ds)" by (rule min_by_in)
  then have "min_by ?key d ds \<in> set cs" unfolding c(2) [symmetric] by simp
  from reserve_at_inv [OF c(4) assms(2) dock_candidates_in [OF c(1) this assms(2)] c(3)] show ?thesis .
qed (use assms in simp)

lemma dock_transition_inv:
  assumes "dock_transition rid target reason n M = (res, M')" "dock_inv M"
  shows "dock_inv M'"
proof (cases "M' = M")
  case False
  obtain t c where now: "dock_now n M = (t, M\<lparr>dock_clock := c\<rparr>)" by (rule dock_now_cases)
  from False assms(1) obtain r where r: "dict_get (reservations M) rid = Some r"
      "target \<in> allowed_dock_targets (dr_state r)"
    by (auto simp: dock_transition_def split: sum.splits if_splits)
  let ?u = "r\<lparr>dr_state := target,
      dr_attempts := dr_attempts r + (if target = DS_DOCK_ATTEMPT then 1 else 0)\<rparr>"
  have "commit rid (''DOCK_'' @ dock_state_value target, reason, t) ?u (M\<lparr>dock_clock := c\<rparr>) = (res, M')"
    using assms(1) r now by (simp add: dock_transition_def reservation_of_def)
  moreover have "fits M rid ?u"
    using r(2) dock_inv_reservation [OF assms(2) r(1)]
    by (intro fits_update [OF assms(2) r(1)])
      (cases "dr_state r"; auto simp: reservation_ok_def dock_state_simps)+
  ultimately show ?thesis using assms(2) by (auto intro: commit_inv)
qed (use assms in simp)

lemma reserve_after_handover_inv:
  assumes "reserve_after_handover h battery n M = (res, M')" "dock_inv M"
  shows "dock_inv M'"
proof -
  obtain r1 M1 where rs: "reserve (ho_outgoing_vehicle_id h) None battery 90 n M = (r1, M1)" by fastforce
  note inv1 = reserve_inv [OF rs assms(2)]
  show ?thesis
  proof (cases "M' = M \<or> M' = M1")
    case False
    with assms(1) rs obtain r :: dock_reservation where "dock_transition (dr_reservation_id r) DS_RETURN_TO_DOCK_AREA
        ''outgoing vehicle released after takeover'' n M1 = (res, M')"
      by (cases r1) (auto simp: reserve_after_handover_def split: if_splits)
    then show ?thesis using inv1 by (rule dock_transition_inv)
  qed (use inv1 assms(2) in auto)
qed

lemma confirm_modeled_landing_inv:
  assumes "confirm_modeled_landing rid contact n M = (res, M')" "dock_inv M"
  shows "dock_inv M'"
proof (cases "M' = M")
  case False
  obtain t c where now: "dock_now n M = (t, M\<lparr>dock_clock := c\<rparr>)" by (rule dock_now_cases)
  from False assms(1) obtain r where r: "dict_get (reservations M) rid = Some r" "dr_state r = DS_DOCK_ATTEMPT"
    by (auto simp: confirm_modeled_landing_def split: sum.splits if_splits)
  let ?u = "r\<lparr>dr_state := DS_LANDED_UNCONFIRMED, dr_landing_observed := True, dr_contact_observed := contact\<rparr>"
  have "commit rid (''MODELED_LANDING_OBSERVED'',
      if contact then ''modeled contact observed'' else ''modeled contact absent'', t) ?u (M\<lparr>dock_clock := c\<rparr>) = (res, M')"
    using assms(1) r now by (simp add: confirm_modeled_landing_def reservation_of_def)
  moreover have "fits M rid ?u"
    using r(2) dock_inv_reservation [OF assms(2) r(1)]
    by (intro fits_update [OF assms(2) r(1)]) (auto simp: reservation_ok_def dock_state_simps)
  ultimately show ?thesis using assms(2) by (auto intro: commit_inv)
qed (use assms in simp)

lemma confirm_modeled_charging_inv:
  assumes "confirm_modeled_charging rid confirmed n M = (res, M')" "dock_inv M"
  shows "dock_inv M'"
proof (cases "dock_inv M'")
  case False
  obtain t c where now: "dock_now n M = (t, M\<lparr>dock_clock := c\<rparr>)" by (rule dock_now_cases)
  from False assms obtain r where r: "dict_get (reservations M) rid = Some r" "dr_state r = DS_LANDED_UNCONFIRMED"
    by (auto simp: confirm_modeled_charging_def split: sum.splits if_splits)
  note ok = dock_inv_reservation [OF assms(2) r(1)]
  show ?thesis
  proof (cases "\<not> confirmed \<or> \<not> dr_contact_observed r")
    case True
    define s where "s = (if dr_maximum_attempts r \<le> dr_attempts r then DS_FAILED else DS_RETRY_PENDING)"
    define why where "why = (if dr_maximum_attempts r \<le> dr_attempts r then Some ''LANDED_NOT_CHARGING'' else None)"
    have s: "s = DS_FAILED \<or> s = DS_RETRY_PENDING \<and> dr_attempts r < dr_maximum_attempts r"
      by (auto simp: s_def)
    let ?u = "r\<lparr>dr_state := s, dr_terminal_reason := why\<rparr>"
    have "commit rid (''MODELED_CHARGING_CONFIRMATION_FAILED'',
        ''landed but modeled charging was not confirmed'', t) ?u (M\<lparr>dock_clock := c\<rparr>) = (res, M')"
      using assms(1) r now True
      by (simp add: confirm_modeled_charging_def reservation_of_def Let_def s_def why_def)
    moreover have "reservation_ok M rid ?u"
      using s
    proof
      assume "s = DS_FAILED"
      with ok show ?thesis by (simp add: reservation_ok_def)
    next
      assume "s = DS_RETRY_PENDING \<and> dr_attempts r < dr_maximum_attempts r"
      with ok show ?thesis by (simp add: reservation_ok_def)
    qed
    then have "fits M rid ?u"
    proof (rule fits_update [OF assms(2) r(1)])
      have "s \<noteq> DS_QUEUED" using s by blast
      then show "dr_state ?u = DS_QUEUED \<Longrightarrow> dr_state r = DS_QUEUED" by simp
    qed (simp_all add: dock_state_simps r(2))
    ultimately show ?thesis using assms(2) by (auto intro: commit_inv)
  next
    case contact: False
    obtain d where d: "dict_get (dock_definitions M) (dr_dock_id r) = Some d"
      using reservation_ok_dock ok by blast
    let ?dur = "max 0 ((dr_target_battery_percent r - percent_or_zero (dr_battery_percent r))
                        / dd_charge_rate_percent_per_min d * 60)"
    let ?u = "r\<lparr>dr_state := DS_CHARGING_CONFIRMED, dr_charging_confirmed := True,
                         dr_charging_started_at := Some t, dr_estimated_ready_at := Some (t + ?dur)\<rparr>"
    have "commit rid (''MODELED_CHARGING_CONFIRMED'',
        ''software scheduling model only; no physical charge claim'', t) ?u (M\<lparr>dock_clock := c\<rparr>) = (res, M')"
      using assms(1) r now contact d
      by (simp add: confirm_modeled_charging_def reservation_of_def dock_definition_of_def Let_def)
    moreover have "fits M rid ?u"
      using r(2) ok contact by (intro fits_update [OF assms(2) r(1)]) (auto simp: reservation_ok_def dock_state_simps)
    ultimately show ?thesis using assms(2) by (auto intro: commit_inv)
  qed
qed

lemma dock_ids: "dock_inv M \<Longrightarrow> dict_get (reservations M) k = Some r \<Longrightarrow> dr_reservation_id r = k"
  using dock_inv_reservation by (auto simp: reservation_ok_def)

lemma dock_values_get:
  "dock_inv M \<Longrightarrow> r \<in> set (dict_values (reservations M)) \<Longrightarrow>
   dict_get (reservations M) (dr_reservation_id r) = Some r"
  using dict_values_get [of "reservations M" r] dock_ids by (auto simp: dock_inv_def)

text \<open>What \<open>promote_queue\<close> does to the dictionary.\<close>

lemma promote_queue_cases:
  assumes "promote_queue did t M = (res, M')" "dock_inv M"
  obtains (idle) "M' = M"
  | (promoted) d q qs r1 where "dict_get (dock_definitions M) did = Some d" "occupancy did M < dd_capacity d"
      "sort_key (\<lambda>r. (dr_created_at r, dr_reservation_id r)) (filter (waits did) (dict_values (reservations M))) = q # qs"
      "dict_get (reservations M) (dr_reservation_id q) = Some q" "waits did q"
      "commit (dr_reservation_id q) (''DOCK_QUEUE_PROMOTED'', ''capacity released'', t)
         (q\<lparr>dr_state := DS_RESERVED, dr_queue_position := None\<rparr>) M = (r1, M')" "isl r1 = isl res"
proof (cases "\<exists>d. dict_get (dock_definitions M) did = Some d \<and> occupancy did M < dd_capacity d")
  case False
  with assms show thesis
    by (intro idle) (auto simp: promote_queue_def not_less split: sum.splits if_splits)
next
  case True
  then obtain d where d: "dict_get (dock_definitions M) did = Some d" "occupancy did M < dd_capacity d" by blast
  let ?q = "sort_key (\<lambda>r. (dr_created_at r, dr_reservation_id r)) (filter (waits did) (dict_values (reservations M)))"
  show thesis
  proof (cases ?q)
    case Nil
    with assms(1) d show thesis by (intro idle) (simp add: promote_queue_def dock_definition_of_def)
  next
    case (Cons q qs)
    then have "q \<in> set ?q" by simp
    then have q: "q \<in> set (dict_values (reservations M))" "waits did q" by auto
    obtain r1 M1 where c: "commit (dr_reservation_id q) (''DOCK_QUEUE_PROMOTED'', ''capacity released'', t)
         (q\<lparr>dr_state := DS_RESERVED, dr_queue_position := None\<rparr>) M = (r1, M1)" by fastforce
    with assms(1) d Cons have "M1 = M'" "isl r1 = isl res"
      by (auto simp: promote_queue_def dock_definition_of_def split: sum.splits)
    with c q d Cons dock_values_get [OF assms(2) q(1)] show thesis by (intro promoted) simp_all
  qed
qed

lemma promote_queue_inv:
  assumes "promote_queue did t M = (res, M')" "dock_inv M"
  shows "dock_inv M'"
  using assms
proof (cases rule: promote_queue_cases)
  case (promoted d q qs r1)
  note ok = dock_inv_reservation [OF assms(2) promoted(4)]
  let ?u = "q\<lparr>dr_state := DS_RESERVED, dr_queue_position := None\<rparr>"
  have "reservation_ok M (dr_reservation_id q) ?u"
    using ok promoted(5) by (simp add: reservation_ok_def waits_def)
  then have "fits M (dr_reservation_id q) ?u"
    using ok promoted(1,2,4,5) by (simp add: fits_def waits_def open_request_def dock_state_simps)
  from commit_inv [OF promoted(6) assms(2) this] show ?thesis .
qed (use assms in simp)

lemma charged_battery_bounds:
  assumes "0 \<le> percent_or_zero (dr_battery_percent r)" "0 < dd_charge_rate_percent_per_min d"
    "0 < dr_target_battery_percent r"
  shows "0 \<le> charged_battery d r began t" "charged_battery d r began t \<le> dr_target_battery_percent r"
  using assms by (simp_all add: charged_battery_def)

text \<open>The steps of a charge update.\<close>

lemma update_modeled_charge_cases:
  assumes "update_modeled_charge rid n M = (res, M')" "dock_inv M"
  obtains (refused) e where "M' = M" "res = Inl e" "e \<noteq> AssertionError"
  | (charged) r d began t c battery ready r1 M1 where
      "dict_get (reservations M) rid = Some r" "dr_state r \<in> {DS_CHARGING_CONFIRMED, DS_CHARGING}"
      "dr_charging_started_at r = Some began" "dict_get (dock_definitions M) (dr_dock_id r) = Some d"
      "dock_now n M = (t, M\<lparr>dock_clock := c\<rparr>)" "battery = charged_battery d r began t"
      "ready = (dr_target_battery_percent r \<le> battery)"
      "commit rid (if ready then ''MODELED_CHARGE_READY'' else ''MODELED_CHARGE_PROGRESS'',
          ''software scheduling model'', t)
        (r\<lparr>dr_state := (if ready then DS_READY else DS_CHARGING), dr_battery_percent := Some battery\<rparr>)
        (M\<lparr>dock_clock := c\<rparr>) = (r1, M1)"
      "case r1 of Inl e \<Rightarrow> res = Inl e \<and> M' = M1
       | Inr u \<Rightarrow> if ready then (\<exists>p. promote_queue (dr_dock_id r) t M1 = (p, M') \<and>
             res = (case p of Inl e \<Rightarrow> Inl e | Inr _ \<Rightarrow> Inr u)) else res = Inr u \<and> M' = M1"
proof (cases "\<exists>r. dict_get (reservations M) rid = Some r \<and> dr_state r \<in> {DS_CHARGING_CONFIRMED, DS_CHARGING}")
  case False
  have "M' = M \<and> (\<exists>e. res = Inl e \<and> e \<noteq> AssertionError)"
  proof (cases "dict_get (reservations M) rid")
    case None
    with assms(1) show ?thesis by (auto simp: update_modeled_charge_def reservation_of_def)
  next
    case (Some r)
    with False assms(1) show ?thesis by (auto simp: update_modeled_charge_def reservation_of_def)
  qed
  then show thesis by (auto intro: refused)
next
  case True
  then obtain r where r: "dict_get (reservations M) rid = Some r" "dr_state r \<in> {DS_CHARGING_CONFIRMED, DS_CHARGING}"
    by blast
  have "dr_charging_started_at r \<noteq> None"
    using reservation_ok_facts(1) [OF conjunct1 [OF dock_inv_reservation [OF assms(2) r(1)]]] r(2) by blast
  then obtain began where b: "dr_charging_started_at r = Some began" by blast
  obtain d where d: "dict_get (dock_definitions M) (dr_dock_id r) = Some d"
    using dock_inv_reservation [OF assms(2) r(1)] reservation_ok_dock by blast
  obtain t c where now: "dock_now n M = (t, M\<lparr>dock_clock := c\<rparr>)" by (rule dock_now_cases)
  define battery where "battery = charged_battery d r began t"
  define ready where "ready = (dr_target_battery_percent r \<le> battery)"
  let ?i = "(if ready then ''MODELED_CHARGE_READY'' else ''MODELED_CHARGE_PROGRESS'', ''software scheduling model'', t)"
  let ?u = "r\<lparr>dr_state := (if ready then DS_READY else DS_CHARGING), dr_battery_percent := Some battery\<rparr>"
  obtain r1 M1 where c: "commit rid ?i ?u (M\<lparr>dock_clock := c\<rparr>) = (r1, M1)" by fastforce
  have eq: "update_modeled_charge rid n M = (case commit rid ?i ?u (M\<lparr>dock_clock := c\<rparr>) of
      (Inl e, M2) \<Rightarrow> (Inl e, M2)
    | (Inr u, M2) \<Rightarrow> if ready then (case promote_queue (dr_dock_id r) t M2 of
          (Inl e, M3) \<Rightarrow> (Inl e, M3) | (Inr _, M3) \<Rightarrow> (Inr u, M3)) else (Inr u, M2))"
    using r(1,2) b d now unfolding ready_def battery_def
    by (simp add: update_modeled_charge_def reservation_of_def dock_definition_of_def Let_def)
  obtain p M3 where p: "promote_queue (dr_dock_id r) t M1 = (p, M3)" by fastforce
  from assms(1) have "case r1 of Inl e \<Rightarrow> res = Inl e \<and> M' = M1
       | Inr u \<Rightarrow> if ready then (\<exists>p. promote_queue (dr_dock_id r) t M1 = (p, M') \<and>
             res = (case p of Inl e \<Rightarrow> Inl e | Inr _ \<Rightarrow> Inr u)) else res = Inr u \<and> M' = M1"
    unfolding eq c prod.case using p by (cases r1; cases p) (auto split: if_splits)
  from charged [OF r b d now battery_def ready_def c this] show thesis .
qed

lemma update_modeled_charge_inv:
  assumes "update_modeled_charge rid n M = (res, M')" "dock_inv M"
  shows "dock_inv M'"
  using assms
proof (cases rule: update_modeled_charge_cases)
  case (charged r d began t c battery ready r1 M1)
  note ok = dock_inv_reservation [OF assms(2) charged(1)]
  let ?u = "r\<lparr>dr_state := (if ready then DS_READY else DS_CHARGING), dr_battery_percent := Some battery\<rparr>"
  have rate: "0 < dd_charge_rate_percent_per_min d"
    using assms(2) charged(4) by (simp add: dock_inv_def valid_dock_definition_def)
  note facts = reservation_ok_facts [OF conjunct1 [OF ok]]
  from facts(3-5) charged_battery_bounds [of r d began t] rate charged(6)
  have bat: "0 \<le> battery" "battery \<le> dr_target_battery_percent r" "battery \<le> 100" by simp_all
  have "reservation_ok M rid ?u"
  proof (cases ready)
    case True
    with charged(7) bat have "battery = dr_target_battery_percent r" by simp
    with charged(2) show ?thesis
      using True ok bat by (elim insertE) (simp_all add: reservation_ok_def)
  next
    case False
    from charged(2) show ?thesis
      using False ok bat by (elim insertE) (simp_all add: reservation_ok_def)
  qed
  then have "fits M rid ?u"
    using charged(2)
    by (intro fits_update [OF assms(2) charged(1)]) (auto simp: dock_state_simps split: if_splits)
  with commit_inv [OF charged(8)] assms(2) have inv1: "dock_inv M1" by simp
  from charged(9) consider "M' = M1" | p where "promote_queue (dr_dock_id r) t M1 = (p, M')"
    by (cases r1; cases ready) (simp_all, blast)
  then show ?thesis using inv1 by cases (auto intro: promote_queue_inv)
qed (use assms in simp)

lemma divert_all_inv:
  assumes "divert_all did t rs M = (res, M')" "dock_inv M"
    "\<forall>r \<in> set rs. dict_get (reservations M) (dr_reservation_id r) = Some r"
    "distinct (map dr_reservation_id rs)"
  shows "dock_inv M'"
  using assms
proof (induction rs arbitrary: M)
  case (Cons r rs)
  show ?case
  proof (cases "dr_dock_id r = did \<and> \<not> dock_terminal (dr_state r)")
    case False
    with Cons.prems(1) have "divert_all did t rs M = (res, M')" by simp
    from Cons.IH [OF this Cons.prems(2)] Cons.prems(3,4) show ?thesis by simp
  next
    case True
    let ?rid = "dr_reservation_id r"
    define s where "s = (if dr_state r = DS_QUEUED then DS_QUEUED else DS_DIVERTED)"
    let ?u = "r\<lparr>dr_state := s, dr_terminal_reason := Some ''DOCK_UNAVAILABLE''\<rparr>"
    from Cons.prems(3) have r: "dict_get (reservations M) ?rid = Some r" by simp
    obtain r1 M1 where c: "commit ?rid (''DOCK_UNAVAILABLE'', ''dock health changed to unavailable'', t) ?u M
        = (r1, M1)" by fastforce
    have "reservation_ok M ?rid ?u"
      using dock_inv_reservation [OF Cons.prems(2) r] by (simp add: reservation_ok_def s_def)
    then have "fits M ?rid ?u"
      using True by (intro fits_update [OF Cons.prems(2) r]) (auto simp: dock_state_simps s_def split: if_splits)
    from commit_inv [OF c Cons.prems(2) this] have inv1: "dock_inv M1" .
    show ?thesis
    proof (cases r1)
      case (Inl e)
      with Cons.prems(1) c True inv1 show ?thesis unfolding divert_all.simps s_def by simp
    next
      case (Inr u)
      with Cons.prems(1) c True have rest: "divert_all did t rs M1 = (res, M')"
        unfolding divert_all.simps s_def by simp
      from c Inr have "reservations M1 = dict_set ?rid u (reservations M)"
        by (auto elim: commit_cases)
      moreover have "dr_reservation_id x \<noteq> ?rid" if "x \<in> set rs" for x
        using Cons.prems(4) that by (metis distinct.simps(2) image_eqI list.simps(9) list.set_map)
      ultimately have "\<forall>x \<in> set rs. dict_get (reservations M1) (dr_reservation_id x) = Some x"
        using Cons.prems(3) by simp
      moreover from Cons.prems(4) have "distinct (map dr_reservation_id rs)" by simp
      ultimately show ?thesis by (rule Cons.IH [OF rest inv1])
    qed
  qed
qed simp

lemma dock_values_ids:
  assumes "dock_inv M"
  shows "map dr_reservation_id (dict_values (reservations M)) = dict_keys (reservations M)"
proof -
  have "dr_reservation_id v = k" if "(k, v) \<in> set (reservations M)" for k v
    using dock_ids [OF assms, of k v] assms that by (simp add: dock_inv_def dict_wf_def)
  then show ?thesis by simp
qed

lemma set_health_inv:
  assumes "set_health did h n M = (res, M')" "dock_inv M"
  shows "dock_inv M'"
proof (cases "dock_inv M'")
  case False
  let ?M1 = "M\<lparr>dock_healths := dict_set did h (dock_healths M)\<rparr>"
  obtain t c where now: "dock_now n ?M1 = (t, ?M1\<lparr>dock_clock := c\<rparr>)" by (rule dock_now_cases)
  let ?M2 = "?M1\<lparr>dock_clock := c\<rparr>"
  obtain r3 M3 where dv: "divert_all did t (dict_values (reservations ?M2)) ?M2 = (r3, M3)" by fastforce
  from False assms now dv have "M' = M3"
    by (auto simp: set_health_def Let_def split: sum.splits if_splits)
  moreover have "dock_inv M3"
    using dv
  proof (rule divert_all_inv)
    show inv2: "dock_inv ?M2" using assms(2) by simp
    show "\<forall>r \<in> set (dict_values (reservations ?M2)). dict_get (reservations ?M2) (dr_reservation_id r) = Some r"
      using dock_values_get [OF inv2] by blast
    show "distinct (map dr_reservation_id (dict_values (reservations ?M2)))"
      unfolding dock_values_ids [OF inv2] using inv2 by (simp add: dock_inv_def dict_wf_def)
  qed
  ultimately show ?thesis by simp
qed

subsection \<open>Runs of the scheduler\<close>

inductive dock_call :: "dock_manager \<Rightarrow> dock_manager \<Rightarrow> bool" where
  dc_reserve: "reserve vid preferred battery target n M = (res, M') \<Longrightarrow> dock_call M M'"
| dc_handover: "reserve_after_handover h battery n M = (res, M') \<Longrightarrow> dock_call M M'"
| dc_transition: "dock_transition rid s reason n M = (res, M') \<Longrightarrow> dock_call M M'"
| dc_landing: "confirm_modeled_landing rid contact n M = (res, M') \<Longrightarrow> dock_call M M'"
| dc_charging: "confirm_modeled_charging rid confirmed n M = (res, M') \<Longrightarrow> dock_call M M'"
| dc_update: "update_modeled_charge rid n M = (res, M') \<Longrightarrow> dock_call M M'"
| dc_health: "set_health did hl n M = (sres, M') \<Longrightarrow> dock_call M M'"

interpretation docking: invariant_system dock_call dock_inv
proof
  fix M M' assume "dock_call M M'" "dock_inv M"
  then show "dock_inv M'"
    by (induction rule: dock_call.induct)
      (auto intro: reserve_inv reserve_after_handover_inv dock_transition_inv confirm_modeled_landing_inv
        confirm_modeled_charging_inv update_modeled_charge_inv set_health_inv)
qed

lemma fold_definitions_get:
  "dict_get (fold (\<lambda>d. dict_set (dd_dock_id d) d) ds m) did = Some x \<Longrightarrow>
   (x \<in> set ds \<and> dd_dock_id x = did) \<or> dict_get m did = Some x"
  by (induction ds arbitrary: m) (fastforce split: if_splits)+

lemma init_docks_inv:
  assumes "init_docks ds ttl k q c = Inr M" "list_all valid_dock_definition ds"
  shows "dock_inv M"
proof -
  have "dd_dock_id x = did \<and> valid_dock_definition x"
    if "dict_get (fold (\<lambda>d. dict_set (dd_dock_id d) d) ds []) did = Some x" for did x
    using fold_definitions_get [OF that] assms(2) by (auto simp: list_all_iff)
  note defs = this
  from assms(1) have M: "M = \<lparr>dock_definitions = fold (\<lambda>d. dict_set (dd_dock_id d) d) ds [],
        dock_healths = fold (\<lambda>d. dict_set (dd_dock_id d) DH_AVAILABLE) ds [],
        reservation_ttl_s = ttl, maximum_attempts = k, queue_limit = q,
        reservations = [], dock_sequence = 0, dock_clock = c\<rparr>" "1 \<le> k" "1 \<le> q"
    by (simp_all add: init_docks_def split: if_splits)
  have defsM: "dd_dock_id x = did \<and> valid_dock_definition x" if "dict_get (dock_definitions M) did = Some x" for did x
    by (rule defs) (use that in \<open>simp add: M(1)\<close>)
  have empty: "reservations M = []" "1 \<le> maximum_attempts M" "1 \<le> queue_limit M" "dock_sequence M = 0"
    using M by simp_all
  have "limits_ok M" unfolding limits_ok_def
  proof (intro allI impI)
    fix did d assume "dict_get (dock_definitions M) did = Some d"
    then have "valid_dock_definition d" using defsM by blast
    then have "1 \<le> dd_capacity d" by (simp add: valid_dock_definition_def)
    with empty show "occupancy did M \<le> dd_capacity d \<and> queue_length did M \<le> queue_limit M"
      by (simp add: occupancy_def queue_length_def)
  qed
  moreover have "one_open_request M" by (simp add: one_open_request_def empty)
  moreover have "\<forall>did d. dict_get (dock_definitions M) did = Some d \<longrightarrow> dd_dock_id d = did \<and> valid_dock_definition d"
    using defsM by blast
  ultimately show ?thesis unfolding dock_inv_def using empty by simp
qed

lemma docks_reach_inv:
  "init_docks ds ttl k q c = Inr M0 \<Longrightarrow> list_all valid_dock_definition ds \<Longrightarrow> dock_call\<^sup>*\<^sup>* M0 M \<Longrightarrow> dock_inv M"
  by (rule docking.reach_inv [OF _ init_docks_inv])

section \<open>A sample dock\<close>

definition sample_dock :: "string \<Rightarrow> dock_definition" where
  "sample_dock did = \<lparr>dd_dock_id = did, dd_capacity = 1, dd_supported_charging_capability = ''qi'',
     dd_charge_rate_percent_per_min = 6\<rparr>"

definition dock_init :: "string list \<Rightarrow> dock_manager outcome" where
  "dock_init ids = init_docks (map sample_dock ids) 120 2 8 sample_clock"

definition docks0 :: "string list \<Rightarrow> dock_manager" where
  "docks0 ids = projr (dock_init ids)"

text \<open>A run is a list of calls, each a function on the manager.\<close>

definition run_docks :: "(dock_manager \<Rightarrow> 'a \<times> dock_manager) list \<Rightarrow> dock_manager \<Rightarrow> dock_manager" where
  "run_docks fs M = fold (\<lambda>f M. snd (f M)) fs M"

definition dock_until_charging :: "string \<Rightarrow> (dock_manager \<Rightarrow> dock_reservation outcome \<times> dock_manager) list" where
  "dock_until_charging vid =
     [reserve vid None (Some 30) 90 (Some 0),
      dock_transition (reservation_id_for ''a'' vid) DS_RETURN_TO_DOCK_AREA ''r'' (Some 1),
      dock_transition (reservation_id_for ''a'' vid) DS_APPROACH_REQUESTED ''r'' (Some 2),
      dock_transition (reservation_id_for ''a'' vid) DS_DOCK_ATTEMPT ''r'' (Some 3),
      confirm_modeled_landing (reservation_id_for ''a'' vid) True (Some 4),
      confirm_modeled_charging (reservation_id_for ''a'' vid) True (Some 5)]"

definition docks_charging :: dock_manager where
  "docks_charging = run_docks (dock_until_charging ''v1'' @ [reserve ''v2'' None None 90 (Some 6)]) (docks0 [''a''])"

definition charge_done :: "dock_reservation outcome \<times> dock_manager" where
  "charge_done = update_modeled_charge (reservation_id_for ''a'' ''v1'') (Some 1000) docks_charging"

lemma dock_init_ok: "init_docks (map sample_dock [''a'']) 120 2 8 sample_clock = Inr (docks0 [''a''])"
proof -
  have "\<not> isl (dock_init [''a''])" by code_simp
  from not_isl_projr [OF this] show ?thesis by (simp add: dock_init_def docks0_def)
qed

lemma sample_docks_valid: "list_all valid_dock_definition (map sample_dock [''a''])"
  by code_simp

lemma dock_call_intros:
  "dock_call M (snd (reserve vid preferred battery target n M))"
  "dock_call M (snd (dock_transition rid s reason n M))"
  "dock_call M (snd (confirm_modeled_landing rid contact n M))"
  "dock_call M (snd (confirm_modeled_charging rid confirmed n M))"
  "dock_call M (snd (update_modeled_charge rid n M))"
  by (rule dock_call.intros, rule prod.collapse [symmetric])+

lemma run_docks_reached:
  "(\<And>f N. f \<in> set fs \<Longrightarrow> dock_call N (snd (f N))) \<Longrightarrow> dock_call\<^sup>*\<^sup>* M (run_docks fs M)"
proof (induction fs arbitrary: M)
  case (Cons f fs)
  from Cons.prems have "dock_call M (snd (f M))" by simp
  moreover have "dock_call\<^sup>*\<^sup>* (snd (f M)) (run_docks fs (snd (f M)))"
    by (rule Cons.IH) (use Cons.prems in simp)
  ultimately show ?case by (simp add: run_docks_def converse_rtranclp_into_rtranclp)
qed (simp add: run_docks_def)

lemma docks_charging_reached: "dock_call\<^sup>*\<^sup>* (docks0 [''a'']) docks_charging"
  unfolding docks_charging_def
  by (rule run_docks_reached) (auto simp: dock_until_charging_def intro: dock_call_intros)

lemma charge_done_ok:
  "update_modeled_charge (reservation_id_for ''a'' ''v1'') (Some 1000) docks_charging
     = (Inr (projr (fst charge_done)), snd charge_done)"
proof -
  have "\<not> isl (fst charge_done)" by code_simp
  from outcome_Inr [OF this] show ?thesis by (simp add: charge_done_def)
qed

lemma charge_done_reached: "dock_call\<^sup>*\<^sup>* (docks0 [''a'']) (snd charge_done)"
  using docks_charging_reached dc_update [OF charge_done_ok] by (rule rtranclp.rtrancl_into_rtrancl)

section \<open>Properties\<close>

text \<open>
  C39. Dock limits: in every state the scheduler reaches, each dock holds at most its capacity of
  vehicles and queues at most the queue limit, and every request keeps its docking attempts within the
  configured maximum.
\<close>

theorem dock_limits_hold:
  assumes "init_docks ds ttl k q c = Inr M0" "list_all valid_dock_definition ds" "dock_call\<^sup>*\<^sup>* M0 M"
  shows "(\<forall>did d. dict_get (dock_definitions M) did = Some d \<longrightarrow>
       occupancy did M \<le> dd_capacity d \<and> queue_length did M \<le> queue_limit M) \<and>
     (\<forall>rid r. dict_get (reservations M) rid = Some r \<longrightarrow>
       0 \<le> dr_attempts r \<and> dr_attempts r \<le> maximum_attempts M)"
  using docks_reach_inv [OF assms] by (simp add: dock_inv_def limits_ok_def reservation_ok_def)

theorem dock_limits_hold_witness: "occupancy ''a'' docks_charging \<le> 1 \<and> occupancy ''a'' docks_charging = 1"
proof -
  have "dict_get (dock_definitions docks_charging) ''a'' = Some (sample_dock ''a'')" by code_simp
  with dock_limits_hold [OF dock_init_ok sample_docks_valid docks_charging_reached]
  have "occupancy ''a'' docks_charging \<le> dd_capacity (sample_dock ''a'')" by blast
  moreover have "occupancy ''a'' docks_charging = 1" by code_simp
  ultimately show ?thesis by (simp add: sample_dock_def)
qed

text \<open>
  A vehicle never has two open dock requests: two different reservations of the same vehicle
  cannot both be short of READY, FAILED and DIVERTED.
\<close>

theorem one_open_request_per_vehicle:
  assumes "init_docks ds ttl k q c = Inr M0" "list_all valid_dock_definition ds" "dock_call\<^sup>*\<^sup>* M0 M"
    and "dict_get (reservations M) rid = Some r" "dict_get (reservations M) rid' = Some r'"
    and "dr_vehicle_id r = dr_vehicle_id r'" "\<not> dock_terminal (dr_state r)" "\<not> dock_terminal (dr_state r')"
  shows "rid = rid'"
  using docks_reach_inv [OF assms(1-3)] assms(4-8)
  unfolding dock_inv_def one_open_request_def open_request_def by metis

theorem one_open_request_per_vehicle_witness:
  "{rid. \<exists>r. dict_get (reservations docks_charging) rid = Some r \<and> dr_vehicle_id r = ''v1'' \<and>
     \<not> dock_terminal (dr_state r)} = {reservation_id_for ''a'' ''v1''}"
proof -
  have "(case dict_get (reservations docks_charging) (reservation_id_for ''a'' ''v1'') of None \<Rightarrow> False
      | Some r \<Rightarrow> dr_vehicle_id r = ''v1'' \<and> \<not> dock_terminal (dr_state r))" by code_simp
  then obtain r where r: "dict_get (reservations docks_charging) (reservation_id_for ''a'' ''v1'') = Some r"
    "dr_vehicle_id r = ''v1''" "\<not> dock_terminal (dr_state r)" by (auto split: option.splits)
  have "reservation_id_for ''a'' ''v1'' = rid" if "dict_get (reservations docks_charging) rid = Some r'"
    "dr_vehicle_id r' = ''v1''" "\<not> dock_terminal (dr_state r')" for rid r'
    using one_open_request_per_vehicle [OF dock_init_ok sample_docks_valid docks_charging_reached r(1) that(1) _ r(3) that(3)]
      r(2) that(2) by simp
  with r show ?thesis by blast
qed

lemma commit_no_assertion: "commit rid i r M = (res, M') \<Longrightarrow> res \<noteq> Inl AssertionError"
  by (auto simp: commit_def stamp_dock_def Let_def split: sum.splits prod.splits if_splits)

lemma promote_no_assertion: "promote_queue did t M = (res, M') \<Longrightarrow> res \<noteq> Inl AssertionError"
  by (auto simp: promote_queue_def dock_definition_of_def dest!: commit_no_assertion
      split: sum.splits prod.splits if_splits option.splits list.splits)

text \<open>
  C40. READY is earned: a reservation in a charging state or READY has an observed landing, observed
  contact and confirmed charging on record, and READY means that the modelled battery equals the
  target; batteries stay within 0 to 100. The assertion in \<open>update_modeled_charge\<close> therefore never
  fails.
\<close>

theorem ready_is_earned:
  assumes "init_docks ds ttl k q c = Inr M0" "list_all valid_dock_definition ds" "dock_call\<^sup>*\<^sup>* M0 M"
  shows "(\<forall>rid r. dict_get (reservations M) rid = Some r \<longrightarrow>
      (dr_state r \<in> {DS_CHARGING_CONFIRMED, DS_CHARGING, DS_READY} \<longrightarrow>
        dr_landing_observed r \<and> dr_contact_observed r \<and> dr_charging_confirmed r) \<and>
      (dr_state r = DS_READY \<longrightarrow> dr_battery_percent r = Some (dr_target_battery_percent r)) \<and>
      (\<forall>b. dr_battery_percent r = Some b \<longrightarrow> 0 \<le> b \<and> b \<le> 100)) \<and>
    fst (update_modeled_charge rid n M) \<noteq> Inl AssertionError"
proof -
  note inv = docks_reach_inv [OF assms]
  have "fst (update_modeled_charge rid n M) \<noteq> Inl AssertionError"
  proof
    assume a: "fst (update_modeled_charge rid n M) = Inl AssertionError"
    then obtain M' where u: "update_modeled_charge rid n M = (Inl AssertionError, M')"
      by (cases "update_modeled_charge rid n M") simp
    show False
      using u inv
    proof (cases rule: update_modeled_charge_cases)
      case (charged r d began t c battery ready r1 M1)
      show False
      proof (cases r1)
        case (Inl e)
        with charged(9) commit_no_assertion [OF charged(8)] show False by simp
      next
        case (Inr x)
        with charged(9) obtain p where "promote_queue (dr_dock_id r) t M1 = (p, M')"
          "(Inl AssertionError :: dock_reservation outcome) = (case p of Inl e \<Rightarrow> Inl e | Inr _ \<Rightarrow> Inr x)"
          by (cases ready) auto
        then show False by (cases p) (auto dest: promote_no_assertion)
      qed
    qed simp
  qed
  moreover have "(dr_state r \<in> {DS_CHARGING_CONFIRMED, DS_CHARGING, DS_READY} \<longrightarrow>
        dr_landing_observed r \<and> dr_contact_observed r \<and> dr_charging_confirmed r) \<and>
      (dr_state r = DS_READY \<longrightarrow> dr_battery_percent r = Some (dr_target_battery_percent r)) \<and>
      (\<forall>b. dr_battery_percent r = Some b \<longrightarrow> 0 \<le> b \<and> b \<le> 100)"
    if "dict_get (reservations M) rid' = Some r" for rid' r
    using dock_inv_reservation [OF inv that] unfolding reservation_ok_def
    by (cases "dr_battery_percent r") simp_all
  ultimately show ?thesis by blast
qed

theorem ready_is_earned_witness:
  "\<exists>r. dict_get (reservations (snd charge_done)) (reservation_id_for ''a'' ''v1'') = Some r \<and>
     dr_state r = DS_READY \<and> dr_contact_observed r \<and> dr_battery_percent r = Some (dr_target_battery_percent r)"
proof -
  have "map_option dr_state (dict_get (reservations (snd charge_done)) (reservation_id_for ''a'' ''v1''))
      = Some DS_READY" by code_simp
  then obtain r where r: "dict_get (reservations (snd charge_done)) (reservation_id_for ''a'' ''v1'') = Some r"
    "dr_state r = DS_READY" by auto
  with ready_is_earned [OF dock_init_ok sample_docks_valid charge_done_reached] show ?thesis by blast
qed

lemma commit_Inr:
  "commit rid i r M = (Inr u, M') \<Longrightarrow> \<exists>e. u = r\<lparr>dr_events := dr_events r @ [e]\<rparr> \<and>
     M' = M\<lparr>dock_sequence := dock_sequence M + 1, reservations := dict_set rid u (reservations M)\<rparr>"
  by (erule commit_cases) auto

lemma raise_or_return: "(Inr u = (case p of Inl e \<Rightarrow> Inl e | Inr _ \<Rightarrow> Inr v)) \<longleftrightarrow> \<not> isl p \<and> u = v"
  by (cases p) auto

text \<open>
  Capacity that charging frees goes to the longest waiting vehicle: when an update brings a
  reservation to READY and vehicles queue for that dock, the queued reservation with the earliest
  creation time (ties broken by identifier) is RESERVED afterwards.
\<close>

theorem ready_promotes_oldest:
  assumes "init_docks ds ttl k q c = Inr M0" "list_all valid_dock_definition ds" "dock_call\<^sup>*\<^sup>* M0 M"
    and "update_modeled_charge rid n M = (Inr u, M')" "dr_state u = DS_READY"
    and "dict_get (reservations M) wid = Some w" "waits (dr_dock_id u) w"
  shows "\<exists>p v. dict_get (reservations M) (dr_reservation_id p) = Some p \<and> waits (dr_dock_id u) p \<and>
    dict_get (reservations M') (dr_reservation_id p) = Some v \<and> dr_state v = DS_RESERVED \<and>
    (\<forall>x y. dict_get (reservations M) x = Some y \<longrightarrow> waits (dr_dock_id u) y \<longrightarrow>
       (dr_created_at p, dr_reservation_id p) \<le> (dr_created_at y, dr_reservation_id y))"
proof -
  note inv = docks_reach_inv [OF assms(1-3)]
  let ?key = "\<lambda>r. (dr_created_at r, dr_reservation_id r)"
  from assms(4) inv show ?thesis
  proof (cases rule: update_modeled_charge_cases)
    case (charged r d began t cl battery ready r1 M1)
    from charged(9) obtain v where v: "r1 = Inr v" by (cases r1) auto
    let ?u = "r\<lparr>dr_state := (if ready then DS_READY else DS_CHARGING), dr_battery_percent := Some battery\<rparr>"
    from commit_Inr [OF charged(8) [unfolded v]] obtain e where
      ve: "v = ?u\<lparr>dr_events := dr_events ?u @ [e]\<rparr>" and
      M1: "M1 = (M\<lparr>dock_clock := cl\<rparr>)\<lparr>dock_sequence := dock_sequence (M\<lparr>dock_clock := cl\<rparr>) + 1,
            reservations := dict_set rid v (reservations (M\<lparr>dock_clock := cl\<rparr>))\<rparr>" by blast
    have rdy: "ready"
    proof (rule ccontr)
      assume "\<not> ready"
      with charged(9) v ve assms(5) show False by simp
    qed
    with charged(9) v obtain p where p: "promote_queue (dr_dock_id r) t M1 = (p, M')" "\<not> isl p" "u = v"
      by (auto simp: raise_or_return)
    have did: "dr_dock_id u = dr_dock_id r" using p(3) ve by simp
    have wf: "dict_wf (reservations M)" using inv by (simp add: dock_inv_def)
    have "\<not> occupies (dr_dock_id r) v" using ve rdy by (simp add: occupies_def occupies_capacity_def)
    moreover have "occupies (dr_dock_id r) r" using charged(2) by (auto simp: occupies_def occupies_capacity_def)
    ultimately have "occupancy (dr_dock_id r) M1 + 1 = occupancy (dr_dock_id r) M"
      using count_values_set [OF wf, of "occupies (dr_dock_id r)" rid v] charged(1)
      by (simp add: occupancy_def M1)
    moreover have "occupancy (dr_dock_id r) M \<le> dd_capacity d"
      using inv charged(4) by (simp add: dock_inv_def limits_ok_def)
    ultimately have room: "\<not> dd_capacity d \<le> occupancy (dr_dock_id r) M1" by simp
    have d1: "dict_get (dock_definitions M1) (dr_dock_id r) = Some d" using charged(4) by (simp add: M1)
    have other: "x \<noteq> rid" if "dict_get (reservations M) x = Some y" "waits (dr_dock_id r) y" for x y
      using that charged(1,2) by (auto simp: waits_def)
    let ?ws = "filter (waits (dr_dock_id r)) (dict_values (reservations M1))"
    have inM1: "y \<in> set ?ws" if "dict_get (reservations M) x = Some y" "waits (dr_dock_id r) y" for x y
    proof -
      have "dict_get (reservations M1) x = Some y" using that other [OF that] by (simp add: M1)
      with that(2) show ?thesis by (auto dest: dict_get_values)
    qed
    have "w \<in> set ?ws" using inM1 assms(6,7) did by simp
    then have "w \<in> set (sort_key ?key ?ws)" by (simp only: set_sort)
    then obtain z zs where srt: "sort_key ?key ?ws = z # zs"
      by (cases "sort_key ?key ?ws") simp_all
    have zin: "z \<in> set ?ws" using arg_cong [OF srt, of set] by auto
    have least: "?key z \<le> ?key y" if "y \<in> set ?ws" for y
    proof -
      from that have "y \<in> set (z # zs)" unfolding srt [symmetric] by simp
      moreover have "sorted (map ?key (z # zs))" unfolding srt [symmetric] by simp
      ultimately show ?thesis by auto
    qed
    obtain r2 where cm: "commit (dr_reservation_id z) (''DOCK_QUEUE_PROMOTED'', ''capacity released'', t)
         (z\<lparr>dr_state := DS_RESERVED, dr_queue_position := None\<rparr>) M1 = (Inr r2, M')"
      using p(1,2) d1 room srt
      by (auto simp: promote_queue_def dock_definition_of_def split: sum.splits prod.splits)
    then have stored: "dict_get (reservations M') (dr_reservation_id z) = Some r2 \<and> dr_state r2 = DS_RESERVED"
      by (auto elim: commit_cases)
    have "z \<noteq> v" using zin ve rdy by (auto simp: waits_def)
    moreover from zin have "z \<in> set (dict_values (reservations M1))" by simp
    moreover have "dict_wf (reservations M1)" using wf by (simp add: M1)
    ultimately obtain x where x: "dict_get (reservations M) x = Some z" "x \<noteq> rid"
      using dict_values_get [of "reservations M1" z] by (auto simp: M1 split: if_splits)
    with dock_ids [OF inv x(1)] zin stored least inM1 did show ?thesis
      by (intro exI [of _ z] exI [of _ r2]) auto
  qed simp
qed

theorem ready_promotes_oldest_witness:
  "\<exists>v rid. dict_get (reservations (snd charge_done)) rid = Some v \<and> dr_state v = DS_RESERVED"
proof -
  have "dr_state (projr (fst charge_done)) = DS_READY" by code_simp
  moreover have "(case dict_get (reservations docks_charging) (reservation_id_for ''a'' ''v2'') of None \<Rightarrow> False
      | Some w \<Rightarrow> waits (dr_dock_id (projr (fst charge_done))) w)" by code_simp
  then obtain w where "dict_get (reservations docks_charging) (reservation_id_for ''a'' ''v2'') = Some w"
    "waits (dr_dock_id (projr (fst charge_done))) w" by (auto split: option.splits)
  ultimately show ?thesis
    using ready_promotes_oldest [OF dock_init_ok sample_docks_valid docks_charging_reached charge_done_ok] by blast
qed

text \<open>
  The modelled charge counts elapsed time twice: an update stores the new battery level but keeps
  the start of charging, so the next update adds the whole time since the start again. After updates at
  \<open>t1\<close> and \<open>t2\<close> the battery has gained \<open>(t1 - t0) + (t2 - t0)\<close> of charge instead of \<open>t2 - t0\<close>.
\<close>

theorem charge_counts_elapsed_twice:
  assumes "init_docks ds ttl k q c = Inr M0" "list_all valid_dock_definition ds" "dock_call\<^sup>*\<^sup>* M0 M"
    and "dict_get (reservations M) rid = Some r" "dr_charging_started_at r = Some t0" "dr_battery_percent r = Some b0"
    and "dict_get (dock_definitions M) (dr_dock_id r) = Some d"
    and "update_modeled_charge rid (Some t1) M = (Inr u1, M1)" "dr_state u1 = DS_CHARGING" "t0 \<le> t1"
    and "update_modeled_charge rid (Some t2) M1 = (Inr u2, M2)" "dr_state u2 = DS_CHARGING" "t0 \<le> t2"
  shows "dr_battery_percent u2
    = Some (b0 + ((t1 - t0) + (t2 - t0)) / 60 * dd_charge_rate_percent_per_min d)"
proof -
  have step: "\<exists>e. u = r\<lparr>dr_state := DS_CHARGING,
        dr_battery_percent := Some (b + (t - t0) / 60 * dd_charge_rate_percent_per_min d),
        dr_events := dr_events r @ [e]\<rparr> \<and> dict_get (reservations M') rid = Some u \<and>
      dock_definitions M' = dock_definitions M"
    if "dock_inv M" "dict_get (reservations M) rid = Some r" "dr_charging_started_at r = Some t0"
      "dr_battery_percent r = Some b" "dict_get (dock_definitions M) (dr_dock_id r) = Some d"
      "update_modeled_charge rid (Some t) M = (Inr u, M')" "dr_state u = DS_CHARGING" "t0 \<le> t"
    for M r b t u M'
    using that(6,1)
  proof (cases rule: update_modeled_charge_cases)
    case (charged r' d' began t' cl battery ready r1 M1)
    from charged(1,3,4,5) that(2,3,5) have eq: "r' = r" "began = t0" "d' = d" "t' = t"
      by (auto simp: dock_now_def)
    from charged(9) obtain v where v: "r1 = Inr v" by (cases r1) auto
    let ?u = "r\<lparr>dr_state := (if ready then DS_READY else DS_CHARGING), dr_battery_percent := Some battery\<rparr>"
    from commit_Inr [OF charged(8) [unfolded v eq]] obtain e where
      ve: "v = ?u\<lparr>dr_events := dr_events ?u @ [e]\<rparr>" and
      M1: "M1 = (M\<lparr>dock_clock := cl\<rparr>)\<lparr>dock_sequence := dock_sequence (M\<lparr>dock_clock := cl\<rparr>) + 1,
            reservations := dict_set rid v (reservations (M\<lparr>dock_clock := cl\<rparr>))\<rparr>" by blast
    have nr: "\<not> ready"
    proof
      assume r: ready
      with charged(9) v have "u = v" by (auto simp: raise_or_return)
      with r ve that(7) show False by simp
    qed
    then have "battery = b + (t - t0) / 60 * dd_charge_rate_percent_per_min d"
      using charged(6,7) that(4,8) eq by (auto simp: charged_battery_def percent_or_zero_def min_def split: if_splits)
    moreover from nr charged(9) v have "u = v" "M' = M1" by simp_all
    ultimately show ?thesis using nr ve M1 by (intro exI [of _ e]) simp
  qed simp
  note inv = docks_reach_inv [OF assms(1-3)]
  have inv1: "dock_inv M1" by (rule update_modeled_charge_inv [OF assms(8) inv])
  from step [OF inv assms(4-7) assms(8-10)] obtain e where
    u1: "u1 = r\<lparr>dr_state := DS_CHARGING,
        dr_battery_percent := Some (b0 + (t1 - t0) / 60 * dd_charge_rate_percent_per_min d),
        dr_events := dr_events r @ [e]\<rparr>" "dict_get (reservations M1) rid = Some u1"
      "dock_definitions M1 = dock_definitions M" by blast
  have "dr_charging_started_at u1 = Some t0" "dr_battery_percent u1 = Some (b0 + (t1 - t0) / 60 * dd_charge_rate_percent_per_min d)"
    "dict_get (dock_definitions M1) (dr_dock_id u1) = Some d" using u1 assms(5,7) by simp_all
  from step [OF inv1 u1(2) this assms(11-13)] obtain e2 where
    "u2 = u1\<lparr>dr_state := DS_CHARGING, dr_battery_percent := Some (b0 + (t1 - t0) / 60 * dd_charge_rate_percent_per_min d
        + (t2 - t0) / 60 * dd_charge_rate_percent_per_min d), dr_events := dr_events u1 @ [e2]\<rparr>" by blast
  then have "dr_battery_percent u2 = Some (b0 + (t1 - t0) / 60 * dd_charge_rate_percent_per_min d
        + (t2 - t0) / 60 * dd_charge_rate_percent_per_min d)" by simp
  then show ?thesis by (simp add: algebra_simps add_divide_distrib diff_divide_distrib)
qed

definition charge_at :: "real \<Rightarrow> dock_manager \<Rightarrow> dock_reservation outcome \<times> dock_manager" where
  "charge_at t M = update_modeled_charge (reservation_id_for ''a'' ''v1'') (Some t) M"

definition charge_first :: "dock_reservation outcome \<times> dock_manager" where
  "charge_first = charge_at 65 docks_charging"

definition charge_second :: "dock_reservation outcome \<times> dock_manager" where
  "charge_second = charge_at 125 (snd charge_first)"

theorem charge_counts_elapsed_twice_witness:
  "dr_battery_percent (projr (fst charge_second)) = Some (30 + 18) \<and> dr_target_battery_percent (projr (fst charge_second)) = 90"
proof -
  have ok: "\<not> isl (fst charge_first)" "\<not> isl (fst charge_second)" by code_simp+
  have c: "update_modeled_charge (reservation_id_for ''a'' ''v1'') (Some 65) docks_charging
      = (Inr (projr (fst charge_first)), snd charge_first)"
    "update_modeled_charge (reservation_id_for ''a'' ''v1'') (Some 125) (snd charge_first)
      = (Inr (projr (fst charge_second)), snd charge_second)"
    using outcome_Inr [OF ok(1)] outcome_Inr [OF ok(2)] by (simp_all add: charge_first_def charge_second_def charge_at_def)
  have "(case dict_get (reservations docks_charging) (reservation_id_for ''a'' ''v1'') of None \<Rightarrow> False
      | Some r \<Rightarrow> dr_charging_started_at r = Some 5 \<and> dr_battery_percent r = Some 30 \<and> dr_dock_id r = ''a'')" by code_simp
  then obtain r where r: "dict_get (reservations docks_charging) (reservation_id_for ''a'' ''v1'') = Some r"
    "dr_charging_started_at r = Some 5" "dr_battery_percent r = Some 30" "dr_dock_id r = ''a''"
    by (auto split: option.splits)
  have d: "dict_get (dock_definitions docks_charging) (dr_dock_id r) = Some (sample_dock ''a'')"
    unfolding r(4) by code_simp
  have s: "dr_state (projr (fst charge_first)) = DS_CHARGING" "dr_state (projr (fst charge_second)) = DS_CHARGING"
    "dr_target_battery_percent (projr (fst charge_second)) = 90" by code_simp+
  from charge_counts_elapsed_twice [OF dock_init_ok sample_docks_valid docks_charging_reached r(1-3) d c(1) s(1) _ c(2) s(2)] s(3)
  show ?thesis by (simp add: sample_dock_def)
qed

definition docks_failed :: dock_manager where
  "docks_failed = run_docks
     [reserve ''v1'' None (Some 30) 90 (Some 0), reserve ''v2'' None None 90 (Some 1),
      dock_transition (reservation_id_for ''a'' ''v1'') DS_RETURN_TO_DOCK_AREA ''r'' (Some 2),
      dock_transition (reservation_id_for ''a'' ''v1'') DS_APPROACH_REQUESTED ''r'' (Some 3),
      dock_transition (reservation_id_for ''a'' ''v1'') DS_DOCK_ATTEMPT ''r'' (Some 4),
      confirm_modeled_landing (reservation_id_for ''a'' ''v1'') False (Some 5),
      confirm_modeled_charging (reservation_id_for ''a'' ''v1'') True (Some 6),
      dock_transition (reservation_id_for ''a'' ''v1'') DS_APPROACH_REQUESTED ''r'' (Some 7),
      dock_transition (reservation_id_for ''a'' ''v1'') DS_DOCK_ATTEMPT ''r'' (Some 8),
      confirm_modeled_landing (reservation_id_for ''a'' ''v1'') False (Some 9),
      confirm_modeled_charging (reservation_id_for ''a'' ''v1'') True (Some 10)] (docks0 [''a''])"

text \<open>
  Capacity freed by a failed docking is not offered to the queue: after the only occupant of a
  dock has failed its last attempt, the dock is empty and the queued vehicle still waits. (Only a
  charge that reaches READY promotes.)
\<close>

theorem failed_docking_leaves_queue_waiting:
  "occupancy ''a'' docks_failed = 0 \<and> queue_length ''a'' docks_failed = 1 \<and>
   map_option dr_state (dict_get (reservations docks_failed) (reservation_id_for ''a'' ''v1'')) = Some DS_FAILED"
  by code_simp

definition docks_collided :: dock_manager where
  "docks_collided = run_docks
     [reserve ''b-c'' (Some ''a'') None 90 (Some 0), reserve ''c'' (Some ''a-b'') None 90 (Some 1)]
     (docks0 [''a'', ''a-b''])"

text \<open>
  Reservation identifiers are not unique: \<open>dock-{dock}-{vehicle}\<close> is the same for dock \<open>a\<close> with
  vehicle \<open>b-c\<close> and dock \<open>a-b\<close> with vehicle \<open>c\<close>, so the second reservation overwrites the first and
  the first vehicle's open request is lost.
\<close>

theorem reservation_ids_collide:
  "map dr_vehicle_id (dict_values (reservations docks_collided)) = [''c''] \<and> occupancy ''a'' docks_collided = 0 \<and>
   reservation_id_for ''a'' ''b-c'' = reservation_id_for ''a-b'' ''c''"
  by code_simp

lemma reserve_Inr:
  assumes "reserve vid preferred battery target n M = (Inr r, M')"
  shows "dr_vehicle_id r = vid \<and> dr_state r \<in> {DS_RESERVED, DS_QUEUED} \<and>
    dict_get (reservations M') (dr_reservation_id r) = Some r"
proof -
  from assms obtain d where "reserve_at d vid battery target n M = (Inr r, M')"
    by (simp add: reserve_def split: if_splits sum.splits list.splits)
  then show ?thesis
    by (auto simp: reserve_at_def Let_def dest!: commit_Inr split: prod.splits if_splits)
qed

lemma dock_transition_Inr:
  assumes "dock_transition rid s reason n M = (Inr u, M')" "dict_get (reservations M) rid = Some r"
  shows "dr_state u = s \<and> dr_vehicle_id u = dr_vehicle_id r"
  using assms
  by (auto simp: dock_transition_def reservation_of_def Let_def dest!: commit_Inr split: prod.splits if_splits)

text \<open>
  Docking after a handover is gated: \<open>reserve_after_handover\<close> returns only for a handover that
  completed with a confirmed takeover, and then the outgoing vehicle is either on its way to the dock
  area or queued.
\<close>

theorem docking_needs_completed_handover:
  assumes "reserve_after_handover h battery n M = (Inr u, M')"
  shows "ho_phase h = HP_COMPLETED \<and> ho_takeover_confirmed h \<and> dr_vehicle_id u = ho_outgoing_vehicle_id h \<and>
    dr_state u \<in> {DS_RETURN_TO_DOCK_AREA, DS_QUEUED}"
proof -
  have g: "ho_phase h = HP_COMPLETED \<and> ho_takeover_confirmed h"
    using assms by (auto simp: reserve_after_handover_def split: if_splits)
  obtain r1 M1 where rs: "reserve (ho_outgoing_vehicle_id h) None battery 90 n M = (r1, M1)" by fastforce
  from assms g rs obtain r where r: "r1 = Inr r" by (cases r1) (auto simp: reserve_after_handover_def)
  from reserve_Inr [OF rs [unfolded r]] have v: "dr_vehicle_id r = ho_outgoing_vehicle_id h"
    "dr_state r \<in> {DS_RESERVED, DS_QUEUED}" "dict_get (reservations M1) (dr_reservation_id r) = Some r" by auto
  show ?thesis
  proof (cases "dr_state r = DS_RESERVED")
    case True
    with assms g rs r have "dock_transition (dr_reservation_id r) DS_RETURN_TO_DOCK_AREA
        ''outgoing vehicle released after takeover'' n M1 = (Inr u, M')"
      by (simp add: reserve_after_handover_def)
    from dock_transition_Inr [OF this v(3)] v g show ?thesis by auto
  next
    case False
    with assms g rs r v show ?thesis by (auto simp: reserve_after_handover_def)
  qed
qed

definition completed_handover :: handover_record where
  "completed_handover = (requested_handover ''t1'' ''v7'' 1 ''low battery'' 0)
     \<lparr>ho_phase := HP_COMPLETED, ho_takeover_confirmed := True, ho_incoming_vehicle_id := Some ''v8''\<rparr>"

theorem docking_needs_completed_handover_witness:
  "dr_state (projr (fst (reserve_after_handover completed_handover None (Some 0) (docks0 [''a'']))))
     \<in> {DS_RETURN_TO_DOCK_AREA, DS_QUEUED}"
proof -
  have "\<not> isl (fst (reserve_after_handover completed_handover None (Some 0) (docks0 [''a''])))" by code_simp
  from docking_needs_completed_handover [OF outcome_Inr [OF this]] show ?thesis by blast
qed
end
