(* ===== verification/Effects.thy ===== *)
theory Effects
  imports Prelude
begin

text \<open>
  How the domain validators and the asynchronous safety code are written down.

  \<^item> \<open>raise_first\<close> is a sequence of \<open>if condition: raise error\<close> statements; a pydantic validator is
    such a sequence, and \<open>bind_ok\<close> chains calls that may raise. \<open>map_ok\<close> is a comprehension over such
    calls, \<open>all_true\<close> a loop that returns at the first false answer, \<open>first_that\<close> a search that breaks
    at the first hit.
  \<^item> \<open>('s, 'a) proc\<close> is a method that reads and writes a state and either returns or raises:
    \<open>ret\<close>, \<open>raise\<close>, \<open>seq\<close> (one statement after another), \<open>handle\<close> (\<open>try ... except\<close>), \<open>each\<close>
    (a \<open>for\<close> loop). What was written before a raise stays written.
  \<^item> The locale \<open>guarantee\<close> is the reasoning rule for these: a reflexive, transitive relation that
    every primitive step keeps is kept by every program built from them, on every path.
\<close>

section \<open>Checks\<close>

fun raise_first :: "(bool \<times> py_error) list \<Rightarrow> unit outcome" where
  "raise_first [] = Inr ()"
| "raise_first ((failed, e) # checks) = (if failed then Inl e else raise_first checks)"

lemma raise_first_Inr: "raise_first cs = Inr u \<longleftrightarrow> (\<forall>c \<in> set cs. \<not> fst c)"
  by (induction cs rule: raise_first.induct) auto

lemma raise_first_append:
  "raise_first (cs @ ds) = (case raise_first cs of Inl e \<Rightarrow> Inl e | Inr _ \<Rightarrow> raise_first ds)"
  by (induction cs rule: raise_first.induct) auto

definition bind_ok :: "'a outcome \<Rightarrow> ('a \<Rightarrow> 'b outcome) \<Rightarrow> 'b outcome" where
  "bind_ok m f = (case m of Inl e \<Rightarrow> Inl e | Inr x \<Rightarrow> f x)"

lemma bind_ok_simps [simp]:
  "bind_ok (Inl e) f = Inl e"
  "bind_ok (Inr x) f = f x"
  by (simp_all add: bind_ok_def)

lemma bind_ok_Inr: "bind_ok m f = Inr y \<longleftrightarrow> (\<exists>x. m = Inr x \<and> f x = Inr y)"
  by (cases m) auto

section \<open>Calls in sequence\<close>

abbreviation index_error :: py_error where
  "index_error \<equiv> OtherException ''IndexError''"

fun map_ok :: "('a \<Rightarrow> 'b outcome) \<Rightarrow> 'a list \<Rightarrow> 'b list outcome" where
  "map_ok f [] = Inr []"
| "map_ok f (x # xs) = bind_ok (f x) (\<lambda>y. bind_ok (map_ok f xs) (\<lambda>ys. Inr (y # ys)))"

fun all_true :: "('a \<Rightarrow> bool outcome) \<Rightarrow> 'a list \<Rightarrow> bool outcome" where
  "all_true f [] = Inr True"
| "all_true f (x # xs) = bind_ok (f x) (\<lambda>b. if b then all_true f xs else Inr False)"

fun first_that :: "('a \<Rightarrow> 'b option outcome) \<Rightarrow> 'a list \<Rightarrow> ('a \<times> 'b) option outcome" where
  "first_that f [] = Inr None"
| "first_that f (x # xs) =
     bind_ok (f x) (\<lambda>r. case r of Some y \<Rightarrow> Inr (Some (x, y)) | None \<Rightarrow> first_that f xs)"

definition outcome_ok :: "'a outcome \<Rightarrow> bool" where
  "outcome_ok r = (case r of Inr _ \<Rightarrow> True | Inl _ \<Rightarrow> False)"

lemma outcome_okE: "outcome_ok r \<Longrightarrow> (\<And>x. r = Inr x \<Longrightarrow> P) \<Longrightarrow> P"
  by (auto simp: outcome_ok_def split: sum.splits)

lemma map_ok_Inr: "map_ok f xs = Inr ys \<longleftrightarrow> list_all2 (\<lambda>x y. f x = Inr y) xs ys"
  by (induction xs arbitrary: ys) (auto simp: bind_ok_Inr list_all2_Cons1)

lemma all_true_Inr: "all_true f xs = Inr True \<longleftrightarrow> (\<forall>x \<in> set xs. f x = Inr True)"
  by (induction xs) (auto simp: bind_ok_def split: sum.splits)

lemma first_that_Some:
  "first_that f xs = Inr (Some (x, y)) \<Longrightarrow> x \<in> set xs \<and> f x = Inr (Some y)"
  by (induction xs) (auto simp: bind_ok_Inr split: option.splits)

lemma first_that_None: "first_that f xs = Inr None \<longleftrightarrow> (\<forall>x \<in> set xs. f x = Inr None)"
  by (induction xs) (auto simp: bind_ok_def split: sum.splits option.splits)

section \<open>Effectful programs\<close>

type_synonym ('s, 'a) proc = "'s \<Rightarrow> 'a outcome \<times> 's"

definition ret :: "'a \<Rightarrow> ('s, 'a) proc" where
  "ret x s = (Inr x, s)"

definition raise :: "py_error \<Rightarrow> ('s, 'a) proc" where
  "raise e s = (Inl e, s)"

definition seq :: "('s, 'a) proc \<Rightarrow> ('a \<Rightarrow> ('s, 'b) proc) \<Rightarrow> ('s, 'b) proc" where
  "seq m f s = (case m s of (r, s') \<Rightarrow> (case r of Inl e \<Rightarrow> (Inl e, s') | Inr x \<Rightarrow> f x s'))"

definition handle :: "('s, 'a) proc \<Rightarrow> (py_error \<Rightarrow> ('s, 'a) proc) \<Rightarrow> ('s, 'a) proc" where
  "handle m h s = (case m s of (r, s') \<Rightarrow> (case r of Inl e \<Rightarrow> h e s' | Inr x \<Rightarrow> (Inr x, s')))"

definition get_state :: "('s, 's) proc" where
  "get_state s = (Inr s, s)"

definition modify :: "('s \<Rightarrow> 's) \<Rightarrow> ('s, unit) proc" where
  "modify f s = (Inr (), f s)"

definition lift_outcome :: "'a outcome \<Rightarrow> ('s, 'a) proc" where
  "lift_outcome r s = (r, s)"

definition when_do :: "bool \<Rightarrow> ('s, unit) proc \<Rightarrow> ('s, unit) proc" where
  "when_do b m = (if b then m else ret ())"

definition raise_if :: "bool \<Rightarrow> py_error \<Rightarrow> ('s, unit) proc" where
  "raise_if b e = (if b then raise e else ret ())"

fun each :: "('x \<Rightarrow> ('s, unit) proc) \<Rightarrow> 'x list \<Rightarrow> ('s, unit) proc" where
  "each f [] = ret ()"
| "each f (x # xs) = seq (f x) (\<lambda>_. each f xs)"

lemma seq_simps:
  "seq (ret x) f = f x"
  "seq (raise e) f = raise e"
  by (auto simp: fun_eq_iff seq_def ret_def raise_def)

lemma seq_Inr:
  "seq m f s = (Inr y, s'') \<longleftrightarrow> (\<exists>x s'. m s = (Inr x, s') \<and> f x s' = (Inr y, s''))"
  by (auto simp: seq_def split: prod.splits sum.splits)

lemma seq_eq:
  "seq m f s = (if isl (fst (m s)) then (Inl (projl (fst (m s))), snd (m s)) else f (projr (fst (m s))) (snd (m s)))"
  by (auto simp: seq_def split: prod.splits sum.splits)

lemma proc_simps:
  "ret x s = (Inr y, s') \<longleftrightarrow> y = x \<and> s' = s"
  "raise e s = (Inr y, s') \<longleftrightarrow> False"
  "get_state s = (Inr t, s') \<longleftrightarrow> t = s \<and> s' = s"
  "modify g s = (Inr u, s') \<longleftrightarrow> s' = g s"
  "lift_outcome r s = (Inr y, s') \<longleftrightarrow> r = Inr y \<and> s' = s"
  "raise_if b e s = (Inr u, s') \<longleftrightarrow> \<not> b \<and> s' = s"
  by (auto simp: ret_def raise_def get_state_def modify_def lift_outcome_def raise_if_def)

lemmas proc_defs = ret_def raise_def seq_def handle_def get_state_def modify_def lift_outcome_def
  when_do_def raise_if_def

definition keeps :: "('s \<Rightarrow> 's \<Rightarrow> bool) \<Rightarrow> ('s, 'a) proc \<Rightarrow> bool" where
  "keeps R m \<longleftrightarrow> (\<forall>s. R s (snd (m s)))"

lemma keepsD: "keeps R m \<Longrightarrow> m s = (r, s') \<Longrightarrow> R s s'"
  by (metis keeps_def snd_conv)

locale guarantee =
  fixes R :: "'s \<Rightarrow> 's \<Rightarrow> bool"
  assumes R_refl: "R s s"
    and R_trans: "R s t \<Longrightarrow> R t u \<Longrightarrow> R s u"
begin

lemma keeps_ret: "keeps R (ret x)"
  by (simp add: keeps_def ret_def R_refl)

lemma keeps_raise: "keeps R (raise e)"
  by (simp add: keeps_def raise_def R_refl)

lemma keeps_get_state: "keeps R get_state"
  by (simp add: keeps_def get_state_def R_refl)

lemma keeps_lift: "keeps R (lift_outcome r)"
  by (simp add: keeps_def lift_outcome_def R_refl)

lemma keeps_raise_if: "keeps R (raise_if b e)"
  by (simp add: raise_if_def keeps_ret keeps_raise)

lemma keeps_modify: "(\<And>s. R s (f s)) \<Longrightarrow> keeps R (modify f)"
  by (simp add: keeps_def modify_def)

lemma keeps_seq: "keeps R m \<Longrightarrow> (\<And>x. keeps R (f x)) \<Longrightarrow> keeps R (seq m f)"
  unfolding keeps_def
proof
  fix s
  assume m: "\<forall>s. R s (snd (m s))" and f: "\<And>x. \<forall>s. R s (snd (f x s))"
  obtain r s' where ms: "m s = (r, s')" by (cases "m s")
  with m have s': "R s s'" by (metis snd_conv)
  show "R s (snd (seq m f s))"
  proof (cases r)
    case (Inl e)
    with ms s' show ?thesis by (simp add: seq_def)
  next
    case (Inr x)
    with ms have "seq m f s = f x s'" by (simp add: seq_def)
    with f [of x] s' show ?thesis by (metis R_trans)
  qed
qed

lemma keeps_handle: "keeps R m \<Longrightarrow> (\<And>e. keeps R (h e)) \<Longrightarrow> keeps R (handle m h)"
  unfolding keeps_def
proof
  fix s
  assume m: "\<forall>s. R s (snd (m s))" and h: "\<And>e. \<forall>s. R s (snd (h e s))"
  obtain r s' where ms: "m s = (r, s')" by (cases "m s")
  with m have s': "R s s'" by (metis snd_conv)
  show "R s (snd (handle m h s))"
  proof (cases r)
    case (Inl e)
    with ms have "handle m h s = h e s'" by (simp add: handle_def)
    with h [of e] s' show ?thesis by (metis R_trans)
  next
    case (Inr x)
    with ms s' show ?thesis by (simp add: handle_def)
  qed
qed

lemma keeps_when: "keeps R m \<Longrightarrow> keeps R (when_do b m)"
  by (simp add: when_do_def keeps_ret)

lemma keeps_if: "keeps R m \<Longrightarrow> keeps R n \<Longrightarrow> keeps R (if b then m else n)"
  by simp

lemma keeps_option: "keeps R m \<Longrightarrow> (\<And>x. keeps R (f x)) \<Longrightarrow> keeps R (case v of None \<Rightarrow> m | Some x \<Rightarrow> f x)"
  by (simp split: option.split)

lemma keeps_each: "(\<And>x. keeps R (f x)) \<Longrightarrow> keeps R (each f xs)"
  by (induction xs) (auto intro: keeps_ret keeps_seq)

lemmas keeps_intros = keeps_ret keeps_raise keeps_get_state keeps_lift keeps_raise_if keeps_seq
  keeps_handle keeps_when keeps_if keeps_option keeps_each

end

end
