(* ===== verification/Trajectory.thy ===== *)
theory Trajectory
  imports Domain Effects
begin

text \<open>
  Time-parameterised motion: \<open>domain/trajectory.py\<close> and the landing goals of \<open>domain/goals.py\<close>.
  A trajectory is a list of points; between two points every axis is the quintic polynomial that
  meets position, velocity and acceleration at both ends, and \<open>sample_trajectory\<close> finds the segment
  by the binary search of Python's \<open>bisect_right\<close>. An execution program is a sequence of timed
  operations. Every pydantic validator is a \<open>raise_first\<close> in the order of the source; the literal
  fields (\<open>schema_version\<close>, \<open>frame\<close>, \<open>interpolation\<close>, the clock contract) have one value each and
  are left out, and the canonical SHA-256 is a parameter. The lemmas show what the spline passes
  through, that the binary search finds the segment a linear scan finds, and what an accepted
  program guarantees.
\<close>

section \<open>Quintic segments\<close>

record setpoint =
  sp_position_m :: vector3
  sp_velocity_m_s :: vector3
  sp_acceleration_m_s2 :: vector3
  sp_yaw_rad :: real
  sp_yaw_rate_rad_s :: real

record quintic =
  q0 :: real
  q1 :: real
  q2 :: real
  q3 :: real
  q4 :: real
  q5 :: real

definition quintic_of :: "real \<Rightarrow> real \<Rightarrow> real \<Rightarrow> real \<Rightarrow> real \<Rightarrow> real \<Rightarrow> real \<Rightarrow> quintic" where
  "quintic_of s sv sa e ev ea d =
     (let a0 = s; a1 = sv; a2 = sa / 2;
          c0 = e - (a0 + a1 * d + a2 * d ^ 2);
          c1 = ev - (a1 + 2 * a2 * d);
          c2 = ea - 2 * a2
      in \<lparr>q0 = a0, q1 = a1, q2 = a2,
          q3 = (10 * c0 - 4 * c1 * d + 1 / 2 * c2 * d ^ 2) / d ^ 3,
          q4 = (- 15 * c0 + 7 * c1 * d - c2 * d ^ 2) / d ^ 4,
          q5 = (6 * c0 - 3 * c1 * d + 1 / 2 * c2 * d ^ 2) / d ^ 5\<rparr>)"

definition quintic_position :: "quintic \<Rightarrow> real \<Rightarrow> real" where
  "quintic_position q t = q0 q + q1 q * t + q2 q * t ^ 2 + q3 q * t ^ 3 + q4 q * t ^ 4 + q5 q * t ^ 5"

definition quintic_velocity :: "quintic \<Rightarrow> real \<Rightarrow> real" where
  "quintic_velocity q t = q1 q + 2 * q2 q * t + 3 * q3 q * t ^ 2 + 4 * q4 q * t ^ 3 + 5 * q5 q * t ^ 4"

definition quintic_acceleration :: "quintic \<Rightarrow> real \<Rightarrow> real" where
  "quintic_acceleration q t = 2 * q2 q + 6 * q3 q * t + 12 * q4 q * t ^ 2 + 20 * q5 q * t ^ 3"

text \<open>A zero duration divides by zero, which raises in Python.\<close>

definition quintic_sample ::
    "real \<Rightarrow> real \<Rightarrow> real \<Rightarrow> real \<Rightarrow> real \<Rightarrow> real \<Rightarrow> real \<Rightarrow> real \<Rightarrow> (real \<times> real \<times> real) outcome" where
  "quintic_sample s sv sa e ev ea duration elapsed =
     (if duration = 0 then Inl ZeroDivisionError
      else let q = quintic_of s sv sa e ev ea duration; t = max 0 (min duration elapsed)
        in Inr (quintic_position q t, quintic_velocity q t, quintic_acceleration q t))"

record trajectory_point =
  tp_sequence :: int
  tp_time :: real
  tp_position_m :: vector3
  tp_velocity_m_s :: vector3
  tp_acceleration_m_s2 :: vector3
  tp_yaw_rad :: real
  tp_yaw_rate_rad_s :: real

definition valid_point :: "trajectory_point \<Rightarrow> bool" where
  "valid_point p \<longleftrightarrow> 1 \<le> tp_sequence p \<and> 0 \<le> tp_time p"

definition sample_axis ::
    "(vector3 \<Rightarrow> real) \<Rightarrow> trajectory_point \<Rightarrow> trajectory_point \<Rightarrow> real \<Rightarrow> real \<Rightarrow> (real \<times> real \<times> real) outcome" where
  "sample_axis axis a b duration elapsed =
     quintic_sample (axis (tp_position_m a)) (axis (tp_velocity_m_s a)) (axis (tp_acceleration_m_s2 a))
       (axis (tp_position_m b)) (axis (tp_velocity_m_s b)) (axis (tp_acceleration_m_s2 b)) duration elapsed"

definition sample_trajectory_segment ::
    "trajectory_point \<Rightarrow> trajectory_point \<Rightarrow> real \<Rightarrow> setpoint outcome" where
  "sample_trajectory_segment a b sample_time =
     (let duration = tp_time b - tp_time a; elapsed = sample_time - tp_time a in
      bind_ok (sample_axis vx a b duration elapsed) (\<lambda>(px, wx, ax).
      bind_ok (sample_axis vy a b duration elapsed) (\<lambda>(py, wy, ay).
      bind_ok (sample_axis vz a b duration elapsed) (\<lambda>(pz, wz, az).
      bind_ok (quintic_sample (tp_yaw_rad a) (tp_yaw_rate_rad_s a) 0
                 (tp_yaw_rad b) (tp_yaw_rate_rad_s b) 0 duration elapsed) (\<lambda>(yaw, rate, _).
        Inr \<lparr>sp_position_m = vec px py pz, sp_velocity_m_s = vec wx wy wz,
             sp_acceleration_m_s2 = vec ax ay az, sp_yaw_rad = yaw, sp_yaw_rate_rad_s = rate\<rparr>)))))"

section \<open>Trajectories\<close>

record trajectory =
  tr_trajectory_id :: string
  tr_role_id :: string
  tr_vehicle_id :: string
  tr_route_sha256 :: string
  tr_points :: "trajectory_point list"
  tr_declared_stop_sequences :: "int list"
  tr_completion_position_tolerance_m :: real
  tr_completion_velocity_tolerance_m_s :: real

definition vector_length :: "vector3 \<Rightarrow> real" where
  "vector_length v = sqrt (vx v ^ 2 + vy v ^ 2 + vz v ^ 2)"

definition trajectory_fields_ok :: "trajectory \<Rightarrow> bool" where
  "trajectory_fields_ok t \<longleftrightarrow>
     valid_identifier (tr_trajectory_id t) \<and> valid_identifier (tr_role_id t) \<and>
     valid_identifier (tr_vehicle_id t) \<and> valid_sha256 (tr_route_sha256 t) \<and>
     2 \<le> length (tr_points t) \<and> list_all valid_point (tr_points t) \<and>
     0 < tr_completion_position_tolerance_m t \<and> tr_completion_position_tolerance_m t \<le> 1 \<and>
     0 \<le> tr_completion_velocity_tolerance_m_s t \<and> tr_completion_velocity_tolerance_m_s t \<le> 1"

definition not_increasing :: "trajectory_point \<times> trajectory_point \<Rightarrow> bool" where
  "not_increasing pc \<longleftrightarrow> tp_time (snd pc) \<le> tp_time (fst pc)"

definition stop_checks :: "trajectory \<Rightarrow> int \<Rightarrow> (bool \<times> py_error) list" where
  "stop_checks t s =
     [(s < 1 \<or> s > int (length (tr_points t)), ValidationError ''declared trajectory stop sequence is absent''),
      (vector_length (tp_velocity_m_s (tr_points t ! nat (s - 1))) > tr_completion_velocity_tolerance_m_s t,
       ValidationError ''declared trajectory stop has non-zero velocity'')]"

definition ordered_and_continuous :: "trajectory \<Rightarrow> unit outcome" where
  "ordered_and_continuous t =
     (let pts = tr_points t; stops = tr_declared_stop_sequences t in
      raise_first
       ([(tp_time (hd pts) \<noteq> 0, ValidationError ''trajectory must start at source time zero''),
         (map tp_sequence pts \<noteq> [1..int (length pts)],
          ValidationError ''trajectory point sequences must be contiguous''),
         (list_ex not_increasing (zip pts (tl pts)),
          ValidationError ''trajectory timestamps must increase strictly''),
         (stops \<noteq> sorted_list_of_set (set stops),
          ValidationError ''declared stop sequences must be sorted and unique''),
         (stops = [] \<or> hd stops \<noteq> 1 \<or> last stops \<noteq> int (length pts),
          ValidationError ''trajectory start and terminal points must be declared stops'')]
        @ concat (map (stop_checks t) stops)))"

definition check_trajectory :: "trajectory \<Rightarrow> unit outcome" where
  "check_trajectory t =
     (if \<not> trajectory_fields_ok t then Inl (ValidationError ''TimeParameterizedTrajectory field'')
      else ordered_and_continuous t)"

definition trajectory_duration_s :: "trajectory \<Rightarrow> real" where
  "trajectory_duration_s t = tp_time (last (tr_points t))"

section \<open>Sampling by binary search\<close>

function bisect_loop :: "('a \<Rightarrow> real) \<Rightarrow> 'a list \<Rightarrow> real \<Rightarrow> nat \<Rightarrow> nat \<Rightarrow> nat" where
  "bisect_loop key xs x lo hi =
     (if lo < hi then
        let mid = (lo + hi) div 2 in
        if x < key (xs ! mid) then bisect_loop key xs x lo mid
        else bisect_loop key xs x (mid + 1) hi
      else lo)"
  by pat_completeness auto
termination
  by (relation "measure (\<lambda>(key, xs, x, lo, hi). hi - lo)") auto

declare bisect_loop.simps [simp del]

definition bisect_right :: "('a \<Rightarrow> real) \<Rightarrow> 'a list \<Rightarrow> real \<Rightarrow> nat" where
  "bisect_right key xs x = bisect_loop key xs x 0 (length xs)"

definition segment_index :: "trajectory_point list \<Rightarrow> real \<Rightarrow> nat" where
  "segment_index pts t =
     nat (max 0 (min (int (length pts) - 2) (int (bisect_right tp_time pts t) - 1)))"

definition bounded_time :: "trajectory \<Rightarrow> real \<Rightarrow> real" where
  "bounded_time tr t = max 0 (min (trajectory_duration_s tr) t)"

definition sample_trajectory :: "trajectory \<Rightarrow> real \<Rightarrow> setpoint outcome" where
  "sample_trajectory tr sample_time =
     (let t = bounded_time tr sample_time; i = segment_index (tr_points tr) t in
      sample_trajectory_segment (tr_points tr ! i) (tr_points tr ! (i + 1)) t)"

section \<open>Landing goals\<close>

definition isclose :: "real \<Rightarrow> real \<Rightarrow> bool" where
  "isclose a b \<longleftrightarrow> a = b \<or> \<bar>a - b\<bar> \<le> max (1 / 10 ^ 9 * max \<bar>a\<bar> \<bar>b\<bar>) (1 / 10 ^ 9)"

datatype goal_failure_action = ABORT_AND_LAND_GOAL | DIVERT

datatype goal_capture_outcome = CAPTURED | GOAL_DIVERTED | GOAL_REJECTED | TERMINAL_MISS

datatype terminal_contact = SIMULATED_GROUND_CONTACT | NO_CONTACT_EVIDENCE | DESCENT_NOT_AUTHORIZED

record landing_goal_region =
  lg_goal_id :: string
  lg_role_id :: string
  lg_vehicle_id :: string
  lg_landing_target_m :: vector3
  lg_approach_point_m :: vector3
  lg_horizontal_tolerance_m :: real
  lg_vertical_tolerance_m :: real
  lg_maximum_capture_speed_m_s :: real
  lg_maximum_correction_attempts :: int
  lg_correction_duration_s :: real
  lg_failure_action :: goal_failure_action
  lg_diversion_target_m :: "vector3 option"

definition goal_fields_ok :: "landing_goal_region \<Rightarrow> bool" where
  "goal_fields_ok g \<longleftrightarrow>
     valid_identifier (lg_goal_id g) \<and> valid_identifier (lg_role_id g) \<and> valid_identifier (lg_vehicle_id g) \<and>
     0 < lg_horizontal_tolerance_m g \<and> lg_horizontal_tolerance_m g \<le> 1 \<and>
     0 < lg_vertical_tolerance_m g \<and> lg_vertical_tolerance_m g \<le> 1 / 2 \<and>
     0 < lg_maximum_capture_speed_m_s g \<and> lg_maximum_capture_speed_m_s g \<le> 1 \<and>
     0 \<le> lg_maximum_correction_attempts g \<and> lg_maximum_correction_attempts g \<le> 5 \<and>
     0 < lg_correction_duration_s g \<and> lg_correction_duration_s g \<le> 10"

definition valid_approach_and_fallback :: "landing_goal_region \<Rightarrow> unit outcome" where
  "valid_approach_and_fallback g = raise_first
     [(vz (lg_approach_point_m g) \<le> vz (lg_landing_target_m g),
       ValidationError ''landing approach must be above the landing target''),
      (\<not> isclose (vx (lg_approach_point_m g)) (vx (lg_landing_target_m g)) \<or>
       \<not> isclose (vy (lg_approach_point_m g)) (vy (lg_landing_target_m g)),
       ValidationError ''landing approach must be vertically aligned with its target''),
      (lg_failure_action g = DIVERT \<and> lg_diversion_target_m g = None,
       ValidationError ''diversion failure action requires a diversion target''),
      (lg_failure_action g = ABORT_AND_LAND_GOAL \<and> lg_diversion_target_m g \<noteq> None,
       ValidationError ''abort-only goal must not declare an unused diversion target'')]"

definition check_goal :: "landing_goal_region \<Rightarrow> unit outcome" where
  "check_goal g =
     (if \<not> goal_fields_ok g then Inl (ValidationError ''LandingGoalRegion field'')
      else valid_approach_and_fallback g)"

record goal_capture_attempt =
  ga_attempt :: int
  ga_estimated_position_m :: "vector3 option"
  ga_truth_position_m :: "vector3 option"
  ga_speed_m_s :: "real option"
  ga_horizontal_error_m :: "real option"
  ga_vertical_error_m :: "real option"
  ga_horizontal_capture_margin_m :: "real option"
  ga_vertical_capture_margin_m :: "real option"
  ga_speed_capture_margin_m_s :: "real option"
  ga_aligned :: bool

definition nonneg_opt :: "real option \<Rightarrow> bool" where
  "nonneg_opt v \<longleftrightarrow> opt_all (\<lambda>x. 0 \<le> x) v"

definition valid_attempt :: "goal_capture_attempt \<Rightarrow> bool" where
  "valid_attempt a \<longleftrightarrow> 1 \<le> ga_attempt a \<and> nonneg_opt (ga_speed_m_s a) \<and>
     nonneg_opt (ga_horizontal_error_m a) \<and> nonneg_opt (ga_vertical_error_m a)"

record goal_capture_record =
  gr_goal :: landing_goal_region
  gr_attempts :: "goal_capture_attempt list"
  gr_attempt_count :: int
  gr_descent_authorized :: bool
  gr_outcome :: goal_capture_outcome
  gr_terminal_estimated_position_m :: "vector3 option"
  gr_terminal_truth_position_m :: "vector3 option"
  gr_terminal_speed_m_s :: "real option"
  gr_target_center_horizontal_error_m :: "real option"
  gr_alignment_completed_source_timestamp_s :: "real option"
  gr_pre_contact_vertical_speed_m_s :: "real option"
  gr_contact_source_timestamp_s :: "real option"
  gr_disarmed_source_timestamp_s :: "real option"
  gr_post_contact_settling_s :: "real option"
  gr_motors_cut_after_contact :: "bool option"
  gr_correction_count :: int
  gr_terminal_state :: "string option"
  gr_terminal_contact :: terminal_contact

definition capture_fields_ok :: "goal_capture_record \<Rightarrow> bool" where
  "capture_fields_ok r \<longleftrightarrow>
     list_all valid_attempt (gr_attempts r) \<and> 1 \<le> gr_attempt_count r \<and> 0 \<le> gr_correction_count r \<and>
     list_all nonneg_opt [gr_terminal_speed_m_s r, gr_target_center_horizontal_error_m r,
       gr_alignment_completed_source_timestamp_s r, gr_pre_contact_vertical_speed_m_s r,
       gr_contact_source_timestamp_s r, gr_disarmed_source_timestamp_s r, gr_post_contact_settling_s r]"

definition attempts_and_outcome_agree :: "goal_capture_record \<Rightarrow> unit outcome" where
  "attempts_and_outcome_agree r = raise_first
     [(gr_attempt_count r \<noteq> int (length (gr_attempts r)),
       ValidationError ''goal attempt count does not match attempt evidence''),
      (gr_descent_authorized r \<noteq> (gr_outcome r \<noteq> GOAL_REJECTED),
       ValidationError ''goal descent authority contradicts capture outcome'')]"

section \<open>Execution programs\<close>

datatype execution_operation =
    TakeoffOp (op_sequence: int) (op_starts_at_s: real) (op_ends_at_s: real) (op_target_height_m: real)
  | GroundWaitOp (op_sequence: int) (op_starts_at_s: real) (op_ends_at_s: real)
  | HoldOp (op_sequence: int) (op_starts_at_s: real) (op_ends_at_s: real)
  | TrajectoryOp (op_sequence: int) (op_starts_at_s: real) (op_ends_at_s: real)
      (op_trajectory_sha256: string) (op_trajectory: trajectory)
  | LandOp (op_sequence: int) (op_starts_at_s: real) (op_ends_at_s: real) (op_target_height_m: real)
      (op_goal_region: "landing_goal_region option")

definition timed_fields_ok :: "execution_operation \<Rightarrow> bool" where
  "timed_fields_ok op \<longleftrightarrow> 1 \<le> op_sequence op \<and> 0 \<le> op_starts_at_s op \<and> 0 < op_ends_at_s op"

fun operation_fields_ok :: "execution_operation \<Rightarrow> bool" where
  "operation_fields_ok (TakeoffOp n s e h) = (timed_fields_ok (TakeoffOp n s e h) \<and> 0 < h)"
| "operation_fields_ok (LandOp n s e h g) = (timed_fields_ok (LandOp n s e h g) \<and> 0 \<le> h)"
| "operation_fields_ok (TrajectoryOp n s e sha t) =
     (timed_fields_ok (TrajectoryOp n s e sha t) \<and> valid_sha256 sha \<and> check_trajectory t = Inr ())"
| "operation_fields_ok op = timed_fields_ok op"

text \<open>\<open>identity_matches\<close> of a trajectory operation and \<open>goal_matches_descent\<close> of a landing.\<close>

fun check_operation :: "(trajectory \<Rightarrow> string) \<Rightarrow> execution_operation \<Rightarrow> unit outcome" where
  "check_operation sha (TrajectoryOp n s e h t) = raise_first
     [(\<not> operation_fields_ok (TrajectoryOp n s e h t), ValidationError ''TrajectoryExecutionOperation field''),
      (h \<noteq> sha t, ValidationError ''trajectory operation hash does not match its payload''),
      (\<not> isclose (e - s) (trajectory_duration_s t),
       ValidationError ''trajectory operation duration does not match its payload'')]"
| "check_operation sha (LandOp n s e h g) = raise_first
     [(\<not> operation_fields_ok (LandOp n s e h g), ValidationError ''LandExecutionOperation field''),
      (\<not> opt_all (\<lambda>r. isclose (vz (lg_landing_target_m r)) h) g,
       ValidationError ''landing operation target contradicts its goal region'')]"
| "check_operation sha op = raise_first
     [(\<not> operation_fields_ok op, ValidationError ''ExecutionOperation field'')]"

record execution_program =
  ep_program_id :: string
  ep_mission_source_sha256 :: string
  ep_role_id :: string
  ep_vehicle_id :: string
  ep_operations :: "execution_operation list"
  ep_route_sha256s :: "string list"
  ep_schedule_duration_s :: real
  ep_contingency_reserve_s :: real
  ep_recovery_reserve_s :: real
  ep_execution_timeout_s :: real

definition program_fields_ok :: "execution_program \<Rightarrow> bool" where
  "program_fields_ok p \<longleftrightarrow>
     valid_identifier (ep_program_id p) \<and> valid_sha256 (ep_mission_source_sha256 p) \<and>
     valid_identifier (ep_role_id p) \<and> valid_identifier (ep_vehicle_id p) \<and>
     ep_operations p \<noteq> [] \<and> list_all valid_sha256 (ep_route_sha256s p) \<and>
     0 < ep_schedule_duration_s p \<and> 0 \<le> ep_contingency_reserve_s p \<and>
     0 \<le> ep_recovery_reserve_s p \<and> 0 < ep_execution_timeout_s p"

fun trajectories_of :: "execution_operation list \<Rightarrow> (string \<times> trajectory) list" where
  "trajectories_of [] = []"
| "trajectories_of (TrajectoryOp n s e h t # ops) = (h, t) # trajectories_of ops"
| "trajectories_of (op # ops) = trajectories_of ops"

definition disconnected :: "execution_operation \<times> execution_operation \<Rightarrow> bool" where
  "disconnected pc \<longleftrightarrow> \<not> isclose (op_ends_at_s (fst pc)) (op_starts_at_s (snd pc))"

definition coherent_schedule :: "execution_program \<Rightarrow> unit outcome" where
  "coherent_schedule p =
     (let ops = ep_operations p; trs = map snd (trajectories_of ops) in
      raise_first
       [(map op_sequence ops \<noteq> [1..int (length ops)],
         ValidationError ''execution operation sequences must be contiguous''),
        (op_starts_at_s (hd ops) \<noteq> 0, ValidationError ''execution program must begin at zero''),
        (list_ex disconnected (zip ops (tl ops)),
         ValidationError ''execution operations must form one continuous schedule''),
        (\<not> isclose (op_ends_at_s (last ops)) (ep_schedule_duration_s p),
         ValidationError ''execution program duration contradicts its operations''),
        (\<not> isclose (ep_execution_timeout_s p)
             (ep_schedule_duration_s p + ep_contingency_reserve_s p + ep_recovery_reserve_s p),
         ValidationError ''execution timeout contradicts declared schedule reserves''),
        (ep_route_sha256s p \<noteq> map tr_route_sha256 trs,
         ValidationError ''execution program route identities do not match its trajectories''),
        (list_ex (\<lambda>t. tr_role_id t \<noteq> ep_role_id p \<or> tr_vehicle_id t \<noteq> ep_vehicle_id p) trs,
         ValidationError ''trajectory role or vehicle identity does not match its program'')])"

definition check_program :: "(trajectory \<Rightarrow> string) \<Rightarrow> execution_program \<Rightarrow> unit outcome" where
  "check_program sha p =
     (if \<not> program_fields_ok p then Inl (ValidationError ''AcceptedExecutionProgram field'')
      else if list_ex (\<lambda>op. check_operation sha op \<noteq> Inr ()) (ep_operations p)
        then Inl (ValidationError ''AcceptedExecutionProgram operation'')
      else coherent_schedule p)"

definition trajectory_sha256s :: "execution_program \<Rightarrow> string list" where
  "trajectory_sha256s p = map fst (trajectories_of (ep_operations p))"

section \<open>What a segment passes through\<close>

lemma quintic_start:
  "quintic_position (quintic_of s sv sa e ev ea d) 0 = s"
  "quintic_velocity (quintic_of s sv sa e ev ea d) 0 = sv"
  "quintic_acceleration (quintic_of s sv sa e ev ea d) 0 = sa"
  by (simp_all add: quintic_of_def quintic_position_def quintic_velocity_def quintic_acceleration_def Let_def)

lemma quintic_end:
  assumes "d \<noteq> 0"
  shows "quintic_position (quintic_of s sv sa e ev ea d) d = e"
    and "quintic_velocity (quintic_of s sv sa e ev ea d) d = ev"
    and "quintic_acceleration (quintic_of s sv sa e ev ea d) d = ea"
  using assms
  by (simp_all add: quintic_of_def quintic_position_def quintic_velocity_def quintic_acceleration_def
      Let_def field_simps power2_eq_square eval_nat_numeral)

definition setpoint_of :: "trajectory_point \<Rightarrow> setpoint" where
  "setpoint_of p = \<lparr>sp_position_m = tp_position_m p, sp_velocity_m_s = tp_velocity_m_s p,
     sp_acceleration_m_s2 = tp_acceleration_m_s2 p, sp_yaw_rad = tp_yaw_rad p,
     sp_yaw_rate_rad_s = tp_yaw_rate_rad_s p\<rparr>"

lemma vec_eta [simp]: "vec (vx v) (vy v) (vz v) = v"
  by (simp add: vec_def)

lemma quintic_sample_early:
  "0 < d \<Longrightarrow> t \<le> 0 \<Longrightarrow> quintic_sample s sv sa e ev ea d t = Inr (s, sv, sa)"
  by (simp add: quintic_sample_def max_def min_def quintic_start)

lemma quintic_sample_late:
  "0 < d \<Longrightarrow> d \<le> t \<Longrightarrow> quintic_sample s sv sa e ev ea d t = Inr (e, ev, ea)"
  by (simp add: quintic_sample_def max_def min_def quintic_end)

lemma segment_early:
  "tp_time a < tp_time b \<Longrightarrow> t \<le> tp_time a \<Longrightarrow> sample_trajectory_segment a b t = Inr (setpoint_of a)"
  by (simp add: sample_trajectory_segment_def sample_axis_def quintic_sample_early setpoint_of_def Let_def)

lemma segment_late:
  "tp_time a < tp_time b \<Longrightarrow> tp_time b \<le> t \<Longrightarrow> sample_trajectory_segment a b t = Inr (setpoint_of b)"
  by (simp add: sample_trajectory_segment_def sample_axis_def quintic_sample_late setpoint_of_def Let_def)

lemma segment_total:
  "tp_time a < tp_time b \<Longrightarrow> \<exists>sp. sample_trajectory_segment a b t = Inr sp"
  by (simp add: sample_trajectory_segment_def sample_axis_def quintic_sample_def Let_def)

section \<open>The binary search\<close>

lemma bisect_loop_step:
  "lo < hi \<Longrightarrow> bisect_loop key xs x lo hi =
     (if x < key (xs ! ((lo + hi) div 2)) then bisect_loop key xs x lo ((lo + hi) div 2)
      else bisect_loop key xs x ((lo + hi) div 2 + 1) hi)"
  by (simp add: bisect_loop.simps [of key xs x lo hi] Let_def)

lemma bisect_loop_stop: "\<not> lo < hi \<Longrightarrow> bisect_loop key xs x lo hi = lo"
  by (simp add: bisect_loop.simps [of key xs x lo hi])

lemma bisect_loop_bounds:
  "lo \<le> hi \<Longrightarrow> lo \<le> bisect_loop key xs x lo hi \<and> bisect_loop key xs x lo hi \<le> hi"
proof (induction key xs x lo hi rule: bisect_loop.induct)
  case (1 key xs x lo hi)
  obtain m where m: "m = (lo + hi) div 2" by simp
  show ?case
  proof (cases "lo < hi")
    case True
    then have b: "lo \<le> m" "m < hi" using m by auto
    show ?thesis
    proof (cases "x < key (xs ! m)")
      case less: True
      have "bisect_loop key xs x lo hi = bisect_loop key xs x lo m"
        using bisect_loop_step [OF True, of key xs x] less m by simp
      with "1.IH"(1) [OF True m less b(1)] b show ?thesis by simp
    next
      case geq: False
      have "bisect_loop key xs x lo hi = bisect_loop key xs x (m + 1) hi"
        using bisect_loop_step [OF True, of key xs x] geq m by simp
      moreover from b have "m + 1 \<le> hi" by simp
      ultimately show ?thesis using "1.IH"(2) [OF True m geq] b by simp
    qed
  next
    case False
    with "1.prems" show ?thesis by (simp add: bisect_loop_stop)
  qed
qed

definition split_at :: "('a \<Rightarrow> real) \<Rightarrow> 'a list \<Rightarrow> real \<Rightarrow> nat \<Rightarrow> nat \<Rightarrow> bool" where
  "split_at key xs x lo hi \<longleftrightarrow> (\<forall>i < lo. key (xs ! i) \<le> x) \<and>
     (\<forall>i. hi \<le> i \<longrightarrow> i < length xs \<longrightarrow> x < key (xs ! i))"

lemma bisect_loop_split:
  assumes "lo \<le> hi" "hi \<le> length xs" "sorted (map key xs)" "split_at key xs x lo hi"
  shows "split_at key xs x (bisect_loop key xs x lo hi) (bisect_loop key xs x lo hi)"
  using assms
proof (induction key xs x lo hi rule: bisect_loop.induct)
  case (1 key xs x lo hi)
  obtain m where m: "m = (lo + hi) div 2" by simp
  have mono: "i \<le> j \<Longrightarrow> j < length xs \<Longrightarrow> key (xs ! i) \<le> key (xs ! j)" for i j
    using sorted_nth_mono [OF "1.prems"(3), of i j] by simp
  show ?case
  proof (cases "lo < hi")
    case True
    then have b: "lo \<le> m" "m < hi" using m by auto
    with "1.prems"(2) have ml: "m < length xs" by simp
    show ?thesis
    proof (cases "x < key (xs ! m)")
      case less: True
      have "split_at key xs x lo m"
        using mono less "1.prems"(4) unfolding split_at_def by (meson less_le_trans)
      moreover have "bisect_loop key xs x lo hi = bisect_loop key xs x lo m"
        using bisect_loop_step [OF True, of key xs x] less m by simp
      ultimately show ?thesis
        using "1.IH"(1) [OF True m less b(1) _ "1.prems"(3)] ml by simp
    next
      case geq: False
      have "key (xs ! i) \<le> x" if "i < m + 1" for i
        using mono [of i m] ml geq that by simp
      then have "split_at key xs x (m + 1) hi"
        using "1.prems"(4) unfolding split_at_def by blast
      moreover have "bisect_loop key xs x lo hi = bisect_loop key xs x (m + 1) hi"
        using bisect_loop_step [OF True, of key xs x] geq m by simp
      moreover from b have "m + 1 \<le> hi" by simp
      ultimately show ?thesis
        using "1.IH"(2) [OF True m geq _ "1.prems"(2,3)] by simp
    qed
  next
    case False
    with "1.prems" show ?thesis by (simp add: bisect_loop_stop)
  qed
qed

lemma bisect_right_le: "bisect_right key xs x \<le> length xs"
  using bisect_loop_bounds [of 0 "length xs" key xs x] by (simp add: bisect_right_def)

lemma bisect_right_takeWhile:
  assumes "sorted (map key xs)"
  shows "bisect_right key xs x = length (takeWhile (\<lambda>p. key p \<le> x) xs)"
proof -
  let ?r = "bisect_right key xs x"
  have "split_at key xs x 0 (length xs)" by (simp add: split_at_def)
  from bisect_loop_split [OF _ _ assms this]
  have r: "\<And>i. i < ?r \<Longrightarrow> key (xs ! i) \<le> x" "\<And>i. ?r \<le> i \<Longrightarrow> i < length xs \<Longrightarrow> x < key (xs ! i)"
    by (simp_all add: bisect_right_def split_at_def)
  have "takeWhile (\<lambda>p. key p \<le> x) xs = take ?r xs"
  proof (rule takeWhile_eq_take_P_nth)
    fix i
    assume "i < ?r" "i < length xs"
    then show "key (xs ! i) \<le> x" using r(1) by blast
  next
    assume "?r < length xs"
    then show "\<not> key (xs ! ?r) \<le> x" using r(2) [of ?r] by simp
  qed
  then show ?thesis by (simp add: bisect_right_le min_absorb2)
qed

text \<open>
  The lookup the binary search replaced: walk the points and stop in front of the first one later
  than the sample time; the last segment also answers for its end.
\<close>

fun linear_segment :: "trajectory_point list \<Rightarrow> real \<Rightarrow> nat" where
  "linear_segment (p # q # r # rest) t = (if t < tp_time q then 0 else Suc (linear_segment (q # r # rest) t))"
| "linear_segment pts t = 0"

definition sample_by_scan :: "trajectory \<Rightarrow> real \<Rightarrow> setpoint outcome" where
  "sample_by_scan tr sample_time =
     (let t = bounded_time tr sample_time; i = linear_segment (tr_points tr) t in
      sample_trajectory_segment (tr_points tr ! i) (tr_points tr ! (i + 1)) t)"

lemma linear_segment_takeWhile:
  "sorted (map tp_time pts) \<Longrightarrow> 2 \<le> length pts \<Longrightarrow> tp_time (hd pts) \<le> t \<Longrightarrow>
   linear_segment pts t = min (length pts - 2) (length (takeWhile (\<lambda>p. tp_time p \<le> t) pts) - 1)"
proof (induction pts t rule: linear_segment.induct)
  case (1 p q r rest t)
  show ?case
  proof (cases "t < tp_time q")
    case True
    with "1.prems" show ?thesis by simp
  next
    case False
    with "1.IH" "1.prems" have "linear_segment (q # r # rest) t =
      min (length rest) (length (takeWhile (\<lambda>p. tp_time p \<le> t) (q # r # rest)) - 1)" by simp
    with False "1.prems" show ?thesis by simp
  qed
qed auto

section \<open>Accepted trajectories\<close>

lemma zip_tl_strict:
  "\<not> list_ex not_increasing (zip pts (tl pts)) \<longleftrightarrow> successively (<) (map tp_time pts)"
  by (induction pts rule: induct_list012) (auto simp: not_increasing_def)

lemma accepted_trajectory:
  assumes "check_trajectory tr = Inr ()"
  shows "2 \<le> length (tr_points tr)" "tp_time (hd (tr_points tr)) = 0"
    "sorted_wrt (<) (map tp_time (tr_points tr))"
    "map tp_sequence (tr_points tr) = [1..int (length (tr_points tr))]"
  using assms
  by (auto simp: check_trajectory_def trajectory_fields_ok_def ordered_and_continuous_def Let_def
      raise_first_Inr zip_tl_strict successively_conv_sorted_wrt split: if_splits)

lemma index_arith:
  "1 \<le> k \<Longrightarrow> 2 \<le> n \<Longrightarrow> nat (max 0 (min (int n - 2) (int k - 1))) = min (n - 2) (k - 1)"
  by linarith

lemma accepted_times_mono:
  assumes "check_trajectory tr = Inr ()" "a \<le> b" "b < length (tr_points tr)"
  shows "tp_time (tr_points tr ! a) \<le> tp_time (tr_points tr ! b)"
  using sorted_nth_mono [OF strict_sorted_imp_sorted [OF accepted_trajectory(3) [OF assms(1)]], of a b] assms(2,3)
  by simp

lemma accepted_index:
  assumes acc: "check_trajectory tr = Inr ()"
  shows "segment_index (tr_points tr) (bounded_time tr t) = linear_segment (tr_points tr) (bounded_time tr t)"
    and "linear_segment (tr_points tr) (bounded_time tr t) + 1 < length (tr_points tr)"
proof -
  let ?p = "tr_points tr" and ?t = "bounded_time tr t"
  let ?k = "length (takeWhile (\<lambda>p. tp_time p \<le> ?t) ?p)"
  note a = accepted_trajectory [OF acc]
  from a(3) have s: "sorted (map tp_time ?p)" by (rule strict_sorted_imp_sorted)
  have t: "tp_time (hd ?p) \<le> ?t" using a(2) by (simp add: bounded_time_def)
  from a(1) have ne: "?p \<noteq> []" by auto
  from ne t have "1 \<le> ?k" by (cases ?p) auto
  moreover have lin: "linear_segment ?p ?t = min (length ?p - 2) (?k - 1)"
    by (rule linear_segment_takeWhile [OF s a(1) t])
  ultimately show "segment_index ?p ?t = linear_segment ?p ?t"
    using a(1) index_arith by (simp add: segment_index_def bisect_right_takeWhile [OF s])
  from lin a(1) show "linear_segment ?p ?t + 1 < length ?p" by simp
qed

lemma accepted_interval:
  assumes acc: "check_trajectory tr = Inr ()" and j: "j = segment_index (tr_points tr) (bounded_time tr t)"
  shows "j + 1 < length (tr_points tr)"
    and "tp_time (tr_points tr ! j) < tp_time (tr_points tr ! (j + 1))"
    and "tp_time (tr_points tr ! j) \<le> bounded_time tr t"
    and "bounded_time tr t \<le> tp_time (tr_points tr ! (j + 1))"
proof -
  let ?p = "tr_points tr" and ?t = "bounded_time tr t"
  let ?r = "bisect_right tp_time ?p ?t"
  note a = accepted_trajectory [OF acc]
  from a(3) have s: "sorted (map tp_time ?p)" by (rule strict_sorted_imp_sorted)
  show j1: "j + 1 < length ?p" using accepted_index [OF acc, of t] j by simp
  show "tp_time (?p ! j) < tp_time (?p ! (j + 1))"
    using sorted_wrt_nth_less [OF a(3), of j "j + 1"] j1 by simp
  have "split_at tp_time ?p ?t 0 (length ?p)" by (simp add: split_at_def)
  from bisect_loop_split [OF _ _ s this]
  have r: "\<And>i. i < ?r \<Longrightarrow> tp_time (?p ! i) \<le> ?t" "\<And>i. ?r \<le> i \<Longrightarrow> i < length ?p \<Longrightarrow> ?t < tp_time (?p ! i)"
    by (simp_all add: bisect_right_def split_at_def)
  from a(1) have ne: "?p \<noteq> []" by auto
  have first: "tp_time (?p ! 0) \<le> ?t"
    using a(2) hd_conv_nth [OF ne] by (simp add: bounded_time_def)
  have "0 < ?r"
  proof (rule ccontr)
    assume "\<not> 0 < ?r"
    with r(2) [of 0] first ne show False by simp
  qed
  then have jr: "j = min (length ?p - 2) (?r - 1)"
    using a(1) j index_arith by (simp add: segment_index_def)
  with \<open>0 < ?r\<close> have "j < ?r" by simp
  then show "tp_time (?p ! j) \<le> ?t" by (rule r(1))
  show "?t \<le> tp_time (?p ! (j + 1))"
  proof (cases "?r \<le> length ?p - 1")
    case True
    with jr \<open>0 < ?r\<close> a(1) have "?r \<le> j + 1" by simp
    with r(2) [of "j + 1"] j1 show ?thesis by simp
  next
    case False
    with jr a(1) have "j + 1 = length ?p - 1" by simp
    moreover have "?t \<le> tp_time (?p ! (length ?p - 1))"
      using a(2) last_conv_nth [OF ne] accepted_times_mono [OF acc, of 0 "length ?p - 1"] ne hd_conv_nth [OF ne]
      by (simp add: bounded_time_def trajectory_duration_s_def)
    ultimately show ?thesis by simp
  qed
qed

lemma sample_total: "check_trajectory tr = Inr () \<Longrightarrow> \<exists>sp. sample_trajectory tr t = Inr sp"
  using accepted_interval(2) [OF _ refl, of tr t] segment_total
  by (simp add: sample_trajectory_def Let_def)

lemma duration_bounds:
  assumes acc: "check_trajectory tr = Inr ()" and i: "i < length (tr_points tr)"
  shows "0 \<le> tp_time (tr_points tr ! i)" "tp_time (tr_points tr ! i) \<le> trajectory_duration_s tr"
proof -
  let ?p = "tr_points tr"
  note a = accepted_trajectory [OF acc]
  from i have ne: "?p \<noteq> []" by auto
  show "0 \<le> tp_time (?p ! i)"
    using accepted_times_mono [OF acc, of 0 i] i a(2) hd_conv_nth [OF ne] by simp
  show "tp_time (?p ! i) \<le> trajectory_duration_s tr"
    using accepted_times_mono [OF acc, of i "length ?p - 1"] i last_conv_nth [OF ne] ne
    by (simp add: trajectory_duration_s_def)
qed

lemma sample_waypoint:
  assumes acc: "check_trajectory tr = Inr ()" and i: "i < length (tr_points tr)"
    and t: "bounded_time tr t = tp_time (tr_points tr ! i)"
  shows "sample_trajectory tr t = Inr (setpoint_of (tr_points tr ! i))"
proof -
  let ?p = "tr_points tr"
  obtain j where j: "j = segment_index ?p (bounded_time tr t)" by simp
  note v = accepted_interval [OF acc j]
  have inj: "tp_time (?p ! a) < tp_time (?p ! b)" if "a < b" "b < length ?p" for a b
    using sorted_wrt_nth_less [OF accepted_trajectory(3) [OF acc], of a b] that by simp
  have "i = j \<or> i = j + 1"
  proof (rule ccontr)
    assume "\<not> (i = j \<or> i = j + 1)"
    then consider "i < j" | "j + 1 < i" by linarith
    then show False
      by cases (use inj [of i j] inj [of "j + 1" i] v i t in auto)
  qed
  moreover have "sample_trajectory tr t =
      sample_trajectory_segment (?p ! j) (?p ! (j + 1)) (tp_time (?p ! i))"
    using t j by (simp add: sample_trajectory_def Let_def)
  ultimately show ?thesis
    using segment_early [OF v(2), of "tp_time (?p ! i)"] segment_late [OF v(2), of "tp_time (?p ! i)"]
    by auto
qed

section \<open>Schedules\<close>

definition between :: "real \<Rightarrow> real \<Rightarrow> real \<Rightarrow> bool" where
  "between t a b \<longleftrightarrow> min a b \<le> t \<and> t \<le> max a b"

text \<open>\<open>t\<close> is in an operation, or in the rounding gap between two neighbours.\<close>

definition scheduled_at :: "execution_operation list \<Rightarrow> real \<Rightarrow> bool" where
  "scheduled_at ops t \<longleftrightarrow>
     (\<exists>op \<in> set ops. between t (op_starts_at_s op) (op_ends_at_s op)) \<or>
     (\<exists>pc \<in> set (zip ops (tl ops)). between t (op_ends_at_s (fst pc)) (op_starts_at_s (snd pc)))"

lemma scheduled_at_Cons:
  "scheduled_at (op # ops) t \<longleftrightarrow> between t (op_starts_at_s op) (op_ends_at_s op) \<or>
     (ops \<noteq> [] \<and> between t (op_ends_at_s op) (op_starts_at_s (hd ops))) \<or> scheduled_at ops t"
  by (cases ops) (auto simp: scheduled_at_def)

lemma schedule_connects:
  "ops \<noteq> [] \<Longrightarrow> op_starts_at_s (hd ops) \<le> t \<Longrightarrow> t \<le> op_ends_at_s (last ops) \<Longrightarrow> scheduled_at ops t"
proof (induction ops)
  case (Cons op ops)
  show ?case
  proof (cases "ops = []")
    case True
    with Cons.prems show ?thesis by (simp add: scheduled_at_Cons between_def)
  next
    case False
    consider "t \<le> op_ends_at_s op" | "op_ends_at_s op \<le> t" "t \<le> op_starts_at_s (hd ops)"
      | "op_starts_at_s (hd ops) \<le> t" by linarith
    then show ?thesis
    proof cases
      case 3
      with Cons False show ?thesis by (simp add: scheduled_at_Cons)
    qed (use Cons.prems False in \<open>auto simp: scheduled_at_Cons between_def\<close>)
  qed
qed simp

lemma accepted_program:
  assumes "check_program sha p = Inr ()"
  shows "ep_operations p \<noteq> []" "op_starts_at_s (hd (ep_operations p)) = 0"
    "\<And>pc. pc \<in> set (zip (ep_operations p) (tl (ep_operations p))) \<Longrightarrow>
       isclose (op_ends_at_s (fst pc)) (op_starts_at_s (snd pc))"
    "isclose (op_ends_at_s (last (ep_operations p))) (ep_schedule_duration_s p)"
    "\<And>op. op \<in> set (ep_operations p) \<Longrightarrow> check_operation sha op = Inr ()"
    "ep_route_sha256s p = map tr_route_sha256 (map snd (trajectories_of (ep_operations p)))"
    "\<And>t. t \<in> snd ` set (trajectories_of (ep_operations p)) \<Longrightarrow>
       tr_role_id t = ep_role_id p \<and> tr_vehicle_id t = ep_vehicle_id p"
  using assms
  by (auto simp: check_program_def program_fields_ok_def coherent_schedule_def raise_first_Inr
      disconnected_def list_ex_iff Let_def split: if_splits)

lemma trajectories_of_in:
  "(h, t) \<in> set (trajectories_of ops) \<Longrightarrow> \<exists>n s e. TrajectoryOp n s e h t \<in> set ops"
  by (induction ops rule: trajectories_of.induct) auto

lemma accepted_trajectory_op:
  "check_operation sha (TrajectoryOp n s e h t) = Inr () \<Longrightarrow>
     h = sha t \<and> check_trajectory t = Inr () \<and> isclose (e - s) (trajectory_duration_s t)"
  by (auto split: if_splits)

section \<open>Sample trajectory and programs\<close>

definition sample_sha :: string where
  "sample_sha = replicate 64 CHR ''a''"

lemma sample_sha_valid [simp]: "valid_sha256 sample_sha"
  by code_simp

definition sample_points :: "trajectory_point list" where
  "sample_points =
     [\<lparr>tp_sequence = 1, tp_time = 0, tp_position_m = vec 0 0 (1/2), tp_velocity_m_s = vec 0 0 0,
       tp_acceleration_m_s2 = vec 0 0 0, tp_yaw_rad = 0, tp_yaw_rate_rad_s = 0\<rparr>,
      \<lparr>tp_sequence = 2, tp_time = 4, tp_position_m = vec (1/2) 0 (1/2), tp_velocity_m_s = vec (1/10) 0 0,
       tp_acceleration_m_s2 = vec 0 0 0, tp_yaw_rad = 0, tp_yaw_rate_rad_s = 0\<rparr>,
      \<lparr>tp_sequence = 3, tp_time = 8, tp_position_m = vec 1 0 (1/2), tp_velocity_m_s = vec 0 0 0,
       tp_acceleration_m_s2 = vec 0 0 0, tp_yaw_rad = 0, tp_yaw_rate_rad_s = 0\<rparr>]"

definition sample_tr :: trajectory where
  "sample_tr = \<lparr>tr_trajectory_id = ''t1'', tr_role_id = ''scout'', tr_vehicle_id = ''cf1'',
     tr_route_sha256 = sample_sha, tr_points = sample_points, tr_declared_stop_sequences = [1, 3],
     tr_completion_position_tolerance_m = 1/10, tr_completion_velocity_tolerance_m_s = 1/20\<rparr>"

lemma sample_tr_accepted: "check_trajectory sample_tr = Inr ()"
  by code_simp

lemma sample_tr_facts:
  "tr_points sample_tr = sample_points" "length sample_points = 3" "tp_time (sample_points ! Suc 0) = 4"
  by (simp_all add: sample_tr_def sample_points_def)

definition flight_program :: execution_program where
  "flight_program = \<lparr>ep_program_id = ''p1'', ep_mission_source_sha256 = sample_sha,
     ep_role_id = ''scout'', ep_vehicle_id = ''cf1'',
     ep_operations = [GroundWaitOp 1 0 1, TakeoffOp 2 1 4 (1/2), TrajectoryOp 3 4 12 sample_sha sample_tr,
       HoldOp 4 12 13, LandOp 5 13 15 0 None],
     ep_route_sha256s = [sample_sha], ep_schedule_duration_s = 15, ep_contingency_reserve_s = 2,
     ep_recovery_reserve_s = 3, ep_execution_timeout_s = 20\<rparr>"

lemma flight_program_accepted: "check_program (\<lambda>_. sample_sha) flight_program = Inr ()"
  by code_simp

text \<open>A program whose second operation ends two seconds before it starts.\<close>

definition backwards_program :: execution_program where
  "backwards_program = \<lparr>ep_program_id = ''p2'', ep_mission_source_sha256 = sample_sha,
     ep_role_id = ''scout'', ep_vehicle_id = ''cf1'',
     ep_operations = [TakeoffOp 1 0 5 (1/2), LandOp 2 5 3 0 None],
     ep_route_sha256s = [], ep_schedule_duration_s = 3, ep_contingency_reserve_s = 1,
     ep_recovery_reserve_s = 1, ep_execution_timeout_s = 5\<rparr>"

section \<open>Properties\<close>

lemma quintic_velocity_deriv:
  "(quintic_position q has_real_derivative quintic_velocity q t) (at t)"
  unfolding quintic_position_def quintic_velocity_def
  by (auto intro!: derivative_eq_intros simp: eval_nat_numeral algebra_simps)

lemma quintic_acceleration_deriv:
  "(quintic_velocity q has_real_derivative quintic_acceleration q t) (at t)"
  unfolding quintic_velocity_def quintic_acceleration_def
  by (auto intro!: derivative_eq_intros simp: eval_nat_numeral algebra_simps)

text \<open>
  The quintic of a segment is the Hermite interpolant the docstring announces: over a non-zero
  duration it has the given position, velocity and acceleration at both ends, the reported velocity
  is the derivative of the reported position at every time, and the reported acceleration the
  derivative of the velocity.
\<close>

theorem quintic_is_hermite:
  assumes "d \<noteq> 0" "q = quintic_of s sv sa e ev ea d"
  shows "quintic_position q 0 = s \<and> quintic_velocity q 0 = sv \<and> quintic_acceleration q 0 = sa
    \<and> quintic_position q d = e \<and> quintic_velocity q d = ev \<and> quintic_acceleration q d = ea
    \<and> (quintic_position q has_real_derivative quintic_velocity q t) (at t)
    \<and> (quintic_velocity q has_real_derivative quintic_acceleration q t) (at t)"
  using assms
  by (simp add: quintic_start quintic_end quintic_velocity_deriv quintic_acceleration_deriv)

theorem quintic_is_hermite_witness:
  "quintic_position (quintic_of 0 0 0 1 0 0 2) 2 = 1 \<and> quintic_acceleration (quintic_of 0 0 0 1 0 0 2) 2 = 0"
  using quintic_is_hermite [of 2 "quintic_of 0 0 0 1 0 0 2" 0 0 0 1 0 0 0] by simp

text \<open>
  The binary search terminates inside the list for every list and key, and on points in time
  order it returns the number of points not later than the sample, as \<open>bisect_right\<close> documents.
\<close>

theorem bisect_right_counts:
  "bisect_right key xs x \<le> length xs
   \<and> (sorted (map key xs) \<longrightarrow> bisect_right key xs x = length (takeWhile (\<lambda>p. key p \<le> x) xs))"
  by (simp add: bisect_right_le bisect_right_takeWhile)

theorem bisect_right_counts_witness:
  "bisect_right tp_time sample_points 4 = 2"
  using bisect_right_counts [of tp_time sample_points 4] by (simp add: sample_points_def)

text \<open>
  C29. The comment of \<open>sample_trajectory\<close> says that the binary lookup preserves the segment
  semantics of the linear scan it replaced. On every accepted trajectory it does, at every sample
  time, inside the trajectory or not, and the sample never fails.
\<close>

theorem sampling_equals_linear_scan:
  assumes "check_trajectory tr = Inr ()"
  shows "sample_trajectory tr t = sample_by_scan tr t \<and> \<not> isl (sample_trajectory tr t)"
proof -
  have "sample_trajectory tr t = sample_by_scan tr t"
    using accepted_index(1) [OF assms, of t] by (simp add: sample_trajectory_def sample_by_scan_def Let_def)
  moreover obtain sp where "sample_trajectory tr t = Inr sp" using sample_total [OF assms] by blast
  ultimately show ?thesis by (metis sum.disc(2))
qed

theorem sampling_equals_linear_scan_witness:
  "sample_trajectory sample_tr 5 = sample_by_scan sample_tr 5"
  using sampling_equals_linear_scan [OF sample_tr_accepted] by blast

text \<open>
  C30. An accepted trajectory passes through its points: sampled at the time of a point it gives
  the declared position, velocity, acceleration, yaw and yaw rate, whichever of the two segments
  that meet there is chosen. Before time zero it rests at the first point and after its end at
  the last.
\<close>

theorem trajectory_passes_its_points:
  assumes "check_trajectory tr = Inr ()"
  shows "(\<forall>i < length (tr_points tr).
      sample_trajectory tr (tp_time (tr_points tr ! i)) = Inr (setpoint_of (tr_points tr ! i)))
    \<and> (t \<le> 0 \<longrightarrow> sample_trajectory tr t = Inr (setpoint_of (hd (tr_points tr))))
    \<and> (trajectory_duration_s tr \<le> t \<longrightarrow> sample_trajectory tr t = Inr (setpoint_of (last (tr_points tr))))"
proof (intro conjI allI impI)
  let ?p = "tr_points tr"
  have ne: "?p \<noteq> []" "0 < length ?p" using accepted_trajectory(1) [OF assms] by auto
  show "sample_trajectory tr (tp_time (?p ! i)) = Inr (setpoint_of (?p ! i))" if "i < length ?p" for i
    using sample_waypoint [OF assms that] duration_bounds [OF assms that]
    by (simp add: bounded_time_def min_def max_def)
  have d: "0 \<le> trajectory_duration_s tr"
    using duration_bounds [OF assms ne(2)] by linarith
  show "sample_trajectory tr t = Inr (setpoint_of (hd ?p))" if "t \<le> 0"
    using sample_waypoint [OF assms ne(2), of t] accepted_trajectory(2) [OF assms] that d
    by (simp add: bounded_time_def hd_conv_nth [OF ne(1)] min_def max_def)
  show "sample_trajectory tr t = Inr (setpoint_of (last ?p))" if "trajectory_duration_s tr \<le> t"
    using sample_waypoint [OF assms, of "length ?p - 1" t] ne that d
    by (simp add: bounded_time_def last_conv_nth trajectory_duration_s_def min_def max_def)
qed

theorem trajectory_passes_its_points_witness:
  "sample_trajectory sample_tr 4 = Inr (setpoint_of (sample_points ! 1))"
  using trajectory_passes_its_points [OF sample_tr_accepted, THEN conjunct1, THEN spec, of 1]
  by (simp add: sample_tr_facts)

text \<open>
  C31. An accepted execution program leaves no part of its schedule open: every source time from zero
  to the declared duration lies in one of its operations, or in the rounding gap (at most
  \<open>isclose\<close>) between two neighbours or behind the last one, as the first operation starts at zero and
  the last one ends, up to rounding, at the declared duration; and each of its trajectories is an
  accepted trajectory of the program's own role and vehicle, bound by its hash and as long as its
  operation.
\<close>

theorem program_schedule_is_gapless:
  assumes "check_program sha p = Inr ()"
  shows "(0 \<le> t \<and> t \<le> ep_schedule_duration_s p \<longrightarrow>
      scheduled_at (ep_operations p) t \<or> between t (op_ends_at_s (last (ep_operations p))) (ep_schedule_duration_s p))
    \<and> op_starts_at_s (hd (ep_operations p)) = 0
    \<and> isclose (op_ends_at_s (last (ep_operations p))) (ep_schedule_duration_s p)
    \<and> list_all (\<lambda>pc. isclose (op_ends_at_s (fst pc)) (op_starts_at_s (snd pc)))
        (zip (ep_operations p) (tl (ep_operations p)))
    \<and> list_all (\<lambda>(h, tr). h = sha tr \<and> check_trajectory tr = Inr () \<and>
          tr_role_id tr = ep_role_id p \<and> tr_vehicle_id tr = ep_vehicle_id p)
        (trajectories_of (ep_operations p))"
proof (intro conjI impI)
  note a = accepted_program [OF assms]
  assume t: "0 \<le> t \<and> t \<le> ep_schedule_duration_s p"
  show "scheduled_at (ep_operations p) t \<or> between t (op_ends_at_s (last (ep_operations p))) (ep_schedule_duration_s p)"
  proof (cases "t \<le> op_ends_at_s (last (ep_operations p))")
    case True
    with schedule_connects [OF a(1)] a(2) t show ?thesis by simp
  next
    case False
    with t show ?thesis by (simp add: between_def)
  qed
next
  show "op_starts_at_s (hd (ep_operations p)) = 0" "isclose (op_ends_at_s (last (ep_operations p))) (ep_schedule_duration_s p)"
    using accepted_program(2,4) [OF assms] by blast+
next
  show "list_all (\<lambda>pc. isclose (op_ends_at_s (fst pc)) (op_starts_at_s (snd pc)))
      (zip (ep_operations p) (tl (ep_operations p)))"
    using accepted_program(3) [OF assms] by (simp add: list_all_iff)
  show "list_all (\<lambda>(h, tr). h = sha tr \<and> check_trajectory tr = Inr () \<and>
      tr_role_id tr = ep_role_id p \<and> tr_vehicle_id tr = ep_vehicle_id p) (trajectories_of (ep_operations p))"
  proof (clarsimp simp: list_all_iff)
    fix h tr
    assume m: "(h, tr) \<in> set (trajectories_of (ep_operations p))"
    then obtain n s e where "TrajectoryOp n s e h tr \<in> set (ep_operations p)"
      by (blast dest: trajectories_of_in)
    from accepted_trajectory_op [OF accepted_program(5) [OF assms this]]
      accepted_program(7) [OF assms, of tr] m
    show "h = sha tr \<and> check_trajectory tr = Inr () \<and> tr_role_id tr = ep_role_id p \<and> tr_vehicle_id tr = ep_vehicle_id p"
      by force
  qed
qed

theorem program_schedule_is_gapless_witness:
  "isclose (op_ends_at_s (last (ep_operations flight_program))) (ep_schedule_duration_s flight_program)
   \<and> scheduled_at (ep_operations flight_program) (25/2)"
  using program_schedule_is_gapless [OF flight_program_accepted, of "25/2"]
  by (auto simp: flight_program_def between_def)

text \<open>
  Nothing orders the start and the end of an operation: a program whose landing ends two
  seconds before it starts is accepted, and the mission code passes the negative difference on as
  the landing's duration.
\<close>

lemma backwards_operation_accepted:
  "check_program sha backwards_program = Inr ()
   \<and> op_ends_at_s (last (ep_operations backwards_program)) < op_starts_at_s (last (ep_operations backwards_program))"
  by (simp add: backwards_program_def check_program_def program_fields_ok_def coherent_schedule_def
      valid_identifier_def identifier_char_def ascii_alnum_def
      timed_fields_ok_def isclose_def disconnected_def Let_def upto.simps)

end
