(* ===== verification/Telemetry.thy ===== *)
theory Telemetry
  imports Trajectory
begin

text \<open>
  The telemetry contract of \<open>domain/telemetry.py\<close>: one record per model class, its field constraints
  as a \<open>..._fields_ok\<close> predicate and its validator as a \<open>check_...\<close> function. A reading that was not
  taken is \<open>None\<close>. Real numbers are finite, so the finiteness checks of the source always pass; the
  UTC wall-clock stamp, which no decision reads, is left out. The lemmas give what every accepted
  sample guarantees to the safety code that reads it.
\<close>

section \<open>Sensor readings\<close>

datatype localization_source = LOC_NONE | LOC_FLOW | LOC_LIGHTHOUSE | LOC_LOCO | LOC_MOTION_CAPTURE | LOC_SIMULATED

datatype range_status = RANGE_VALID | NO_HIT | CLIPPED | RANGE_STALE | RANGE_UNAVAILABLE

datatype flow_status = FLOW_VALID | FLOW_DEGRADED | FLOW_STALE | FLOW_UNAVAILABLE

record range_readings =
  rr_front_m :: "real option"
  rr_back_m :: "real option"
  rr_left_m :: "real option"
  rr_right_m :: "real option"
  rr_up_m :: "real option"
  rr_down_m :: "real option"
  rr_max_range_m :: real
  rr_statuses :: "(string, range_status) dict"
  rr_source_timestamp_s :: "real option"

definition ranges_fields_ok :: "range_readings \<Rightarrow> bool" where
  "ranges_fields_ok r \<longleftrightarrow>
     list_all nonneg_opt [rr_front_m r, rr_back_m r, rr_left_m r, rr_right_m r, rr_up_m r, rr_down_m r,
       rr_source_timestamp_s r] \<and> 0 < rr_max_range_m r"

definition percent_ok :: "real \<Rightarrow> bool" where
  "percent_ok p \<longleftrightarrow> 0 \<le> p \<and> p \<le> 100"

record flow_reading =
  fl_velocity_body_m_s :: "vector3 option"
  fl_ground_distance_m :: "real option"
  fl_quality_percent :: real
  fl_status :: flow_status
  fl_source_timestamp_s :: "real option"

definition flow_fields_ok :: "flow_reading \<Rightarrow> bool" where
  "flow_fields_ok f \<longleftrightarrow> nonneg_opt (fl_ground_distance_m f) \<and> percent_ok (fl_quality_percent f)
     \<and> nonneg_opt (fl_source_timestamp_s f)"

record imu_reading =
  imu_acceleration_body_m_s2 :: vector3
  imu_angular_velocity_body_rad_s :: vector3
  imu_source_timestamp_s :: "real option"

definition imu_fields_ok :: "imu_reading \<Rightarrow> bool" where
  "imu_fields_ok i \<longleftrightarrow> nonneg_opt (imu_source_timestamp_s i)"

record quaternion_attitude =
  quat_w :: real
  quat_x :: real
  quat_y :: real
  quat_z :: real

definition finite_nonzero :: "quaternion_attitude \<Rightarrow> unit outcome" where
  "finite_nonzero q = raise_first
     [(quat_w q * quat_w q + quat_x q * quat_x q + quat_y q * quat_y q + quat_z q * quat_z q \<le> 1 / 10 ^ 24,
       ValidationError ''quaternion norm cannot be zero'')]"

record estimator_reading =
  es_position_variance_m2 :: "vector3 option"
  es_converged :: "bool option"
  es_quality_metric_id :: "string option"

definition variance_is_nonnegative :: "estimator_reading \<Rightarrow> unit outcome" where
  "variance_is_nonnegative e = raise_first
     [(\<not> opt_all (\<lambda>v. 0 \<le> vx v \<and> 0 \<le> vy v \<and> 0 \<le> vz v) (es_position_variance_m2 e),
       ValidationError ''estimator position variance must be finite and nonnegative'')]"

datatype motor_id = M1 | M2 | M3 | M4

record motor_reading =
  mr_motor_id :: motor_id
  mr_command_percent :: real
  mr_requested_thrust_n :: "real option"
  mr_applied_pwm_percent :: "real option"
  mr_motor_voltage_v :: "real option"
  mr_thrust_n :: real
  mr_available_thrust_n :: "real option"
  mr_current_a :: real
  mr_saturated :: bool
  mr_health_percent :: real
  mr_faulted :: bool

definition motor_fields_ok :: "motor_reading \<Rightarrow> bool" where
  "motor_fields_ok m \<longleftrightarrow> percent_ok (mr_command_percent m) \<and> nonneg_opt (mr_requested_thrust_n m)
     \<and> opt_all percent_ok (mr_applied_pwm_percent m) \<and> nonneg_opt (mr_motor_voltage_v m)
     \<and> 0 \<le> mr_thrust_n m \<and> nonneg_opt (mr_available_thrust_n m) \<and> 0 \<le> mr_current_a m
     \<and> percent_ok (mr_health_percent m)"

record motor_telemetry =
  mt_model_id :: string
  mt_model_version :: string
  mt_readings :: "motor_reading \<times> motor_reading \<times> motor_reading \<times> motor_reading"

definition motors_fields_ok :: "motor_telemetry \<Rightarrow> bool" where
  "motors_fields_ok t \<longleftrightarrow> (case mt_readings t of (a, b, c, d) \<Rightarrow> list_all motor_fields_ok [a, b, c, d])"

datatype transport_kind = PHYSICAL_RADIO | MODELED_TRANSPORT | REPLAY_TRANSPORT

datatype transport_source_class = MEASURED_REAL | SIMULATED_MODEL | REPLAYED

record transport_reading =
  tx_kind :: transport_kind
  tx_source_class :: transport_source_class
  tx_delivery_quality_percent :: "real option"
  tx_latency_ms :: "real option"
  tx_packet_loss_percent :: "real option"

definition transport_fields_ok :: "transport_reading \<Rightarrow> bool" where
  "transport_fields_ok t \<longleftrightarrow> opt_all percent_ok (tx_delivery_quality_percent t)
     \<and> nonneg_opt (tx_latency_ms t) \<and> opt_all percent_ok (tx_packet_loss_percent t)"

section \<open>A vehicle sample\<close>

datatype cutoff_reason = DEPLETED | UNDERVOLTAGE | INVALID_CELL_STATE

record vehicle_telemetry =
  vt_state :: vehicle_state
  vt_armed :: bool
  vt_flying :: bool
  vt_position_m :: "vector3 option"
  vt_ground_truth_position_m :: "vector3 option"
  vt_velocity_m_s :: "vector3 option"
  vt_attitude :: "euler_attitude option"
  vt_quaternion :: "quaternion_attitude option"
  vt_frame :: "coordinate_frame option"
  vt_position_is_estimate :: "bool option"
  vt_localization_source :: "localization_source option"
  vt_localization_quality_percent :: "real option"
  vt_battery_percent :: "real option"
  vt_battery_open_circuit_voltage_v :: "real option"
  vt_battery_voltage_v :: "real option"
  vt_battery_current_a :: "real option"
  vt_battery_cutoff_active :: "bool option"
  vt_battery_cutoff_reason :: "cutoff_reason option"
  vt_powertrain_current_limited :: "bool option"
  vt_link_quality_percent :: "real option"
  vt_link_latency_ms :: "real option"
  vt_packet_loss_percent :: "real option"
  vt_transport :: "transport_reading option"
  vt_capabilities :: "vehicle_capabilities option"
  vt_imu :: "imu_reading option"
  vt_estimator :: "estimator_reading option"
  vt_flow :: "flow_reading option"
  vt_ranges :: "range_readings option"
  vt_motors :: "motor_telemetry option"
  vt_faults :: "string list"

definition telemetry_fields_ok :: "vehicle_telemetry \<Rightarrow> bool" where
  "telemetry_fields_ok t \<longleftrightarrow>
     opt_all (\<lambda>q. finite_nonzero q = Inr ()) (vt_quaternion t) \<and>
     list_all (opt_all percent_ok)
       [vt_localization_quality_percent t, vt_battery_percent t, vt_link_quality_percent t, vt_packet_loss_percent t] \<and>
     list_all nonneg_opt [vt_battery_open_circuit_voltage_v t, vt_battery_voltage_v t, vt_link_latency_ms t] \<and>
     opt_all transport_fields_ok (vt_transport t) \<and> opt_all imu_fields_ok (vt_imu t) \<and>
     opt_all (\<lambda>e. variance_is_nonnegative e = Inr ()) (vt_estimator t) \<and>
     opt_all flow_fields_ok (vt_flow t) \<and> opt_all ranges_fields_ok (vt_ranges t) \<and>
     opt_all motors_fields_ok (vt_motors t)"

definition spatial_values_require_frame :: "vehicle_telemetry \<Rightarrow> unit outcome" where
  "spatial_values_require_frame t = raise_first
     [((vt_position_m t \<noteq> None \<or> vt_ground_truth_position_m t \<noteq> None \<or> vt_velocity_m_s t \<noteq> None \<or>
        vt_attitude t \<noteq> None \<or> vt_quaternion t \<noteq> None) \<and> vt_frame t = None,
       ValidationError ''spatial telemetry requires an explicit coordinate frame''),
      (vt_position_m t = None \<and> vt_position_is_estimate t \<noteq> None,
       ValidationError ''position estimate classification requires a position value'')]"

definition check_telemetry :: "vehicle_telemetry \<Rightarrow> unit outcome" where
  "check_telemetry t =
     (if \<not> telemetry_fields_ok t then Inl (ValidationError ''VehicleTelemetry field'')
      else spatial_values_require_frame t)"

record telemetry_envelope =
  te_vehicle_id :: string
  te_sequence :: int
  te_source_timestamp_s :: real
  te_received_timestamp_s :: real
  te_simulation_timestamp_s :: "real option"
  te_replay_timestamp_s :: "real option"
  te_source_clock_id :: string
  te_source_clock_epoch :: int
  te_telemetry :: vehicle_telemetry

definition envelope_fields_ok :: "telemetry_envelope \<Rightarrow> bool" where
  "envelope_fields_ok e \<longleftrightarrow> valid_identifier (te_vehicle_id e) \<and> 0 \<le> te_sequence e
     \<and> 0 \<le> te_source_timestamp_s e \<and> 0 \<le> te_received_timestamp_s e
     \<and> nonneg_opt (te_simulation_timestamp_s e) \<and> nonneg_opt (te_replay_timestamp_s e)
     \<and> valid_identifier (te_source_clock_id e) \<and> 0 \<le> te_source_clock_epoch e
     \<and> check_telemetry (te_telemetry e) = Inr ()"

definition receive_time_is_ordered :: "telemetry_envelope \<Rightarrow> unit outcome" where
  "receive_time_is_ordered e = raise_first
     [(te_received_timestamp_s e < te_source_timestamp_s e,
       ValidationError ''received timestamp cannot precede source timestamp'')]"

definition check_telemetry_envelope :: "telemetry_envelope \<Rightarrow> unit outcome" where
  "check_telemetry_envelope e =
     (if \<not> envelope_fields_ok e then Inl (ValidationError ''TelemetryEnvelope field'')
      else receive_time_is_ordered e)"

section \<open>What an accepted sample guarantees\<close>

lemma accepted_envelope:
  assumes "check_telemetry_envelope e = Inr ()"
  shows "envelope_fields_ok e" "te_source_timestamp_s e \<le> te_received_timestamp_s e"
    "check_telemetry (te_telemetry e) = Inr ()"
  using assms
  by (auto simp: check_telemetry_envelope_def receive_time_is_ordered_def envelope_fields_ok_def
      raise_first_Inr split: if_splits)

lemma accepted_telemetry_frame:
  "check_telemetry t = Inr () \<Longrightarrow> vt_position_m t \<noteq> None \<Longrightarrow> vt_frame t \<noteq> None"
  by (auto simp: check_telemetry_def spatial_values_require_frame_def raise_first_Inr split: if_splits)

lemma accepted_battery:
  "check_telemetry t = Inr () \<Longrightarrow> vt_battery_percent t = Some b \<Longrightarrow> 0 \<le> b \<and> b \<le> 100"
  by (auto simp: check_telemetry_def telemetry_fields_ok_def percent_ok_def split: if_splits)

end
