(* ===== verification/Commands.thy ===== *)
theory Commands
  imports Telemetry
begin

text \<open>
  The command contract of \<open>domain/commands.py\<close>: the twelve payloads with their validators, the
  envelope that carries a payload to an adapter, the fleet binding, and the acknowledgement. Each
  class is a record or a constructor; \<open>check_payload\<close>, \<open>check_envelope\<close> and \<open>check_acknowledgement\<close>
  are pydantic's construction of the object, field constraints first. The canonical SHA-256 of a
  trajectory is a parameter.
\<close>

section \<open>Payloads\<close>

record move_relative_command =
  mv_x_m :: real
  mv_y_m :: real
  mv_z_m :: real
  mv_yaw_rad :: real
  mv_duration_s :: real
  mv_frame :: coordinate_frame

record execute_trajectory_command =
  xt_accepted_plan_id :: string
  xt_accepted_plan_sha256 :: string
  xt_execution_program_sha256 :: string
  xt_trajectory_sha256 :: string
  xt_route_sha256 :: string
  xt_trajectory :: trajectory

record land_command =
  ld_target_height_m :: real
  ld_target_position_m :: "vector3 option"
  ld_goal_region :: "landing_goal_region option"
  ld_duration_s :: real

datatype command_payload =
    ConnectCommand
  | DisconnectCommand
  | ArmCommand
  | DisarmCommand
  | TakeoffCommand real real "real option"
  | HoverCommand real
  | MoveRelativeCommand move_relative_command
  | ExecuteTrajectoryCommand execute_trajectory_command
  | StopAndHoldCommand
  | LandCommand land_command
  | AbortCommand string
  | EmergencyStopCommand string

fun kind_value :: "command_payload \<Rightarrow> string" where
  "kind_value ConnectCommand = ''connect''"
| "kind_value DisconnectCommand = ''disconnect''"
| "kind_value ArmCommand = ''arm''"
| "kind_value DisarmCommand = ''disarm''"
| "kind_value (TakeoffCommand h d y) = ''takeoff''"
| "kind_value (HoverCommand d) = ''hover''"
| "kind_value (MoveRelativeCommand c) = ''move_relative''"
| "kind_value (ExecuteTrajectoryCommand c) = ''execute_trajectory''"
| "kind_value StopAndHoldCommand = ''stop_and_hold''"
| "kind_value (LandCommand c) = ''land''"
| "kind_value (AbortCommand r) = ''abort''"
| "kind_value (EmergencyStopCommand r) = ''emergency_stop''"

definition require_motion :: "move_relative_command \<Rightarrow> unit outcome" where
  "require_motion c = raise_first
     [(\<not> 0 < mv_duration_s c, ValidationError ''MoveRelativeCommand field''),
      (mv_x_m c = mv_y_m c \<and> mv_y_m c = mv_z_m c \<and> mv_z_m c = mv_yaw_rad c \<and> mv_yaw_rad c = 0,
       ValidationError ''relative move must change position or yaw''),
      (mv_frame c \<notin> {HOME, BODY}, ValidationError ''relative movement requires home or body frame'')]"

definition trajectory_command_fields_ok :: "execute_trajectory_command \<Rightarrow> bool" where
  "trajectory_command_fields_ok c \<longleftrightarrow> valid_identifier (xt_accepted_plan_id c) \<and>
     list_all valid_sha256 [xt_accepted_plan_sha256 c, xt_execution_program_sha256 c,
       xt_trajectory_sha256 c, xt_route_sha256 c] \<and> check_trajectory (xt_trajectory c) = Inr ()"

definition identities_match_payload :: "(trajectory \<Rightarrow> string) \<Rightarrow> execute_trajectory_command \<Rightarrow> unit outcome" where
  "identities_match_payload sha c = raise_first
     [(\<not> trajectory_command_fields_ok c, ValidationError ''ExecuteTrajectoryCommand field''),
      (xt_trajectory_sha256 c \<noteq> sha (xt_trajectory c),
       ValidationError ''trajectory command hash does not match its payload''),
      (xt_route_sha256 c \<noteq> tr_route_sha256 (xt_trajectory c),
       ValidationError ''trajectory command route hash does not match its payload'')]"

definition goal_matches :: "vector3 option \<Rightarrow> landing_goal_region \<Rightarrow> bool" where
  "goal_matches target g = opt_all (\<lambda>p. isclose (vx p) (vx (lg_landing_target_m g)) \<and>
     isclose (vy p) (vy (lg_landing_target_m g))) target"

definition target_height_agrees :: "land_command \<Rightarrow> unit outcome" where
  "target_height_agrees c = raise_first
     [(\<not> 0 \<le> ld_target_height_m c \<or> \<not> 0 < ld_duration_s c \<or>
       \<not> opt_all (\<lambda>g. check_goal g = Inr ()) (ld_goal_region c), ValidationError ''LandCommand field''),
      (\<not> opt_all (\<lambda>p. isclose (vz p) (ld_target_height_m c)) (ld_target_position_m c),
       ValidationError ''landing position z must match target_height_m''),
      (ld_goal_region c \<noteq> None \<and> ld_target_position_m c = None,
       ValidationError ''goal-bound landing requires an explicit target position''),
      (\<not> opt_all (goal_matches (ld_target_position_m c)) (ld_goal_region c),
       ValidationError ''landing command target does not match its immutable goal region'')]"

definition reason_ok :: "string \<Rightarrow> bool" where
  "reason_ok r \<longleftrightarrow> 1 \<le> length r \<and> length r \<le> 500"

text \<open>Only a trajectory payload carries hashes to check.\<close>

fun check_plain_payload :: "command_payload \<Rightarrow> unit outcome" where
  "check_plain_payload (TakeoffCommand h d yaw) =
     raise_first [(\<not> 0 < h \<or> \<not> 0 < d, ValidationError ''TakeoffCommand field'')]"
| "check_plain_payload (HoverCommand d) = raise_first [(\<not> 0 < d, ValidationError ''HoverCommand field'')]"
| "check_plain_payload (MoveRelativeCommand c) = require_motion c"
| "check_plain_payload (LandCommand c) = target_height_agrees c"
| "check_plain_payload (AbortCommand r) = raise_first [(\<not> reason_ok r, ValidationError ''AbortCommand field'')]"
| "check_plain_payload (EmergencyStopCommand r) =
     raise_first [(\<not> reason_ok r, ValidationError ''EmergencyStopCommand field'')]"
| "check_plain_payload p = Inr ()"

fun check_payload :: "(trajectory \<Rightarrow> string) \<Rightarrow> command_payload \<Rightarrow> unit outcome" where
  "check_payload sha (ExecuteTrajectoryCommand c) = identities_match_payload sha c"
| "check_payload sha p = check_plain_payload p"

section \<open>Envelopes and acknowledgements\<close>

record fleet_command_binding =
  fb_fleet_session_id :: string
  fb_fleet_run_id :: string
  fb_deployment_sha256 :: string
  fb_task_id :: string
  fb_task_lease_generation :: int
  fb_backend_namespace :: string

definition valid_fleet_binding :: "fleet_command_binding \<Rightarrow> bool" where
  "valid_fleet_binding b \<longleftrightarrow> valid_identifier (fb_fleet_session_id b) \<and> valid_identifier (fb_fleet_run_id b)
     \<and> valid_sha256 (fb_deployment_sha256 b) \<and> valid_identifier (fb_task_id b)
     \<and> 1 \<le> fb_task_lease_generation b
     \<and> 1 \<le> length (fb_backend_namespace b) \<and> length (fb_backend_namespace b) \<le> 500"

record command_envelope =
  ce_vehicle_id :: string
  ce_command_id :: string
  ce_mission_run_id :: "string option"
  ce_fleet :: "fleet_command_binding option"
  ce_issued_at_monotonic_s :: real
  ce_source :: command_source
  ce_mode :: operating_mode
  ce_payload :: command_payload

definition envelope_ok :: "command_envelope \<Rightarrow> bool" where
  "envelope_ok e \<longleftrightarrow> valid_identifier (ce_vehicle_id e) \<and> valid_identifier (ce_command_id e)
     \<and> opt_all valid_identifier (ce_mission_run_id e) \<and> opt_all valid_fleet_binding (ce_fleet e)
     \<and> 0 \<le> ce_issued_at_monotonic_s e"

definition check_envelope :: "command_envelope \<Rightarrow> unit outcome" where
  "check_envelope e = raise_first
     [(\<not> envelope_ok e, ValidationError ''CommandEnvelope field''),
      (ce_mode e = REPLAY, ValidationError ''REPLAY mode cannot contain vehicle commands'')]"

datatype acknowledgement_status = ACCEPTED | COMPLETED | REJECTED | TIMED_OUT | UNKNOWN_OUTCOME

record command_acknowledgement =
  ca_vehicle_id :: string
  ca_command_id :: string
  ca_status :: acknowledgement_status
  ca_received_at_monotonic_s :: real
  ca_completed_at_monotonic_s :: "real option"
  ca_reason_code :: "string option"
  ca_message :: "string option"

definition truthy :: "string option \<Rightarrow> bool" where
  "truthy s \<longleftrightarrow> s \<noteq> None \<and> s \<noteq> Some []"

definition completion_is_ordered_and_explicit :: "command_acknowledgement \<Rightarrow> unit outcome" where
  "completion_is_ordered_and_explicit a = raise_first
     [(ca_status a = COMPLETED \<and> ca_completed_at_monotonic_s a = None,
       ValidationError ''completed acknowledgements require a completion timestamp''),
      (\<not> opt_all (\<lambda>t. ca_received_at_monotonic_s a \<le> t) (ca_completed_at_monotonic_s a),
       ValidationError ''command completion cannot precede receipt''),
      (ca_status a \<in> {REJECTED, TIMED_OUT, UNKNOWN_OUTCOME} \<and> \<not> truthy (ca_reason_code a),
       ValidationError ''rejected and timed-out acknowledgements require a reason code'')]"

definition check_acknowledgement :: "command_acknowledgement \<Rightarrow> unit outcome" where
  "check_acknowledgement a =
     (if \<not> (valid_identifier (ca_vehicle_id a) \<and> valid_identifier (ca_command_id a) \<and>
            0 \<le> ca_received_at_monotonic_s a \<and> nonneg_opt (ca_completed_at_monotonic_s a))
      then Inl (ValidationError ''CommandAcknowledgement field'')
      else completion_is_ordered_and_explicit a)"

section \<open>Lemmas\<close>

lemma replay_cannot_command: "ce_mode e = REPLAY \<Longrightarrow> check_envelope e \<noteq> Inr ()"
  by (simp add: check_envelope_def)

lemma accepted_land:
  assumes "check_plain_payload (LandCommand c) = Inr ()"
  shows "0 < ld_duration_s c" "0 \<le> ld_target_height_m c"
    "ld_goal_region c = Some g \<Longrightarrow> \<exists>p. ld_target_position_m c = Some p \<and> check_goal g = Inr () \<and>
       isclose (vx p) (vx (lg_landing_target_m g)) \<and> isclose (vy p) (vy (lg_landing_target_m g))"
  using assms
  by (auto simp: target_height_agrees_def raise_first_Inr goal_matches_def split: if_splits)

lemma accepted_trajectory_command:
  "check_payload sha (ExecuteTrajectoryCommand c) = Inr () \<Longrightarrow>
     check_trajectory (xt_trajectory c) = Inr () \<and> xt_trajectory_sha256 c = sha (xt_trajectory c)"
  by (auto simp: identities_match_payload_def trajectory_command_fields_ok_def split: if_splits)

end
