(* ===== verification/Guards.thy ===== *)
theory Guards
  imports Commands SafetyPolicy
begin

text \<open>
  The decisions of the safety supervisor that read but do not write: the models of
  \<open>safety/models.py\<close>, the vehicle session and registry state of \<open>safety/supervisor.py\<close>, ownership,
  preflight and authority guards, the motion validators, the preflight checks, the health assessment
  and the stale-sample test. \<open>Supervisor\<close> composes them into the operations. A vehicle is its
  identity, capabilities and backend profile (the properties of \<open>vehicles/base.py\<close>); its coroutines
  are the environment of \<open>Supervisor\<close>. The lemmas show what each guard admits.
\<close>

section \<open>Safety models\<close>

datatype observation = ObsNone | ObsStr string | ObsNum real | ObsBool bool

record preflight_check =
  pc_code :: string
  pc_passed :: bool
  pc_message :: string
  pc_observed :: observation
  pc_required :: observation

record preflight_report =
  pr_report_id :: string
  pr_vehicle_id :: string
  pr_mode :: operating_mode
  pr_operator_id :: string
  pr_created_at :: real
  pr_expires_at :: real
  pr_approved :: bool
  pr_checks :: "preflight_check list"

definition valid_report :: "preflight_report \<Rightarrow> bool" where
  "valid_report r \<longleftrightarrow> valid_identifier (pr_report_id r) \<and> valid_identifier (pr_vehicle_id r)
     \<and> valid_identifier (pr_operator_id r) \<and> 0 \<le> pr_created_at r \<and> 0 \<le> pr_expires_at r"

datatype recovery_action = RA_NONE | RA_REJECT_NEW_COMMANDS | RA_ABORT_AND_LAND | RA_EMERGENCY_STOP

record health_issue =
  hi_code :: string
  hi_message :: string
  hi_action :: recovery_action

record health_assessment =
  ha_vehicle_id :: string
  ha_healthy :: bool
  ha_action :: recovery_action
  ha_issues :: "health_issue list"

record safety_event =
  se_sequence :: int
  se_timestamp :: real
  se_vehicle_id :: string
  se_event_type :: string
  se_source :: command_source
  se_message :: string
  se_from_state :: "vehicle_state option"
  se_to_state :: "vehicle_state option"
  se_command_id :: "string option"
  se_details :: "(string \<times> observation) list"

record control_lease =
  cl_owner_id :: string
  cl_expires_at :: real

definition valid_control_lease :: "control_lease \<Rightarrow> bool" where
  "valid_control_lease l \<longleftrightarrow> valid_identifier (cl_owner_id l) \<and> 0 \<le> cl_expires_at l"

record live_authorization =
  au_vehicle_id :: string
  au_operator_id :: string
  au_mode :: operating_mode
  au_confirmed :: bool
  au_authorized_at :: real

section \<open>Vehicles, sessions and the supervisor's state\<close>

record vehicle =
  v_identity :: vehicle_identity
  v_capabilities :: vehicle_capabilities
  v_backend :: backend_profile

abbreviation vehicle_id_of :: "vehicle \<Rightarrow> string" where
  "vehicle_id_of v \<equiv> vid_vehicle_id (v_identity v)"

record session =
  s_vehicle :: vehicle
  s_state :: vehicle_state
  s_telemetry :: "telemetry_envelope option"
  s_received_at :: "real option"
  s_preflight :: "preflight_report option"
  s_lease :: "control_lease option"
  s_active_task :: "int option"
  s_active_payload :: "command_payload option"
  s_interruption :: "py_error option"
  s_safety_interruption_pending :: bool

definition new_session :: "vehicle \<Rightarrow> session" where
  "new_session v = \<lparr>s_vehicle = v, s_state = VS_DISCONNECTED, s_telemetry = None, s_received_at = None,
     s_preflight = None, s_lease = None, s_active_task = None, s_active_payload = None,
     s_interruption = None, s_safety_interruption_pending = False\<rparr>"

datatype notice =
    CommandSent command_envelope
  | CommandAcknowledged command_acknowledgement
  | SafetyEventNoted safety_event
  | TelemetryReceived telemetry_envelope

record supervisor =
  sv_policy :: safety_policy
  sv_mode :: operating_mode
  sv_sessions :: "(string, session) dict"
  sv_live_authorizations :: "(string, live_authorization) dict"
  sv_command_sequence :: int
  sv_event_sequence :: int
  sv_events :: "safety_event list"
  sv_audit_sinks :: "nat list"
  sv_notices :: "(nat \<times> notice) list"

definition init_supervisor :: "safety_policy option \<Rightarrow> nat list \<Rightarrow> supervisor" where
  "init_supervisor policy sinks = \<lparr>sv_policy = (case policy of None \<Rightarrow> default_policy | Some p \<Rightarrow> p),
     sv_mode = SIM, sv_sessions = [], sv_live_authorizations = [], sv_command_sequence = 0,
     sv_event_sequence = 0, sv_events = [], sv_audit_sinks = sinks, sv_notices = []\<rparr>"

section \<open>Ownership, preflight and authority\<close>

definition cs_error :: "error_code \<Rightarrow> string \<Rightarrow> py_error" where
  "cs_error code message = CrazySwarmError code message"

definition is_armed_or_flying :: "session \<Rightarrow> bool" where
  "is_armed_or_flying s \<longleftrightarrow> (case s_telemetry s of None \<Rightarrow> False
     | Some e \<Rightarrow> vt_armed (te_telemetry e) \<or> vt_flying (te_telemetry e))"

definition airborne_states :: "vehicle_state set" where
  "airborne_states = {VS_TAKING_OFF, VS_FLYING, VS_RETURNING}"

definition require_owner :: "session \<Rightarrow> string \<Rightarrow> real \<Rightarrow> bool \<Rightarrow> unit outcome" where
  "require_owner s owner now allow_expired =
     (case s_lease s of None \<Rightarrow> Inl (cs_error MODE_NOT_AUTHORIZED ''control ownership is required'')
      | Some l \<Rightarrow> raise_first
          [(cl_owner_id l \<noteq> owner, cs_error MODE_NOT_AUTHORIZED ''control ownership is required''),
           (\<not> allow_expired \<and> cl_expires_at l \<le> now, cs_error MODE_NOT_AUTHORIZED ''control lease has expired'')])"

definition require_preflight :: "operating_mode \<Rightarrow> session \<Rightarrow> string \<Rightarrow> string \<Rightarrow> real \<Rightarrow> unit outcome" where
  "require_preflight mode s owner report_id now =
     (case s_preflight s of None \<Rightarrow> Inl (cs_error PREFLIGHT_FAILED ''valid preflight is required'')
      | Some r \<Rightarrow> raise_first
          [(pr_report_id r \<noteq> report_id \<or> pr_operator_id r \<noteq> owner \<or> pr_mode r \<noteq> mode \<or>
            \<not> pr_approved r \<or> pr_expires_at r < now,
            cs_error PREFLIGHT_FAILED ''valid preflight is required'')])"

definition authority_of :: "session \<Rightarrow> authority_class" where
  "authority_of s = bk_authority (v_backend (s_vehicle s))"

definition require_real_authority :: "supervisor \<Rightarrow> session \<Rightarrow> unit outcome" where
  "require_real_authority sv s =
     (if authority_of s = SIMULATION then
        raise_first [(sv_mode sv \<noteq> SIM,
          cs_error MODE_NOT_AUTHORIZED ''simulation authority can only be armed in SIM mode'')]
      else raise_first
        [(authority_of s = OBSERVATION_ONLY,
          cs_error MODE_NOT_AUTHORIZED ''observation-only backend cannot be armed''),
         (sv_mode sv \<notin> {LIVE, SHADOW}, cs_error MODE_NOT_AUTHORIZED ''real vehicle requires LIVE or SHADOW mode''),
         (dict_get (sv_live_authorizations sv) (vehicle_id_of (s_vehicle s)) = None,
          cs_error MODE_NOT_AUTHORIZED ''real mode is not authorized'')])"

definition low_battery_override :: "supervisor \<Rightarrow> session \<Rightarrow> bool \<Rightarrow> bool outcome" where
  "low_battery_override sv s requested =
     (if \<not> requested then Inr False
      else if sv_mode sv \<noteq> SIM \<or> authority_of s \<noteq> SIMULATION
        then Inl (cs_error MODE_NOT_AUTHORIZED
          ''low-battery risk override is available only for simulation authority in SIM mode'')
      else Inr True)"

definition require_command_ready :: "supervisor \<Rightarrow> session \<Rightarrow> string \<Rightarrow> real \<Rightarrow> unit outcome" where
  "require_command_ready sv s owner now =
     bind_ok (require_owner s owner now False) (\<lambda>_.
     bind_ok (require_real_authority sv s) (\<lambda>_.
     (case s_telemetry s of None \<Rightarrow> Inl (cs_error INVALID_STATE ''vehicle is not ready'')
      | Some e \<Rightarrow> raise_first
          [(s_state s \<noteq> VS_READY, cs_error INVALID_STATE ''vehicle is not ready''),
           (\<not> vt_armed (te_telemetry e), cs_error INVALID_STATE ''vehicle is not armed'')])))"

definition require_flying :: "session \<Rightarrow> string \<Rightarrow> real \<Rightarrow> unit outcome" where
  "require_flying s owner now =
     bind_ok (require_owner s owner now False) (\<lambda>_.
     raise_first [(s_state s \<noteq> VS_FLYING, cs_error INVALID_STATE ''vehicle is not flying'')])"

section \<open>Motion validators\<close>

definition validate_takeoff :: "safety_policy \<Rightarrow> real \<Rightarrow> real \<Rightarrow> unit outcome" where
  "validate_takeoff p height duration = raise_first
     [(height \<le> 0 \<or> height > max_altitude_m p, cs_error INVALID_COMMAND ''takeoff height exceeds policy''),
      (duration \<le> 0 \<or> duration > max_mission_duration_s p,
       cs_error INVALID_COMMAND ''takeoff duration exceeds policy''),
      (3 / 2 * height / duration > max_vertical_speed_m_s p,
       cs_error INVALID_COMMAND ''takeoff vertical speed exceeds policy''),
      (6 * height / duration ^ 2 > max_acceleration_m_s2 p,
       cs_error INVALID_COMMAND ''takeoff acceleration exceeds policy'')]"

definition hypot :: "real \<Rightarrow> real \<Rightarrow> real" where
  "hypot a b = sqrt (a ^ 2 + b ^ 2)"

definition move_limit_checks :: "safety_policy \<Rightarrow> move_relative_command \<Rightarrow> (bool \<times> py_error) list" where
  "move_limit_checks p c =
     (let d = mv_duration_s c; horizontal = hypot (mv_x_m c) (mv_y_m c);
          travelled = sqrt (horizontal ^ 2 + mv_z_m c ^ 2) in
      [(d > max_mission_duration_s p, cs_error INVALID_COMMAND ''move duration exceeds policy''),
       (3 / 2 * horizontal / d > max_horizontal_speed_m_s p,
        cs_error INVALID_COMMAND ''horizontal speed exceeds policy''),
       (3 / 2 * \<bar>mv_z_m c\<bar> / d > max_vertical_speed_m_s p,
        cs_error INVALID_COMMAND ''vertical speed exceeds policy''),
       (6 * travelled / d ^ 2 > max_acceleration_m_s2 p,
        cs_error INVALID_COMMAND ''acceleration exceeds policy''),
       (3 / 2 * \<bar>mv_yaw_rad c\<bar> / d > max_yaw_rate_rad_s p,
        cs_error INVALID_COMMAND ''yaw rate exceeds policy'')])"

text \<open>\<open>math.cos\<close> and \<open>math.sin\<close>; evaluation knows their value at zero.\<close>

definition math_cos :: "real \<Rightarrow> real" where
  "math_cos x = cos x"

definition math_sin :: "real \<Rightarrow> real" where
  "math_sin x = sin x"

declare math_cos_def [code del] math_sin_def [code del]

lemma math_cos_code [code]: "math_cos (Ratreal r) = (if r = 0 then 1 else math_cos (Ratreal r))"
  by (simp add: math_cos_def)

lemma math_sin_code [code]: "math_sin (Ratreal r) = (if r = 0 then 0 else math_sin (Ratreal r))"
  by (simp add: math_sin_def)

definition move_displacement :: "vehicle_telemetry \<Rightarrow> move_relative_command \<Rightarrow> (real \<times> real) outcome" where
  "move_displacement t c =
     (if mv_frame c = BODY then
        (case vt_attitude t of
           None \<Rightarrow> Inl (cs_error LOCALIZATION_INVALID ''body-frame move requires a current attitude observation'')
         | Some a \<Rightarrow> Inr (mv_x_m c * math_cos (att_yaw_rad a) - mv_y_m c * math_sin (att_yaw_rad a),
                         mv_x_m c * math_sin (att_yaw_rad a) + mv_y_m c * math_cos (att_yaw_rad a)))
      else Inr (mv_x_m c, mv_y_m c))"

definition validate_relative_move :: "safety_policy \<Rightarrow> vehicle_telemetry \<Rightarrow> move_relative_command \<Rightarrow> unit outcome" where
  "validate_relative_move p t c =
     bind_ok (raise_first (move_limit_checks p c)) (\<lambda>_.
     (case vt_position_m t of
        None \<Rightarrow> Inl (cs_error LOCALIZATION_INVALID ''relative move requires a current position observation'')
      | Some pos \<Rightarrow> bind_ok (move_displacement t c) (\<lambda>(dx, dy). raise_first
          [(\<not> contains (flight_volume p) (vec (vx pos + dx) (vy pos + dy) (vz pos + mv_z_m c)),
            cs_error GEOFENCE_BREACH ''move target exceeds policy volume'')])))"

definition point_checks :: "safety_policy \<Rightarrow> trajectory_point \<Rightarrow> (bool \<times> py_error) list" where
  "point_checks p q =
     [(\<not> contains (flight_volume p) (tp_position_m q) \<or> vz (tp_position_m q) > max_altitude_m p,
       cs_error GEOFENCE_BREACH ''accepted trajectory leaves the configured flight volume''),
      (hypot (vx (tp_velocity_m_s q)) (vy (tp_velocity_m_s q)) > max_horizontal_speed_m_s p,
       cs_error INVALID_COMMAND ''trajectory horizontal speed exceeds policy''),
      (\<bar>vz (tp_velocity_m_s q)\<bar> > max_vertical_speed_m_s p,
       cs_error INVALID_COMMAND ''trajectory vertical speed exceeds policy''),
      (vector_length (tp_acceleration_m_s2 q) > max_acceleration_m_s2 p,
       cs_error INVALID_COMMAND ''trajectory acceleration exceeds policy''),
      (\<bar>tp_yaw_rate_rad_s q\<bar> > max_yaw_rate_rad_s p,
       cs_error INVALID_COMMAND ''trajectory yaw rate exceeds policy'')]"

definition setpoint_checks :: "safety_policy \<Rightarrow> setpoint \<Rightarrow> (bool \<times> py_error) list" where
  "setpoint_checks p q =
     [(\<not> contains (flight_volume p) (sp_position_m q),
       cs_error GEOFENCE_BREACH ''accepted trajectory spline leaves the configured flight volume''),
      (hypot (vx (sp_velocity_m_s q)) (vy (sp_velocity_m_s q)) > max_horizontal_speed_m_s p \<or>
       \<bar>vz (sp_velocity_m_s q)\<bar> > max_vertical_speed_m_s p \<or>
       vector_length (sp_acceleration_m_s2 q) > max_acceleration_m_s2 p \<or>
       \<bar>sp_yaw_rate_rad_s q\<bar> > max_yaw_rate_rad_s p,
       cs_error INVALID_COMMAND ''accepted trajectory spline exceeds a dynamics policy limit'')]"

fun all_ok :: "unit outcome list \<Rightarrow> unit outcome" where
  "all_ok [] = Inr ()"
| "all_ok (r # rs) = bind_ok r (\<lambda>_. all_ok rs)"

definition sample_instant :: "trajectory_point \<Rightarrow> trajectory_point \<Rightarrow> nat \<Rightarrow> real" where
  "sample_instant a b k = tp_time a + (tp_time b - tp_time a) * real k / 20"

definition inner_samples :: "nat list" where
  "inner_samples = [1..<20]"

definition check_sample :: "safety_policy \<Rightarrow> trajectory_point \<Rightarrow> trajectory_point \<Rightarrow> nat \<Rightarrow> unit outcome" where
  "check_sample p a b k =
     bind_ok (sample_trajectory_segment a b (sample_instant a b k)) (\<lambda>q. raise_first (setpoint_checks p q))"

definition start_error :: "vector3 \<Rightarrow> vector3 \<Rightarrow> real" where
  "start_error a b = sqrt ((vx a - vx b) ^ 2 + (vy a - vy b) ^ 2 + (vz a - vz b) ^ 2)"

definition validate_trajectory :: "safety_policy \<Rightarrow> vehicle_telemetry \<Rightarrow> execute_trajectory_command \<Rightarrow> unit outcome" where
  "validate_trajectory p t c =
     (let tr = xt_trajectory c; pts = tr_points tr in
      if trajectory_duration_s tr > max_mission_duration_s p
      then Inl (cs_error INVALID_COMMAND ''trajectory duration exceeds mission policy'')
      else (case vt_position_m t of
        None \<Rightarrow> Inl (cs_error LOCALIZATION_INVALID ''absolute trajectory requires a current position observation'')
      | Some pos \<Rightarrow>
          if start_error (tp_position_m (hd pts)) pos > max (15 / 100) (tr_completion_position_tolerance_m tr * 2)
          then Inl (cs_error LOCALIZATION_INVALID
            ''accepted trajectory start does not match the observed vehicle position'')
          else bind_ok (raise_first (concat (map (point_checks p) pts))) (\<lambda>_.
            all_ok (concat (map (\<lambda>(a, b). map (check_sample p a b) inner_samples) (zip pts (tl pts)))))))"

section \<open>Telemetry freshness\<close>

text \<open>The early returns of \<open>receive_telemetry\<close>: a sample the same source clock has already passed.\<close>

definition stale_sample :: "telemetry_envelope option \<Rightarrow> telemetry_envelope \<Rightarrow> bool" where
  "stale_sample previous t = (case previous of None \<Rightarrow> False
     | Some p \<Rightarrow> te_source_clock_id t = te_source_clock_id p \<and>
         (te_source_clock_epoch t < te_source_clock_epoch p \<or>
          te_source_clock_epoch t = te_source_clock_epoch p \<and>
            ((te_sequence t < te_sequence p \<or> te_source_timestamp_s t < te_source_timestamp_s p) \<or>
             te_sequence t = te_sequence p \<and> te_source_timestamp_s t = te_source_timestamp_s p)))"

definition transport_quality :: "vehicle_telemetry \<Rightarrow> real option" where
  "transport_quality t = (case vt_link_quality_percent t of Some q \<Rightarrow> Some q
     | None \<Rightarrow> (case vt_transport t of Some x \<Rightarrow> tx_delivery_quality_percent x | None \<Rightarrow> None))"

section \<open>Preflight checks\<close>

definition obs_num :: "real option \<Rightarrow> observation" where
  "obs_num v = (case v of None \<Rightarrow> ObsNone | Some x \<Rightarrow> ObsNum x)"

fun join_values :: "string list \<Rightarrow> string" where
  "join_values [] = []"
| "join_values [v] = v"
| "join_values (v # w # vs) = v @ '','' @ join_values (w # vs)"

definition capability_list :: "vehicle_capability set \<Rightarrow> string" where
  "capability_list cs = join_values (map capability_value (sorted_list_of_set cs))"

definition check_of :: "string \<Rightarrow> bool \<Rightarrow> string \<Rightarrow> observation \<Rightarrow> observation \<Rightarrow> preflight_check" where
  "check_of code passed message observed required = \<lparr>pc_code = code, pc_passed = passed,
     pc_message = message, pc_observed = observed, pc_required = required\<rparr>"

definition meets :: "real option \<Rightarrow> real \<Rightarrow> bool" where
  "meets v minimum \<longleftrightarrow> (case v of None \<Rightarrow> False | Some x \<Rightarrow> minimum \<le> x)"

definition positioning_required :: "vehicle_capability set \<Rightarrow> bool" where
  "positioning_required required \<longleftrightarrow> CAP_RELATIVE_POSITIONING \<in> required \<or> CAP_GLOBAL_POSITIONING \<in> required"

definition command_authority :: "supervisor \<Rightarrow> session \<Rightarrow> bool" where
  "command_authority sv s \<longleftrightarrow>
     (authority_of s = SIMULATION \<and> sv_mode sv = SIM) \<or>
     (authority_of s = PHYSICAL \<and> sv_mode sv \<in> {LIVE, SHADOW} \<and>
      dict_get (sv_live_authorizations sv) (vehicle_id_of (s_vehicle s)) \<noteq> None)"

definition preflight_checks ::
    "supervisor \<Rightarrow> session \<Rightarrow> telemetry_envelope \<Rightarrow> vehicle_capability set \<Rightarrow> bool \<Rightarrow> preflight_check list" where
  "preflight_checks sv s e required allow_low =
     (let p = sv_policy sv; d = te_telemetry e; quality = transport_quality d;
          low = (case vt_battery_percent d of None \<Rightarrow> False | Some b \<Rightarrow> b < minimum_takeoff_battery_percent p);
          faulted = ''CRITICAL_BATTERY'' \<in> set (vt_faults d) in
      [check_of ''IDENTITY'' (te_vehicle_id e = vehicle_id_of (s_vehicle s))
         ''telemetry identity matches selected vehicle''
         (ObsStr (te_vehicle_id e)) (ObsStr (vehicle_id_of (s_vehicle s))),
       check_of ''STATE_READY'' (s_state s = VS_READY) ''vehicle is connected and ready''
         (ObsStr (vehicle_state_value (s_state s))) (ObsStr (vehicle_state_value VS_READY)),
       check_of ''CAPABILITIES'' (supports (cap_features (v_capabilities (s_vehicle s))) required)
         ''required capabilities are present''
         (ObsStr (capability_list (cap_features (v_capabilities (s_vehicle s)))))
         (ObsStr (capability_list required)),
       check_of ''BATTERY''
         (vt_battery_percent d \<noteq> None \<and>
          (meets (vt_battery_percent d) (minimum_takeoff_battery_percent p) \<or> allow_low))
         (if allow_low \<and> low then ''confirmed Fast Sim low-battery risk override''
          else ''battery meets takeoff policy'')
         (obs_num (vt_battery_percent d)) (ObsNum (minimum_takeoff_battery_percent p)),
       check_of ''COMMAND_TRANSPORT'' (meets quality (minimum_link_quality_percent p))
         ''command transport quality meets policy'' (obs_num quality) (ObsNum (minimum_link_quality_percent p)),
       check_of ''GEOFENCE''
         (case vt_position_m d of None \<Rightarrow> False | Some pos \<Rightarrow> contains (flight_volume p) pos)
         ''estimated position is inside configured flight volume'' ObsNone ObsNone,
       check_of ''NO_CRITICAL_FAULT'' (\<not> faulted \<or> allow_low)
         (if allow_low \<and> faulted then ''confirmed Fast Sim low-battery fault override''
          else ''no critical fault is active'') ObsNone ObsNone,
       check_of ''LOCALIZATION''
         (\<not> positioning_required required \<or>
          meets (vt_localization_quality_percent d) (minimum_localization_quality_percent p))
         ''localization meets required capability policy''
         (obs_num (vt_localization_quality_percent d))
         (ObsNum (if positioning_required required then minimum_localization_quality_percent p else 0))]
      @ (if positioning_required required then
           [check_of ''POSITIONING_SENSORS'' (vt_imu d \<noteq> None \<and> vt_flow d \<noteq> None)
              ''IMU and Flow observations are available'' ObsNone ObsNone] else [])
      @ (if CAP_RANGE_SENSING \<in> required then
           [check_of ''RANGE_SENSORS'' (vt_ranges d \<noteq> None)
              ''canonical range observations are available'' ObsNone ObsNone] else [])
      @ [check_of ''COMMAND_AUTHORITY'' (command_authority sv s)
           ''selected mode has command authority for this vehicle''
           (ObsStr (operating_mode_value (sv_mode sv))) ObsNone])"

section \<open>Health\<close>

text \<open>\<open>f"{age:.3f}"\<close>: thousandths, a tie to the even digit.\<close>

definition show_fixed3 :: "real \<Rightarrow> string" where
  "show_fixed3 x =
     (let q = \<lfloor>1000 * \<bar>x\<bar>\<rfloor>; r = 1000 * \<bar>x\<bar> - of_int q;
          n = nat (if r > 1 / 2 \<or> (r = 1 / 2 \<and> odd q) then q + 1 else q);
          digits = show_nat (n mod 1000) in
      (if x < 0 then ''-'' else []) @ show_nat (n div 1000) @ ''.'' @
      replicate (3 - length digits) (CHR ''0'') @ digits)"

definition issue :: "string \<Rightarrow> string \<Rightarrow> recovery_action \<Rightarrow> health_issue" where
  "issue code message action = \<lparr>hi_code = code, hi_message = message, hi_action = action\<rparr>"

definition telemetry_issues ::
    "safety_policy \<Rightarrow> bool \<Rightarrow> recovery_action \<Rightarrow> bool \<Rightarrow> real \<Rightarrow> vehicle_telemetry \<Rightarrow> health_issue list" where
  "telemetry_issues p airborne reject_or_abort low age t =
     (let quality = transport_quality t in
      (if age > telemetry_timeout_s p
       then [issue ''TELEMETRY_STALE'' (''telemetry is stale by '' @ show_fixed3 age @ ''s'') reject_or_abort] else [])
      @ (if vt_state t = VS_DISCONNECTED \<and> airborne
         then [issue ''LINK_LOST'' ''vehicle disconnected while airborne'' RA_EMERGENCY_STOP] else [])
      @ (case vt_battery_percent t of
           None \<Rightarrow> [issue ''BATTERY_UNAVAILABLE'' ''battery observation is unavailable'' reject_or_abort]
         | Some b \<Rightarrow> if b \<le> critical_battery_percent p \<and> \<not> low
             then [issue ''CRITICAL_BATTERY'' ''battery is critical'' reject_or_abort] else [])
      @ (if \<not> meets quality (minimum_link_quality_percent p)
         then [issue (if quality = None then ''TRANSPORT_QUALITY_UNAVAILABLE'' else ''TRANSPORT_QUALITY_LOW'')
                 ''command transport quality does not meet policy'' reject_or_abort] else [])
      @ (if \<not> meets (vt_localization_quality_percent t) (minimum_localization_quality_percent p)
         then [issue ''LOCALIZATION_INVALID'' ''localization quality is below policy'' reject_or_abort] else [])
      @ (if (case vt_position_m t of None \<Rightarrow> True | Some pos \<Rightarrow> \<not> contains (flight_volume p) pos)
         then [issue ''GEOFENCE_BREACH'' ''estimated position is outside policy volume'' reject_or_abort] else [])
      @ (if airborne \<and> (vt_imu t = None \<or> vt_flow t = None)
         then [issue ''REQUIRED_SENSOR_UNAVAILABLE''
                 ''IMU/Flow data required by the active profile is unavailable'' RA_EMERGENCY_STOP] else []))"

definition health_issues :: "safety_policy \<Rightarrow> session \<Rightarrow> bool \<Rightarrow> real \<Rightarrow> health_issue list" where
  "health_issues p s low now =
     (let airborne = s_state s \<in> airborne_states;
          reject_or_abort = (if airborne then RA_ABORT_AND_LAND else RA_REJECT_NEW_COMMANDS) in
      (case (s_telemetry s, s_received_at s) of
         (Some e, Some received) \<Rightarrow>
           telemetry_issues p airborne reject_or_abort low (now - received) (te_telemetry e)
       | _ \<Rightarrow> [issue ''NO_TELEMETRY'' ''no telemetry has been received'' reject_or_abort]))"

fun action_rank :: "recovery_action \<Rightarrow> nat" where
  "action_rank RA_NONE = 0"
| "action_rank RA_REJECT_NEW_COMMANDS = 1"
| "action_rank RA_ABORT_AND_LAND = 2"
| "action_rank RA_EMERGENCY_STOP = 3"

definition highest_action :: "health_issue list \<Rightarrow> recovery_action" where
  "highest_action issues = (case map hi_action issues of [] \<Rightarrow> RA_NONE | a # as \<Rightarrow> max_by action_rank a as)"

definition assess_health :: "supervisor \<Rightarrow> string \<Rightarrow> session \<Rightarrow> bool \<Rightarrow> real \<Rightarrow> health_assessment" where
  "assess_health sv vehicle_id s low now =
     (let issues = health_issues (sv_policy sv) s low now in
      \<lparr>ha_vehicle_id = vehicle_id, ha_healthy = (issues = []), ha_action = highest_action issues,
       ha_issues = issues\<rparr>)"

end
