(* ===== verification/Supervisor.thy ===== *)
theory Supervisor
  imports Guards
begin

text \<open>
  The operations of \<open>SafetySupervisor\<close> in \<open>safety/supervisor.py\<close>. A \<open>world\<close> is the supervisor's
  object, the monotonic clock and the environment of its coroutines. Every \<open>await\<close> consumes one
  \<open>await_step\<close>: what the other coroutines did to the supervisor meanwhile (\<open>aw_meanwhile\<close>), and the
  reply, which for an adapter is a value or the exception it raised; \<open>TimeoutError\<close> is what
  \<open>asyncio.wait_for\<close> raises and \<open>CancelledError\<close> a cancellation. \<open>w_calls\<close> is the log of the calls
  made to the adapters. So a method is a program over the world, its interleavings are the choices
  of the environment, and a theorem for all environments covers all of them. The registry of vehicles
  is not changed while a call is suspended; a session is looked up again by its id after an await,
  which then finds the object the method holds. Monotonic readings are non-negative, so the field
  constraints of a \<open>SafetyEvent\<close> always hold. The lemmas show that every call keeps the life
  cycle, the event log and the command numbering, whatever the environment does.
\<close>

section \<open>The environment\<close>

record await_step =
  aw_meanwhile :: "supervisor \<Rightarrow> supervisor"
  aw_snapshot :: "telemetry_envelope outcome"
  aw_execute :: "command_acknowledgement outcome"
  aw_link :: "unit outcome"
  aw_task_over :: bool

datatype adapter_call =
    CallConnect string
  | CallDisconnect string
  | CallSnapshot string
  | CallExecute command_envelope

record world =
  w_sup :: supervisor
  w_clock :: clock
  w_steps :: "nat \<Rightarrow> await_step"
  w_awaits :: nat
  w_calls :: "adapter_call list"

type_synonym 'a act = "(world, 'a) proc"

definition sup :: "supervisor act" where
  "sup w = (Inr (w_sup w), w)"

definition update_sup :: "(supervisor \<Rightarrow> supervisor) \<Rightarrow> unit act" where
  "update_sup f w = (Inr (), w\<lparr>w_sup := f (w_sup w)\<rparr>)"

definition monotonic_now :: "real act" where
  "monotonic_now w = (case monotonic (w_clock w) of (t, c) \<Rightarrow> (Inr t, w\<lparr>w_clock := c\<rparr>))"

definition supervisor_now :: "real option \<Rightarrow> real act" where
  "supervisor_now value = (case value of None \<Rightarrow> monotonic_now | Some t \<Rightarrow> ret t)"

definition await_reply :: "(await_step \<Rightarrow> 'a outcome) \<Rightarrow> 'a act" where
  "await_reply reply w =
     (let step = w_steps w (w_awaits w) in
      (reply step, w\<lparr>w_sup := aw_meanwhile step (w_sup w), w_awaits := Suc (w_awaits w)\<rparr>))"

definition log_call :: "adapter_call \<Rightarrow> unit act" where
  "log_call c w = (Inr (), w\<lparr>w_calls := w_calls w @ [c]\<rparr>)"

definition task_over :: "bool act" where
  "task_over w = (Inr (aw_task_over (w_steps w (w_awaits w))), w)"

definition await_snapshot :: "string \<Rightarrow> telemetry_envelope act" where
  "await_snapshot vid = seq (log_call (CallSnapshot vid)) (\<lambda>_. await_reply aw_snapshot)"

definition await_execute :: "command_envelope \<Rightarrow> command_acknowledgement act" where
  "await_execute e = seq (log_call (CallExecute e)) (\<lambda>_. await_reply aw_execute)"

definition finally_do :: "'a act \<Rightarrow> unit act \<Rightarrow> 'a act" where
  "finally_do m f = seq (handle m (\<lambda>e. seq f (\<lambda>_. raise e))) (\<lambda>x. seq f (\<lambda>_. ret x))"

section \<open>Registry, events and transitions\<close>

definition session_of :: "string \<Rightarrow> session act" where
  "session_of vid = seq sup (\<lambda>sv. case dict_get (sv_sessions sv) vid of
     None \<Rightarrow> raise (cs_error IDENTITY_MISMATCH (''unknown vehicle: '' @ vid))
   | Some s \<Rightarrow> ret s)"

definition put_session :: "string \<Rightarrow> (session \<Rightarrow> session) \<Rightarrow> supervisor \<Rightarrow> supervisor" where
  "put_session vid f sv = (case dict_get (sv_sessions sv) vid of None \<Rightarrow> sv
     | Some s \<Rightarrow> sv\<lparr>sv_sessions := dict_set vid (f s) (sv_sessions sv)\<rparr>)"

definition update_session :: "string \<Rightarrow> (session \<Rightarrow> session) \<Rightarrow> unit act" where
  "update_session vid f = update_sup (put_session vid f)"

definition deliver :: "notice \<Rightarrow> supervisor \<Rightarrow> supervisor" where
  "deliver n sv = sv\<lparr>sv_notices := sv_notices sv @ map (\<lambda>sink. (sink, n)) (sv_audit_sinks sv)\<rparr>"

definition notify :: "notice \<Rightarrow> unit act" where
  "notify n = update_sup (deliver n)"

definition add_audit_sink :: "nat \<Rightarrow> unit act" where
  "add_audit_sink sink = update_sup (\<lambda>sv. sv\<lparr>sv_audit_sinks := sv_audit_sinks sv @ [sink]\<rparr>)"

definition record_event :: "safety_event \<Rightarrow> supervisor \<Rightarrow> supervisor" where
  "record_event e sv = deliver (SafetyEventNoted e)
     (sv\<lparr>sv_events := sv_events sv @ [e], sv_event_sequence := sv_event_sequence sv + 1\<rparr>)"

definition emit_event ::
    "string \<Rightarrow> string \<Rightarrow> string \<Rightarrow> command_source \<Rightarrow> (vehicle_state \<times> vehicle_state) option \<Rightarrow>
     string option \<Rightarrow> (string \<times> observation) list \<Rightarrow> unit act" where
  "emit_event vid event_type message source change command_id details =
     seq monotonic_now (\<lambda>t. update_sup (\<lambda>sv. record_event
       \<lparr>se_sequence = sv_event_sequence sv, se_timestamp = t, se_vehicle_id = vid, se_event_type = event_type,
        se_source = source, se_message = message, se_from_state = map_option fst change,
        se_to_state = map_option snd change, se_command_id = command_id, se_details = details\<rparr> sv))"

definition plain_event :: "string \<Rightarrow> string \<Rightarrow> string \<Rightarrow> unit act" where
  "plain_event vid event_type message = emit_event vid event_type message CS_SUPERVISOR None None []"

definition transition :: "string \<Rightarrow> vehicle_state \<Rightarrow> command_source \<Rightarrow> unit act" where
  "transition vid target source =
     seq (session_of vid) (\<lambda>s.
     seq (lift_outcome (require_transition (s_state s) target)) (\<lambda>_.
     seq (update_session vid (\<lambda>s. s\<lparr>s_state := target\<rparr>)) (\<lambda>_.
     emit_event vid ''STATE_TRANSITION''
       (vehicle_state_value (s_state s) @ '' -> '' @ vehicle_state_value target)
       source (Some (s_state s, target)) None [])))"

definition next_command_sequence :: "int act" where
  "next_command_sequence = seq sup (\<lambda>sv.
     seq (update_sup (\<lambda>sv. sv\<lparr>sv_command_sequence := sv_command_sequence sv + 1\<rparr>)) (\<lambda>_.
     ret (sv_command_sequence sv)))"

definition register_vehicle :: "vehicle \<Rightarrow> unit act" where
  "register_vehicle v =
     seq sup (\<lambda>sv.
     seq (raise_if (dict_get (sv_sessions sv) (vehicle_id_of v) \<noteq> None)
            (cs_error IDENTITY_MISMATCH ''vehicle ID is already registered'')) (\<lambda>_.
     seq (update_sup (\<lambda>sv. sv\<lparr>sv_sessions := dict_set (vehicle_id_of v) (new_session v) (sv_sessions sv)\<rparr>)) (\<lambda>_.
     plain_event (vehicle_id_of v) ''VEHICLE_REGISTERED'' ''vehicle registered'')))"

definition drop_vehicle :: "string \<Rightarrow> supervisor \<Rightarrow> supervisor" where
  "drop_vehicle vid sv = sv\<lparr>sv_live_authorizations := AList.delete vid (sv_live_authorizations sv),
     sv_sessions := AList.delete vid (sv_sessions sv)\<rparr>"

definition unregister_vehicle :: "string \<Rightarrow> vehicle act" where
  "unregister_vehicle vid =
     seq (session_of vid) (\<lambda>s.
     seq (raise_if (s_state s \<noteq> VS_DISCONNECTED \<or> s_lease s \<noteq> None \<or> s_active_task s \<noteq> None \<or>
            is_armed_or_flying s)
            (cs_error INVALID_STATE ''vehicle must be disconnected and unowned before unregistering'')) (\<lambda>_.
     seq (plain_event vid ''VEHICLE_UNREGISTERED'' ''vehicle unregistered'') (\<lambda>_.
     seq (update_sup (drop_vehicle vid)) (\<lambda>_. ret (s_vehicle s)))))"

definition authorize_mode :: "operating_mode \<Rightarrow> live_authorization option \<Rightarrow> unit act" where
  "authorize_mode mode authorization =
     (case authorization of
        None \<Rightarrow> raise (cs_error MODE_NOT_AUTHORIZED
          (operating_mode_value mode @ '' requires explicit operator authorization''))
      | Some a \<Rightarrow>
          seq (raise_if (\<not> au_confirmed a \<or> au_mode a \<noteq> mode) (cs_error MODE_NOT_AUTHORIZED
                 (operating_mode_value mode @ '' requires explicit operator authorization''))) (\<lambda>_.
          seq (session_of (au_vehicle_id a)) (\<lambda>s.
          seq (raise_if (authority_of s \<noteq> PHYSICAL) (cs_error MODE_NOT_AUTHORIZED
                 ''only a physical backend can authorize real-flight mode'')) (\<lambda>_.
          update_sup (\<lambda>sv. sv\<lparr>sv_live_authorizations :=
            dict_set (au_vehicle_id a) a (sv_live_authorizations sv)\<rparr>)))))"

definition set_mode :: "operating_mode \<Rightarrow> live_authorization option \<Rightarrow> unit act" where
  "set_mode mode authorization =
     seq sup (\<lambda>sv.
     seq (raise_if (list_ex is_armed_or_flying (dict_values (sv_sessions sv)))
            (cs_error MODE_NOT_AUTHORIZED ''cannot change mode while armed'')) (\<lambda>_.
     seq (when_do (mode \<in> {LIVE, SHADOW}) (authorize_mode mode authorization)) (\<lambda>_.
     seq (update_sup (\<lambda>sv. sv\<lparr>sv_mode := mode\<rparr>)) (\<lambda>_.
     each (\<lambda>vid. plain_event vid ''MODE_CHANGED'' (''mode changed to '' @ operating_mode_value mode))
       (dict_keys (sv_sessions sv))))))"

section \<open>Control leases\<close>

definition check_lease :: "control_lease \<Rightarrow> unit act" where
  "check_lease l = raise_if (\<not> valid_control_lease l) (ValidationError ''ControlLease field'')"

definition claim_control :: "string \<Rightarrow> string \<Rightarrow> real option \<Rightarrow> unit act" where
  "claim_control vid owner now_s =
     seq (session_of vid) (\<lambda>s.
     seq (supervisor_now now_s) (\<lambda>now.
     seq (raise_if (case s_lease s of None \<Rightarrow> False | Some l \<Rightarrow> cl_expires_at l > now \<and> cl_owner_id l \<noteq> owner)
            (cs_error MODE_NOT_AUTHORIZED ''vehicle has another owner'')) (\<lambda>_.
     seq sup (\<lambda>sv. let l = \<lparr>cl_owner_id = owner, cl_expires_at = now + control_lease_timeout_s (sv_policy sv)\<rparr> in
     seq (check_lease l) (\<lambda>_.
     seq (update_session vid (\<lambda>s. s\<lparr>s_lease := Some l\<rparr>)) (\<lambda>_.
     plain_event vid ''CONTROL_CLAIMED'' (''control claimed by '' @ owner)))))))"

definition extended_lease :: "real \<Rightarrow> control_lease \<Rightarrow> control_lease" where
  "extended_lease until l = l\<lparr>cl_expires_at := max (cl_expires_at l) until\<rparr>"

definition renew_control :: "string \<Rightarrow> string \<Rightarrow> real option \<Rightarrow> unit act" where
  "renew_control vid owner now_s =
     seq (session_of vid) (\<lambda>s.
     seq (supervisor_now now_s) (\<lambda>now.
     seq (lift_outcome (require_owner s owner now False)) (\<lambda>_.
     seq sup (\<lambda>sv. case s_lease s of
         None \<Rightarrow> raise AssertionError
       | Some l \<Rightarrow>
           let l' = \<lparr>cl_owner_id = owner,
                     cl_expires_at = max (cl_expires_at l) (now + control_lease_timeout_s (sv_policy sv))\<rparr> in
           seq (check_lease l') (\<lambda>_. update_session vid (\<lambda>s. s\<lparr>s_lease := Some l'\<rparr>))))))"

section \<open>Telemetry\<close>

definition receive_telemetry :: "telemetry_envelope \<Rightarrow> unit act" where
  "receive_telemetry e =
     seq (session_of (te_vehicle_id e)) (\<lambda>s.
     seq (raise_if (te_vehicle_id e \<noteq> vehicle_id_of (s_vehicle s))
            (cs_error IDENTITY_MISMATCH ''telemetry identity mismatch'')) (\<lambda>_.
     if stale_sample (s_telemetry s) e then ret ()
     else seq monotonic_now (\<lambda>t.
       seq (update_session (te_vehicle_id e) (\<lambda>s. s\<lparr>s_telemetry := Some e, s_received_at := Some t\<rparr>)) (\<lambda>_.
       notify (TelemetryReceived e)))))"

definition refresh :: "string \<Rightarrow> telemetry_envelope act" where
  "refresh vid = seq (await_snapshot vid) (\<lambda>e. seq (receive_telemetry e) (\<lambda>_. ret e))"

definition is_crazyswarm_error :: "py_error \<Rightarrow> bool" where
  "is_crazyswarm_error e = (case e of CrazySwarmError _ _ \<Rightarrow> True | _ \<Rightarrow> False)"

text \<open>
  \<open>_reconcile_terminal_adapter_state\<close>: a sample that cannot be had, is another vehicle's, or is not
  in a terminal state changes nothing; a disconnection the table does not permit becomes a fault.
\<close>

definition terminal_target :: "vehicle_state \<Rightarrow> vehicle_state \<Rightarrow> vehicle_state option" where
  "terminal_target current reported =
     (if reported \<notin> {VS_DISCONNECTED, VS_FAULT, VS_EMERGENCY} then None
      else if can_transition current reported then (if current = reported then None else Some reported)
      else if reported \<noteq> VS_DISCONNECTED \<or> \<not> can_transition current VS_FAULT then None
      else if current = VS_FAULT then None else Some VS_FAULT)"

definition reconcile_terminal :: "string \<Rightarrow> unit act" where
  "reconcile_terminal vid =
     seq (handle (seq (await_snapshot vid) (\<lambda>e. ret (Some e)))
           (\<lambda>e. if is_crazyswarm_error e \<or> e = TimeoutError then ret None else raise e)) (\<lambda>sample.
     case sample of None \<Rightarrow> ret ()
     | Some e \<Rightarrow>
         if te_vehicle_id e \<noteq> vid then ret ()
         else seq (receive_telemetry e) (\<lambda>_.
           seq (session_of vid) (\<lambda>s.
           case terminal_target (s_state s) (vt_state (te_telemetry e)) of
             None \<Rightarrow> ret ()
           | Some target \<Rightarrow> transition vid target CS_SUPERVISOR)))"

definition reconcile_terminal_adapter_state :: "string \<Rightarrow> unit act" where
  "reconcile_terminal_adapter_state vid = seq (session_of vid) (\<lambda>_. reconcile_terminal vid)"

section \<open>Sending a command\<close>

definition swallowed :: "py_error \<Rightarrow> bool" where
  "swallowed e \<longleftrightarrow> e = CancelledError \<or> is_crazyswarm_error e"

definition pause_until_cancelled :: "unit act" where
  "pause_until_cancelled =
     handle (seq (await_reply aw_execute) (\<lambda>_. ret ())) (\<lambda>e. if swallowed e then ret () else raise e)"

definition interrupt_active_command :: "string \<Rightarrow> py_error \<Rightarrow> unit act" where
  "interrupt_active_command vid e =
     seq (session_of vid) (\<lambda>s.
     seq task_over (\<lambda>over.
     if s_active_task s = None \<or> over then ret ()
     else seq (update_session vid (\<lambda>s. s\<lparr>s_interruption := Some e\<rparr>)) (\<lambda>_.
       seq pause_until_cancelled (\<lambda>_. await_reply (\<lambda>_. Inr ())))))"

definition take_interruption :: "string \<Rightarrow> py_error option act" where
  "take_interruption vid =
     seq (session_of vid) (\<lambda>s.
     seq (update_session vid (\<lambda>s. s\<lparr>s_interruption := None\<rparr>)) (\<lambda>_.
     seq (when_do (s_interruption s \<noteq> None)
            (update_session vid (\<lambda>s. s\<lparr>s_safety_interruption_pending := True\<rparr>))) (\<lambda>_.
     ret (s_interruption s))))"

definition clear_active :: "string \<Rightarrow> int \<Rightarrow> unit act" where
  "clear_active vid n = update_session vid (\<lambda>s.
     if s_active_task s = Some n then s\<lparr>s_active_task := None, s_active_payload := None\<rparr> else s)"

definition run_command :: "string \<Rightarrow> int \<Rightarrow> command_envelope \<Rightarrow> command_acknowledgement act" where
  "run_command vid n envelope =
     seq (update_session vid (\<lambda>s. s\<lparr>s_active_task := Some n, s_active_payload := Some (ce_payload envelope)\<rparr>)) (\<lambda>_.
     finally_do
       (handle (await_execute envelope) (\<lambda>e.
          if e = CancelledError
          then seq (take_interruption vid) (\<lambda>i. raise (case i of None \<Rightarrow> e | Some err \<Rightarrow> err))
          else raise e))
       (clear_active vid n))"

fun requested_duration :: "command_payload \<Rightarrow> real option" where
  "requested_duration (TakeoffCommand h d y) = Some d"
| "requested_duration (HoverCommand d) = Some d"
| "requested_duration (MoveRelativeCommand c) = Some (mv_duration_s c)"
| "requested_duration (ExecuteTrajectoryCommand c) = Some (trajectory_duration_s (xt_trajectory c))"
| "requested_duration (LandCommand c) = Some (ld_duration_s c)"
| "requested_duration p = None"

definition command_timeout :: "safety_policy \<Rightarrow> session \<Rightarrow> command_payload \<Rightarrow> real" where
  "command_timeout p s payload = command_timeout_s p +
     (if bk_supports_duration_aware_timeout (v_backend (s_vehicle s))
      then (case requested_duration payload of None \<Rightarrow> 0 | Some d \<Rightarrow> d * (5 / 4) + 1) else 0)"

definition extend_lease :: "string \<Rightarrow> (safety_policy \<Rightarrow> session \<Rightarrow> real) \<Rightarrow> unit act" where
  "extend_lease vid margin =
     seq (session_of vid) (\<lambda>s. seq sup (\<lambda>sv.
     if s_lease s = None then ret ()
     else seq monotonic_now (\<lambda>t. update_session vid (\<lambda>s. s\<lparr>s_lease :=
       map_option (extended_lease (t + margin (sv_policy sv) s)) (s_lease s)\<rparr>))))"

definition command_id_for :: "int \<Rightarrow> string" where
  "command_id_for n = ''cmd-'' @ show_int n"

record context_ids =
  cx_source :: command_source
  cx_mission_run_id :: "string option"
  cx_fleet :: "fleet_command_binding option"

definition send :: "string \<Rightarrow> command_payload \<Rightarrow> context_ids \<Rightarrow> command_acknowledgement act" where
  "send vid payload cx =
     seq next_command_sequence (\<lambda>n.
     seq (session_of vid) (\<lambda>s.
     seq sup (\<lambda>sv.
     seq monotonic_now (\<lambda>t.
     let command_id = command_id_for n;
         envelope = \<lparr>ce_vehicle_id = vehicle_id_of (s_vehicle s), ce_command_id = command_id,
           ce_mission_run_id = cx_mission_run_id cx, ce_fleet = cx_fleet cx, ce_issued_at_monotonic_s = t,
           ce_source = cx_source cx, ce_mode = sv_mode sv, ce_payload = payload\<rparr> in
     seq (lift_outcome (check_envelope envelope)) (\<lambda>_.
     seq (notify (CommandSent envelope)) (\<lambda>_.
     seq (emit_event vid ''COMMAND_SENT'' (kind_value payload) (cx_source cx) None (Some command_id) []) (\<lambda>_.
     seq (extend_lease vid (\<lambda>p s. command_timeout p s payload + control_lease_timeout_s p)) (\<lambda>_.
     seq (handle (run_command vid n envelope) (\<lambda>e.
            if is_crazyswarm_error e then seq (reconcile_terminal vid) (\<lambda>_. raise e)
            else if e = TimeoutError then
              seq (emit_event vid ''COMMAND_TIMEOUT'' (kind_value payload) (cx_source cx) None (Some command_id) []) (\<lambda>_.
              raise (cs_error COMMAND_TIMEOUT ''command timed out''))
            else raise e)) (\<lambda>ack.
     seq (raise_if (ca_status ack \<noteq> COMPLETED) (cs_error INVALID_COMMAND
            (if truthy (ca_message ack) then the (ca_message ack) else ''adapter rejected command''))) (\<lambda>_.
     seq (extend_lease vid (\<lambda>p s. control_lease_timeout_s p)) (\<lambda>_.
     seq (notify (CommandAcknowledged ack)) (\<lambda>_.
     seq (emit_event vid ''COMMAND_COMPLETED'' (kind_value payload) (cx_source cx) None (Some command_id) []) (\<lambda>_.
     ret ack)))))))))))))"

section \<open>Connecting and preflight\<close>

definition connect :: "string \<Rightarrow> telemetry_envelope act" where
  "connect vid =
     seq (session_of vid) (\<lambda>_.
     seq (transition vid VS_CONNECTING CS_SUPERVISOR) (\<lambda>_.
     seq (handle
            (seq (log_call (CallConnect vid)) (\<lambda>_. seq (await_reply aw_link) (\<lambda>_. refresh vid)))
            (\<lambda>e. if e = CancelledError then raise e
                 else seq (transition vid VS_FAULT CS_SUPERVISOR) (\<lambda>_.
                   raise (if e = TimeoutError then cs_error COMMAND_TIMEOUT ''connection timed out'' else e)))) (\<lambda>t.
     seq (transition vid (vt_state (te_telemetry t)) CS_SUPERVISOR) (\<lambda>_. ret t))))"

text \<open>The reconciliation of a landing whose completion the supervisor did not record.\<close>

definition landed_and_disarmed :: "vehicle_telemetry \<Rightarrow> bool" where
  "landed_and_disarmed t \<longleftrightarrow> vt_state t = VS_READY \<and> \<not> vt_armed t \<and> \<not> vt_flying t"

definition observe_landing :: "string \<Rightarrow> unit act" where
  "observe_landing vid =
     seq (await_snapshot vid) (\<lambda>t.
     seq (raise_if (te_vehicle_id t \<noteq> vid)
            (cs_error IDENTITY_MISMATCH ''disconnect snapshot identity mismatch'')) (\<lambda>_.
     seq (receive_telemetry t) (\<lambda>_.
     seq (when_do (landed_and_disarmed (te_telemetry t)) (transition vid VS_READY CS_SUPERVISOR)) (\<lambda>_.
     seq (session_of vid) (\<lambda>s.
     raise_if (s_state s \<in> {VS_LANDING, VS_ABORTING})
       (cs_error INVALID_STATE ''landing and disarm completion must be observed before disconnect''))))))"

definition disconnect :: "string \<Rightarrow> string option \<Rightarrow> unit act" where
  "disconnect vid owner =
     seq (session_of vid) (\<lambda>s.
     seq (case owner of None \<Rightarrow> ret () | Some o' \<Rightarrow>
            when_do (s_lease s \<noteq> None) (seq monotonic_now (\<lambda>t. lift_outcome (require_owner s o' t False)))) (\<lambda>_.
     seq (when_do (s_state s \<in> {VS_LANDING, VS_ABORTING}) (observe_landing vid)) (\<lambda>_.
     seq (session_of vid) (\<lambda>s.
     seq (raise_if (is_armed_or_flying s) (cs_error INVALID_STATE ''land and disarm before disconnect'')) (\<lambda>_.
     seq (log_call (CallDisconnect vid)) (\<lambda>_.
     seq (await_reply aw_link) (\<lambda>_.
     seq (transition vid VS_DISCONNECTED CS_SUPERVISOR) (\<lambda>_.
     seq (await_snapshot vid) (\<lambda>t.
     seq (update_session vid (\<lambda>s. s\<lparr>s_telemetry := Some t\<rparr>)) (\<lambda>_.
     seq monotonic_now (\<lambda>now.
     update_session vid (\<lambda>s. s\<lparr>s_received_at := Some now, s_lease := None, s_preflight := None\<rparr>))))))))))))"

definition report_id_for :: "string \<Rightarrow> int \<Rightarrow> string" where
  "report_id_for vid n = ''preflight-'' @ vid @ ''-'' @ show_int n"

definition preflight :: "string \<Rightarrow> string \<Rightarrow> vehicle_capability set \<Rightarrow> real option \<Rightarrow> bool \<Rightarrow> preflight_report act" where
  "preflight vid owner required now_s allow_low =
     seq (session_of vid) (\<lambda>s.
     seq (supervisor_now now_s) (\<lambda>now.
     seq (lift_outcome (require_owner s owner now False)) (\<lambda>_.
     seq sup (\<lambda>sv.
     seq (lift_outcome (low_battery_override sv s allow_low)) (\<lambda>low.
     seq (refresh vid) (\<lambda>t.
     seq (session_of vid) (\<lambda>s.
     seq sup (\<lambda>sv.
     let checks = preflight_checks sv s t required low; approved = list_all pc_passed checks in
     seq next_command_sequence (\<lambda>n.
     let report = \<lparr>pr_report_id = report_id_for vid n, pr_vehicle_id = vid, pr_mode = sv_mode sv,
           pr_operator_id = owner, pr_created_at = now, pr_expires_at = now + preflight_valid_s (sv_policy sv),
           pr_approved = approved, pr_checks = checks\<rparr> in
     seq (raise_if (\<not> valid_report report) (ValidationError ''PreflightReport field'')) (\<lambda>_.
     seq (update_session vid (\<lambda>s. s\<lparr>s_preflight := Some report\<rparr>)) (\<lambda>_.
     seq (emit_event vid ''PREFLIGHT_COMPLETED'' (if approved then ''preflight passed'' else ''preflight failed'')
            CS_SUPERVISOR None None
            [(''report_id'', ObsStr (pr_report_id report)), (''approved'', ObsBool approved),
             (''simulation_low_battery_override'', ObsBool low)]) (\<lambda>_.
     ret report))))))))))))"

section \<open>Arming and take-off\<close>

text \<open>The \<open>except Exception\<close> of \<open>arm\<close> and \<open>takeoff\<close>; a cancellation passes it.\<close>

definition fail_to_fault :: "string \<Rightarrow> py_error \<Rightarrow> 'a act" where
  "fail_to_fault vid e =
     (if e = CancelledError then raise e
      else seq (session_of vid) (\<lambda>s.
        seq (if s_safety_interruption_pending s
             then update_session vid (\<lambda>s. s\<lparr>s_safety_interruption_pending := False\<rparr>)
             else when_do (s_state s \<notin> {VS_DISCONNECTED, VS_FAULT, VS_EMERGENCY})
               (transition vid VS_FAULT CS_SUPERVISOR)) (\<lambda>_.
        raise e)))"

definition arm :: "string \<Rightarrow> string \<Rightarrow> string \<Rightarrow> real option \<Rightarrow> context_ids \<Rightarrow> command_acknowledgement act" where
  "arm vid owner report_id now_s cx =
     seq (session_of vid) (\<lambda>s.
     seq (supervisor_now now_s) (\<lambda>now.
     seq (lift_outcome (require_owner s owner now False)) (\<lambda>_.
     seq sup (\<lambda>sv.
     seq (lift_outcome (require_preflight (sv_mode sv) s owner report_id now)) (\<lambda>_.
     seq (lift_outcome (require_real_authority sv s)) (\<lambda>_.
     seq (transition vid VS_ARMING (cx_source cx)) (\<lambda>_.
     seq (handle
            (seq (send vid ArmCommand cx) (\<lambda>ack.
             seq (refresh vid) (\<lambda>t.
             seq (raise_if (\<not> vt_armed (te_telemetry t))
                    (cs_error PREFLIGHT_FAILED ''adapter did not report armed'')) (\<lambda>_. ret ack))))
            (fail_to_fault vid)) (\<lambda>ack.
     seq (transition vid VS_READY CS_SUPERVISOR) (\<lambda>_. ret ack)))))))))"

definition disarm :: "string \<Rightarrow> string \<Rightarrow> context_ids \<Rightarrow> command_acknowledgement act" where
  "disarm vid owner cx =
     seq (session_of vid) (\<lambda>s.
     seq monotonic_now (\<lambda>now.
     seq (lift_outcome (require_owner s owner now False)) (\<lambda>_.
     seq (raise_if (s_state s \<noteq> VS_READY) (cs_error INVALID_STATE ''vehicle must be ready to disarm'')) (\<lambda>_.
     seq (send vid DisarmCommand cx) (\<lambda>ack.
     seq (refresh vid) (\<lambda>_. ret ack))))))"

definition takeoff :: "string \<Rightarrow> string \<Rightarrow> real \<Rightarrow> real \<Rightarrow> context_ids \<Rightarrow> command_acknowledgement act" where
  "takeoff vid owner height duration cx =
     seq (session_of vid) (\<lambda>s.
     seq sup (\<lambda>sv.
     seq monotonic_now (\<lambda>now.
     seq (lift_outcome (require_command_ready sv s owner now)) (\<lambda>_.
     seq (lift_outcome (validate_takeoff (sv_policy sv) height duration)) (\<lambda>_.
     seq (transition vid VS_TAKING_OFF (cx_source cx)) (\<lambda>_.
     seq (handle
            (seq (lift_outcome (check_plain_payload (TakeoffCommand height duration None))) (\<lambda>_.
             seq (send vid (TakeoffCommand height duration None) cx) (\<lambda>ack.
             seq (refresh vid) (\<lambda>t.
             seq (raise_if (\<not> vt_flying (te_telemetry t))
                    (cs_error INVALID_STATE ''adapter did not report flying'')) (\<lambda>_. ret ack)))))
            (fail_to_fault vid)) (\<lambda>ack.
     seq (transition vid VS_FLYING CS_SUPERVISOR) (\<lambda>_. ret ack))))))))"

section \<open>Motion\<close>

definition guard_flying :: "string \<Rightarrow> string \<Rightarrow> session act" where
  "guard_flying vid owner =
     seq (session_of vid) (\<lambda>s. seq monotonic_now (\<lambda>now.
     seq (lift_outcome (require_flying s owner now)) (\<lambda>_. ret s)))"

definition send_and_refresh :: "string \<Rightarrow> command_payload \<Rightarrow> context_ids \<Rightarrow> command_acknowledgement act" where
  "send_and_refresh vid payload cx =
     seq (send vid payload cx) (\<lambda>ack. seq (refresh vid) (\<lambda>_. ret ack))"

definition cast_telemetry :: "session \<Rightarrow> vehicle_telemetry act" where
  "cast_telemetry s = (case s_telemetry s of None \<Rightarrow> raise (OtherException ''AttributeError'')
     | Some e \<Rightarrow> ret (te_telemetry e))"

definition hover :: "string \<Rightarrow> string \<Rightarrow> real \<Rightarrow> context_ids \<Rightarrow> command_acknowledgement act" where
  "hover vid owner duration cx =
     seq (guard_flying vid owner) (\<lambda>_.
     seq sup (\<lambda>sv.
     seq (raise_if (duration \<le> 0 \<or> duration > max_mission_duration_s (sv_policy sv))
            (cs_error INVALID_COMMAND ''hover duration exceeds policy'')) (\<lambda>_.
     seq (lift_outcome (check_plain_payload (HoverCommand duration))) (\<lambda>_.
     send_and_refresh vid (HoverCommand duration) cx))))"

definition move_relative :: "string \<Rightarrow> string \<Rightarrow> move_relative_command \<Rightarrow> context_ids \<Rightarrow> command_acknowledgement act" where
  "move_relative vid owner c cx =
     seq (guard_flying vid owner) (\<lambda>s.
     seq (cast_telemetry s) (\<lambda>t.
     seq sup (\<lambda>sv.
     seq (lift_outcome (validate_relative_move (sv_policy sv) t c)) (\<lambda>_.
     send_and_refresh vid (MoveRelativeCommand c) cx))))"

definition validate_trajectory_command :: "string \<Rightarrow> string \<Rightarrow> execute_trajectory_command \<Rightarrow> unit act" where
  "validate_trajectory_command vid owner c =
     seq (guard_flying vid owner) (\<lambda>s.
     seq (raise_if (CAP_TIME_PARAMETERIZED_TRAJECTORY \<notin> cap_features (v_capabilities (s_vehicle s)))
            (cs_error PREFLIGHT_FAILED
              ''vehicle backend does not declare time-parameterized trajectory support'')) (\<lambda>_.
     seq (cast_telemetry s) (\<lambda>t.
     seq sup (\<lambda>sv. lift_outcome (validate_trajectory (sv_policy sv) t c)))))"

definition execute_trajectory ::
    "string \<Rightarrow> string \<Rightarrow> execute_trajectory_command \<Rightarrow> context_ids \<Rightarrow> command_acknowledgement act" where
  "execute_trajectory vid owner c cx =
     seq (validate_trajectory_command vid owner c) (\<lambda>_.
     send_and_refresh vid (ExecuteTrajectoryCommand c) cx)"

definition replace_trajectory ::
    "string \<Rightarrow> string \<Rightarrow> execute_trajectory_command \<Rightarrow> string \<Rightarrow> context_ids \<Rightarrow> command_acknowledgement act" where
  "replace_trajectory vid owner c reason cx =
     seq (guard_flying vid owner) (\<lambda>_.
     seq (interrupt_active_command vid (cs_error INVALID_STATE
            (''active trajectory superseded by accepted replacement: '' @ reason))) (\<lambda>_.
     execute_trajectory vid owner c (cx\<lparr>cx_source := CS_SUPERVISOR\<rparr>)))"

definition flies_trajectory :: "session \<Rightarrow> bool" where
  "flies_trajectory s \<longleftrightarrow> (case s_active_payload s of Some (ExecuteTrajectoryCommand c) \<Rightarrow> True | _ \<Rightarrow> False)"

definition stop_and_hold :: "string \<Rightarrow> string \<Rightarrow> context_ids \<Rightarrow> command_acknowledgement act" where
  "stop_and_hold vid owner cx =
     seq (guard_flying vid owner) (\<lambda>s.
     seq (when_do (flies_trajectory s) (interrupt_active_command vid
            (cs_error INVALID_STATE ''active trajectory paused by stop-and-hold authority''))) (\<lambda>_.
     send_and_refresh vid StopAndHoldCommand cx))"

definition landing_command :: "real \<Rightarrow> vector3 option \<Rightarrow> landing_goal_region option \<Rightarrow> land_command" where
  "landing_command duration target goal = \<lparr>ld_target_height_m = (case target of None \<Rightarrow> 0 | Some p \<Rightarrow> vz p),
     ld_target_position_m = target, ld_goal_region = goal, ld_duration_s = duration\<rparr>"

definition land ::
    "string \<Rightarrow> string \<Rightarrow> real \<Rightarrow> vector3 option \<Rightarrow> landing_goal_region option \<Rightarrow> context_ids \<Rightarrow> command_acknowledgement act" where
  "land vid owner duration target goal cx =
     seq (guard_flying vid owner) (\<lambda>s.
     seq sup (\<lambda>sv.
     seq (raise_if (\<not> opt_all (contains (flight_volume (sv_policy sv))) target)
            (cs_error GEOFENCE_BREACH ''landing target is outside the admitted flight volume'')) (\<lambda>_.
     seq (when_do (flies_trajectory s) (interrupt_active_command vid
            (cs_error INVALID_STATE ''active trajectory superseded by landing authority''))) (\<lambda>_.
     seq (transition vid VS_LANDING (cx_source cx)) (\<lambda>_.
     seq (lift_outcome (check_plain_payload (LandCommand (landing_command duration target goal)))) (\<lambda>_.
     seq (send_and_refresh vid (LandCommand (landing_command duration target goal)) cx) (\<lambda>ack.
     seq (transition vid VS_READY CS_SUPERVISOR) (\<lambda>_. ret ack))))))))"

section \<open>Abort, emergency stop and leases of flying vehicles\<close>

definition guard_owner :: "string \<Rightarrow> string \<Rightarrow> bool \<Rightarrow> session act" where
  "guard_owner vid owner allow_expired =
     seq (session_of vid) (\<lambda>s. seq monotonic_now (\<lambda>now.
     seq (lift_outcome (require_owner s owner now allow_expired)) (\<lambda>_. ret s)))"

definition supervisor_context :: "context_ids \<Rightarrow> context_ids" where
  "supervisor_context cx = cx\<lparr>cx_source := CS_SUPERVISOR\<rparr>"

definition emergency_stop :: "string \<Rightarrow> string \<Rightarrow> string \<Rightarrow> bool \<Rightarrow> context_ids \<Rightarrow> command_acknowledgement act" where
  "emergency_stop vid owner reason allow_expired cx =
     seq (guard_owner vid owner allow_expired) (\<lambda>_.
     seq (interrupt_active_command vid (cs_error EMERGENCY_STOPPED reason)) (\<lambda>_.
     seq (transition vid VS_EMERGENCY CS_SUPERVISOR) (\<lambda>_.
     seq (lift_outcome (check_plain_payload (EmergencyStopCommand reason))) (\<lambda>_.
     seq (send vid (EmergencyStopCommand reason) (supervisor_context cx)) (\<lambda>ack.
     seq (emit_event vid ''EMERGENCY_STOP'' reason CS_SUPERVISOR None (Some (ca_command_id ack)) []) (\<lambda>_.
     seq (refresh vid) (\<lambda>_. ret ack)))))))"

definition no_context :: context_ids where
  "no_context = \<lparr>cx_source = CS_SUPERVISOR, cx_mission_run_id = None, cx_fleet = None\<rparr>"

text \<open>The escalation of \<open>abort_and_land\<close> when the landed state cannot be observed.\<close>

definition escalate_unobserved :: "string \<Rightarrow> string \<Rightarrow> py_error \<Rightarrow> 'a act" where
  "escalate_unobserved vid owner e =
     (case e of
        CrazySwarmError code message \<Rightarrow>
          seq (when_do (code = TELEMETRY_STALE)
                 (handle (seq (emergency_stop vid owner ''abort completion could not be observed'' True no_context)
                            (\<lambda>_. ret ()))
                    (\<lambda>e'. if is_crazyswarm_error e' then ret () else raise e'))) (\<lambda>_. raise e)
      | _ \<Rightarrow> raise e)"

definition abort_and_land :: "string \<Rightarrow> string \<Rightarrow> string \<Rightarrow> bool \<Rightarrow> context_ids \<Rightarrow> command_acknowledgement act" where
  "abort_and_land vid owner reason allow_expired cx =
     seq (guard_owner vid owner allow_expired) (\<lambda>s.
     seq (raise_if (s_state s \<notin> airborne_states)
            (cs_error INVALID_STATE ''vehicle is not in an abortable state'')) (\<lambda>_.
     seq (interrupt_active_command vid
            (cs_error INVALID_STATE (''active command superseded by abort: '' @ reason))) (\<lambda>_.
     seq (transition vid VS_ABORTING CS_SUPERVISOR) (\<lambda>_.
     seq (lift_outcome (check_plain_payload (AbortCommand reason))) (\<lambda>_.
     seq (send vid (AbortCommand reason) (supervisor_context cx)) (\<lambda>ack.
     seq (transition vid VS_LANDING CS_SUPERVISOR) (\<lambda>_.
     seq (handle (refresh vid) (escalate_unobserved vid owner)) (\<lambda>_.
     seq (transition vid VS_READY CS_SUPERVISOR) (\<lambda>_. ret ack)))))))))"

definition drop_lease :: "string \<Rightarrow> string \<Rightarrow> string \<Rightarrow> unit act" where
  "drop_lease vid event_type message =
     seq (update_session vid (\<lambda>s. s\<lparr>s_lease := None\<rparr>)) (\<lambda>_. plain_event vid event_type message)"

definition release_control :: "string \<Rightarrow> string \<Rightarrow> bool \<Rightarrow> unit act" where
  "release_control vid owner allow_expired =
     seq (guard_owner vid owner allow_expired) (\<lambda>s.
     seq (when_do (s_state s \<in> airborne_states)
            (seq (abort_and_land vid owner ''control owner released'' False no_context) (\<lambda>_. ret ()))) (\<lambda>_.
     drop_lease vid ''CONTROL_RELEASED'' (''control released by '' @ owner)))"

definition expire_lease :: "real \<Rightarrow> string \<Rightarrow> unit act" where
  "expire_lease now vid =
     seq (session_of vid) (\<lambda>s.
     case s_lease s of None \<Rightarrow> ret ()
     | Some l \<Rightarrow>
         if cl_expires_at l > now then ret ()
         else seq (when_do (s_state s \<in> airborne_states)
                (seq (abort_and_land vid (cl_owner_id l) ''control lease expired'' True no_context) (\<lambda>_. ret ()))) (\<lambda>_.
              drop_lease vid ''CONTROL_EXPIRED'' (''control lease expired for '' @ cl_owner_id l)))"

definition expire_control_leases :: "real option \<Rightarrow> unit act" where
  "expire_control_leases now_s =
     seq (supervisor_now now_s) (\<lambda>now. seq sup (\<lambda>sv. each (expire_lease now) (dict_keys (sv_sessions sv))))"

section \<open>Health and observation\<close>

definition evaluate_health :: "string \<Rightarrow> real option \<Rightarrow> bool \<Rightarrow> health_assessment act" where
  "evaluate_health vid now_s allow_low =
     seq (session_of vid) (\<lambda>s.
     seq sup (\<lambda>sv.
     seq (lift_outcome (low_battery_override sv s allow_low)) (\<lambda>low.
     seq (supervisor_now now_s) (\<lambda>now. ret (assess_health sv vid s low now)))))"

definition first_issue :: "health_assessment \<Rightarrow> health_issue" where
  "first_issue a = hd (ha_issues a)"

definition enforce_health :: "string \<Rightarrow> string \<Rightarrow> real option \<Rightarrow> bool \<Rightarrow> context_ids \<Rightarrow> health_assessment act" where
  "enforce_health vid owner now_s allow_low cx =
     seq (evaluate_health vid now_s allow_low) (\<lambda>a.
     seq (if ha_action a = RA_ABORT_AND_LAND then
            seq (interrupt_active_command vid (cs_error LOCALIZATION_INVALID (hi_message (first_issue a)))) (\<lambda>_.
            seq (abort_and_land vid owner (hi_code (first_issue a)) True cx) (\<lambda>_. ret ()))
          else if ha_action a = RA_EMERGENCY_STOP then
            seq (interrupt_active_command vid (cs_error LINK_LOST (hi_message (first_issue a)))) (\<lambda>_.
            seq (emergency_stop vid owner (hi_code (first_issue a)) True cx) (\<lambda>_. ret ()))
          else ret ()) (\<lambda>_.
     ret a))"

definition refresh_and_enforce_health :: "string \<Rightarrow> string \<Rightarrow> bool \<Rightarrow> context_ids \<Rightarrow> health_assessment act" where
  "refresh_and_enforce_health vid owner allow_low cx =
     seq (session_of vid) (\<lambda>_. seq (refresh vid) (\<lambda>_. enforce_health vid owner None allow_low cx))"

definition observe :: "string \<Rightarrow> string \<Rightarrow> real \<Rightarrow> (telemetry_envelope \<times> real option) act" where
  "observe vid owner timeout =
     seq sup (\<lambda>sv.
     seq (raise_if (timeout \<le> 0 \<or> timeout > command_timeout_s (sv_policy sv))
            (cs_error INVALID_COMMAND ''invalid observation timeout'')) (\<lambda>_.
     seq (guard_owner vid owner False) (\<lambda>_.
     seq (handle (await_snapshot vid) (\<lambda>e.
            raise (if e = TimeoutError then cs_error TELEMETRY_STALE ''mission observation timed out'' else e))) (\<lambda>t.
     seq (receive_telemetry t) (\<lambda>_.
     seq (session_of vid) (\<lambda>s.
     seq (raise_if (te_vehicle_id t \<noteq> vid) (cs_error IDENTITY_MISMATCH ''observation identity mismatch'')) (\<lambda>_.
     ret (t, s_received_at s))))))))"

section \<open>Calls\<close>

text \<open>Every public method of the supervisor that can change its state, as a value.\<close>

datatype request =
    RegisterVehicle vehicle
  | UnregisterVehicle string
  | SetMode operating_mode "live_authorization option"
  | ClaimControl string string "real option"
  | RenewControl string string "real option"
  | ReleaseControl string string bool
  | ExpireControlLeases "real option"
  | Connect string
  | Disconnect string "string option"
  | Preflight string string "vehicle_capability set" "real option" bool
  | Arm string string string "real option" context_ids
  | Disarm string string context_ids
  | Takeoff string string real real context_ids
  | Hover string string real context_ids
  | MoveRelative string string move_relative_command context_ids
  | ExecuteTrajectory string string execute_trajectory_command context_ids
  | ReplaceTrajectory string string execute_trajectory_command string context_ids
  | StopAndHold string string context_ids
  | Land string string real "vector3 option" "landing_goal_region option" context_ids
  | AbortAndLand string string string bool context_ids
  | EmergencyStop string string string bool context_ids
  | EnforceHealth string string "real option" bool context_ids
  | RefreshAndEnforceHealth string string bool context_ids
  | Observe string string real
  | ReceiveTelemetry telemetry_envelope
  | ReconcileTerminal string
  | AddAuditSink nat

definition done_with :: "'a act \<Rightarrow> unit act" where
  "done_with m = seq m (\<lambda>_. ret ())"

fun perform :: "request \<Rightarrow> unit act" where
  "perform (RegisterVehicle v) = register_vehicle v"
| "perform (UnregisterVehicle vid) = done_with (unregister_vehicle vid)"
| "perform (SetMode m a) = set_mode m a"
| "perform (ClaimControl vid ow now) = claim_control vid ow now"
| "perform (RenewControl vid ow now) = renew_control vid ow now"
| "perform (ReleaseControl vid ow ex) = release_control vid ow ex"
| "perform (ExpireControlLeases now) = expire_control_leases now"
| "perform (Connect vid) = done_with (connect vid)"
| "perform (Disconnect vid ow) = disconnect vid ow"
| "perform (Preflight vid ow req now low) = done_with (preflight vid ow req now low)"
| "perform (Arm vid ow rid now cx) = done_with (arm vid ow rid now cx)"
| "perform (Disarm vid ow cx) = done_with (disarm vid ow cx)"
| "perform (Takeoff vid ow h d cx) = done_with (takeoff vid ow h d cx)"
| "perform (Hover vid ow d cx) = done_with (hover vid ow d cx)"
| "perform (MoveRelative vid ow c cx) = done_with (move_relative vid ow c cx)"
| "perform (ExecuteTrajectory vid ow c cx) = done_with (execute_trajectory vid ow c cx)"
| "perform (ReplaceTrajectory vid ow c r cx) = done_with (replace_trajectory vid ow c r cx)"
| "perform (StopAndHold vid ow cx) = done_with (stop_and_hold vid ow cx)"
| "perform (Land vid ow d t g cx) = done_with (land vid ow d t g cx)"
| "perform (AbortAndLand vid ow r ex cx) = done_with (abort_and_land vid ow r ex cx)"
| "perform (EmergencyStop vid ow r ex cx) = done_with (emergency_stop vid ow r ex cx)"
| "perform (EnforceHealth vid ow now low cx) = done_with (enforce_health vid ow now low cx)"
| "perform (RefreshAndEnforceHealth vid ow low cx) = done_with (refresh_and_enforce_health vid ow low cx)"
| "perform (Observe vid ow t) = done_with (observe vid ow t)"
| "perform (ReceiveTelemetry e) = receive_telemetry e"
| "perform (ReconcileTerminal vid) = reconcile_terminal_adapter_state vid"
| "perform (AddAuditSink n) = add_audit_sink n"

text \<open>A caller that survives the exceptions of its calls, as the API and the mission runner do.\<close>

definition attempt :: "request \<Rightarrow> unit act" where
  "attempt r = handle (perform r) (\<lambda>_. ret ())"

end
