(* ===== verification/Oversight.thy ===== *)
theory Oversight
  imports Supervisor
begin

text \<open>
  What every call of the supervisor guarantees, whatever the adapters answer and however other
  coroutines interleave with it. \<open>follows\<close> relates the supervisor's state before and after: the
  policy is the same, the registry stays well formed, the event log only grew, with consecutive numbers, and the logged
  \<open>STATE_TRANSITION\<close> events of each vehicle are a path of permitted transitions from its old state
  to its new one. The interleaved coroutines are assumed to follow the same rule (they are calls of
  the same supervisor), and the locale \<open>guarantee\<close> composes it over each method.
\<close>

named_theorems kept \<open>parts of the supervisor that keep \<open>lawful\<close>\<close>

section \<open>Life-cycle paths in the event log\<close>

definition state_of :: "supervisor \<Rightarrow> string \<Rightarrow> vehicle_state" where
  "state_of sv vid = (case dict_get (sv_sessions sv) vid of None \<Rightarrow> VS_DISCONNECTED | Some s \<Rightarrow> s_state s)"

definition move_of :: "string \<Rightarrow> safety_event \<Rightarrow> (vehicle_state \<times> vehicle_state) list" where
  "move_of vid e = (if se_event_type e = ''STATE_TRANSITION'' \<and> se_vehicle_id e = vid
     then [(the (se_from_state e), the (se_to_state e))] else [])"

definition moves :: "string \<Rightarrow> safety_event list \<Rightarrow> (vehicle_state \<times> vehicle_state) list" where
  "moves vid es = concat (map (move_of vid) es)"

fun path :: "vehicle_state \<Rightarrow> (vehicle_state \<times> vehicle_state) list \<Rightarrow> vehicle_state \<Rightarrow> bool" where
  "path a [] b \<longleftrightarrow> a = b"
| "path a ((x, y) # r) b \<longleftrightarrow> x = a \<and> can_transition x y \<and> path y r b"

fun numbered :: "int \<Rightarrow> safety_event list \<Rightarrow> bool" where
  "numbered n [] \<longleftrightarrow> True"
| "numbered n (e # es) \<longleftrightarrow> se_sequence e = n \<and> numbered (n + 1) es"

text \<open>Every session is registered once, under the identity its vehicle reports.\<close>

definition registry_ok :: "supervisor \<Rightarrow> bool" where
  "registry_ok sv \<longleftrightarrow> dict_wf (sv_sessions sv) \<and>
     (\<forall>vid s. dict_get (sv_sessions sv) vid = Some s \<longrightarrow> vehicle_id_of (s_vehicle s) = vid)"

definition follows :: "supervisor \<Rightarrow> supervisor \<Rightarrow> bool" where
  "follows s s' \<longleftrightarrow> sv_policy s' = sv_policy s \<and> sv_command_sequence s \<le> sv_command_sequence s' \<and>
     (registry_ok s \<longrightarrow> registry_ok s') \<and>
     (\<exists>new. sv_events s' = sv_events s @ new \<and> numbered (sv_event_sequence s) new \<and>
        sv_event_sequence s' = sv_event_sequence s + int (length new) \<and>
        (\<forall>vid. path (state_of s vid) (moves vid new) (state_of s' vid)))"

lemma moves_simps [simp]:
  "moves vid [] = []"
  "moves vid (e # es) = move_of vid e @ moves vid es"
  "moves vid (es @ fs) = moves vid es @ moves vid fs"
  by (simp_all add: moves_def)

lemma path_append: "path a xs b \<Longrightarrow> path b ys c \<Longrightarrow> path a (xs @ ys) c"
  by (induction a xs b rule: path.induct) auto

lemma numbered_append:
  "numbered n (xs @ ys) \<longleftrightarrow> numbered n xs \<and> numbered (n + int (length xs)) ys"
  by (induction n xs rule: numbered.induct) (auto simp: algebra_simps)

lemma follows_refl: "follows s s"
  by (simp add: follows_def)

lemma follows_trans:
  assumes "follows s t" "follows t u"
  shows "follows s u"
proof -
  from assms(1) obtain xs where xs: "sv_events t = sv_events s @ xs" "numbered (sv_event_sequence s) xs"
    "sv_event_sequence t = sv_event_sequence s + int (length xs)"
    "\<forall>vid. path (state_of s vid) (moves vid xs) (state_of t vid)"
    and a: "sv_policy t = sv_policy s" "sv_command_sequence s \<le> sv_command_sequence t"
      "registry_ok s \<longrightarrow> registry_ok t"
    unfolding follows_def by blast
  from assms(2) obtain ys where ys: "sv_events u = sv_events t @ ys" "numbered (sv_event_sequence t) ys"
    "sv_event_sequence u = sv_event_sequence t + int (length ys)"
    "\<forall>vid. path (state_of t vid) (moves vid ys) (state_of u vid)"
    and b: "sv_policy u = sv_policy t" "sv_command_sequence t \<le> sv_command_sequence u"
      "registry_ok t \<longrightarrow> registry_ok u"
    unfolding follows_def by blast
  have "\<forall>vid. path (state_of s vid) (moves vid (xs @ ys)) (state_of u vid)"
    using xs(4) ys(4) path_append by fastforce
  moreover have "sv_events u = sv_events s @ xs @ ys" "numbered (sv_event_sequence s) (xs @ ys)"
    "sv_event_sequence u = sv_event_sequence s + int (length (xs @ ys))"
    using xs ys by (simp_all add: numbered_append)
  moreover have "sv_command_sequence s \<le> sv_command_sequence u" using a(2) b(2) by (rule order_trans)
  moreover have "sv_policy u = sv_policy s" "registry_ok s \<longrightarrow> registry_ok u" using a(1,3) b(1,3) by simp_all
  ultimately show ?thesis unfolding follows_def by blast
qed

lemma registry_same: "sv_sessions s' = sv_sessions s \<Longrightarrow> registry_ok s' \<longleftrightarrow> registry_ok s"
  by (simp add: registry_ok_def)

lemma registry_put:
  "(\<And>s. s_vehicle (f s) = s_vehicle s) \<Longrightarrow> registry_ok sv \<Longrightarrow> registry_ok (put_session vid f sv)"
  by (auto simp: registry_ok_def put_session_def split: option.splits if_splits)

lemma follows_quiet:
  assumes "sv_policy s' = sv_policy s" "sv_command_sequence s \<le> sv_command_sequence s'"
    "sv_events s' = sv_events s" "sv_event_sequence s' = sv_event_sequence s"
    "\<And>vid. state_of s' vid = state_of s vid" "registry_ok s \<Longrightarrow> registry_ok s'"
  shows "follows s s'"
  unfolding follows_def using assms by (intro conjI exI [of _ "[]"]) simp_all

definition executes :: "adapter_call list \<Rightarrow> command_envelope list" where
  "executes cs = concat (map (\<lambda>c. case c of CallExecute e \<Rightarrow> [e] | _ \<Rightarrow> []) cs)"

lemma executes_simps [simp]:
  "executes [] = []"
  "executes (cs @ ds) = executes cs @ executes ds"
  "executes [CallConnect v] = []" "executes [CallDisconnect v] = []"
  "executes [CallSnapshot v] = []" "executes [CallExecute e] = [e]"
  by (simp_all add: executes_def)

definition rely :: "(nat \<Rightarrow> await_step) \<Rightarrow> bool" where
  "rely steps \<longleftrightarrow> (\<forall>n s. follows s (aw_meanwhile (steps n) s))"

definition lawful :: "world \<Rightarrow> world \<Rightarrow> bool" where
  "lawful w w' \<longleftrightarrow> w_steps w' = w_steps w \<and>
     (\<exists>new. w_calls w' = w_calls w @ new \<and> list_all (\<lambda>e. check_envelope e = Inr ()) (executes new)) \<and>
     (rely (w_steps w) \<longrightarrow> follows (w_sup w) (w_sup w'))"

lemma lawful_refl: "lawful w w"
  by (simp add: lawful_def follows_refl)

lemma lawful_trans: "lawful w w' \<Longrightarrow> lawful w' w'' \<Longrightarrow> lawful w w''"
  unfolding lawful_def
  by (elim conjE exE) (intro conjI, simp_all, blast intro: follows_trans)

interpretation lw: guarantee lawful
  by unfold_locales (auto intro: lawful_refl lawful_trans)

section \<open>Primitive steps\<close>

lemma kept_update: "(\<And>sv. follows sv (f sv)) \<Longrightarrow> keeps lawful (update_sup f)"
  by (simp add: keeps_def update_sup_def lawful_def)

lemma kept_sup [kept]: "keeps lawful sup"
  by (simp add: keeps_def sup_def lawful_refl)

lemma kept_now [kept]: "keeps lawful monotonic_now"
  by (simp add: keeps_def monotonic_now_def monotonic_def lawful_def follows_refl)

lemma kept_supervisor_now [kept]: "keeps lawful (supervisor_now v)"
  unfolding supervisor_now_def by (intro lw.keeps_intros kept)

lemma kept_reply [kept]: "keeps lawful (await_reply f)"
  by (simp add: keeps_def await_reply_def Let_def lawful_def rely_def)

lemma kept_task_over [kept]: "keeps lawful task_over"
  by (simp add: keeps_def task_over_def lawful_refl)

lemma kept_log_call: "executes [c] = [] \<Longrightarrow> keeps lawful (log_call c)"
  by (simp add: keeps_def log_call_def lawful_def follows_refl)

lemma kept_logs [kept]:
  "keeps lawful (log_call (CallConnect v))" "keeps lawful (log_call (CallDisconnect v))"
  "keeps lawful (log_call (CallSnapshot v))"
  by (simp_all add: kept_log_call)

lemma kept_log_execute: "check_envelope e = Inr () \<Longrightarrow> keeps lawful (log_call (CallExecute e))"
  by (simp add: keeps_def log_call_def lawful_def follows_refl)

lemma kept_finally [kept]: "keeps lawful m \<Longrightarrow> keeps lawful f \<Longrightarrow> keeps lawful (finally_do m f)"
  unfolding finally_do_def by (intro lw.keeps_intros)

lemma kept_session_of [kept]: "keeps lawful (session_of vid)"
  unfolding session_of_def by (intro lw.keeps_intros kept)

lemma state_of_put: "(\<And>s. s_state (f s) = s_state s) \<Longrightarrow> state_of (put_session vid f sv) v = state_of sv v"
  by (simp add: state_of_def put_session_def split: option.split)

lemma kept_update_session:
  "(\<And>s. s_state (f s) = s_state s \<and> s_vehicle (f s) = s_vehicle s) \<Longrightarrow> keeps lawful (update_session vid f)"
  unfolding update_session_def
  by (intro kept_update follows_quiet)
    (simp_all add: state_of_put registry_put, simp_all add: put_session_def split: option.split)

lemma kept_session_writes [kept]:
  "keeps lawful (update_session vid (\<lambda>s. s\<lparr>s_lease := l\<rparr>))"
  "keeps lawful (update_session vid (\<lambda>s. s\<lparr>s_lease := map_option g (s_lease s)\<rparr>))"
  "keeps lawful (update_session vid (\<lambda>s. s\<lparr>s_telemetry := a\<rparr>))"
  "keeps lawful (update_session vid (\<lambda>s. s\<lparr>s_telemetry := a, s_received_at := b\<rparr>))"
  "keeps lawful (update_session vid (\<lambda>s. s\<lparr>s_received_at := b, s_lease := l, s_preflight := p\<rparr>))"
  "keeps lawful (update_session vid (\<lambda>s. s\<lparr>s_preflight := p\<rparr>))"
  "keeps lawful (update_session vid (\<lambda>s. s\<lparr>s_interruption := i\<rparr>))"
  "keeps lawful (update_session vid (\<lambda>s. s\<lparr>s_safety_interruption_pending := q\<rparr>))"
  "keeps lawful (update_session vid (\<lambda>s. s\<lparr>s_active_task := t, s_active_payload := y\<rparr>))"
  by (simp_all add: kept_update_session)

lemma kept_clear_active [kept]: "keeps lawful (clear_active vid n)"
  unfolding clear_active_def by (rule kept_update_session) simp

lemma kept_notify [kept]: "keeps lawful (notify n)"
  unfolding notify_def by (intro kept_update follows_quiet) (simp_all add: deliver_def state_of_def registry_ok_def)

lemma kept_add_audit_sink [kept]: "keeps lawful (add_audit_sink n)"
  unfolding add_audit_sink_def by (intro kept_update follows_quiet) (simp_all add: state_of_def registry_ok_def)

lemma record_event_sel [simp]:
  "sv_policy (record_event e sv) = sv_policy sv"
  "sv_command_sequence (record_event e sv) = sv_command_sequence sv"
  "sv_events (record_event e sv) = sv_events sv @ [e]"
  "sv_event_sequence (record_event e sv) = sv_event_sequence sv + 1"
  "sv_sessions (record_event e sv) = sv_sessions sv"
  by (simp_all add: record_event_def deliver_def)

lemma follows_event:
  assumes "se_event_type e \<noteq> ''STATE_TRANSITION''" "se_sequence e = sv_event_sequence sv"
  shows "follows sv (record_event e sv)"
  unfolding follows_def using assms
  by (intro conjI exI [of _ "[e]"]) (simp_all add: move_of_def state_of_def registry_same [OF record_event_sel(5)])

lemma kept_emit [kept]:
  "ty \<noteq> ''STATE_TRANSITION'' \<Longrightarrow> keeps lawful (emit_event vid ty msg src None cid det)"
  unfolding emit_event_def by (intro lw.keeps_intros kept kept_update follows_event) simp_all

lemma kept_plain [kept]: "ty \<noteq> ''STATE_TRANSITION'' \<Longrightarrow> keeps lawful (plain_event vid ty msg)"
  unfolding plain_event_def by (rule kept_emit)

lemma require_transition_Inr: "require_transition a b = Inr u \<longleftrightarrow> can_transition a b"
  by (simp add: require_transition_def)

lemma transition_Inr:
  assumes "transition vid target source w = (r, w')"
  shows "lawful w w'"
proof (cases "dict_get (sv_sessions (w_sup w)) vid")
  case None
  with assms show ?thesis
    by (auto simp: transition_def session_of_def sup_def seq_def raise_def lawful_refl)
next
  case (Some s)
  show ?thesis
  proof (cases "can_transition (s_state s) target")
    case False
    with Some assms show ?thesis
      by (auto simp: transition_def session_of_def sup_def seq_def ret_def lift_outcome_def
          require_transition_def lawful_refl split: if_splits)
  next
    case True
    define sv where "sv = put_session vid (\<lambda>s. s\<lparr>s_state := target\<rparr>) (w_sup w)"
    define e where "e = \<lparr>se_sequence = sv_event_sequence sv, se_timestamp = readings (w_clock w) (reads (w_clock w)),
      se_vehicle_id = vid, se_event_type = ''STATE_TRANSITION'', se_source = source,
      se_message = vehicle_state_value (s_state s) @ '' -> '' @ vehicle_state_value target,
      se_from_state = Some (s_state s), se_to_state = Some target, se_command_id = None, se_details = []\<rparr>"
    from True Some assms have w': "w_sup w' = record_event e sv" "w_steps w' = w_steps w" "w_calls w' = w_calls w"
      by (auto simp: transition_def session_of_def sup_def seq_def ret_def lift_outcome_def sv_def e_def
          require_transition_def update_session_def update_sup_def emit_event_def monotonic_now_def monotonic_def
          split: if_splits prod.splits)
    have sv: "sv_policy sv = sv_policy (w_sup w)" "sv_command_sequence sv = sv_command_sequence (w_sup w)"
      "sv_events sv = sv_events (w_sup w)" "sv_event_sequence sv = sv_event_sequence (w_sup w)"
      using Some by (simp_all add: sv_def put_session_def)
    have st: "state_of (record_event e sv) v = (if v = vid then target else state_of (w_sup w) v)" for v
      using Some by (simp add: state_of_def sv_def put_session_def split: option.split)
    have reg: "registry_ok (w_sup w) \<longrightarrow> registry_ok (record_event e sv)"
      unfolding sv_def by (intro impI) (simp add: registry_same [OF record_event_sel(5)] registry_put)
    have "follows (w_sup w) (w_sup w')"
      unfolding follows_def w'(1) using True Some reg
      by (intro conjI exI [of _ "[e]"]) (auto simp: sv st, auto simp: e_def sv move_of_def state_of_def)
    with w' show ?thesis by (simp add: lawful_def)
  qed
qed

lemma kept_transition [kept]: "keeps lawful (transition vid target source)"
  unfolding keeps_def by (metis prod.collapse transition_Inr)

lemma kept_next_sequence [kept]: "keeps lawful next_command_sequence"
  unfolding next_command_sequence_def
  by (intro lw.keeps_intros kept kept_update follows_quiet) (simp_all add: state_of_def registry_ok_def)

section \<open>Every operation\<close>

lemma kept_guarded:
  "(\<And>u. r = Inr u \<Longrightarrow> keeps lawful (f u)) \<Longrightarrow> keeps lawful (seq (lift_outcome r) f)"
  by (cases r) (auto simp: keeps_def seq_def lift_outcome_def lawful_refl)

lemma kept_done_with [kept]: "keeps lawful m \<Longrightarrow> keeps lawful (done_with m)"
  unfolding done_with_def by (intro lw.keeps_intros kept)

lemma kept_register [kept]: "keeps lawful (register_vehicle v)"
proof -
  have "lawful w (snd (register_vehicle v w))" for w
  proof (cases "dict_get (sv_sessions (w_sup w)) (vehicle_id_of v)")
    case None
    define sv where "sv = (w_sup w)\<lparr>sv_sessions := dict_set (vehicle_id_of v) (new_session v) (sv_sessions (w_sup w))\<rparr>"
    have "register_vehicle v w = plain_event (vehicle_id_of v) ''VEHICLE_REGISTERED'' ''vehicle registered'' (w\<lparr>w_sup := sv\<rparr>)"
      using None by (simp add: register_vehicle_def seq_def sup_def raise_if_def ret_def update_sup_def sv_def)
    moreover have "follows (w_sup w) sv"
      using None by (intro follows_quiet) (simp_all add: sv_def state_of_def new_session_def registry_ok_def)
    then have "lawful w (w\<lparr>w_sup := sv\<rparr>)" by (simp add: lawful_def)
    ultimately show ?thesis
      using kept_plain [of "''VEHICLE_REGISTERED''" "vehicle_id_of v" "''vehicle registered''"]
      by (simp add: keeps_def) (blast intro: lawful_trans)
  next
    case (Some s)
    then show ?thesis
      by (simp add: register_vehicle_def seq_def sup_def raise_if_def raise_def lawful_refl)
  qed
  then show ?thesis by (simp add: keeps_def)
qed

lemma follows_drop: "state_of sv vid = VS_DISCONNECTED \<Longrightarrow> follows sv (drop_vehicle vid sv)"
  by (rule follows_quiet) (simp_all add: drop_vehicle_def state_of_def registry_ok_def delete_conv' dict_wf_def distinct_delete)

lemma plain_event_run:
  "plain_event vid ty msg w = (Inr (), w') \<Longrightarrow> sv_sessions (w_sup w') = sv_sessions (w_sup w)"
  by (auto simp: plain_event_def emit_event_def seq_def monotonic_now_def update_sup_def split: prod.splits)

lemma kept_unregister [kept]: "keeps lawful (unregister_vehicle vid)"
proof -
  have "lawful w (snd (unregister_vehicle vid w))" for w
  proof (cases "dict_get (sv_sessions (w_sup w)) vid")
    case None
    then show ?thesis
      by (simp add: unregister_vehicle_def session_of_def seq_def sup_def raise_def lawful_refl)
  next
    case (Some s)
    define bad where "bad \<longleftrightarrow> s_state s \<noteq> VS_DISCONNECTED \<or> s_lease s \<noteq> None \<or> s_active_task s \<noteq> None \<or> is_armed_or_flying s"
    show ?thesis
    proof (cases bad)
      case True
      with Some show ?thesis
        by (simp add: unregister_vehicle_def session_of_def seq_def sup_def ret_def raise_if_def raise_def
            lawful_refl bad_def)
    next
      case False
      then have ok: "s_state s = VS_DISCONNECTED" "s_lease s = None" "s_active_task s = None"
          "\<not> is_armed_or_flying s" by (simp_all add: bad_def)
      obtain r w1 where p: "plain_event vid ''VEHICLE_UNREGISTERED'' ''vehicle unregistered'' w = (r, w1)" by fastforce
      have r: "r = Inr ()"
        using p by (auto simp: plain_event_def emit_event_def seq_def monotonic_now_def update_sup_def split: prod.splits)
      have l1: "lawful w w1"
        using keepsD [OF kept_plain p] by simp
      have "snd (unregister_vehicle vid w) = w1\<lparr>w_sup := drop_vehicle vid (w_sup w1)\<rparr>"
        using Some ok p r
        by (simp add: unregister_vehicle_def session_of_def seq_def sup_def ret_def raise_if_def update_sup_def)
      moreover have "state_of (w_sup w1) vid = VS_DISCONNECTED"
        using plain_event_run [of vid _ _ w w1] p r Some ok by (simp add: state_of_def)
      then have "lawful w1 (w1\<lparr>w_sup := drop_vehicle vid (w_sup w1)\<rparr>)"
        by (simp add: lawful_def follows_drop)
      ultimately show ?thesis using l1 by (simp add: lawful_trans)
    qed
  qed
  then show ?thesis by (simp add: keeps_def)
qed

lemma kept_authorize [kept]: "keeps lawful (authorize_mode m a)"
  unfolding authorize_mode_def
  by (intro lw.keeps_intros kept kept_update follows_quiet) (simp_all add: state_of_def registry_ok_def)

lemma kept_set_mode [kept]: "keeps lawful (set_mode m a)"
  unfolding set_mode_def
  by (intro lw.keeps_intros kept kept_update follows_quiet) (simp_all add: state_of_def registry_ok_def)

lemma kept_check_lease [kept]: "keeps lawful (check_lease l)"
  unfolding check_lease_def by (intro lw.keeps_intros)

lemma kept_claim [kept]: "keeps lawful (claim_control vid ow now)"
  unfolding claim_control_def Let_def by (intro lw.keeps_intros kept) simp_all

lemma kept_renew [kept]: "keeps lawful (renew_control vid ow now)"
  unfolding renew_control_def Let_def by (intro lw.keeps_intros kept)

lemma kept_receive [kept]: "keeps lawful (receive_telemetry e)"
  unfolding receive_telemetry_def by (intro lw.keeps_intros kept)

lemma kept_await_snapshot [kept]: "keeps lawful (await_snapshot vid)"
  unfolding await_snapshot_def by (intro lw.keeps_intros kept)

lemma kept_refresh [kept]: "keeps lawful (refresh vid)"
  unfolding refresh_def by (intro lw.keeps_intros kept)

lemma kept_reconcile [kept]: "keeps lawful (reconcile_terminal vid)"
  unfolding reconcile_terminal_def by (intro lw.keeps_intros kept)

lemma kept_reconcile_public [kept]: "keeps lawful (reconcile_terminal_adapter_state vid)"
  unfolding reconcile_terminal_adapter_state_def by (intro lw.keeps_intros kept)

lemma kept_pause [kept]: "keeps lawful pause_until_cancelled"
  unfolding pause_until_cancelled_def by (intro lw.keeps_intros kept)

lemma kept_interrupt [kept]: "keeps lawful (interrupt_active_command vid e)"
  unfolding interrupt_active_command_def by (intro lw.keeps_intros kept)

lemma kept_take_interruption [kept]: "keeps lawful (take_interruption vid)"
  unfolding take_interruption_def by (intro lw.keeps_intros kept)

lemma kept_await_execute: "check_envelope e = Inr () \<Longrightarrow> keeps lawful (await_execute e)"
  unfolding await_execute_def by (intro lw.keeps_intros kept kept_log_execute)

lemma kept_run_command: "check_envelope e = Inr () \<Longrightarrow> keeps lawful (run_command vid n e)"
  unfolding run_command_def by (intro lw.keeps_intros kept kept_await_execute)

lemma kept_extend_lease [kept]: "keeps lawful (extend_lease vid margin)"
  unfolding extend_lease_def by (intro lw.keeps_intros kept kept_update_session) simp

lemma kept_send [kept]: "keeps lawful (send vid payload cx)"
  unfolding send_def Let_def
  by (intro kept_guarded lw.keeps_intros kept kept_run_command) simp_all

lemma kept_connect [kept]: "keeps lawful (connect vid)"
  unfolding connect_def by (intro lw.keeps_intros kept)

lemma kept_observe_landing [kept]: "keeps lawful (observe_landing vid)"
  unfolding observe_landing_def by (intro lw.keeps_intros kept)

lemma kept_disconnect [kept]: "keeps lawful (disconnect vid ow)"
  unfolding disconnect_def by (intro lw.keeps_intros kept)

lemma kept_preflight [kept]: "keeps lawful (preflight vid ow req now low)"
  unfolding preflight_def Let_def by (intro lw.keeps_intros kept) simp_all

lemma kept_fail_to_fault [kept]: "keeps lawful (fail_to_fault vid e)"
  unfolding fail_to_fault_def by (intro lw.keeps_intros kept)

lemma kept_arm [kept]: "keeps lawful (arm vid ow rid now cx)"
  unfolding arm_def by (intro lw.keeps_intros kept)

lemma kept_disarm [kept]: "keeps lawful (disarm vid ow cx)"
  unfolding disarm_def by (intro lw.keeps_intros kept)

lemma kept_takeoff [kept]: "keeps lawful (takeoff vid ow h d cx)"
  unfolding takeoff_def by (intro lw.keeps_intros kept)

lemma kept_guard_flying [kept]: "keeps lawful (guard_flying vid ow)"
  unfolding guard_flying_def by (intro lw.keeps_intros kept)

lemma kept_guard_owner [kept]: "keeps lawful (guard_owner vid ow ex)"
  unfolding guard_owner_def by (intro lw.keeps_intros kept)

lemma kept_send_and_refresh [kept]: "keeps lawful (send_and_refresh vid p cx)"
  unfolding send_and_refresh_def by (intro lw.keeps_intros kept)

lemma kept_cast [kept]: "keeps lawful (cast_telemetry s)"
  unfolding cast_telemetry_def by (intro lw.keeps_intros kept)

lemma kept_hover [kept]: "keeps lawful (hover vid ow d cx)"
  unfolding hover_def by (intro lw.keeps_intros kept)

lemma kept_move [kept]: "keeps lawful (move_relative vid ow c cx)"
  unfolding move_relative_def by (intro lw.keeps_intros kept)

lemma kept_validate [kept]: "keeps lawful (validate_trajectory_command vid ow c)"
  unfolding validate_trajectory_command_def by (intro lw.keeps_intros kept)

lemma kept_execute [kept]: "keeps lawful (execute_trajectory vid ow c cx)"
  unfolding execute_trajectory_def by (intro lw.keeps_intros kept)

lemma kept_replace [kept]: "keeps lawful (replace_trajectory vid ow c r cx)"
  unfolding replace_trajectory_def by (intro lw.keeps_intros kept)

lemma kept_hold [kept]: "keeps lawful (stop_and_hold vid ow cx)"
  unfolding stop_and_hold_def by (intro lw.keeps_intros kept)

lemma kept_land [kept]: "keeps lawful (land vid ow d t g cx)"
  unfolding land_def by (intro lw.keeps_intros kept)

lemma kept_emergency [kept]: "keeps lawful (emergency_stop vid ow r ex cx)"
  unfolding emergency_stop_def by (intro lw.keeps_intros kept) simp_all

lemma kept_escalate [kept]: "keeps lawful (escalate_unobserved vid ow e)"
proof (cases e)
  case (CrazySwarmError c m)
  then show ?thesis
    unfolding escalate_unobserved_def by (simp, intro lw.keeps_intros kept)
qed (simp_all add: escalate_unobserved_def lw.keeps_raise)

lemma kept_abort [kept]: "keeps lawful (abort_and_land vid ow r ex cx)"
  unfolding abort_and_land_def by (intro lw.keeps_intros kept)

lemma kept_drop_lease [kept]: "ty \<noteq> ''STATE_TRANSITION'' \<Longrightarrow> keeps lawful (drop_lease vid ty msg)"
  unfolding drop_lease_def by (intro lw.keeps_intros kept)

lemma kept_release [kept]: "keeps lawful (release_control vid ow ex)"
  unfolding release_control_def by (intro lw.keeps_intros kept) simp_all

lemma kept_expire_lease [kept]: "keeps lawful (expire_lease now vid)"
  unfolding expire_lease_def by (intro lw.keeps_intros kept) simp_all

lemma kept_expire [kept]: "keeps lawful (expire_control_leases now)"
  unfolding expire_control_leases_def by (intro lw.keeps_intros kept)

lemma kept_evaluate [kept]: "keeps lawful (evaluate_health vid now low)"
  unfolding evaluate_health_def by (intro lw.keeps_intros kept)

lemma kept_enforce [kept]: "keeps lawful (enforce_health vid ow now low cx)"
  unfolding enforce_health_def by (intro lw.keeps_intros kept)

lemma kept_refresh_enforce [kept]: "keeps lawful (refresh_and_enforce_health vid ow low cx)"
  unfolding refresh_and_enforce_health_def by (intro lw.keeps_intros kept)

lemma kept_observe [kept]: "keeps lawful (observe vid ow t)"
  unfolding observe_def by (intro lw.keeps_intros kept)

lemma kept_perform [kept]: "keeps lawful (perform r)"
  by (cases r) (simp_all add: kept)

lemma kept_attempt [kept]: "keeps lawful (attempt r)"
  unfolding attempt_def by (intro lw.keeps_intros kept)

lemma kept_requests: "keeps lawful (each attempt rs)"
  by (intro lw.keeps_intros kept)

end
