(* ===== verification/Admission.thy ===== *)
theory Admission
  imports Guards
begin

text \<open>
  What the guards of the supervisor admit. Each validator is characterised by the conditions under
  which it passes; from these follow the meaning of an approved preflight and of an admitted
  trajectory, and that a tightened policy admits no more than the policy it tightens. The last part
  is the motion profile with which \<open>simulation/vehicle.py\<close> flies an admitted relative move
  (\<open>_move_to\<close>): the lemmas show that the limits the supervisor checks are the peaks of that profile.
\<close>

section \<open>Admission conditions\<close>

lemma validate_takeoff_Inr:
  "validate_takeoff p h d = Inr u \<longleftrightarrow>
     0 < h \<and> h \<le> max_altitude_m p \<and> 0 < d \<and> d \<le> max_mission_duration_s p \<and>
     3 / 2 * h / d \<le> max_vertical_speed_m_s p \<and> 6 * h / d ^ 2 \<le> max_acceleration_m_s2 p"
  unfolding validate_takeoff_def raise_first_Inr by auto

definition move_limits :: "safety_policy \<Rightarrow> move_relative_command \<Rightarrow> bool" where
  "move_limits p c \<longleftrightarrow> mv_duration_s c \<le> max_mission_duration_s p \<and>
     3 / 2 * hypot (mv_x_m c) (mv_y_m c) / mv_duration_s c \<le> max_horizontal_speed_m_s p \<and>
     3 / 2 * \<bar>mv_z_m c\<bar> / mv_duration_s c \<le> max_vertical_speed_m_s p \<and>
     6 * sqrt (hypot (mv_x_m c) (mv_y_m c) ^ 2 + mv_z_m c ^ 2) / mv_duration_s c ^ 2 \<le> max_acceleration_m_s2 p \<and>
     3 / 2 * \<bar>mv_yaw_rad c\<bar> / mv_duration_s c \<le> max_yaw_rate_rad_s p"

lemma move_limit_checks_Inr: "raise_first (move_limit_checks p c) = Inr u \<longleftrightarrow> move_limits p c"
  unfolding move_limit_checks_def move_limits_def raise_first_Inr Let_def by auto

lemma validate_relative_move_Inr:
  "validate_relative_move p t c = Inr u \<longleftrightarrow> move_limits p c \<and>
     (\<exists>pos dx dy. vt_position_m t = Some pos \<and> move_displacement t c = Inr (dx, dy) \<and>
        contains (flight_volume p) (vec (vx pos + dx) (vy pos + dy) (vz pos + mv_z_m c)))"
  by (auto simp: validate_relative_move_def bind_ok_Inr move_limit_checks_Inr split: option.split if_splits)

definition point_admitted :: "safety_policy \<Rightarrow> trajectory_point \<Rightarrow> bool" where
  "point_admitted p q \<longleftrightarrow> contains (flight_volume p) (tp_position_m q) \<and>
     vz (tp_position_m q) \<le> max_altitude_m p \<and>
     hypot (vx (tp_velocity_m_s q)) (vy (tp_velocity_m_s q)) \<le> max_horizontal_speed_m_s p \<and>
     \<bar>vz (tp_velocity_m_s q)\<bar> \<le> max_vertical_speed_m_s p \<and>
     vector_length (tp_acceleration_m_s2 q) \<le> max_acceleration_m_s2 p \<and>
     \<bar>tp_yaw_rate_rad_s q\<bar> \<le> max_yaw_rate_rad_s p"

definition setpoint_admitted :: "safety_policy \<Rightarrow> setpoint \<Rightarrow> bool" where
  "setpoint_admitted p q \<longleftrightarrow> contains (flight_volume p) (sp_position_m q) \<and>
     hypot (vx (sp_velocity_m_s q)) (vy (sp_velocity_m_s q)) \<le> max_horizontal_speed_m_s p \<and>
     \<bar>vz (sp_velocity_m_s q)\<bar> \<le> max_vertical_speed_m_s p \<and>
     vector_length (sp_acceleration_m_s2 q) \<le> max_acceleration_m_s2 p \<and>
     \<bar>sp_yaw_rate_rad_s q\<bar> \<le> max_yaw_rate_rad_s p"

lemma point_checks_ok: "list_all (\<lambda>c. \<not> fst c) (point_checks p q) \<longleftrightarrow> point_admitted p q"
  by (auto simp: point_checks_def point_admitted_def)

lemma setpoint_checks_ok: "raise_first (setpoint_checks p q) = Inr u \<longleftrightarrow> setpoint_admitted p q"
  unfolding raise_first_Inr by (auto simp: setpoint_checks_def setpoint_admitted_def)

lemma all_ok_Inr: "all_ok rs = Inr u \<longleftrightarrow> (\<forall>r \<in> set rs. r = Inr ())"
  by (induction rs) (auto simp: bind_ok_Inr)

definition segment_admitted :: "safety_policy \<Rightarrow> trajectory_point \<times> trajectory_point \<Rightarrow> bool" where
  "segment_admitted p ab \<longleftrightarrow> list_all (\<lambda>k. \<exists>q.
     sample_trajectory_segment (fst ab) (snd ab) (sample_instant (fst ab) (snd ab) k) = Inr q \<and> setpoint_admitted p q)
     inner_samples"

lemma check_sample_Inr:
  "check_sample p a b k = Inr u \<longleftrightarrow>
     (\<exists>q. sample_trajectory_segment a b (sample_instant a b k) = Inr q \<and> setpoint_admitted p q)"
  by (simp add: check_sample_def bind_ok_Inr setpoint_checks_ok)

definition trajectory_admitted :: "safety_policy \<Rightarrow> vehicle_telemetry \<Rightarrow> trajectory \<Rightarrow> bool" where
  "trajectory_admitted p t tr \<longleftrightarrow> trajectory_duration_s tr \<le> max_mission_duration_s p \<and>
     (\<exists>pos. vt_position_m t = Some pos \<and>
        start_error (tp_position_m (hd (tr_points tr))) pos \<le> max (15 / 100) (tr_completion_position_tolerance_m tr * 2)) \<and>
     list_all (point_admitted p) (tr_points tr) \<and>
     list_all (segment_admitted p) (zip (tr_points tr) (tl (tr_points tr)))"

lemma validate_trajectory_Inr:
  "validate_trajectory p t c = Inr u \<longleftrightarrow> trajectory_admitted p t (xt_trajectory c)"
proof -
  let ?pts = "tr_points (xt_trajectory c)"
  have pts: "raise_first (concat (map (point_checks p) ?pts)) = Inr () \<longleftrightarrow> list_all (point_admitted p) ?pts"
    unfolding raise_first_Inr by (auto simp: list_all_iff simp flip: point_checks_ok)
  have segs: "all_ok (concat (map (\<lambda>(a, b). map (check_sample p a b) inner_samples) zs)) = Inr () \<longleftrightarrow>
      list_all (segment_admitted p) zs" for zs
    unfolding all_ok_Inr by (fastforce simp: list_all_iff segment_admitted_def simp flip: check_sample_Inr [where u = "()"])
  show ?thesis
    by (auto simp: validate_trajectory_def trajectory_admitted_def Let_def bind_ok_Inr pts segs not_less
        split: option.split if_splits)
qed

section \<open>Tightening and admission\<close>

lemma strict_contains:
  "at_least_as_strict q p \<Longrightarrow> contains (flight_volume q) x \<Longrightarrow> contains (flight_volume p) x"
  by (simp add: at_least_as_strict_def volume_within_def)

lemma strict_move_limits: "at_least_as_strict q p \<Longrightarrow> move_limits q c \<Longrightarrow> move_limits p c"
  unfolding at_least_as_strict_def move_limits_def by (auto intro: order_trans)

lemma strict_point: "at_least_as_strict q p \<Longrightarrow> point_admitted q x \<Longrightarrow> point_admitted p x"
  using strict_contains unfolding at_least_as_strict_def point_admitted_def by (auto intro: order_trans)

lemma strict_setpoint: "at_least_as_strict q p \<Longrightarrow> setpoint_admitted q x \<Longrightarrow> setpoint_admitted p x"
  using strict_contains unfolding at_least_as_strict_def setpoint_admitted_def by (auto intro: order_trans)

lemma strict_segment: "at_least_as_strict q p \<Longrightarrow> segment_admitted q ab \<Longrightarrow> segment_admitted p ab"
  unfolding segment_admitted_def by (erule list.pred_mono_strong) (blast intro: strict_setpoint)

lemma strict_trajectory: "at_least_as_strict q p \<Longrightarrow> trajectory_admitted q t tr \<Longrightarrow> trajectory_admitted p t tr"
  unfolding trajectory_admitted_def
  using strict_point [of q p] strict_segment [of q p]
  by (auto simp: at_least_as_strict_def list_all_iff intro: order_trans)

section \<open>The simulator's motion profile\<close>

definition blend :: "real \<Rightarrow> real" where
  "blend u = 3 * u ^ 2 - 2 * u ^ 3"

definition blend_rate :: "real \<Rightarrow> real \<Rightarrow> real" where
  "blend_rate u duration = 6 * u * (1 - u) / duration"

definition blend_acceleration :: "real \<Rightarrow> real \<Rightarrow> real" where
  "blend_acceleration u duration = (6 - 12 * u) / duration ^ 2"

definition desired_position :: "vector3 \<Rightarrow> vector3 \<Rightarrow> real \<Rightarrow> vector3" where
  "desired_position start delta u = vec (vx start + vx delta * blend u) (vy start + vy delta * blend u)
     (vz start + vz delta * blend u)"

definition desired_velocity :: "vector3 \<Rightarrow> real \<Rightarrow> real \<Rightarrow> vector3" where
  "desired_velocity delta u duration = vec (vx delta * blend_rate u duration) (vy delta * blend_rate u duration)
     (vz delta * blend_rate u duration)"

definition desired_acceleration :: "vector3 \<Rightarrow> real \<Rightarrow> real \<Rightarrow> vector3" where
  "desired_acceleration delta u duration = vec (vx delta * blend_acceleration u duration)
     (vy delta * blend_acceleration u duration) (vz delta * blend_acceleration u duration)"

lemma blend_unit:
  assumes "0 \<le> u" "u \<le> 1"
  shows "0 \<le> blend u" "blend u \<le> 1"
proof -
  have "blend u = u ^ 2 * (3 - 2 * u)"
    by (simp add: blend_def power2_eq_square power3_eq_cube algebra_simps)
  moreover have "0 \<le> u ^ 2 * (3 - 2 * u)" using assms by (intro mult_nonneg_nonneg) auto
  ultimately show "0 \<le> blend u" by simp
  have "1 - blend u = (1 - u) ^ 2 * (1 + 2 * u)"
    by (simp add: blend_def power2_eq_square power3_eq_cube algebra_simps)
  moreover have "0 \<le> (1 - u) ^ 2 * (1 + 2 * u)" using assms by (intro mult_nonneg_nonneg) auto
  ultimately show "blend u \<le> 1" by simp
qed

lemma blend_rate_bounds:
  assumes "0 \<le> u" "u \<le> 1" "0 < d"
  shows "0 \<le> blend_rate u d" "blend_rate u d \<le> 3 / 2 / d"
proof -
  have "0 \<le> (2 * u - 1) ^ 2" by simp
  then have "6 * u * (1 - u) \<le> 3 / 2" by (simp add: power2_eq_square algebra_simps)
  then show "blend_rate u d \<le> 3 / 2 / d"
    using divide_right_mono [of "6 * u * (1 - u)" "3 / 2" d] assms(3) unfolding blend_rate_def by simp
  show "0 \<le> blend_rate u d" using assms by (simp add: blend_rate_def)
qed

lemma blend_acceleration_bound:
  assumes "0 \<le> u" "u \<le> 1"
  shows "\<bar>blend_acceleration u d\<bar> \<le> 6 / d ^ 2"
proof -
  have "\<bar>6 - 12 * u\<bar> \<le> 6" using assms by linarith
  then show ?thesis by (simp add: blend_acceleration_def abs_divide divide_right_mono)
qed

text \<open>The rate is the derivative of the blend over the duration, the acceleration of the rate.\<close>

lemma blend_derivatives:
  assumes "d \<noteq> 0"
  shows "((\<lambda>t. blend (t / d)) has_real_derivative blend_rate (t / d) d) (at t)"
    and "((\<lambda>t. blend_rate (t / d) d) has_real_derivative blend_acceleration (t / d) d) (at t)"
  unfolding blend_def blend_rate_def blend_acceleration_def using assms
  by (auto intro!: derivative_eq_intros simp: field_simps power2_eq_square power3_eq_cube)

lemma hypot_scale: "hypot (a * k) (b * k) = \<bar>k\<bar> * hypot a b"
proof -
  have "(a * k) ^ 2 + (b * k) ^ 2 = k ^ 2 * (a ^ 2 + b ^ 2)" by (simp add: algebra_simps power_mult_distrib)
  then show ?thesis by (simp add: hypot_def real_sqrt_mult)
qed

lemma hypot_nonneg [simp]: "0 \<le> hypot a b"
  by (simp add: hypot_def)

lemma hypot_square [simp]: "hypot a b ^ 2 = a ^ 2 + b ^ 2"
  by (simp add: hypot_def)

lemma vector_length_scale:
  "vector_length (vec (a * k) (b * k) (c * k)) = \<bar>k\<bar> * sqrt (hypot a b ^ 2 + c ^ 2)"
proof -
  have "(a * k) ^ 2 + (b * k) ^ 2 + (c * k) ^ 2 = k ^ 2 * (a ^ 2 + b ^ 2 + c ^ 2)"
    by (simp add: algebra_simps power_mult_distrib)
  then show ?thesis by (simp add: vector_length_def real_sqrt_mult)
qed

lemma hypot_rotate: "hypot (x * cos y - z * sin y) (x * sin y + z * cos y) = hypot x z"
proof -
  have "(x * cos y - z * sin y) ^ 2 + (x * sin y + z * cos y) ^ 2 = (x ^ 2 + z ^ 2) * ((cos y) ^ 2 + (sin y) ^ 2)"
    by algebra
  then show ?thesis by (simp add: hypot_def)
qed

lemma displacement_hypot:
  "move_displacement t c = Inr (dx, dy) \<Longrightarrow> hypot dx dy = hypot (mv_x_m c) (mv_y_m c)"
  by (auto simp: move_displacement_def math_cos_def math_sin_def hypot_rotate split: if_splits option.splits)

lemma scaled_limit:
  fixes k bound x :: real
  assumes "\<bar>k\<bar> \<le> r" "0 \<le> x" "r * x \<le> bound"
  shows "\<bar>k\<bar> * x \<le> bound"
  using mult_right_mono [OF assms(1,2)] assms(3) by linarith

lemma between_convex:
  fixes a b s :: real
  assumes "0 \<le> s" "s \<le> 1" "lo \<le> a" "a \<le> hi" "lo \<le> a + b" "a + b \<le> hi"
  shows "lo \<le> a + b * s" "a + b * s \<le> hi"
proof -
  have e: "a + b * s = (1 - s) * a + s * (a + b)" by (simp add: algebra_simps)
  have "lo = (1 - s) * lo + s * lo" by (simp add: algebra_simps)
  also have "\<dots> \<le> (1 - s) * a + s * (a + b)" using assms by (intro add_mono mult_left_mono) auto
  finally show "lo \<le> a + b * s" using e by simp
  have "(1 - s) * a + s * (a + b) \<le> (1 - s) * hi + s * hi" using assms by (intro add_mono mult_left_mono) auto
  also have "\<dots> = hi" by (simp add: algebra_simps)
  finally show "a + b * s \<le> hi" using e by simp
qed

section \<open>Preflight\<close>

text \<open>
  What an approved preflight says: the sample is this vehicle's, the vehicle is ready and has the
  required capabilities, battery, transport and position meet the policy, positioning and range
  sensors are there when they are required, no critical battery fault is raised, and the mode has
  authority; the battery conditions alone yield to the confirmed simulation override.
\<close>

lemma preflight_passed:
  "list_all pc_passed (preflight_checks sv s e required low) \<longleftrightarrow>
     te_vehicle_id e = vehicle_id_of (s_vehicle s) \<and> s_state s = VS_READY \<and>
     required \<subseteq> cap_features (v_capabilities (s_vehicle s)) \<and>
     (\<exists>b. vt_battery_percent (te_telemetry e) = Some b \<and> (minimum_takeoff_battery_percent (sv_policy sv) \<le> b \<or> low)) \<and>
     meets (transport_quality (te_telemetry e)) (minimum_link_quality_percent (sv_policy sv)) \<and>
     (\<exists>pos. vt_position_m (te_telemetry e) = Some pos \<and> contains (flight_volume (sv_policy sv)) pos) \<and>
     (''CRITICAL_BATTERY'' \<in> set (vt_faults (te_telemetry e)) \<longrightarrow> low) \<and>
     (positioning_required required \<longrightarrow>
        meets (vt_localization_quality_percent (te_telemetry e)) (minimum_localization_quality_percent (sv_policy sv)) \<and>
        vt_imu (te_telemetry e) \<noteq> None \<and> vt_flow (te_telemetry e) \<noteq> None) \<and>
     (CAP_RANGE_SENSING \<in> required \<longrightarrow> vt_ranges (te_telemetry e) \<noteq> None) \<and>
     command_authority sv s"
  by (cases "vt_battery_percent (te_telemetry e)"; cases "vt_position_m (te_telemetry e)")
    (auto simp: preflight_checks_def check_of_def Let_def supports_def meets_def)

section \<open>A sample\<close>

text \<open>A healthy sample: battery 80, transport and localisation 90, IMU and flow present.\<close>

definition healthy_telemetry :: "vehicle_state \<Rightarrow> bool \<Rightarrow> bool \<Rightarrow> vector3 \<Rightarrow> vehicle_telemetry" where
  "healthy_telemetry st armed flying pos = \<lparr>vt_state = st, vt_armed = armed, vt_flying = flying,
     vt_position_m = Some pos, vt_ground_truth_position_m = None, vt_velocity_m_s = None,
     vt_attitude = None, vt_quaternion = None, vt_frame = Some WORLD, vt_position_is_estimate = Some True,
     vt_localization_source = Some LOC_SIMULATED, vt_localization_quality_percent = Some 90,
     vt_battery_percent = Some 80, vt_battery_open_circuit_voltage_v = None, vt_battery_voltage_v = None,
     vt_battery_current_a = None, vt_battery_cutoff_active = None, vt_battery_cutoff_reason = None,
     vt_powertrain_current_limited = None, vt_link_quality_percent = Some 90, vt_link_latency_ms = None,
     vt_packet_loss_percent = None, vt_transport = None, vt_capabilities = None,
     vt_imu = Some \<lparr>imu_acceleration_body_m_s2 = vec 0 0 0, imu_angular_velocity_body_rad_s = vec 0 0 0,
       imu_source_timestamp_s = None\<rparr>,
     vt_estimator = None,
     vt_flow = Some \<lparr>fl_velocity_body_m_s = None, fl_ground_distance_m = None, fl_quality_percent = 90,
       fl_status = FLOW_VALID, fl_source_timestamp_s = None\<rparr>,
     vt_ranges = None, vt_motors = None, vt_faults = []\<rparr>"

definition sample_at :: "string \<Rightarrow> int \<Rightarrow> vehicle_telemetry \<Rightarrow> telemetry_envelope" where
  "sample_at vid n t = \<lparr>te_vehicle_id = vid, te_sequence = n, te_source_timestamp_s = real_of_int n,
     te_received_timestamp_s = real_of_int n, te_simulation_timestamp_s = None, te_replay_timestamp_s = None,
     te_source_clock_id = ''adapter-monotonic'', te_source_clock_epoch = 0, te_telemetry = t\<rparr>"

definition sample_vehicle :: "string \<Rightarrow> authority_class \<Rightarrow> vehicle" where
  "sample_vehicle vid authority = \<lparr>v_identity = \<lparr>vid_vehicle_id = vid, vid_display_name = vid,
       vid_adapter = ''fast-sim'', vid_radio_uri = None, vid_firmware_version = None\<rparr>,
     v_capabilities = \<lparr>cap_features = {CAP_ARMING, CAP_RELATIVE_POSITIONING}, cap_decks = []\<rparr>,
     v_backend = \<lparr>bk_role = BR_FAST_SIM, bk_authority = authority, bk_clock_policy = ACCELERATED_OR_REALTIME,
       bk_command_completion = BLOCKING_COMPLETION, bk_supports_duration_aware_timeout = True,
       bk_supports_source_clock_reset = False, bk_supports_parameters = False,
       bk_recommended_watchdog_period_s = 1 / 50\<rparr>\<rparr>"

definition sample_move :: move_relative_command where
  "sample_move = \<lparr>mv_x_m = 3 / 10, mv_y_m = 4 / 10, mv_z_m = 0, mv_yaw_rad = 0, mv_duration_s = 4, mv_frame = HOME\<rparr>"

definition ready_session :: session where
  "ready_session = (new_session (sample_vehicle ''cf1'' SIMULATION))\<lparr>s_state := VS_READY\<rparr>"

lemma sample_move_admitted:
  "validate_relative_move default_policy (healthy_telemetry VS_FLYING True True (vec 0 0 (1 / 2))) sample_move = Inr ()"
  by code_simp

section \<open>Properties\<close>

text \<open>
  C5. A policy that was tightened admits no more than the policy it came from: a take-off, a relative
  move or a trajectory that passes under the mission's override passes under the global policy, so
  validating against the override alone is enough.
\<close>

theorem tightened_policy_admits_less:
  assumes "tighten p v = Inr q"
  shows "(validate_takeoff q h d = Inr () \<longrightarrow> validate_takeoff p h d = Inr ())
    \<and> (validate_relative_move q t m = Inr () \<longrightarrow> validate_relative_move p t m = Inr ())
    \<and> (validate_trajectory q t c = Inr () \<longrightarrow> validate_trajectory p t c = Inr ())"
proof -
  have s: "at_least_as_strict q p"
    using assms by (auto simp: tighten_Inr intro: apply_updates_strict)
  have "validate_takeoff q h d = Inr () \<longrightarrow> validate_takeoff p h d = Inr ()"
    using s unfolding validate_takeoff_Inr at_least_as_strict_def by auto
  moreover have "validate_relative_move q t m = Inr () \<longrightarrow> validate_relative_move p t m = Inr ()"
    using strict_move_limits [OF s] strict_contains [OF s] unfolding validate_relative_move_Inr by blast
  moreover have "validate_trajectory q t c = Inr () \<longrightarrow> validate_trajectory p t c = Inr ()"
    using strict_trajectory [OF s] unfolding validate_trajectory_Inr by blast
  ultimately show ?thesis by blast
qed

theorem tightened_policy_admits_less_witness:
  "validate_takeoff default_policy (1 / 2) 4 = Inr ()"
proof -
  have "tighten default_policy (no_override\<lparr>o_max_horizontal_speed_m_s := Some (1 / 4)\<rparr>)
      = Inr (default_policy\<lparr>max_horizontal_speed_m_s := 1 / 4\<rparr>)"
    by (simp add: tighten_defs)
  from tightened_policy_admits_less [OF this, of "1 / 2" 4] show ?thesis
    by (simp add: validate_takeoff_Inr default_policy_def)
qed

text \<open>
  C4. A relative move the supervisor admits from inside the flight volume stays inside it, and within
  the horizontal, vertical, acceleration and yaw-rate limits, at every instant of the profile with
  which the simulator flies it: the constants 1.5 and 6 of the validator are the peaks of that
  profile. This holds in the home and in the body frame.
\<close>

theorem admitted_move_stays_inside:
  assumes "validate_relative_move p t c = Inr ()" "vt_position_m t = Some pos"
    and "contains (flight_volume p) pos" "move_displacement t c = Inr (dx, dy)"
    and "delta = vec dx dy (mv_z_m c)" "d = mv_duration_s c" "0 < d" "0 \<le> u" "u \<le> 1"
  shows "contains (flight_volume p) (desired_position pos delta u)
    \<and> hypot (vx (desired_velocity delta u d)) (vy (desired_velocity delta u d)) \<le> max_horizontal_speed_m_s p
    \<and> \<bar>vz (desired_velocity delta u d)\<bar> \<le> max_vertical_speed_m_s p
    \<and> vector_length (desired_acceleration delta u d) \<le> max_acceleration_m_s2 p
    \<and> \<bar>blend_rate u d * mv_yaw_rad c\<bar> \<le> max_yaw_rate_rad_s p"
proof (intro conjI)
  have lim: "move_limits p c"
    and tgt: "contains (flight_volume p) (vec (vx pos + dx) (vy pos + dy) (vz pos + mv_z_m c))"
    using assms(1,2,4) by (auto simp: validate_relative_move_Inr)
  note h = displacement_hypot [OF assms(4)]
  note b = blend_unit [OF assms(8,9)] and r = blend_rate_bounds [OF assms(8,9,7)]
  have k: "\<bar>blend_rate u d\<bar> \<le> 3 / 2 / d" using r by simp
  show "contains (flight_volume p) (desired_position pos delta u)"
    using tgt assms(3) unfolding assms(5) contains_def desired_position_def vec_sel
    by (blast intro: between_convex [OF b])
  show "hypot (vx (desired_velocity delta u d)) (vy (desired_velocity delta u d)) \<le> max_horizontal_speed_m_s p"
    using scaled_limit [OF k, of "hypot dx dy"] lim h
    by (simp add: desired_velocity_def assms(5,6) hypot_scale move_limits_def)
  show "\<bar>vz (desired_velocity delta u d)\<bar> \<le> max_vertical_speed_m_s p"
    using scaled_limit [OF k, of "\<bar>mv_z_m c\<bar>"] lim
    by (simp add: desired_velocity_def assms(5,6) abs_mult mult.commute move_limits_def)
  show "vector_length (desired_acceleration delta u d) \<le> max_acceleration_m_s2 p"
    using scaled_limit [OF blend_acceleration_bound [OF assms(8,9)], of "sqrt (hypot dx dy ^ 2 + mv_z_m c ^ 2)"] lim h
    unfolding desired_acceleration_def assms(5,6) vec_sel vector_length_scale
    by (simp add: move_limits_def del: hypot_square)
  show "\<bar>blend_rate u d * mv_yaw_rad c\<bar> \<le> max_yaw_rate_rad_s p"
    using scaled_limit [OF k, of "\<bar>mv_yaw_rad c\<bar>"] lim
    by (simp add: assms(6) abs_mult move_limits_def)
qed

theorem admitted_move_stays_inside_witness:
  "contains (flight_volume default_policy)
     (desired_position (vec 0 0 (1 / 2)) (vec (3 / 10) (4 / 10) 0) (1 / 2))"
proof -
  let ?t = "healthy_telemetry VS_FLYING True True (vec 0 0 (1 / 2))"
  have "vt_position_m ?t = Some (vec 0 0 (1 / 2))" by (simp add: healthy_telemetry_def)
  moreover have "contains (flight_volume default_policy) (vec 0 0 (1 / 2))"
    by (simp add: default_policy_def default_volume_def contains_def)
  moreover have "move_displacement ?t sample_move = Inr (3 / 10, 4 / 10)"
    by (simp add: move_displacement_def sample_move_def)
  moreover have "vec (3 / 10) (4 / 10) 0 = vec (3 / 10) (4 / 10) (mv_z_m sample_move)" "4 = mv_duration_s sample_move"
    by (simp_all add: sample_move_def)
  ultimately show ?thesis
    by (rule admitted_move_stays_inside [OF sample_move_admitted, THEN conjunct1]) simp_all
qed

lemma sample_preflight_passes:
  "list_all pc_passed (preflight_checks (init_supervisor None []) ready_session
     (sample_at ''cf1'' 1 (healthy_telemetry VS_READY False False (vec 0 0 0))) {CAP_ARMING} False)"
proof -
  let ?t = "healthy_telemetry VS_READY False False (vec 0 0 0)"
  have v: "vt_battery_percent ?t = Some 80" "vt_position_m ?t = Some (vec 0 0 0)" "vt_faults ?t = []"
    "transport_quality ?t = Some 90"
    by (simp_all add: healthy_telemetry_def transport_quality_def)
  have p: "sv_policy (init_supervisor None []) = default_policy" "minimum_takeoff_battery_percent default_policy = 30"
    "minimum_link_quality_percent default_policy = 70" "contains (flight_volume default_policy) (vec 0 0 0)"
    by (simp_all add: init_supervisor_def default_policy_def default_volume_def contains_def)
  have s: "s_state ready_session = VS_READY" "vehicle_id_of (s_vehicle ready_session) = ''cf1''"
    "CAP_ARMING \<in> cap_features (v_capabilities (s_vehicle ready_session))"
    "command_authority (init_supervisor None []) ready_session"
    by (simp_all add: ready_session_def new_session_def sample_vehicle_def command_authority_def authority_of_def
        init_supervisor_def)
  show ?thesis
    unfolding preflight_passed
    by (simp add: sample_at_def v p s meets_def positioning_required_def)
qed

end
