(* ===== verification/Gates.thy ===== *)
theory Gates
  imports Oversight Admission
begin

text \<open>
  What has to hold before a command leaves the supervisor, and what its error paths leave behind.
  The methods are run step by step on a state where a guard fails (\<open>..._stops\<close>), which shows that
  the guard stands before the first call of an adapter. The theorems then state the gates of arming
  and take-off, the meaning of an approved preflight, the health decision, the freshness rule, and
  the paths on which a failure strands a vehicle.
\<close>

section \<open>Running a method step by step\<close>

lemma run_seq [outcome_simps]:
  fixes w :: world
  shows "seq (ret x) f w = f x w"
  "seq (raise e) f w = (Inl e, w)"
  "seq (lift_outcome (Inl e)) f w = (Inl e, w)"
  "seq (lift_outcome (Inr y)) f w = f y w"
  "seq sup g w = g (w_sup w) w"
  "seq (raise_if b e) h w = (if b then (Inl e, w) else h () w)"
  "seq monotonic_now k w =
     k (readings (w_clock w) (reads (w_clock w))) (w\<lparr>w_clock := w_clock w\<lparr>reads := Suc (reads (w_clock w))\<rparr>\<rparr>)"
  "seq (update_sup u) h w = h () (w\<lparr>w_sup := u (w_sup w)\<rparr>)"
  by (simp_all add: seq_def ret_def raise_def lift_outcome_def sup_def raise_if_def monotonic_now_def
      monotonic_def update_sup_def)

lemma run_lift [outcome_simps]:
  fixes w :: world
  shows
  "seq (lift_outcome r) f w = (case r of Inl e \<Rightarrow> (Inl e, w) | Inr y \<Rightarrow> f y w)"
  by (cases r) (simp_all add: outcome_simps)

lemma run_assoc [outcome_simps]: "seq (seq m f) g w = seq m (\<lambda>x. seq (f x) g) w"
  by (simp add: seq_def split: prod.split sum.split)

lemma run_session [outcome_simps]:
  fixes w :: world
  shows
  "seq (session_of vid) f w = (case dict_get (sv_sessions (w_sup w)) vid of
     None \<Rightarrow> (Inl (cs_error IDENTITY_MISMATCH (''unknown vehicle: '' @ vid)), w) | Some s \<Rightarrow> f s w)"
  by (simp add: session_of_def run_assoc outcome_simps split: option.split)

lemma transition_refused:
  assumes "dict_get (sv_sessions (w_sup w)) vid = Some s" "\<not> can_transition (s_state s) t"
  shows "seq (transition vid t src) f w = (Inl (projl (require_transition (s_state s) t)), w)"
  using assms
  by (simp add: transition_def outcome_simps require_transition_def)

lemma require_owner_Inr:
  "require_owner s owner now ex = Inr u \<longleftrightarrow>
     (\<exists>l. s_lease s = Some l \<and> cl_owner_id l = owner \<and> (ex \<or> now < cl_expires_at l))"
  by (auto simp: require_owner_def raise_first_Inr split: option.split)

lemma require_preflight_Inr:
  "require_preflight mode s owner rid now = Inr u \<longleftrightarrow>
     (\<exists>r. s_preflight s = Some r \<and> pr_report_id r = rid \<and> pr_operator_id r = owner \<and> pr_mode r = mode \<and>
        pr_approved r \<and> now \<le> pr_expires_at r)"
  by (auto simp: require_preflight_def raise_first_Inr split: option.split)

lemma require_real_authority_Inr:
  "require_real_authority sv s = Inr u \<longleftrightarrow> command_authority sv s"
  by (cases "authority_of s") (auto simp: require_real_authority_def command_authority_def raise_first_Inr)

lemma require_command_ready_Inr:
  "require_command_ready sv s owner now = Inr u \<longleftrightarrow>
     (\<exists>l. s_lease s = Some l \<and> cl_owner_id l = owner \<and> now < cl_expires_at l) \<and> command_authority sv s \<and>
     s_state s = VS_READY \<and> (\<exists>e. s_telemetry s = Some e \<and> vt_armed (te_telemetry e))"
  by (auto simp: require_command_ready_def bind_ok_Inr require_owner_Inr require_real_authority_Inr
      raise_first_Inr split: option.split)

lemma require_flying_Inr:
  "require_flying s owner now = Inr u \<longleftrightarrow>
     (\<exists>l. s_lease s = Some l \<and> cl_owner_id l = owner \<and> now < cl_expires_at l) \<and> s_state s = VS_FLYING"
  by (auto simp: require_flying_def bind_ok_Inr require_owner_Inr raise_first_Inr)

definition effective_now :: "real option \<Rightarrow> world \<Rightarrow> real" where
  "effective_now now_s w = (case now_s of None \<Rightarrow> readings (w_clock w) (reads (w_clock w)) | Some t \<Rightarrow> t)"

lemma arm_stops:
  assumes "dict_get (sv_sessions (w_sup w)) vid = Some s" "now = effective_now now_s w"
    and "\<not> (require_owner s owner now False = Inr () \<and>
            require_preflight (sv_mode (w_sup w)) s owner rid now = Inr () \<and>
            require_real_authority (w_sup w) s = Inr () \<and> can_transition (s_state s) VS_ARMING)"
  shows "w_calls (snd (arm vid owner rid now_s cx w)) = w_calls w"
proof -
  consider e where "require_owner s owner now False = Inl e"
    | e where "require_owner s owner now False = Inr ()"
        "require_preflight (sv_mode (w_sup w)) s owner rid now = Inl e"
    | e where "require_owner s owner now False = Inr ()"
        "require_preflight (sv_mode (w_sup w)) s owner rid now = Inr ()" "require_real_authority (w_sup w) s = Inl e"
    | "require_owner s owner now False = Inr ()"
        "require_preflight (sv_mode (w_sup w)) s owner rid now = Inr ()" "require_real_authority (w_sup w) s = Inr ()"
        "\<not> can_transition (s_state s) VS_ARMING"
    using assms(3) by (metis old.sum.exhaust old.unit.exhaust)
  then show ?thesis
    using assms(1,2)
    by cases (cases now_s; simp add: arm_def supervisor_now_def effective_now_def outcome_simps transition_refused)+
qed

lemma takeoff_stops:
  fixes w :: world
  defines "now \<equiv> readings (w_clock w) (reads (w_clock w))"
  assumes "dict_get (sv_sessions (w_sup w)) vid = Some s"
    and "\<not> (require_command_ready (w_sup w) s owner now = Inr () \<and>
            validate_takeoff (sv_policy (w_sup w)) h d = Inr ())"
  shows "w_calls (snd (takeoff vid owner h d cx w)) = w_calls w"
proof -
  consider e where "require_command_ready (w_sup w) s owner now = Inl e"
    | e where "require_command_ready (w_sup w) s owner now = Inr ()"
        "validate_takeoff (sv_policy (w_sup w)) h d = Inl e"
    using assms(3) by (metis old.sum.exhaust old.unit.exhaust)
  then show ?thesis
    by cases (use assms(2) in \<open>simp_all add: takeoff_def outcome_simps now_def\<close>)
qed

lemma unknown_vehicle_calls:
  assumes "dict_get (sv_sessions (w_sup w)) vid = None"
  shows "w_calls (snd (arm vid owner rid now_s cx w)) = w_calls w"
    "w_calls (snd (takeoff vid owner h d cx w)) = w_calls w"
  using assms by (cases now_s; simp add: arm_def takeoff_def outcome_simps)+


section \<open>A sample supervisor\<close>

text \<open>
  One simulated vehicle \<open>cf1\<close> owned by \<open>op\<close> until time 100, at time 10, with the approved preflight
  \<open>preflight-cf1-0\<close>; the environment answers the awaits from the given list, in order.
\<close>

definition sample_report :: preflight_report where
  "sample_report = \<lparr>pr_report_id = ''preflight-cf1-0'', pr_vehicle_id = ''cf1'', pr_mode = SIM,
     pr_operator_id = ''op'', pr_created_at = 5, pr_expires_at = 35, pr_approved = True, pr_checks = []\<rparr>"

definition owned_session :: "vehicle_state \<Rightarrow> bool \<Rightarrow> bool \<Rightarrow> session" where
  "owned_session st armed flying = (new_session (sample_vehicle ''cf1'' SIMULATION))\<lparr>s_state := st,
     s_telemetry := Some (sample_at ''cf1'' 1 (healthy_telemetry st armed flying (vec 0 0 (1 / 2)))),
     s_received_at := Some 9, s_preflight := Some sample_report,
     s_lease := Some \<lparr>cl_owner_id = ''op'', cl_expires_at = 100\<rparr>\<rparr>"

definition quiet_step :: "telemetry_envelope outcome \<Rightarrow> command_acknowledgement outcome \<Rightarrow> await_step" where
  "quiet_step snap ack = \<lparr>aw_meanwhile = (\<lambda>s. s), aw_snapshot = snap, aw_execute = ack, aw_link = Inr (),
     aw_task_over = False\<rparr>"

definition completed_ack :: command_acknowledgement where
  "completed_ack = \<lparr>ca_vehicle_id = ''cf1'', ca_command_id = ''cmd-0'', ca_status = COMPLETED,
     ca_received_at_monotonic_s = 10, ca_completed_at_monotonic_s = Some 10, ca_reason_code = None,
     ca_message = None\<rparr>"

definition world_of :: "session \<Rightarrow> await_step list \<Rightarrow> world" where
  "world_of s steps = \<lparr>w_sup = (init_supervisor None [])\<lparr>sv_sessions := [(''cf1'', s)]\<rparr>,
     w_clock = \<lparr>readings = (\<lambda>_. 10), reads = 0\<rparr>,
     w_steps = (\<lambda>n. if n < length steps then steps ! n else quiet_step (Inl TimeoutError) (Inl TimeoutError)),
     w_awaits = 0, w_calls = []\<rparr>"

definition done_step :: await_step where
  "done_step = quiet_step (Inl TimeoutError) (Inr completed_ack)"

definition seen_step :: "vehicle_state \<Rightarrow> bool \<Rightarrow> bool \<Rightarrow> await_step" where
  "seen_step st armed flying =
     quiet_step (Inr (sample_at ''cf1'' 2 (healthy_telemetry st armed flying (vec 0 0 (1 / 2))))) (Inl TimeoutError)"

lemma quiet_world: "list_all (\<lambda>st. aw_meanwhile st = (\<lambda>s. s)) steps \<Longrightarrow> rely (w_steps (world_of s steps))"
  by (auto simp: rely_def world_of_def quiet_step_def list_all_length follows_refl)

definition outcome_of :: "'a outcome \<times> world \<Rightarrow> unit outcome" where
  "outcome_of r = (case fst r of Inl e \<Rightarrow> Inl e | Inr _ \<Rightarrow> Inr ())"

definition kinds_sent :: "world \<Rightarrow> string list" where
  "kinds_sent w = map (\<lambda>e. kind_value (ce_payload e)) (executes (w_calls w))"

definition report_run :: "'a outcome \<times> world \<Rightarrow> unit outcome \<times> vehicle_state \<times> string list" where
  "report_run r = (outcome_of r, state_of (w_sup (snd r)) ''cf1'', kinds_sent (snd r))"

text \<open>Arming and take-off succeed when the adapter completes them and reports the result.\<close>

lemma sample_arm_run:
  "report_run (arm ''cf1'' ''op'' ''preflight-cf1-0'' (Some 10) no_context
      (world_of (owned_session VS_READY False False) [done_step, seen_step VS_READY True False]))
   = (Inr (), VS_READY, [''arm''])"
  by code_simp

lemma sample_takeoff_run:
  "report_run (takeoff ''cf1'' ''op'' (1 / 2) 4 no_context
      (world_of (owned_session VS_READY True False) [done_step, seen_step VS_FLYING True True]))
   = (Inr (), VS_FLYING, [''takeoff''])"
  by code_simp

text \<open>
  After an abort the adapter's landed state may be unobservable. An adapter that says so with
  \<open>TELEMETRY_STALE\<close> triggers the escalation to an emergency stop; one that does not answer in time
  does not, although nothing was observed either.
\<close>

lemma abort_escalates_stale:
  "report_run (abort_and_land ''cf1'' ''op'' ''test'' False no_context
      (world_of (owned_session VS_FLYING True True)
        [done_step, quiet_step (Inl (cs_error TELEMETRY_STALE ''stale'')) (Inl TimeoutError), done_step,
         seen_step VS_EMERGENCY False False]))
   = (Inl (cs_error TELEMETRY_STALE ''stale''), VS_EMERGENCY, [''abort'', ''emergency_stop''])"
  by code_simp

lemma abort_ignores_timeout:
  "report_run (abort_and_land ''cf1'' ''op'' ''test'' False no_context
      (world_of (owned_session VS_FLYING True True)
        [done_step, quiet_step (Inl TimeoutError) (Inl TimeoutError), done_step, seen_step VS_EMERGENCY False False]))
   = (Inl TimeoutError, VS_LANDING, [''abort''])"
  by code_simp

text \<open>
  The comment in \<open>abort_and_land\<close> says that a safe landing is never inferred from an
  acknowledgement. A fresh sample that says the vehicle still flies is not looked at: it is ready.
\<close>

lemma abort_ready_while_flying:
  "report_run (abort_and_land ''cf1'' ''op'' ''test'' False no_context
      (world_of (owned_session VS_FLYING True True) [done_step, seen_step VS_FLYING True True]))
   = (Inr (), VS_READY, [''abort''])"
  by code_simp

text \<open>
  \<open>release_control\<close> with \<open>allow_expired_owner\<close> lets an expired owner in, and then aborts the flight
  without passing the permission on: the abort is refused and the lease stays.
\<close>

lemma expired_release_refused:
  "report_run (release_control ''cf1'' ''op'' True
      (world_of ((owned_session VS_FLYING True True)\<lparr>s_lease := Some \<lparr>cl_owner_id = ''op'', cl_expires_at = 1\<rparr>\<rparr>)
        [done_step, seen_step VS_READY False False]))
   = (Inl (cs_error MODE_NOT_AUTHORIZED ''control lease has expired''), VS_FLYING, [])"
  by code_simp

text \<open>
  An authorization stays when the mode is left, and its own mode is never compared: a vehicle that
  was once authorized for SHADOW has command authority in LIVE mode as soon as LIVE is authorized
  for any other vehicle.
\<close>

lemma plain_event_keeps_authority:
  "sv_mode (w_sup (snd (plain_event vid ty msg w))) = sv_mode (w_sup w)
   \<and> sv_live_authorizations (w_sup (snd (plain_event vid ty msg w))) = sv_live_authorizations (w_sup w)"
  by (simp add: plain_event_def emit_event_def outcome_simps) (simp add: update_sup_def record_event_def deliver_def)

lemma each_plain_event_keeps_authority:
  "sv_mode (w_sup (snd (each (\<lambda>vid. plain_event vid ty msg) vids w))) = sv_mode (w_sup w)
   \<and> sv_live_authorizations (w_sup (snd (each (\<lambda>vid. plain_event vid ty msg) vids w))) = sv_live_authorizations (w_sup w)"
proof (induction vids arbitrary: w)
  case (Cons v vids)
  have "seq (plain_event v ty msg) (\<lambda>_. each (\<lambda>vid. plain_event vid ty msg) vids) w =
      each (\<lambda>vid. plain_event vid ty msg) vids (snd (plain_event v ty msg w))"
    by (simp add: plain_event_def emit_event_def outcome_simps) (simp add: update_sup_def)
  with Cons.IH [of "snd (plain_event v ty msg w)"] plain_event_keeps_authority [of v ty msg w] show ?case by simp
qed (simp add: ret_def)

lemma set_mode_live:
  assumes "set_mode LIVE authorization w = (Inr u, w')"
  shows "sv_mode (w_sup w') = LIVE"
    and "dict_get (sv_live_authorizations (w_sup w)) vid \<noteq> None \<Longrightarrow>
         dict_get (sv_live_authorizations (w_sup w')) vid \<noteq> None"
proof -
  obtain a where a: "authorization = Some a"
    using assms by (auto simp: set_mode_def authorize_mode_def when_do_def outcome_simps split: if_splits option.splits)
  let ?sv = "(w_sup w)\<lparr>sv_live_authorizations := dict_set (au_vehicle_id a) a (sv_live_authorizations (w_sup w)),
    sv_mode := LIVE\<rparr>"
  have "w' = snd (each (\<lambda>vid. plain_event vid ''MODE_CHANGED'' (''mode changed to '' @ operating_mode_value LIVE))
      (dict_keys (sv_sessions (w_sup w))) (w\<lparr>w_sup := ?sv\<rparr>))"
    using assms unfolding a
    by (auto simp: set_mode_def authorize_mode_def when_do_def outcome_simps split: if_splits option.splits)
  with each_plain_event_keeps_authority [where w = "w\<lparr>w_sup := ?sv\<rparr>"]
  show "sv_mode (w_sup w') = LIVE"
    "dict_get (sv_live_authorizations (w_sup w)) vid \<noteq> None \<Longrightarrow>
     dict_get (sv_live_authorizations (w_sup w')) vid \<noteq> None" by simp_all
qed

lemma stale_authorization_counts:
  assumes "dict_get (sv_live_authorizations (w_sup w)) (vehicle_id_of (s_vehicle s)) = Some a" "au_mode a = SHADOW"
    and "authority_of s = PHYSICAL" "set_mode LIVE authorization w = (Inr u, w')"
  shows "command_authority (w_sup w') s"
  using set_mode_live [OF assms(4)] assms(1,3) by (simp add: command_authority_def)

text \<open>
  A vehicle id of 90 characters is a valid identifier, but its preflight report id is not: the
  preflight of such a vehicle always raises.
\<close>

definition long_vehicle_id :: string where
  "long_vehicle_id = replicate 90 (CHR ''v'')"

lemma long_vehicle_id_unusable:
  "valid_identifier long_vehicle_id \<and> \<not> valid_identifier (report_id_for long_vehicle_id n)"
proof
  show "valid_identifier long_vehicle_id" by code_simp
  have "length (report_id_for long_vehicle_id n) > 96"
    by (simp add: report_id_for_def long_vehicle_id_def)
  then show "\<not> valid_identifier (report_id_for long_vehicle_id n)" by (simp add: valid_identifier_def)
qed

section \<open>Permitted transitions\<close>

definition next_reading :: "world \<Rightarrow> world" where
  "next_reading w = w\<lparr>w_clock := w_clock w\<lparr>reads := Suc (reads (w_clock w))\<rparr>\<rparr>"

lemma next_reading_sel [simp]:
  "w_sup (next_reading w) = w_sup w" "w_calls (next_reading w) = w_calls w"
  by (simp_all add: next_reading_def)

lemma transition_allowed:
  assumes "dict_get (sv_sessions (w_sup w)) vid = Some s" "can_transition (s_state s) t"
  shows "\<exists>w2. transition vid t src w = (Inr (), w2) \<and> w_calls w2 = w_calls w \<and>
     dict_get (sv_sessions (w_sup w2)) vid = Some (s\<lparr>s_state := t\<rparr>)"
  using assms
  by (simp add: transition_def emit_event_def update_session_def put_session_def outcome_simps require_transition_def)
    (simp add: update_sup_def)

lemma interrupt_idle:
  "dict_get (sv_sessions (w_sup w)) vid = Some s \<Longrightarrow> s_active_task s = None \<Longrightarrow>
     interrupt_active_command vid e w = (Inr (), w)"
  by (simp add: interrupt_active_command_def outcome_simps) (simp add: task_over_def seq_def ret_def)

section \<open>Health\<close>

lemma highest_action_in:
  "issues \<noteq> [] \<Longrightarrow> highest_action issues \<in> hi_action ` set issues"
proof -
  assume "issues \<noteq> []"
  then obtain i js where i: "issues = i # js" by (cases issues) auto
  show ?thesis
    using max_by_in [of action_rank "hi_action i" "map hi_action js"] by (simp add: highest_action_def i)
qed

lemma highest_action_ge:
  "i \<in> set issues \<Longrightarrow> action_rank (hi_action i) \<le> action_rank (highest_action issues)"
proof -
  assume m: "i \<in> set issues"
  then obtain j js where j: "issues = j # js" by (cases issues) auto
  from m have "hi_action i \<in> set (hi_action j # map hi_action js)" by (auto simp: j)
  from max_by_ge [OF this, of action_rank] show ?thesis by (simp add: highest_action_def j)
qed

lemma action_rank_cases:
  "action_rank a = 0 \<longleftrightarrow> a = RA_NONE" "action_rank a \<le> 1 \<longleftrightarrow> a \<in> {RA_NONE, RA_REJECT_NEW_COMMANDS}"
  "2 \<le> action_rank a \<longleftrightarrow> a \<in> {RA_ABORT_AND_LAND, RA_EMERGENCY_STOP}"
  "3 \<le> action_rank a \<longleftrightarrow> a = RA_EMERGENCY_STOP"
  by (cases a; simp)+

lemma telemetry_issue_actions:
  "i \<in> set (telemetry_issues p air act low age t) \<Longrightarrow> hi_action i = act \<or> (air \<and> hi_action i = RA_EMERGENCY_STOP)"
  by (auto simp: telemetry_issues_def issue_def Let_def split: if_splits option.splits)

lemma issue_actions:
  assumes "i \<in> set (health_issues p s low now)"
  shows "hi_action i = (if s_state s \<in> airborne_states then RA_ABORT_AND_LAND else RA_REJECT_NEW_COMMANDS)
    \<or> (s_state s \<in> airborne_states \<and> hi_action i = RA_EMERGENCY_STOP)"
  using assms telemetry_issue_actions
  by (auto simp: health_issues_def issue_def Let_def split: option.splits if_splits) (metis recovery_action.distinct)+

lemma link_lost_issue:
  "vt_state t = VS_DISCONNECTED \<or> vt_imu t = None \<or> vt_flow t = None \<Longrightarrow>
     \<exists>i \<in> set (telemetry_issues p True act low age t). hi_action i = RA_EMERGENCY_STOP"
  by (auto simp: telemetry_issues_def issue_def Let_def)

section \<open>Properties of the calls\<close>

text \<open>
  C1. Whatever calls are made, in whatever order, whatever the adapters answer or raise, and however
  other coroutines interleave with them (themselves under the same rule): the supervisor's event log
  only grows, its events are numbered consecutively, the policy never changes, and for every vehicle
  the logged transitions lead, each one permitted by the life-cycle table, from its state before to
  its state after. So no state is ever changed without evidence, or outside the table.
\<close>

theorem supervisor_follows_life_cycle:
  assumes "rely (w_steps w)" "w' = snd (each attempt rs w)"
  shows "\<exists>new. sv_events (w_sup w') = sv_events (w_sup w) @ new \<and> numbered (sv_event_sequence (w_sup w)) new
    \<and> sv_event_sequence (w_sup w') = sv_event_sequence (w_sup w) + int (length new)
    \<and> sv_policy (w_sup w') = sv_policy (w_sup w)
    \<and> (\<forall>vid. path (state_of (w_sup w) vid) (moves vid new) (state_of (w_sup w') vid))"
proof -
  have "lawful w w'" using kept_requests [of rs] assms(2) by (simp add: keeps_def)
  with assms(1) show ?thesis unfolding lawful_def follows_def by blast
qed

theorem supervisor_follows_life_cycle_witness:
  "sv_policy (w_sup (snd (each attempt [Connect ''cf1'', Disconnect ''cf1'' None]
      (world_of (owned_session VS_DISCONNECTED False False) [])))) = default_policy"
proof -
  have "rely (w_steps (world_of (owned_session VS_DISCONNECTED False False) []))" by (simp add: quiet_world)
  from supervisor_follows_life_cycle [OF this refl, of "[Connect ''cf1'', Disconnect ''cf1'' None]"]
  show ?thesis by (auto simp: world_of_def init_supervisor_def)
qed

text \<open>
  C9. Starting from a new supervisor, after any calls with any replies and any lawful interleaving,
  the registry holds every vehicle once, under the identity its adapter reports; so the identity
  check of \<open>receive_telemetry\<close> behind the lookup never fails.
\<close>

theorem sessions_keep_their_identity:
  assumes "rely (w_steps w)" "w_sup w = init_supervisor policy sinks" "w' = snd (each attempt rs w)"
  shows "dict_wf (sv_sessions (w_sup w'))
    \<and> (\<forall>vid s. dict_get (sv_sessions (w_sup w')) vid = Some s \<longrightarrow> vehicle_id_of (s_vehicle s) = vid)
    \<and> fst (receive_telemetry e w') \<noteq> Inl (cs_error IDENTITY_MISMATCH ''telemetry identity mismatch'')"
proof -
  have "lawful w w'" using kept_requests [of rs] assms(3) by (simp add: keeps_def)
  with assms(1) have "registry_ok (w_sup w) \<longrightarrow> registry_ok (w_sup w')" unfolding lawful_def follows_def by blast
  moreover have "registry_ok (w_sup w)" by (simp add: assms(2) registry_ok_def init_supervisor_def)
  ultimately have r: "registry_ok (w_sup w')" by blast
  have "fst (receive_telemetry e w') \<noteq> Inl (cs_error IDENTITY_MISMATCH ''telemetry identity mismatch'')"
    using r by (simp add: receive_telemetry_def outcome_simps registry_ok_def cs_error_def split: option.split)
      (simp add: ret_def update_session_def notify_def update_sup_def outcome_simps)
  with r show ?thesis unfolding registry_ok_def by blast
qed

theorem sessions_keep_their_identity_witness:
  "dict_wf (sv_sessions (w_sup (snd (each attempt [RegisterVehicle (sample_vehicle ''cf1'' SIMULATION), Connect ''cf1'']
      ((world_of (owned_session VS_READY False False) [])\<lparr>w_sup := init_supervisor None []\<rparr>)))))"
proof -
  let ?w = "(world_of (owned_session VS_READY False False) [])\<lparr>w_sup := init_supervisor None []\<rparr>"
  let ?rs = "[RegisterVehicle (sample_vehicle ''cf1'' SIMULATION), Connect ''cf1'']"
  have "rely (w_steps ?w)" using quiet_world [of "[]"] by simp
  moreover have "w_sup ?w = init_supervisor None []" by simp
  ultimately show ?thesis
    using sessions_keep_their_identity [where w = ?w and w' = "snd (each attempt ?rs ?w)" and rs = ?rs] by blast
qed

text \<open>
  Only well-formed envelopes reach an adapter, and none in REPLAY mode, whatever the calls and
  the environment: the check of \<open>CommandEnvelope\<close> stands before every \<open>execute\<close>.
\<close>

theorem only_valid_commands_reach_adapters:
  "\<exists>new. w_calls (snd (each attempt rs w)) = w_calls w @ new
     \<and> list_all (\<lambda>e. envelope_ok e \<and> ce_mode e \<noteq> REPLAY) (executes new)"
proof -
  have "lawful w (snd (each attempt rs w))" using kept_requests [of rs] by (simp add: keeps_def)
  then obtain new where "w_calls (snd (each attempt rs w)) = w_calls w @ new"
    "list_all (\<lambda>e. check_envelope e = Inr ()) (executes new)" unfolding lawful_def by blast
  then show ?thesis by (auto simp: check_envelope_def list_all_iff raise_first_Inr split: if_splits)
qed

text \<open>
  C2. \<open>arm\<close> talks to an adapter only if the caller holds the control lease, unexpired, a preflight
  report with the given id was approved for this caller in the current mode and is still valid, the
  mode has command authority over this backend, and the life-cycle table permits arming.
\<close>

theorem arm_is_gated:
  assumes "w_calls (snd (arm vid owner report_id now_s cx w)) \<noteq> w_calls w" "now = effective_now now_s w"
  shows "\<exists>s l r. dict_get (sv_sessions (w_sup w)) vid = Some s
    \<and> s_lease s = Some l \<and> cl_owner_id l = owner \<and> now < cl_expires_at l
    \<and> s_preflight s = Some r \<and> pr_report_id r = report_id \<and> pr_operator_id r = owner
    \<and> pr_mode r = sv_mode (w_sup w) \<and> pr_approved r \<and> now \<le> pr_expires_at r
    \<and> command_authority (w_sup w) s \<and> can_transition (s_state s) VS_ARMING"
proof -
  obtain s where s: "dict_get (sv_sessions (w_sup w)) vid = Some s"
    using assms(1) unknown_vehicle_calls(1) by (metis option.exhaust)
  from arm_stops [OF s assms(2)] assms(1)
  have "require_owner s owner now False = Inr ()" "require_preflight (sv_mode (w_sup w)) s owner report_id now = Inr ()"
    "require_real_authority (w_sup w) s = Inr ()" "can_transition (s_state s) VS_ARMING" by blast+
  with s show ?thesis
    unfolding require_owner_Inr require_preflight_Inr require_real_authority_Inr by blast
qed

theorem arm_is_gated_witness:
  "\<exists>s r. dict_get (sv_sessions (w_sup (world_of (owned_session VS_READY False False)
       [done_step, seen_step VS_READY True False]))) ''cf1'' = Some s
    \<and> s_preflight s = Some r \<and> pr_approved r \<and> 10 \<le> pr_expires_at r"
proof -
  let ?w = "world_of (owned_session VS_READY False False) [done_step, seen_step VS_READY True False]"
  let ?r = "arm ''cf1'' ''op'' ''preflight-cf1-0'' (Some 10) no_context ?w"
  have "kinds_sent (snd ?r) = [''arm'']" using sample_arm_run by (simp add: report_run_def)
  then have "w_calls (snd ?r) \<noteq> w_calls ?w" by (auto simp: kinds_sent_def world_of_def)
  from arm_is_gated [OF this refl] show ?thesis by (auto simp: effective_now_def)
qed

text \<open>
  C3. \<open>takeoff\<close> talks to an adapter only for the unexpired owner of a ready vehicle whose last sample
  says it is armed, under command authority, and only to a height and at a speed and acceleration
  within the policy.
\<close>

theorem takeoff_is_gated:
  assumes "w_calls (snd (takeoff vid owner h d cx w)) \<noteq> w_calls w"
    and "now = readings (w_clock w) (reads (w_clock w))" "p = sv_policy (w_sup w)"
  shows "\<exists>s l e. dict_get (sv_sessions (w_sup w)) vid = Some s
    \<and> s_lease s = Some l \<and> cl_owner_id l = owner \<and> now < cl_expires_at l \<and> command_authority (w_sup w) s
    \<and> s_state s = VS_READY \<and> s_telemetry s = Some e \<and> vt_armed (te_telemetry e)
    \<and> 0 < h \<and> h \<le> max_altitude_m p \<and> 0 < d \<and> d \<le> max_mission_duration_s p
    \<and> 3 / 2 * h / d \<le> max_vertical_speed_m_s p \<and> 6 * h / d ^ 2 \<le> max_acceleration_m_s2 p"
proof -
  obtain s where s: "dict_get (sv_sessions (w_sup w)) vid = Some s"
    using assms(1) unknown_vehicle_calls(2) by (metis option.exhaust)
  from takeoff_stops [OF s, of owner h d cx] assms
  have "require_command_ready (w_sup w) s owner now = Inr ()" "validate_takeoff p h d = Inr ()" by blast+
  with s show ?thesis unfolding require_command_ready_Inr validate_takeoff_Inr by blast
qed

theorem takeoff_is_gated_witness:
  "\<exists>s e. dict_get (sv_sessions (w_sup (world_of (owned_session VS_READY True False)
       [done_step, seen_step VS_FLYING True True]))) ''cf1'' = Some s
    \<and> s_telemetry s = Some e \<and> vt_armed (te_telemetry e)"
proof -
  let ?w = "world_of (owned_session VS_READY True False) [done_step, seen_step VS_FLYING True True]"
  let ?r = "takeoff ''cf1'' ''op'' (1 / 2) 4 no_context ?w"
  have "kinds_sent (snd ?r) = [''takeoff'']" using sample_takeoff_run by (simp add: report_run_def)
  then have "w_calls (snd ?r) \<noteq> w_calls ?w" by (auto simp: kinds_sent_def world_of_def)
  from takeoff_is_gated [OF this refl refl] show ?thesis by blast
qed

text \<open>
  C7. A sample that its source clock has already passed cannot renew the freshness the watchdog
  measures: it leaves the whole state as it was. A new one is stored with the monotonic reading of
  its arrival, and on the same clock it has a later epoch, or moves sequence and source time forward
  together, at least one of them strictly.
\<close>

theorem stale_sample_cannot_refresh:
  assumes "dict_get (sv_sessions (w_sup w)) (te_vehicle_id e) = Some s" "vehicle_id_of (s_vehicle s) = te_vehicle_id e"
    and "w' = snd (receive_telemetry e w)"
  shows "if stale_sample (s_telemetry s) e then w' = w
    else map_option (\<lambda>s'. (s_telemetry s', s_received_at s')) (dict_get (sv_sessions (w_sup w')) (te_vehicle_id e))
           = Some (Some e, Some (readings (w_clock w) (reads (w_clock w))))
      \<and> list_all (\<lambda>p. te_source_clock_id e \<noteq> te_source_clock_id p \<or>
            te_source_clock_epoch p < te_source_clock_epoch e \<or>
            (te_source_clock_epoch p = te_source_clock_epoch e \<and> te_sequence p \<le> te_sequence e \<and>
             te_source_timestamp_s p \<le> te_source_timestamp_s e \<and>
             (te_sequence p < te_sequence e \<or> te_source_timestamp_s p < te_source_timestamp_s e)))
          (case s_telemetry s of None \<Rightarrow> [] | Some p \<Rightarrow> [p])"
proof (cases "stale_sample (s_telemetry s) e")
  case True
  with assms show ?thesis by (simp add: receive_telemetry_def outcome_simps ret_def)
next
  case False
  with assms have "w_sup w' = deliver (TelemetryReceived e) (put_session (te_vehicle_id e)
      (\<lambda>s. s\<lparr>s_telemetry := Some e, s_received_at := Some (readings (w_clock w) (reads (w_clock w)))\<rparr>) (w_sup w))"
    by (simp add: receive_telemetry_def outcome_simps update_session_def notify_def) (simp add: update_sup_def)
  with False assms(1) show ?thesis
    by (auto simp: deliver_def put_session_def stale_sample_def split: option.splits)
qed

theorem stale_sample_cannot_refresh_witness:
  "snd (receive_telemetry (sample_at ''cf1'' 1 (healthy_telemetry VS_FLYING True True (vec 0 0 0)))
      (world_of (owned_session VS_FLYING True True) [])) = world_of (owned_session VS_FLYING True True) []"
proof -
  let ?w = "world_of (owned_session VS_FLYING True True) []"
  let ?e = "sample_at ''cf1'' 1 (healthy_telemetry VS_FLYING True True (vec 0 0 0))"
  have "dict_get (sv_sessions (w_sup ?w)) (te_vehicle_id ?e) = Some (owned_session VS_FLYING True True)"
    "vehicle_id_of (s_vehicle (owned_session VS_FLYING True True)) = te_vehicle_id ?e"
    by (simp_all add: world_of_def sample_at_def owned_session_def new_session_def sample_vehicle_def)
  from stale_sample_cannot_refresh [OF this refl]
  show ?thesis by (simp add: stale_sample_def owned_session_def sample_at_def)
qed

text \<open>
  C8. The recovery action of a health assessment is the action of one of its issues, and no issue asks
  for a more severe one; there is none exactly when there is no issue. On the ground the watchdog only refuses new commands; in the
  air every issue lands or stops the vehicle, and a vehicle that reports itself disconnected, or
  without IMU or flow data, is stopped.
\<close>

theorem health_action_is_worst:
  assumes "a = assess_health sv vid s low now"
  shows "(ha_action a = RA_NONE \<longleftrightarrow> ha_healthy a) \<and> (ha_healthy a \<longleftrightarrow> ha_issues a = [])
    \<and> (ha_issues a \<noteq> [] \<longrightarrow> ha_action a \<in> hi_action ` set (ha_issues a))
    \<and> list_all (\<lambda>i. action_rank (hi_action i) \<le> action_rank (ha_action a)) (ha_issues a)
    \<and> (if s_state s \<in> airborne_states
        then ha_action a \<in> {RA_NONE, RA_ABORT_AND_LAND, RA_EMERGENCY_STOP}
        else ha_action a \<in> {RA_NONE, RA_REJECT_NEW_COMMANDS})
    \<and> (s_state s \<in> airborne_states \<and> s_telemetry s = Some e \<and> s_received_at s = Some t \<and>
        (vt_state (te_telemetry e) = VS_DISCONNECTED \<or> vt_imu (te_telemetry e) = None \<or> vt_flow (te_telemetry e) = None)
        \<longrightarrow> ha_action a = RA_EMERGENCY_STOP)"
proof -
  let ?is = "health_issues (sv_policy sv) s low now"
  have a: "ha_issues a = ?is" "ha_action a = highest_action ?is" "ha_healthy a \<longleftrightarrow> ?is = []"
    by (simp_all add: assms assess_health_def Let_def)
  have ge: "action_rank (hi_action i) \<le> action_rank (highest_action ?is)" if "i \<in> set ?is" for i
    using highest_action_ge that .
  have none: "highest_action ?is = RA_NONE \<longleftrightarrow> ?is = []"
  proof
    assume n: "highest_action ?is = RA_NONE"
    show "?is = []"
    proof (rule ccontr)
      assume "?is \<noteq> []"
      then obtain i where "i \<in> set ?is" "hi_action i = RA_NONE" using highest_action_in n by force
      with issue_actions [of i "sv_policy sv" s low now] show False by (auto split: if_splits)
    qed
  qed (simp add: highest_action_def)
  have kinds: "if s_state s \<in> airborne_states
      then highest_action ?is \<in> {RA_NONE, RA_ABORT_AND_LAND, RA_EMERGENCY_STOP}
      else highest_action ?is \<in> {RA_NONE, RA_REJECT_NEW_COMMANDS}"
  proof (cases "?is = []")
    case True
    with none show ?thesis by auto
  next
    case False
    then obtain i where "i \<in> set ?is" "hi_action i = highest_action ?is" using highest_action_in by force
    with issue_actions [of i "sv_policy sv" s low now] show ?thesis by (auto split: if_splits)
  qed
  have stop: "highest_action ?is = RA_EMERGENCY_STOP"
    if c: "s_state s \<in> airborne_states" "s_telemetry s = Some e" "s_received_at s = Some t"
      "vt_state (te_telemetry e) = VS_DISCONNECTED \<or> vt_imu (te_telemetry e) = None \<or> vt_flow (te_telemetry e) = None"
  proof -
    from link_lost_issue [OF c(4)] obtain i where "i \<in> set ?is" "hi_action i = RA_EMERGENCY_STOP"
      using c(1-3) by (fastforce simp: health_issues_def Let_def)
    with ge [of i] action_rank_cases(4) show ?thesis by force
  qed
  have attained: "?is \<noteq> [] \<longrightarrow> highest_action ?is \<in> hi_action ` set ?is" using highest_action_in by blast
  show ?thesis unfolding a list_all_iff using none kinds ge stop attained by blast
qed

text \<open>A flying vehicle whose samples carry no IMU reading.\<close>

definition blind_session :: session where
  "blind_session = (owned_session VS_FLYING True True)\<lparr>s_telemetry :=
     Some (sample_at ''cf1'' 1 ((healthy_telemetry VS_FLYING True True (vec 0 0 (1 / 2)))\<lparr>vt_imu := None\<rparr>))\<rparr>"

theorem health_action_is_worst_witness:
  "let a = assess_health (init_supervisor None []) ''cf1'' blind_session False 10 in
     ha_action a = RA_EMERGENCY_STOP \<and> \<not> ha_healthy a \<and> (\<exists>i \<in> set (ha_issues a). hi_action i = RA_EMERGENCY_STOP)"
proof -
  define a where "a = assess_health (init_supervisor None []) ''cf1'' blind_session False 10"
  have s: "s_state blind_session \<in> airborne_states" "s_received_at blind_session = Some 9"
    by (simp_all add: blind_session_def owned_session_def airborne_states_def)
  obtain e where e: "s_telemetry blind_session = Some e" "vt_imu (te_telemetry e) = None"
    by (simp add: blind_session_def sample_at_def)
  note worst = health_action_is_worst [OF a_def, of e 9]
  have stop: "ha_action a = RA_EMERGENCY_STOP" using worst s e by blast
  with worst have "\<not> ha_healthy a" "ha_issues a \<noteq> []" by auto
  with stop worst show ?thesis unfolding a_def [symmetric] Let_def by (metis imageE)
qed

text \<open>
  C6. \<open>land\<close> records LANDING before it builds the command. A landing whose parameters the command
  refuses (a duration that is not positive, a goal region the target does not match) raises, sends
  nothing, and leaves the flying vehicle in LANDING, from where the supervisor refuses to abort, even
  for an expired owner.
\<close>

theorem refused_landing_strands_vehicle:
  assumes "dict_get (sv_sessions (w_sup w)) vid = Some s" "s_state s = VS_FLYING" "\<not> flies_trajectory s"
    and "s_lease s = Some l" "cl_owner_id l = owner" "readings (w_clock w) (reads (w_clock w)) < cl_expires_at l"
    and "opt_all (contains (flight_volume (sv_policy (w_sup w)))) target"
    and "check_plain_payload (LandCommand (landing_command duration target goal)) = Inl e"
    and "(r, w') = land vid owner duration target goal cx w"
  shows "r = Inl e \<and> w_calls w' = w_calls w \<and> state_of (w_sup w') vid = VS_LANDING
    \<and> abort_and_land vid owner reason True cx' w'
        = (Inl (cs_error INVALID_STATE ''vehicle is not in an abortable state''), next_reading w')"
proof -
  let ?now = "readings (w_clock w) (reads (w_clock w))"
  have own: "require_flying s owner ?now = Inr ()" using assms(2,4-6) by (simp add: require_flying_Inr)
  obtain w2 where t: "transition vid VS_LANDING (cx_source cx) (next_reading w) = (Inr (), w2)"
    "w_calls w2 = w_calls (next_reading w)"
    "dict_get (sv_sessions (w_sup w2)) vid = Some (s\<lparr>s_state := VS_LANDING\<rparr>)"
    using transition_allowed [of "next_reading w" vid s VS_LANDING "cx_source cx"] assms(1,2)
    by (auto simp: can_transition_def next_reading_def)
  have run: "land vid owner duration target goal cx w = (Inl e, w2)"
    using assms(1,3,7,8) own t(1)
    by (simp add: land_def guard_flying_def when_do_def outcome_simps flip: next_reading_def)
      (simp add: seq_def outcome_simps lift_outcome_def)
  with assms(9) have w': "r = Inl e" "w' = w2" by simp_all
  have "abort_and_land vid owner reason True cx' w2
      = (Inl (cs_error INVALID_STATE ''vehicle is not in an abortable state''), next_reading w2)"
    using t(3) assms(4,5)
    by (simp add: abort_and_land_def guard_owner_def outcome_simps airborne_states_def require_owner_def flip: next_reading_def)
  with w' t show ?thesis by (simp add: state_of_def next_reading_def)
qed

theorem refused_landing_strands_vehicle_witness:
  "state_of (w_sup (snd (land ''cf1'' ''op'' 0 None None no_context (world_of (owned_session VS_FLYING True True) []))))
     ''cf1'' = VS_LANDING"
proof -
  let ?w = "world_of (owned_session VS_FLYING True True) []" and ?s = "owned_session VS_FLYING True True"
  have "dict_get (sv_sessions (w_sup ?w)) ''cf1'' = Some ?s" by (simp add: world_of_def)
  moreover have "s_state ?s = VS_FLYING" "\<not> flies_trajectory ?s"
    "s_lease ?s = Some \<lparr>cl_owner_id = ''op'', cl_expires_at = 100\<rparr>"
    by (simp_all add: owned_session_def new_session_def flies_trajectory_def)
  moreover have "cl_owner_id \<lparr>cl_owner_id = ''op'', cl_expires_at = 100\<rparr> = ''op''"
    "readings (w_clock ?w) (reads (w_clock ?w)) < cl_expires_at \<lparr>cl_owner_id = ''op'', cl_expires_at = 100\<rparr>"
    "opt_all (contains (flight_volume (sv_policy (w_sup ?w)))) None"
    by (simp_all add: world_of_def)
  moreover have "check_plain_payload (LandCommand (landing_command 0 None None)) = Inl (ValidationError ''LandCommand field'')"
    by (simp add: target_height_agrees_def landing_command_def)
  ultimately show ?thesis
    using refused_landing_strands_vehicle [of ?w "''cf1''" ?s _ "''op''" None 0 None _ _ _ no_context]
    by (metis prod.collapse)
qed

text \<open>
  \<open>emergency_stop\<close> records EMERGENCY before it builds the command. With a reason the command
  refuses (empty, or longer than 500 characters) it raises without a call of the adapter: the
  supervisor shows an emergency stop, from which only a disconnection leads on, and the vehicle was
  never told to stop.
\<close>

theorem refused_emergency_stop_sends_nothing:
  assumes "dict_get (sv_sessions (w_sup w)) vid = Some s" "can_transition (s_state s) VS_EMERGENCY"
    and "s_lease s = Some l" "cl_owner_id l = owner" "s_active_task s = None" "\<not> reason_ok reason"
    and "(r, w') = emergency_stop vid owner reason True cx w"
  shows "r = Inl (ValidationError ''EmergencyStopCommand field'') \<and> w_calls w' = w_calls w
    \<and> state_of (w_sup w') vid = VS_EMERGENCY"
proof -
  obtain w2 where t: "transition vid VS_EMERGENCY CS_SUPERVISOR (next_reading w) = (Inr (), w2)"
    "w_calls w2 = w_calls (next_reading w)"
    "dict_get (sv_sessions (w_sup w2)) vid = Some (s\<lparr>s_state := VS_EMERGENCY\<rparr>)"
    using transition_allowed [of "next_reading w" vid s VS_EMERGENCY CS_SUPERVISOR] assms(1,2)
    by (auto simp: next_reading_def)
  have i: "interrupt_active_command vid err (next_reading w) = (Inr (), next_reading w)" for err
    using assms(1,5) by (simp add: interrupt_idle next_reading_def)
  have "emergency_stop vid owner reason True cx w = (Inl (ValidationError ''EmergencyStopCommand field''), w2)"
    using assms(1,3,4,6) t(1) i
    by (simp add: emergency_stop_def guard_owner_def outcome_simps require_owner_def flip: next_reading_def)
      (simp add: seq_def outcome_simps lift_outcome_def)
  with assms(7) t show ?thesis by (simp add: state_of_def next_reading_def)
qed

theorem refused_emergency_stop_sends_nothing_witness:
  "w_calls (snd (emergency_stop ''cf1'' ''op'' [] True no_context (world_of (owned_session VS_FLYING True True) []))) = []"
proof -
  let ?w = "world_of (owned_session VS_FLYING True True) []" and ?s = "owned_session VS_FLYING True True"
  have "dict_get (sv_sessions (w_sup ?w)) ''cf1'' = Some ?s" "w_calls ?w = []" by (simp_all add: world_of_def)
  moreover have "can_transition (s_state ?s) VS_EMERGENCY" "s_active_task ?s = None"
    "s_lease ?s = Some \<lparr>cl_owner_id = ''op'', cl_expires_at = 100\<rparr>"
    "cl_owner_id \<lparr>cl_owner_id = ''op'', cl_expires_at = 100\<rparr> = ''op''" "\<not> reason_ok []"
    by (simp_all add: owned_session_def new_session_def can_transition_def reason_ok_def)
  ultimately show ?thesis
    using refused_emergency_stop_sends_nothing [of ?w "''cf1''" ?s _ "''op''" "[]" _ _ no_context]
    by (metis prod.collapse)
qed

end
