(* ===== verification/Retiming.thy ===== *)
theory Retiming
  imports Trajectory SafetyPolicy
begin

text \<open>
  How \<open>planning/deconfliction.py\<close> rewrites an accepted execution program: a hold before its
  trajectory or a longer wait before the launch, a slower traversal of the same path, a lateral or
  vertical bump. \<open>_rebuild_program\<close> validates the program it builds but, as pydantic does not
  revalidate model instances, not the operations inside it; \<open>rebuild_program\<close> therefore checks the
  fields and the schedule of the program only. The lemmas show where each rewritten program puts the
  vehicle, and that delayed and retimed programs would pass the full validator all the same.
\<close>

text \<open>The canonical SHA-256 of a trajectory, of a program, and of a route with its two offsets.\<close>

record planning_hash =
  ph_trajectory :: "trajectory \<Rightarrow> string"
  ph_program :: "execution_program \<Rightarrow> string"
  ph_route :: "string \<Rightarrow> real \<Rightarrow> real \<Rightarrow> string"

section \<open>Positions of a program\<close>

definition trajectory_operations :: "execution_program \<Rightarrow> execution_operation list" where
  "trajectory_operations p = filter is_TrajectoryOp (ep_operations p)"

definition first_trajectory :: "execution_program \<Rightarrow> execution_operation outcome" where
  "first_trajectory p = (case trajectory_operations p of [] \<Rightarrow> Inl index_error | op # _ \<Rightarrow> Inr op)"

definition operation_position :: "execution_operation \<Rightarrow> real \<Rightarrow> vector3 outcome" where
  "operation_position op t =
     (let tr = op_trajectory op in
      if t \<le> op_starts_at_s op then Inr (tp_position_m (hd (tr_points tr)))
      else if t \<ge> op_ends_at_s op then Inr (tp_position_m (last (tr_points tr)))
      else bind_ok (sample_trajectory tr (t - op_starts_at_s op)) (\<lambda>sp. Inr (sp_position_m sp)))"

definition program_position :: "execution_program \<Rightarrow> real \<Rightarrow> vector3 outcome" where
  "program_position p t = bind_ok (first_trajectory p) (\<lambda>op. operation_position op t)"

definition trajectory_schedule_window :: "execution_program \<Rightarrow> (real \<times> real) outcome" where
  "trajectory_schedule_window p =
     bind_ok (first_trajectory p) (\<lambda>op. Inr (op_starts_at_s op, op_ends_at_s op))"

section \<open>Rebuilding a program\<close>

text \<open>\<open>model_copy\<close> of an operation with a new number and new times.\<close>

fun reschedule :: "int \<Rightarrow> real \<Rightarrow> real \<Rightarrow> execution_operation \<Rightarrow> execution_operation" where
  "reschedule n s e (TakeoffOp _ _ _ h) = TakeoffOp n s e h"
| "reschedule n s e (GroundWaitOp _ _ _) = GroundWaitOp n s e"
| "reschedule n s e (HoldOp _ _ _) = HoldOp n s e"
| "reschedule n s e (TrajectoryOp _ _ _ h t) = TrajectoryOp n s e h t"
| "reschedule n s e (LandOp _ _ _ h g) = LandOp n s e h g"

definition rebuild_program :: "execution_program \<Rightarrow> execution_operation list \<Rightarrow> execution_program outcome" where
  "rebuild_program original ops =
     (let d = op_ends_at_s (last ops);
          p = original\<lparr>ep_program_id := ep_program_id original @ ''-resolved'',
                ep_operations := ops,
                ep_route_sha256s := map tr_route_sha256 (map snd (trajectories_of ops)),
                ep_schedule_duration_s := d,
                ep_execution_timeout_s := d + ep_contingency_reserve_s original + ep_recovery_reserve_s original\<rparr>
      in if \<not> program_fields_ok p then Inl (ValidationError ''AcceptedExecutionProgram field'')
         else bind_ok (coherent_schedule p) (\<lambda>_. Inr p))"

section \<open>Delays\<close>

definition shift_after :: "nat \<Rightarrow> real \<Rightarrow> execution_operation list \<Rightarrow> execution_operation list" where
  "shift_after k d ops =
     map (\<lambda>(i, op). if k \<le> i then reschedule (int i + 1) (op_starts_at_s op + d) (op_ends_at_s op + d) op else op)
       (List.enumerate 0 ops)"

definition renumber_before :: "nat \<Rightarrow> execution_operation list \<Rightarrow> execution_operation list" where
  "renumber_before k ops =
     map (\<lambda>(i, op). if i < k \<and> op_sequence op \<noteq> int i + 1
            then reschedule (int i + 1) (op_starts_at_s op) (op_ends_at_s op) op else op)
       (List.enumerate 0 ops)"

definition trajectory_index :: "execution_operation list \<Rightarrow> nat" where
  "trajectory_index ops = length (takeWhile (\<lambda>op. \<not> is_TrajectoryOp op) ops)"

text \<open>A hold in front of the trajectory is prolonged, otherwise a new one is inserted.\<close>

definition place_hold ::
    "real \<Rightarrow> execution_operation list \<Rightarrow> nat \<Rightarrow> (execution_operation list \<times> nat) outcome" where
  "place_hold d ops i =
     (if 0 < i \<and> is_HoldOp (ops ! (i - 1)) then
        let hold = ops ! (i - 1) in
        Inr (ops[i - 1 := reschedule (op_sequence hold) (op_starts_at_s hold) (op_ends_at_s hold + d) hold], i)
      else
        let tr = ops ! i; hold = HoldOp (op_sequence tr) (op_starts_at_s tr) (op_starts_at_s tr + d) in
        if \<not> timed_fields_ok hold then Inl (ValidationError ''HoldExecutionOperation field'')
        else Inr (take i ops @ hold # drop i ops, i + 1))"

definition delay_before_trajectory :: "execution_program \<Rightarrow> real \<Rightarrow> execution_program outcome" where
  "delay_before_trajectory p d =
     (let ops = ep_operations p; i = trajectory_index ops in
      if i = length ops then Inl StopIteration
      else bind_ok (place_hold d ops i) (\<lambda>(ops', k).
        rebuild_program p (renumber_before k (shift_after k d ops'))))"

definition place_ground_wait :: "real \<Rightarrow> execution_operation list \<Rightarrow> execution_operation list" where
  "place_ground_wait d ops =
     (if is_GroundWaitOp (hd ops)
      then reschedule (op_sequence (hd ops)) (op_starts_at_s (hd ops)) (op_ends_at_s (hd ops) + d) (hd ops) # tl ops
      else GroundWaitOp 1 0 d # ops)"

definition delay_before_launch :: "execution_program \<Rightarrow> real \<Rightarrow> execution_program outcome" where
  "delay_before_launch p d =
     (if d \<le> 0 then Inr p else rebuild_program p (shift_after 1 d (place_ground_wait d (ep_operations p))))"

section \<open>Slower traversal\<close>

definition scale :: "vector3 \<Rightarrow> real \<Rightarrow> vector3" where
  "scale v k = vec (vx v * k) (vy v * k) (vz v * k)"

definition retime_point :: "real \<Rightarrow> trajectory_point \<Rightarrow> trajectory_point" where
  "retime_point f p = p\<lparr>tp_time := tp_time p * f,
     tp_velocity_m_s := scale (tp_velocity_m_s p) (1 / f),
     tp_acceleration_m_s2 := scale (tp_acceleration_m_s2 p) (1 / f ^ 2),
     tp_yaw_rate_rad_s := tp_yaw_rate_rad_s p / f\<rparr>"

definition retime_trajectory :: "real \<Rightarrow> trajectory \<Rightarrow> trajectory" where
  "retime_trajectory f t = t\<lparr>tr_trajectory_id := tr_trajectory_id t @ ''-retimed'',
     tr_points := map (retime_point f) (tr_points t)\<rparr>"

fun retime_operations ::
    "planning_hash \<Rightarrow> real \<Rightarrow> real \<Rightarrow> execution_operation list \<Rightarrow> execution_operation list outcome" where
  "retime_operations H f added [] = Inr []"
| "retime_operations H f added (TrajectoryOp n s e h t # ops) =
     (if f = 0 then Inl ZeroDivisionError
      else let t' = retime_trajectory f t; d = trajectory_duration_s t' in
        bind_ok (retime_operations H f (added + (d - (e - s))) ops) (\<lambda>rest.
          Inr (TrajectoryOp n (s + added) (s + added + d) (ph_trajectory H t') t' # rest)))"
| "retime_operations H f added (op # ops) =
     bind_ok (retime_operations H f added ops) (\<lambda>rest.
       Inr (reschedule (op_sequence op) (op_starts_at_s op + added) (op_ends_at_s op + added) op # rest))"

definition retime_program :: "planning_hash \<Rightarrow> execution_program \<Rightarrow> real \<Rightarrow> execution_program outcome" where
  "retime_program H p f = bind_ok (retime_operations H f 0 (ep_operations p)) (rebuild_program p)"

section \<open>Lateral and vertical bumps\<close>

definition plateau_bump :: "real \<Rightarrow> real \<Rightarrow> real \<times> real \<times> real" where
  "plateau_bump phase duration =
     (let ramp = 1 / 4 in
      if ramp \<le> phase \<and> phase \<le> 1 - ramp then (1, 0, 0)
      else
        let descending = phase > 1 - ramp;
            u = max 0 (min 1 (if descending then (1 - phase) / ramp else phase / ramp));
            val = 10 * u ^ 3 - 15 * u ^ 4 + 6 * u ^ 5;
            first_u = 30 * u ^ 2 - 60 * u ^ 3 + 30 * u ^ 4;
            second_u = 60 * u - 180 * u ^ 2 + 120 * u ^ 3;
            direction = (if descending then - 1 else 1)
        in (val, direction * first_u / ramp / duration, second_u / ramp ^ 2 / duration ^ 2))"

definition sine_bump :: "real \<Rightarrow> real \<Rightarrow> real \<times> real \<times> real" where
  "sine_bump phase duration =
     (sin (pi * phase) ^ 2, pi * sin (2 * pi * phase) / duration,
      2 * pi ^ 2 * cos (2 * pi * phase) / duration ^ 2)"

text \<open>The values of the sine bump are not rational, so it is not evaluated.\<close>

declare sine_bump_def [code del]

lemma sine_bump_code [code]: "sine_bump (Ratreal p) (Ratreal d) = sine_bump (Ratreal p) (Ratreal d)"
  by (rule refl)

definition bump_of :: "real \<Rightarrow> real \<Rightarrow> real \<Rightarrow> real \<times> real \<times> real" where
  "bump_of horizontal phase duration =
     (if horizontal \<noteq> 0 then plateau_bump phase duration else sine_bump phase duration)"

definition offset_vector :: "vector3 \<Rightarrow> real \<Rightarrow> real \<Rightarrow> vector3" where
  "offset_vector v y z = v\<lparr>vy := vy v + y, vz := vz v + z\<rparr>"

definition offset_point :: "real \<Rightarrow> real \<Rightarrow> real \<Rightarrow> trajectory_point \<Rightarrow> trajectory_point" where
  "offset_point horizontal vertical duration p =
     (case bump_of horizontal (tp_time p / duration) duration of (b, bv, ba) \<Rightarrow>
        p\<lparr>tp_position_m := offset_vector (tp_position_m p) (horizontal * b) (vertical * b),
          tp_velocity_m_s := offset_vector (tp_velocity_m_s p) (horizontal * bv) (vertical * bv),
          tp_acceleration_m_s2 := offset_vector (tp_acceleration_m_s2 p) (horizontal * ba) (vertical * ba)\<rparr>)"

definition offset_trajectory :: "planning_hash \<Rightarrow> real \<Rightarrow> real \<Rightarrow> trajectory \<Rightarrow> trajectory" where
  "offset_trajectory H horizontal vertical t =
     t\<lparr>tr_trajectory_id := tr_trajectory_id t @ ''-offset'',
       tr_route_sha256 := ph_route H (tr_route_sha256 t) horizontal vertical,
       tr_points := map (offset_point horizontal vertical (trajectory_duration_s t)) (tr_points t)\<rparr>"

fun offset_operation ::
    "planning_hash \<Rightarrow> real \<Rightarrow> real \<Rightarrow> execution_operation \<Rightarrow> execution_operation outcome" where
  "offset_operation H horizontal vertical (TrajectoryOp n s e h t) =
     (if trajectory_duration_s t = 0 then Inl ZeroDivisionError
      else let t' = offset_trajectory H horizontal vertical t in
        Inr (TrajectoryOp n s e (ph_trajectory H t') t'))"
| "offset_operation H horizontal vertical op = Inr op"

definition offset_program ::
    "planning_hash \<Rightarrow> execution_program \<Rightarrow> real \<Rightarrow> real \<Rightarrow> execution_program outcome" where
  "offset_program H p horizontal vertical =
     bind_ok (map_ok (offset_operation H horizontal vertical) (ep_operations p)) (rebuild_program p)"

section \<open>Sampling a program\<close>

definition sample_count :: "real \<Rightarrow> nat" where
  "sample_count d = max 1 (nat \<lceil>d / (2 / 100)\<rceil>)"

definition sample_times :: "real \<Rightarrow> real list" where
  "sample_times d = map (\<lambda>i. min d (real i * d / real (sample_count d))) [0..<sample_count d + 1]"

definition setpoint_within :: "safety_policy \<Rightarrow> setpoint \<Rightarrow> bool" where
  "setpoint_within policy sp \<longleftrightarrow>
     \<not> (\<not> contains (flight_volume policy) (sp_position_m sp) \<or>
        vz (sp_position_m sp) > max_altitude_m policy \<or>
        sqrt (vx (sp_velocity_m_s sp) ^ 2 + vy (sp_velocity_m_s sp) ^ 2) > max_horizontal_speed_m_s policy \<or>
        \<bar>vz (sp_velocity_m_s sp)\<bar> > max_vertical_speed_m_s policy \<or>
        sqrt (vx (sp_acceleration_m_s2 sp) ^ 2 + vy (sp_acceleration_m_s2 sp) ^ 2
                + vz (sp_acceleration_m_s2 sp) ^ 2) > max_acceleration_m_s2 policy)"

definition program_admissible :: "execution_program \<Rightarrow> safety_policy \<Rightarrow> bool outcome" where
  "program_admissible p policy =
     all_true (\<lambda>op. let tr = op_trajectory op in
        all_true (\<lambda>t. bind_ok (sample_trajectory tr t) (\<lambda>sp. Inr (setpoint_within policy sp)))
          (sample_times (trajectory_duration_s tr)))
       (trajectory_operations p)"

section \<open>Rescheduled operations\<close>

lemma reschedule_sel [simp]:
  "op_sequence (reschedule n s e op) = n"
  "op_starts_at_s (reschedule n s e op) = s"
  "op_ends_at_s (reschedule n s e op) = e"
  "is_TrajectoryOp (reschedule n s e op) = is_TrajectoryOp op"
  "is_TrajectoryOp op \<Longrightarrow> op_trajectory (reschedule n s e op) = op_trajectory op"
  "is_TrajectoryOp op \<Longrightarrow> op_trajectory_sha256 (reschedule n s e op) = op_trajectory_sha256 op"
  by (cases op; simp)+

lemma reschedule_same [simp]: "reschedule (op_sequence op) (op_starts_at_s op) (op_ends_at_s op) op = op"
  by (cases op) simp_all

section \<open>Retimed trajectories\<close>

lemma quintic_retime:
  assumes "f \<noteq> 0" "d \<noteq> 0"
  shows "quintic_of s (sv * (1 / f)) (sa * (1 / f ^ 2)) e (ev * (1 / f)) (ea * (1 / f ^ 2)) (d * f) =
    (let q = quintic_of s sv sa e ev ea d in
     \<lparr>q0 = q0 q, q1 = q1 q / f, q2 = q2 q / f ^ 2, q3 = q3 q / f ^ 3, q4 = q4 q / f ^ 4, q5 = q5 q / f ^ 5\<rparr>)"
  using assms by (simp add: quintic_of_def Let_def field_simps eval_nat_numeral)

lemma quintic_retime_values:
  assumes "f \<noteq> 0" "d \<noteq> 0"
    and "q = quintic_of s sv sa e ev ea d"
    and "r = quintic_of s (sv * (1 / f)) (sa * (1 / f ^ 2)) e (ev * (1 / f)) (ea * (1 / f ^ 2)) (d * f)"
  shows "quintic_position r (t * f) = quintic_position q t"
    "quintic_velocity r (t * f) = quintic_velocity q t * (1 / f)"
    "quintic_acceleration r (t * f) = quintic_acceleration q t * (1 / f ^ 2)"
  using assms(1) quintic_retime [OF assms(1,2), of s sv sa e ev ea]
  unfolding assms(3) assms(4)
  by (simp_all add: Let_def quintic_position_def quintic_velocity_def quintic_acceleration_def
      field_simps eval_nat_numeral)

lemma clamp_scale: "0 < (f::real) \<Longrightarrow> max 0 (min (d * f) (t * f)) = max 0 (min d t) * f"
  by (auto simp: max_def min_def mult_le_0_iff zero_le_mult_iff)

definition retimed_sample :: "real \<Rightarrow> real \<times> real \<times> real \<Rightarrow> real \<times> real \<times> real" where
  "retimed_sample f pva = (case pva of (p, v, a) \<Rightarrow> (p, v * (1 / f), a * (1 / f ^ 2)))"

lemma quintic_sample_retime:
  assumes "0 < f" "d \<noteq> 0"
  shows "quintic_sample s (sv * (1 / f)) (sa * (1 / f ^ 2)) e (ev * (1 / f)) (ea * (1 / f ^ 2)) (d * f) (t * f) =
    bind_ok (quintic_sample s sv sa e ev ea d t) (\<lambda>x. Inr (retimed_sample f x))"
proof -
  have f: "f \<noteq> 0" using assms by simp
  show ?thesis
    using quintic_retime_values [OF f assms(2) refl refl] assms
    by (simp add: quintic_sample_def retimed_sample_def Let_def clamp_scale)
qed

definition retimed_setpoint :: "real \<Rightarrow> setpoint \<Rightarrow> setpoint" where
  "retimed_setpoint f sp = sp\<lparr>sp_velocity_m_s := scale (sp_velocity_m_s sp) (1 / f),
     sp_acceleration_m_s2 := scale (sp_acceleration_m_s2 sp) (1 / f ^ 2),
     sp_yaw_rate_rad_s := sp_yaw_rate_rad_s sp / f\<rparr>"

lemma retime_point_sel [simp]:
  "tp_time (retime_point f p) = tp_time p * f" "tp_position_m (retime_point f p) = tp_position_m p"
  "tp_yaw_rad (retime_point f p) = tp_yaw_rad p" "tp_sequence (retime_point f p) = tp_sequence p"
  "tp_velocity_m_s (retime_point f p) = scale (tp_velocity_m_s p) (1 / f)"
  "tp_acceleration_m_s2 (retime_point f p) = scale (tp_acceleration_m_s2 p) (1 / f ^ 2)"
  "tp_yaw_rate_rad_s (retime_point f p) = tp_yaw_rate_rad_s p / f"
  by (simp_all add: retime_point_def)

lemma scale_sel [simp]: "vx (scale v k) = vx v * k" "vy (scale v k) = vy v * k" "vz (scale v k) = vz v * k"
  by (simp_all add: scale_def)

lemma sample_axis_retime:
  assumes "0 < f" "tp_time b - tp_time a \<noteq> 0" "axis \<in> {vx, vy, vz}"
  shows "sample_axis axis (retime_point f a) (retime_point f b) ((tp_time b - tp_time a) * f) (t * f) =
    bind_ok (sample_axis axis a b (tp_time b - tp_time a) t) (\<lambda>x. Inr (retimed_sample f x))"
  using quintic_sample_retime [OF assms(1,2)] assms(3) by (auto simp: sample_axis_def)

lemma segment_retime:
  assumes f: "0 < f" and d: "tp_time a < tp_time b"
  shows "sample_trajectory_segment (retime_point f a) (retime_point f b) (t * f) =
    bind_ok (sample_trajectory_segment a b t) (\<lambda>sp. Inr (retimed_setpoint f sp))"
proof -
  let ?d = "tp_time b - tp_time a" and ?e = "t - tp_time a"
  have eq: "tp_time b * f - tp_time a * f = ?d * f" "t * f - tp_time a * f = ?e * f"
    by (simp_all add: algebra_simps)
  have d': "?d \<noteq> 0" using d by simp
  note ax = sample_axis_retime [OF f d', of _ ?e]
  have yaw: "quintic_sample (tp_yaw_rad a) (tp_yaw_rate_rad_s a / f) 0 (tp_yaw_rad b) (tp_yaw_rate_rad_s b / f) 0 (?d * f) (?e * f)
      = bind_ok (quintic_sample (tp_yaw_rad a) (tp_yaw_rate_rad_s a) 0 (tp_yaw_rad b) (tp_yaw_rate_rad_s b) 0 ?d ?e)
          (\<lambda>x. Inr (retimed_sample f x))"
    using quintic_sample_retime [OF f d', of "tp_yaw_rad a" "tp_yaw_rate_rad_s a" 0 "tp_yaw_rad b" "tp_yaw_rate_rad_s b" 0 ?e]
    by simp
  show ?thesis
    unfolding sample_trajectory_segment_def Let_def retime_point_sel eq
    by (simp add: ax yaw retimed_sample_def retimed_setpoint_def scale_def bind_ok_def
        split: sum.splits prod.splits)
qed

lemma bisect_loop_map:
  "(\<And>i. i < length xs \<Longrightarrow> (y < key' (ys ! i)) = (x < key (xs ! i))) \<Longrightarrow> hi \<le> length xs \<Longrightarrow>
   bisect_loop key' ys y lo hi = bisect_loop key xs x lo hi"
proof (induction key xs x lo hi rule: bisect_loop.induct)
  case (1 key xs x lo hi)
  show ?case
  proof (cases "lo < hi")
    case True
    define m where m: "m = (lo + hi) div 2"
    then have "m < hi" using True by auto
    then show ?thesis
      using "1.IH"(1) [OF True m, OF _ "1.prems"(1)] "1.IH"(2) [OF True m, OF _ "1.prems"(1)] "1.prems" True
        bisect_loop_step [OF True, of key xs x] bisect_loop_step [OF True, of key' ys y]
      unfolding m [symmetric] by auto
  qed (simp add: bisect_loop_stop)
qed

lemma retime_trajectory_sel [simp]:
  "tr_points (retime_trajectory f t) = map (retime_point f) (tr_points t)"
  "tr_route_sha256 (retime_trajectory f t) = tr_route_sha256 t"
  "tr_role_id (retime_trajectory f t) = tr_role_id t" "tr_vehicle_id (retime_trajectory f t) = tr_vehicle_id t"
  by (simp_all add: retime_trajectory_def)

lemma retime_duration: "tr_points t \<noteq> [] \<Longrightarrow> trajectory_duration_s (retime_trajectory f t) = trajectory_duration_s t * f"
  by (simp add: trajectory_duration_s_def last_map)

lemma sample_retime:
  assumes acc: "check_trajectory tr = Inr ()" and f: "0 < f"
  shows "sample_trajectory (retime_trajectory f tr) (t * f) =
    bind_ok (sample_trajectory tr t) (\<lambda>sp. Inr (retimed_setpoint f sp))"
proof -
  let ?p = "tr_points tr" and ?b = "bounded_time tr t"
  have ne: "?p \<noteq> []" using accepted_trajectory(1) [OF acc] by auto
  have b: "bounded_time (retime_trajectory f tr) (t * f) = ?b * f"
    using f by (simp add: bounded_time_def retime_duration [OF ne] clamp_scale)
  have "bisect_right tp_time (map (retime_point f) ?p) (?b * f) = bisect_right tp_time ?p ?b"
    unfolding bisect_right_def length_map using f by (intro bisect_loop_map) auto
  then have i: "segment_index (map (retime_point f) ?p) (?b * f) = segment_index ?p ?b"
    by (simp add: segment_index_def)
  note v = accepted_interval(1,2) [OF acc refl, of t]
  show ?thesis
    using segment_retime [OF f v(2), of ?b] v(1)
    by (simp add: sample_trajectory_def b i Let_def)
qed

section \<open>How far a vehicle moves between two instants\<close>

lemma sqrt3_triangle:
  "sqrt ((a + d) ^ 2 + (b + e) ^ 2 + (c + f) ^ 2) \<le> sqrt (a ^ 2 + b ^ 2 + c ^ 2) + sqrt (d ^ 2 + e ^ 2 + f ^ 2)"
proof -
  have "sqrt ((a + d) ^ 2 + (b + e) ^ 2) \<le> sqrt (a ^ 2 + b ^ 2) + sqrt (d ^ 2 + e ^ 2)"
    by (rule real_sqrt_sum_squares_triangle_ineq)
  then have "(sqrt ((a + d) ^ 2 + (b + e) ^ 2)) ^ 2 \<le> (sqrt (a ^ 2 + b ^ 2) + sqrt (d ^ 2 + e ^ 2)) ^ 2"
    by (rule power_mono) simp
  then have "sqrt ((a + d) ^ 2 + (b + e) ^ 2 + (c + f) ^ 2)
      \<le> sqrt ((sqrt (a ^ 2 + b ^ 2) + sqrt (d ^ 2 + e ^ 2)) ^ 2 + (c + f) ^ 2)"
    by simp
  also have "\<dots> \<le> sqrt (sqrt (a ^ 2 + b ^ 2) ^ 2 + c ^ 2) + sqrt (sqrt (d ^ 2 + e ^ 2) ^ 2 + f ^ 2)"
    by (rule real_sqrt_sum_squares_triangle_ineq)
  finally show ?thesis by simp
qed

lemma distance_triangle: "distance a c \<le> distance a b + distance b c"
  using sqrt3_triangle [of "vx a - vx b" "vx b - vx c" "vy a - vy b" "vy b - vy c" "vz a - vz b" "vz b - vz c"]
  by (simp add: distance_def)

lemma distance_self [simp]: "distance a a = 0"
  by (simp add: distance_def)

lemma cauchy_schwarz3:
  "a * d + b * e + c * f \<le> sqrt (a ^ 2 + b ^ 2 + c ^ 2) * sqrt (d ^ 2 + e ^ 2 + (f::real) ^ 2)"
proof -
  have "(a * d + b * e + c * f) ^ 2 + (a * e - b * d) ^ 2 + (a * f - c * d) ^ 2 + (b * f - c * e) ^ 2
      = (a ^ 2 + b ^ 2 + c ^ 2) * (d ^ 2 + e ^ 2 + f ^ 2)"
    by (simp add: power2_eq_square algebra_simps)
  then have "(a * d + b * e + c * f) ^ 2 \<le> (a ^ 2 + b ^ 2 + c ^ 2) * (d ^ 2 + e ^ 2 + f ^ 2)"
    by (smt (verit) zero_le_power2)
  then show ?thesis
    by (simp add: real_le_rsqrt flip: real_sqrt_mult)
qed

lemma vector_length_nonneg [simp]: "0 \<le> vector_length v"
  by (simp add: vector_length_def)

definition axis_quintic :: "(vector3 \<Rightarrow> real) \<Rightarrow> trajectory_point \<Rightarrow> trajectory_point \<Rightarrow> quintic" where
  "axis_quintic axis a b = quintic_of (axis (tp_position_m a)) (axis (tp_velocity_m_s a)) (axis (tp_acceleration_m_s2 a))
     (axis (tp_position_m b)) (axis (tp_velocity_m_s b)) (axis (tp_acceleration_m_s2 b)) (tp_time b - tp_time a)"

definition on_axes :: "(quintic \<Rightarrow> real \<Rightarrow> real) \<Rightarrow> trajectory_point \<Rightarrow> trajectory_point \<Rightarrow> real \<Rightarrow> vector3" where
  "on_axes g a b t = vec (g (axis_quintic vx a b) t) (g (axis_quintic vy a b) t) (g (axis_quintic vz a b) t)"

lemma segment_value:
  assumes "tp_time a < tp_time b" "tp_time a \<le> t" "t \<le> tp_time b"
    and "sample_trajectory_segment a b t = Inr sp"
  shows "sp_position_m sp = on_axes quintic_position a b (t - tp_time a)"
    and "sp_velocity_m_s sp = on_axes quintic_velocity a b (t - tp_time a)"
  using assms
  by (auto simp: sample_trajectory_segment_def sample_axis_def quintic_sample_def on_axes_def axis_quintic_def Let_def
      max_def min_def)

lemma curve_speed:
  assumes le: "s \<le> t" and v: "\<And>z. s < z \<Longrightarrow> z < t \<Longrightarrow> vector_length (on_axes quintic_velocity a b z) \<le> V"
  shows "distance (on_axes quintic_position a b t) (on_axes quintic_position a b s) \<le> V * (t - s)"
proof (cases "s = t")
  case False
  with le have lt: "s < t" by simp
  let ?p = "\<lambda>ax. quintic_position (axis_quintic ax a b)" and ?v = "\<lambda>ax. quintic_velocity (axis_quintic ax a b)"
  define ux uy uz where u: "ux = ?p vx t - ?p vx s" "uy = ?p vy t - ?p vy s" "uz = ?p vz t - ?p vz s"
  define U where U: "U = sqrt (ux ^ 2 + uy ^ 2 + uz ^ 2)"
  let ?g = "\<lambda>z. ux * ?p vx z + uy * ?p vy z + uz * ?p vz z"
  let ?h = "\<lambda>z. ux * ?v vx z + uy * ?v vy z + uz * ?v vz z"
  have "\<And>z. (?g has_real_derivative ?h z) (at z)"
    by (intro DERIV_add DERIV_cmult quintic_velocity_deriv)
  from MVT2 [OF lt this] obtain z where z: "s < z" "z < t" "?g t - ?g s = (t - s) * ?h z" by blast
  have "?h z \<le> U * vector_length (on_axes quintic_velocity a b z)"
    using cauchy_schwarz3 [of ux _ uy _ uz] by (simp add: U vector_length_def on_axes_def)
  also have "\<dots> \<le> U * V" using v [OF z(1,2)] by (simp add: U mult_left_mono)
  finally have "(t - s) * ?h z \<le> (t - s) * (U * V)" using lt by (simp add: mult_left_mono)
  moreover have "?g t - ?g s = ux * ux + uy * uy + uz * uz" by (simp add: u algebra_simps)
  moreover have "U * U = ux * ux + uy * uy + uz * uz" by (simp add: U power2_eq_square)
  ultimately have "U * U \<le> U * (V * (t - s))" using z(3) by (simp add: algebra_simps)
  moreover have "0 \<le> U" by (simp add: U)
  moreover have "0 \<le> V" using v [of "(s + t) / 2"] lt
    by (intro order_trans [OF vector_length_nonneg, of _ V]) simp_all
  ultimately have "U \<le> V * (t - s)" using lt by (cases "U = 0") auto
  then show ?thesis by (simp add: U u distance_def on_axes_def)
qed simp

lemma sample_in_segment:
  assumes acc: "check_trajectory tr = Inr ()" and j: "j + 1 < length (tr_points tr)"
    and t: "tp_time (tr_points tr ! j) \<le> t" "t \<le> tp_time (tr_points tr ! (j + 1))"
  shows "sample_trajectory tr t = sample_trajectory_segment (tr_points tr ! j) (tr_points tr ! (j + 1)) t"
proof -
  let ?p = "tr_points tr"
  have lt: "tp_time (?p ! a) < tp_time (?p ! b)" if "a < b" "b < length ?p" for a b
    using sorted_wrt_nth_less [OF accepted_trajectory(3) [OF acc], of a b] that by simp
  have bt: "bounded_time tr t = t"
    using duration_bounds(1) [OF acc, of j] duration_bounds(2) [OF acc j] t j by (simp add: bounded_time_def)
  define k where k: "k = segment_index ?p (bounded_time tr t)"
  note v = accepted_interval [OF acc k, unfolded bt]
  have val: "sample_trajectory tr t = sample_trajectory_segment (?p ! k) (?p ! (k + 1)) t"
    using bt k by (simp add: sample_trajectory_def Let_def)
  consider "k = j" | "k + 1 \<le> j" | "j + 1 \<le> k" by linarith
  then show ?thesis
  proof cases
    case 2
    then have "t = tp_time (?p ! (k + 1))" "k + 1 = j"
      using lt [of "k + 1" j] v t j by (cases "k + 1 = j"; force)+
    then show ?thesis
      using val segment_late [OF v(2), of t] segment_early [OF lt [of j "j + 1"], of t] j by simp
  next
    case 3
    then have "t = tp_time (?p ! k)" "j + 1 = k"
      using lt [of "j + 1" k] v t by (cases "j + 1 = k"; force)+
    then show ?thesis
      using val segment_early [OF v(2), of t] segment_late [OF lt [of j "j + 1"], of t] j by simp
  qed (simp add: val)
qed

definition speed_bounded :: "trajectory \<Rightarrow> real \<Rightarrow> bool" where
  "speed_bounded tr V \<longleftrightarrow> 0 \<le> V \<and> (\<forall>t sp. sample_trajectory tr t = Inr sp \<longrightarrow> vector_length (sp_velocity_m_s sp) \<le> V)"

lemma segment_speed:
  assumes acc: "check_trajectory tr = Inr ()" and j: "j + 1 < length (tr_points tr)" and V: "speed_bounded tr V"
    and st: "tp_time (tr_points tr ! j) \<le> s" "s \<le> t" "t \<le> tp_time (tr_points tr ! (j + 1))"
    and smp: "sample_trajectory tr s = Inr a" "sample_trajectory tr t = Inr b"
  shows "distance (sp_position_m b) (sp_position_m a) \<le> V * (t - s)"
proof -
  let ?a = "tr_points tr ! j" and ?b = "tr_points tr ! (j + 1)"
  have lt: "tp_time ?a < tp_time ?b"
    using sorted_wrt_nth_less [OF accepted_trajectory(3) [OF acc], of j "j + 1"] j by simp
  note seg = sample_in_segment [OF acc j]
  have speed: "vector_length (on_axes quintic_velocity ?a ?b (z - tp_time ?a)) \<le> V" if "s < z" "z < t" for z
  proof -
    obtain sp where sp: "sample_trajectory tr z = Inr sp" using sample_total [OF acc] by blast
    with seg [of z] that st have "sample_trajectory_segment ?a ?b z = Inr sp" by simp
    from segment_value(2) [OF lt _ _ this] that st
    have "sp_velocity_m_s sp = on_axes quintic_velocity ?a ?b (z - tp_time ?a)" by simp
    moreover have "vector_length (sp_velocity_m_s sp) \<le> V" using V sp unfolding speed_bounded_def by blast
    ultimately show ?thesis by simp
  qed
  have "distance (on_axes quintic_position ?a ?b (t - tp_time ?a)) (on_axes quintic_position ?a ?b (s - tp_time ?a))
      \<le> V * ((t - tp_time ?a) - (s - tp_time ?a))"
  proof (rule curve_speed)
    fix z assume "s - tp_time ?a < z" "z < t - tp_time ?a"
    with speed [of "z + tp_time ?a"] show "vector_length (on_axes quintic_velocity ?a ?b z) \<le> V"
      by (simp add: algebra_simps)
  qed (use st in simp)
  moreover have "sp_position_m a = on_axes quintic_position ?a ?b (s - tp_time ?a)"
    using segment_value(1) [OF lt st(1), of a] seg [of s] smp(1) st by simp
  moreover have "sp_position_m b = on_axes quintic_position ?a ?b (t - tp_time ?a)"
    using segment_value(1) [OF lt _ st(3), of b] seg [of t] smp(2) st by simp
  ultimately show ?thesis by simp
qed


lemma accepted_nonempty: "check_trajectory tr = Inr () \<Longrightarrow> tr_points tr \<noteq> []"
  using accepted_trajectory(1) by fastforce

lemma duration_pos:
  assumes acc: "check_trajectory tr = Inr ()"
  shows "0 < trajectory_duration_s tr"
proof -
  have l: "1 < length (tr_points tr)" "0 < length (tr_points tr)" using accepted_trajectory(1) [OF acc] by auto
  have "tp_time (tr_points tr ! 0) < tp_time (tr_points tr ! 1)"
    using sorted_wrt_nth_less [OF accepted_trajectory(3) [OF acc], of 0 1] l by (simp del: nth_map_upt)
  with duration_bounds(1) [OF acc l(2)] duration_bounds(2) [OF acc l(1)] show ?thesis by linarith
qed

lemma trajectory_speed_upto:
  assumes acc: "check_trajectory tr = Inr ()" and V: "speed_bounded tr V"
  shows "k < length (tr_points tr) \<Longrightarrow> 0 \<le> s \<Longrightarrow> s \<le> t \<Longrightarrow> t \<le> tp_time (tr_points tr ! k) \<Longrightarrow>
    sample_trajectory tr s = Inr a \<Longrightarrow> sample_trajectory tr t = Inr b \<Longrightarrow>
    distance (sp_position_m b) (sp_position_m a) \<le> V * (t - s)"
proof (induction k arbitrary: s t a b)
  case 0
  then have "s = t"
    using accepted_trajectory(2) [OF acc] hd_conv_nth [OF accepted_nonempty [OF acc]] by simp
  with 0 show ?case by simp
next
  case (Suc k)
  let ?m = "tp_time (tr_points tr ! k)"
  consider "t \<le> ?m" | "?m \<le> s" | "s \<le> ?m" "?m \<le> t" by linarith
  then show ?case
  proof cases
    case 1
    with Suc show ?thesis by simp
  next
    case 2
    with Suc segment_speed [OF acc _ V, of k s t a b] show ?thesis by simp
  next
    case 3
    obtain c where c: "sample_trajectory tr ?m = Inr c" using sample_total [OF acc] by blast
    have "distance (sp_position_m b) (sp_position_m c) \<le> V * (t - ?m)"
      using segment_speed [OF acc _ V, of k ?m t c b] Suc.prems 3 c by simp
    moreover have "distance (sp_position_m c) (sp_position_m a) \<le> V * (?m - s)"
      using Suc.IH [of s ?m a c] Suc.prems 3 c by simp
    ultimately show ?thesis
      using distance_triangle [of "sp_position_m b" "sp_position_m a" "sp_position_m c"]
      by (simp add: algebra_simps)
  qed
qed

lemma sample_clamped: "sample_trajectory tr (bounded_time tr t) = sample_trajectory tr t"
proof -
  have "bounded_time tr (bounded_time tr t) = bounded_time tr t"
    by (auto simp: bounded_time_def max_def min_def)
  then show ?thesis by (simp add: sample_trajectory_def)
qed

lemma clamp_contract: "\<bar>max 0 (min d t) - max 0 (min d (s::real))\<bar> \<le> \<bar>t - s\<bar>"
  by (simp add: max_def min_def)

lemma trajectory_speed:
  assumes acc: "check_trajectory tr = Inr ()" and V: "speed_bounded tr V"
    and smp: "sample_trajectory tr s = Inr a" "sample_trajectory tr t = Inr b"
  shows "distance (sp_position_m b) (sp_position_m a) \<le> V * \<bar>t - s\<bar>"
proof -
  let ?s = "bounded_time tr s" and ?t = "bounded_time tr t" and ?k = "length (tr_points tr) - 1"
  have ne: "tr_points tr \<noteq> []" by (rule accepted_nonempty [OF acc])
  have k: "?k < length (tr_points tr)" "tp_time (tr_points tr ! ?k) = trajectory_duration_s tr"
    using ne by (simp_all add: trajectory_duration_s_def last_conv_nth)
  have b: "0 \<le> ?s" "0 \<le> ?t" "?s \<le> trajectory_duration_s tr" "?t \<le> trajectory_duration_s tr"
    using duration_bounds [OF acc k(1)] k(2) by (simp_all add: bounded_time_def)
  have "distance (sp_position_m b) (sp_position_m a) \<le> V * \<bar>?t - ?s\<bar>"
    using trajectory_speed_upto [OF acc V k(1), of ?s ?t a b] trajectory_speed_upto [OF acc V k(1), of ?t ?s b a]
      smp b k(2) distance_commute [of "sp_position_m a" "sp_position_m b"]
    by (cases "?s \<le> ?t") (simp_all add: sample_clamped)
  also have "\<dots> \<le> V * \<bar>t - s\<bar>"
    using clamp_contract V by (intro mult_left_mono) (simp_all add: bounded_time_def speed_bounded_def)
  finally show ?thesis .
qed

text \<open>The position of a trajectory operation that lasts exactly as long as its trajectory.\<close>

definition exact_window :: "execution_operation \<Rightarrow> bool" where
  "exact_window op \<longleftrightarrow> op_ends_at_s op - op_starts_at_s op = trajectory_duration_s (op_trajectory op)"

lemma operation_position_sample:
  assumes acc: "check_trajectory (op_trajectory op) = Inr ()" and ex: "exact_window op"
    and smp: "sample_trajectory (op_trajectory op) (t - op_starts_at_s op) = Inr sp"
  shows "operation_position op t = Inr (sp_position_m sp)"
proof -
  let ?tr = "op_trajectory op"
  have ne: "tr_points ?tr \<noteq> []" by (rule accepted_nonempty [OF acc])
  have k: "length (tr_points ?tr) - 1 < length (tr_points ?tr)" using ne by simp
  have d: "0 \<le> trajectory_duration_s ?tr" using duration_bounds [OF acc k] by simp
  show ?thesis
    using sample_waypoint [OF acc, of 0 "t - op_starts_at_s op"] sample_waypoint [OF acc k, of "t - op_starts_at_s op"]
      ne d smp accepted_trajectory(2) [OF acc] ex
    by (auto simp: operation_position_def Let_def bounded_time_def hd_conv_nth last_conv_nth setpoint_of_def
        exact_window_def trajectory_duration_s_def max_def min_def)
qed

lemma operation_speed:
  assumes acc: "check_trajectory (op_trajectory op) = Inr ()" and ex: "exact_window op"
    and V: "speed_bounded (op_trajectory op) V"
    and pos: "operation_position op s = Inr a" "operation_position op t = Inr b"
  shows "distance b a \<le> V * \<bar>t - s\<bar>"
proof -
  obtain x y where x: "sample_trajectory (op_trajectory op) (s - op_starts_at_s op) = Inr x"
    and y: "sample_trajectory (op_trajectory op) (t - op_starts_at_s op) = Inr y"
    using sample_total [OF acc] by blast
  have "a = sp_position_m x" "b = sp_position_m y"
    using operation_position_sample [OF acc ex x] operation_position_sample [OF acc ex y] pos by simp_all
  then show ?thesis using trajectory_speed [OF acc V x y] by simp
qed

section \<open>Delayed programs\<close>

definition shift_list :: "nat \<Rightarrow> real \<Rightarrow> execution_operation list \<Rightarrow> execution_operation list" where
  "shift_list n d ops = map (\<lambda>(i, op). reschedule (int i + 1) (op_starts_at_s op + d) (op_ends_at_s op + d) op)
     (List.enumerate n ops)"

lemma shift_list_simps [simp]:
  "shift_list n d [] = []"
  "shift_list n d (op # ops) =
     reschedule (int n + 1) (op_starts_at_s op + d) (op_ends_at_s op + d) op # shift_list (Suc n) d ops"
  by (simp_all add: shift_list_def)

lemma shift_after_append: "k = length a \<Longrightarrow> shift_after k d (a @ b) = a @ shift_list k d b"
proof -
  assume k: "k = length a"
  have "map (\<lambda>(i, op). if k \<le> i then reschedule (int i + 1) (op_starts_at_s op + d) (op_ends_at_s op + d) op else op)
      (List.enumerate 0 a) = map snd (List.enumerate 0 a)"
    by (rule map_cong) (auto simp: k in_set_enumerate_eq)
  moreover have "map (\<lambda>(i, op). if k \<le> i then reschedule (int i + 1) (op_starts_at_s op + d) (op_ends_at_s op + d) op else op)
      (List.enumerate k b) = shift_list k d b"
    unfolding shift_list_def by (rule map_cong) (auto simp: in_set_enumerate_eq)
  ultimately show ?thesis
    by (simp add: shift_after_def enumerate_append_eq k)
qed

lemma renumber_before_append:
  "k = length a \<Longrightarrow> \<exists>a'. renumber_before k (a @ b) = a' @ b \<and>
     list_all2 (\<lambda>x y. \<exists>n. y = reschedule n (op_starts_at_s x) (op_ends_at_s x) x \<and> (n = op_sequence x \<or> 1 \<le> n)) a a'"
proof -
  assume k: "k = length a"
  let ?f = "\<lambda>(i, op). if i < k \<and> op_sequence op \<noteq> int i + 1
            then reschedule (int i + 1) (op_starts_at_s op) (op_ends_at_s op) op else op"
  have "map ?f (List.enumerate k b) = map snd (List.enumerate k b)"
    by (rule map_cong) (auto simp: in_set_enumerate_eq)
  then have "renumber_before k (a @ b) = map ?f (List.enumerate 0 a) @ b"
    by (simp add: renumber_before_def enumerate_append_eq k)
  moreover have "list_all2 (\<lambda>x y. \<exists>n. y = reschedule n (op_starts_at_s x) (op_ends_at_s x) x \<and> (n = op_sequence x \<or> 1 \<le> n))
      a (map ?f (List.enumerate 0 a))"
  proof (rule list_all2_all_nthI)
    fix i assume i: "i < length a"
    have "\<exists>n. a ! i = reschedule n (op_starts_at_s (a ! i)) (op_ends_at_s (a ! i)) (a ! i) \<and> (n = op_sequence (a ! i) \<or> 1 \<le> n)"
      by (rule exI [of _ "op_sequence (a ! i)"]) simp
    with i show "\<exists>n. map ?f (List.enumerate 0 a) ! i = reschedule n (op_starts_at_s (a ! i)) (op_ends_at_s (a ! i)) (a ! i)
        \<and> (n = op_sequence (a ! i) \<or> 1 \<le> n)"
      by (auto simp: nth_enumerate_eq)
  qed simp
  ultimately show ?thesis by blast
qed

definition shifted_by :: "real \<Rightarrow> execution_operation \<Rightarrow> execution_operation \<Rightarrow> bool" where
  "shifted_by d op op' \<longleftrightarrow> (\<exists>n. 1 \<le> n \<and> op' = reschedule n (op_starts_at_s op + d) (op_ends_at_s op + d) op)"

lemma shift_list_shifted: "list_all2 (shifted_by d) ops (shift_list n d ops)"
proof (induction ops arbitrary: n)
  case (Cons op ops)
  have "shifted_by d op (reschedule (int n + 1) (op_starts_at_s op + d) (op_ends_at_s op + d) op)"
    unfolding shifted_by_def by (rule exI [of _ "int n + 1"]) simp
  with Cons show ?case by simp
qed simp

lemma shifted_filter:
  "list_all2 (shifted_by d) ops ops' \<Longrightarrow> list_all2 (shifted_by d) (filter is_TrajectoryOp ops) (filter is_TrajectoryOp ops')"
  by (induction rule: list_all2_induct) (auto simp: shifted_by_def)

lemma rebuild_ops: "rebuild_program p ops = Inr p' \<Longrightarrow> ep_operations p' = ops"
  by (auto simp: rebuild_program_def Let_def bind_ok_Inr split: if_splits)

lemma rebuild_identity:
  "rebuild_program p ops = Inr p' \<Longrightarrow> ep_role_id p' = ep_role_id p \<and> ep_vehicle_id p' = ep_vehicle_id p
     \<and> ep_schedule_duration_s p' = op_ends_at_s (last ops)
     \<and> ep_mission_source_sha256 p' = ep_mission_source_sha256 p"
  by (auto simp: rebuild_program_def Let_def bind_ok_Inr split: if_splits)

lemma trajectory_split:
  assumes "trajectory_index ops \<noteq> length ops"
  obtains a tr b where "ops = a @ tr # b" "length a = trajectory_index ops" "is_TrajectoryOp tr" "filter is_TrajectoryOp a = []"
proof -
  let ?a = "takeWhile (\<lambda>op. \<not> is_TrajectoryOp op) ops" and ?b = "dropWhile (\<lambda>op. \<not> is_TrajectoryOp op) ops"
  have "?b \<noteq> []" using assms by (metis append_Nil2 takeWhile_dropWhile_id trajectory_index_def)
  then obtain tr b where b: "?b = tr # b" by (cases ?b) auto
  show ?thesis
  proof (rule that)
    show "ops = ?a @ tr # b" using takeWhile_dropWhile_id [of "\<lambda>op. \<not> is_TrajectoryOp op" ops] b by simp
    show "is_TrajectoryOp tr" using hd_dropWhile [OF \<open>?b \<noteq> []\<close>] b by simp
    show "filter is_TrajectoryOp ?a = []" by (auto simp: filter_empty_conv dest: set_takeWhileD)
  qed (simp add: trajectory_index_def)
qed

text \<open>The operations before the shifted part: those of the program, with the hold added or prolonged.\<close>

definition hold_variant :: "real \<Rightarrow> execution_operation list \<Rightarrow> execution_operation \<Rightarrow> execution_operation list \<Rightarrow> bool" where
  "hold_variant d a tr a' \<longleftrightarrow>
     (\<exists>b hold. a = b @ [hold] \<and> is_HoldOp hold \<and>
        a' = b @ [reschedule (op_sequence hold) (op_starts_at_s hold) (op_ends_at_s hold + d) hold]) \<or>
     (\<exists>hold. a' = a @ [hold] \<and> hold = HoldOp (op_sequence tr) (op_starts_at_s tr) (op_starts_at_s tr + d)
        \<and> timed_fields_ok hold)"

lemma place_hold_split:
  assumes "place_hold d (a @ tr # b) (length a) = Inr (ops', k)"
  obtains a' where "ops' = a' @ tr # b" "k = length a'" "hold_variant d a tr a'"
proof (cases "0 < length a \<and> is_HoldOp ((a @ tr # b) ! (length a - 1))")
  case True
  then obtain c hold where a: "a = c @ [hold]" by (cases a rule: rev_cases) auto
  with True assms have "is_HoldOp hold" and
    eq: "ops' = (c @ [reschedule (op_sequence hold) (op_starts_at_s hold) (op_ends_at_s hold + d) hold]) @ tr # b"
      "k = Suc (length c)"
    by (auto simp: place_hold_def Let_def nth_append list_update_append)
  then show ?thesis using a by (intro that [OF eq(1)]) (auto simp: hold_variant_def)
next
  case False
  let ?h = "HoldOp (op_sequence tr) (op_starts_at_s tr) (op_starts_at_s tr + d)"
  from False assms have "ops' = (a @ [?h]) @ tr # b" "k = length (a @ [?h])" "timed_fields_ok ?h"
    unfolding place_hold_def if_not_P [OF False] by (auto simp: Let_def nth_append split: if_splits)
  then show ?thesis by (intro that [of "a @ [?h]"]) (auto simp: hold_variant_def)
qed

lemma is_HoldOp_not: "is_HoldOp op \<Longrightarrow> \<not> is_TrajectoryOp op"
  by (cases op) simp_all

lemma is_GroundWaitOp_not: "is_GroundWaitOp op \<Longrightarrow> \<not> is_TrajectoryOp op"
  by (cases op) simp_all

lemma filter_none_list_all2:
  "list_all2 (\<lambda>x y. \<exists>n. y = reschedule n (op_starts_at_s x) (op_ends_at_s x) x \<and> Q n x) a a' \<Longrightarrow>
   filter is_TrajectoryOp a = [] \<Longrightarrow> filter is_TrajectoryOp a' = []"
  by (induction rule: list_all2_induct) (auto split: if_splits)

lemma delay_before_trajectory_split:
  assumes "delay_before_trajectory p d = Inr p'"
  obtains a tr b a' a'' where "ep_operations p = a @ tr # b" "is_TrajectoryOp tr" "filter is_TrajectoryOp a = []"
    "hold_variant d a tr a'" "ep_operations p' = a'' @ shift_list (length a') d (tr # b)"
    "list_all2 (\<lambda>x y. \<exists>n. y = reschedule n (op_starts_at_s x) (op_ends_at_s x) x \<and> (n = op_sequence x \<or> 1 \<le> n)) a' a''"
    "rebuild_program p (ep_operations p') = Inr p'"
proof -
  let ?ops = "ep_operations p"
  from assms obtain ops' k where i: "trajectory_index ?ops \<noteq> length ?ops"
    and ph: "place_hold d ?ops (trajectory_index ?ops) = Inr (ops', k)"
    and rb: "rebuild_program p (renumber_before k (shift_after k d ops')) = Inr p'"
    by (auto simp: delay_before_trajectory_def Let_def bind_ok_Inr split: if_splits)
  obtain a tr b where s: "?ops = a @ tr # b" "length a = trajectory_index ?ops" "is_TrajectoryOp tr"
    "filter is_TrajectoryOp a = []"
    using trajectory_split [OF i] by blast
  from ph s obtain a' where a': "ops' = a' @ tr # b" "k = length a'" "hold_variant d a tr a'"
    using place_hold_split by metis
  obtain a'' where "renumber_before k (a' @ shift_list k d (tr # b)) = a'' @ shift_list k d (tr # b)"
    and l: "list_all2 (\<lambda>x y. \<exists>n. y = reschedule n (op_starts_at_s x) (op_ends_at_s x) x \<and> (n = op_sequence x \<or> 1 \<le> n)) a' a''"
    using renumber_before_append [OF a'(2)] by blast
  then have "ep_operations p' = a'' @ shift_list (length a') d (tr # b)"
    using rebuild_ops [OF rb] a' by (simp add: shift_after_append)
  moreover have "rebuild_program p (ep_operations p') = Inr p'" using rb rebuild_ops [OF rb] by simp
  ultimately show ?thesis using that s a'(3) l by blast
qed

lemma delay_before_trajectory_ops:
  assumes "delay_before_trajectory p d = Inr p'"
  shows "list_all2 (shifted_by d) (trajectory_operations p) (trajectory_operations p')"
proof -
  from assms obtain a tr b a' a'' where s: "ep_operations p = a @ tr # b" "filter is_TrajectoryOp a = []"
    "hold_variant d a tr a'" "ep_operations p' = a'' @ shift_list (length a') d (tr # b)"
    "list_all2 (\<lambda>x y. \<exists>n. y = reschedule n (op_starts_at_s x) (op_ends_at_s x) x \<and> (n = op_sequence x \<or> 1 \<le> n)) a' a''"
    by (rule delay_before_trajectory_split)
  have "filter is_TrajectoryOp a' = []"
    using s(2,3) by (auto simp: hold_variant_def is_HoldOp_not)
  from filter_none_list_all2 [OF s(5) this] have "filter is_TrajectoryOp a'' = []" .
  then show ?thesis
    using shifted_filter [OF shift_list_shifted, of d "tr # b" "length a'"] s(1,2,4)
    by (simp add: trajectory_operations_def del: shift_list_simps)
qed

lemma delay_before_launch_split:
  assumes "delay_before_launch p d = Inr p'" "0 < d" "ep_operations p \<noteq> []"
  obtains g rest where "\<not> is_TrajectoryOp g" "ep_operations p' = g # shift_list 1 d rest"
    "ep_operations p = rest \<and> g = GroundWaitOp 1 0 d \<or>
     (\<exists>w. ep_operations p = w # rest \<and> is_GroundWaitOp w \<and>
        g = reschedule (op_sequence w) (op_starts_at_s w) (op_ends_at_s w + d) w)"
    "rebuild_program p (ep_operations p') = Inr p'"
proof -
  let ?ops = "ep_operations p"
  from assms have rb: "rebuild_program p (shift_after 1 d (place_ground_wait d ?ops)) = Inr p'"
    by (auto simp: delay_before_launch_def)
  have sh: "shift_after (Suc 0) d (g # rest) = g # shift_list (Suc 0) d rest" for g rest
    using shift_after_append [of "Suc 0" "[g]" d rest] by simp
  show ?thesis
  proof (cases "is_GroundWaitOp (hd ?ops)")
    case True
    then show ?thesis
      using is_GroundWaitOp_not rebuild_ops [OF rb] rb assms(3)
      by (intro that [of "reschedule (op_sequence (hd ?ops)) (op_starts_at_s (hd ?ops)) (op_ends_at_s (hd ?ops) + d) (hd ?ops)" "tl ?ops"])
         (auto simp: place_ground_wait_def sh intro: exI [of _ "hd ?ops"])
  next
    case False
    then show ?thesis
      using rebuild_ops [OF rb] rb
      by (intro that [of "GroundWaitOp 1 0 d" ?ops]) (auto simp: place_ground_wait_def sh)
  qed
qed

lemma delay_before_launch_ops:
  assumes "delay_before_launch p d = Inr p'" "0 < d" "ep_operations p \<noteq> []"
  shows "list_all2 (shifted_by d) (trajectory_operations p) (trajectory_operations p')"
proof -
  obtain g rest where g: "\<not> is_TrajectoryOp g" "ep_operations p' = g # shift_list 1 d rest"
    "ep_operations p = rest \<and> g = GroundWaitOp 1 0 d \<or>
     (\<exists>w. ep_operations p = w # rest \<and> is_GroundWaitOp w \<and>
        g = reschedule (op_sequence w) (op_starts_at_s w) (op_ends_at_s w + d) w)"
    by (rule delay_before_launch_split [OF assms])
  then have "filter is_TrajectoryOp (ep_operations p) = filter is_TrajectoryOp rest"
    by (auto simp: is_GroundWaitOp_not)
  then show ?thesis
    using shifted_filter [OF shift_list_shifted, of d rest 1] g(1,2)
    by (simp add: trajectory_operations_def del: shift_list_simps)
qed

lemma shifted_position:
  assumes "shifted_by d op op'" "is_TrajectoryOp op"
  shows "operation_position op' t = operation_position op (t - d)"
  using assms by (auto simp: shifted_by_def operation_position_def Let_def algebra_simps)

lemma shifted_program_position:
  assumes "list_all2 (shifted_by d) (trajectory_operations p) (trajectory_operations p')"
  shows "program_position p' t = program_position p (t - d)"
proof (cases "trajectory_operations p")
  case (Cons op ops)
  with assms obtain op' ops' where op': "trajectory_operations p' = op' # ops'" "shifted_by d op op'"
    by (auto simp: list_all2_Cons1)
  have "op \<in> set (trajectory_operations p)" using Cons by simp
  then have "is_TrajectoryOp op" by (simp add: trajectory_operations_def)
  with shifted_position [OF op'(2)] op'(1) Cons show ?thesis
    by (simp add: program_position_def first_trajectory_def)
qed (use assms in \<open>simp add: program_position_def first_trajectory_def\<close>)

section \<open>Rewritten programs pass the full validator\<close>

lemma check_operation_times:
  "check_operation sha op = Inr () \<Longrightarrow> 1 \<le> op_sequence op \<and> 0 \<le> op_starts_at_s op \<and> 0 < op_ends_at_s op"
  by (cases op) (auto simp: timed_fields_ok_def split: if_splits)

lemma check_operation_reschedule:
  assumes "check_operation sha op = Inr ()" "1 \<le> n" "0 \<le> s" "0 < e"
    and "is_TrajectoryOp op \<Longrightarrow> e - s = op_ends_at_s op - op_starts_at_s op"
  shows "check_operation sha (reschedule n s e op) = Inr ()"
  using assms by (cases op) (auto simp: timed_fields_ok_def split: if_splits)

lemma check_shifted:
  "shifted_by d op op' \<Longrightarrow> check_operation sha op = Inr () \<Longrightarrow> 0 \<le> d \<Longrightarrow> check_operation sha op' = Inr ()"
  using check_operation_times [of sha op]
  by (auto simp: shifted_by_def intro!: check_operation_reschedule)

lemma check_shift_list:
  assumes "0 \<le> d" "list_all (\<lambda>op. check_operation sha op = Inr ()) ops"
  shows "list_all (\<lambda>op. check_operation sha op = Inr ()) (shift_list n d ops)"
  using shift_list_shifted [of d ops n] assms(2)
  by (induction rule: list_all2_induct) (auto intro: check_shifted assms(1))

lemma check_rebuilt:
  "rebuild_program p ops = Inr p' \<Longrightarrow> list_all (\<lambda>op. check_operation sha op = Inr ()) ops \<Longrightarrow>
   check_program sha p' = Inr ()"
  by (auto simp: rebuild_program_def check_program_def Let_def bind_ok_Inr list_ex_iff list_all_iff split: if_splits)

lemma accepted_operations:
  "check_program sha p = Inr () \<Longrightarrow> list_all (\<lambda>op. check_operation sha op = Inr ()) (ep_operations p)"
  using accepted_program(5) by (auto simp: list_all_iff)

lemma check_hold: "check_operation sha (HoldOp n s e) = Inr () \<longleftrightarrow> timed_fields_ok (HoldOp n s e)"
  by simp

lemma check_hold_variant:
  assumes "hold_variant d a tr a'" "list_all (\<lambda>op. check_operation sha op = Inr ()) a" "0 \<le> d"
  shows "list_all (\<lambda>op. check_operation sha op = Inr ()) a'"
proof -
  from assms(1) consider
    (old) b hold where "a = b @ [hold]" "is_HoldOp hold"
       "a' = b @ [reschedule (op_sequence hold) (op_starts_at_s hold) (op_ends_at_s hold + d) hold]"
  | (new) hold where "a' = a @ [hold]" "hold = HoldOp (op_sequence tr) (op_starts_at_s tr) (op_starts_at_s tr + d)"
       "timed_fields_ok hold"
    unfolding hold_variant_def by blast
  then show ?thesis
  proof cases
    case old
    then have "check_operation sha (reschedule (op_sequence hold) (op_starts_at_s hold) (op_ends_at_s hold + d) hold) = Inr ()"
      using assms(2,3) check_operation_times [of sha hold] is_HoldOp_not
      by (intro check_operation_reschedule) auto
    with old assms(2) show ?thesis by simp
  next
    case new
    with assms(2) show ?thesis by simp
  qed
qed

lemma check_renumbered:
  "list_all2 (\<lambda>x y. \<exists>n. y = reschedule n (op_starts_at_s x) (op_ends_at_s x) x \<and> (n = op_sequence x \<or> 1 \<le> n)) a a' \<Longrightarrow>
   list_all (\<lambda>op. check_operation sha op = Inr ()) a \<Longrightarrow> list_all (\<lambda>op. check_operation sha op = Inr ()) a'"
proof (induction rule: list_all2_induct)
  case (Cons x xs y ys)
  then obtain n where y: "y = reschedule n (op_starts_at_s x) (op_ends_at_s x) x" "n = op_sequence x \<or> 1 \<le> n" by blast
  have "check_operation sha y = Inr ()"
    unfolding y(1) using Cons.prems y(2) check_operation_times [of sha x]
    by (intro check_operation_reschedule) auto
  with Cons show ?case by simp
qed simp

lemma delay_before_trajectory_accepted:
  assumes "check_program sha p = Inr ()" "delay_before_trajectory p d = Inr p'" "0 \<le> d"
  shows "check_program sha p' = Inr ()"
proof -
  from assms(2) obtain a tr b a' a'' where s: "ep_operations p = a @ tr # b" "is_TrajectoryOp tr"
    "filter is_TrajectoryOp a = []" "hold_variant d a tr a'" "ep_operations p' = a'' @ shift_list (length a') d (tr # b)"
    "list_all2 (\<lambda>x y. \<exists>n. y = reschedule n (op_starts_at_s x) (op_ends_at_s x) x \<and> (n = op_sequence x \<or> 1 \<le> n)) a' a''"
    "rebuild_program p (ep_operations p') = Inr p'"
    by (rule delay_before_trajectory_split)
  have acc: "list_all (\<lambda>op. check_operation sha op = Inr ()) a" "list_all (\<lambda>op. check_operation sha op = Inr ()) (tr # b)"
    using accepted_operations [OF assms(1)] s(1) by simp_all
  have "list_all (\<lambda>op. check_operation sha op = Inr ()) (ep_operations p')"
    using check_renumbered [OF s(6) check_hold_variant [OF s(4) acc(1) assms(3)]] check_shift_list [OF assms(3) acc(2)]
    unfolding s(5) by (simp del: shift_list_simps)
  with check_rebuilt [OF s(7)] show ?thesis by blast
qed

lemma delay_before_launch_accepted:
  assumes "check_program sha p = Inr ()" "delay_before_launch p d = Inr p'"
  shows "check_program sha p' = Inr ()"
proof (cases "0 < d")
  case True
  note acc = accepted_operations [OF assms(1)]
  from assms(2) True accepted_program(1) [OF assms(1)] obtain g rest where g: "\<not> is_TrajectoryOp g"
    "ep_operations p' = g # shift_list 1 d rest"
    "ep_operations p = rest \<and> g = GroundWaitOp 1 0 d \<or>
     (\<exists>w. ep_operations p = w # rest \<and> is_GroundWaitOp w \<and>
        g = reschedule (op_sequence w) (op_starts_at_s w) (op_ends_at_s w + d) w)"
    "rebuild_program p (ep_operations p') = Inr p'"
    by (rule delay_before_launch_split)
  from g(3) have "check_operation sha g = Inr () \<and> list_all (\<lambda>op. check_operation sha op = Inr ()) rest"
  proof
    assume "ep_operations p = rest \<and> g = GroundWaitOp 1 0 d"
    with acc True show ?thesis by (simp add: timed_fields_ok_def)
  next
    assume "\<exists>w. ep_operations p = w # rest \<and> is_GroundWaitOp w \<and>
        g = reschedule (op_sequence w) (op_starts_at_s w) (op_ends_at_s w + d) w"
    then obtain w where w: "ep_operations p = w # rest" "is_GroundWaitOp w"
      "g = reschedule (op_sequence w) (op_starts_at_s w) (op_ends_at_s w + d) w" by blast
    with acc check_operation_times [of sha w] is_GroundWaitOp_not [of w] True show ?thesis
      by (auto intro!: check_operation_reschedule)
  qed
  with check_shift_list [of d sha rest 1] True
  have "list_all (\<lambda>op. check_operation sha op = Inr ()) (ep_operations p')" unfolding g(2) by simp
  with check_rebuilt [OF g(4)] show ?thesis by blast
qed (use assms in \<open>simp add: delay_before_launch_def\<close>)

lemma vector_length_scale1: "1 \<le> f \<Longrightarrow> vector_length (scale v (1 / f)) \<le> vector_length v"
proof -
  assume f: "1 \<le> f"
  have "(a * (1 / f)) ^ 2 \<le> a ^ 2" for a :: real
  proof -
    have "\<bar>a * (1 / f)\<bar> \<le> \<bar>a\<bar>" using f by (simp add: abs_mult divide_le_eq mult_le_cancel_left1)
    then show ?thesis by (rule abs_le_square_iff [THEN iffD1])
  qed
  then have "(vx v * (1 / f)) ^ 2 + (vy v * (1 / f)) ^ 2 + (vz v * (1 / f)) ^ 2 \<le> vx v ^ 2 + vy v ^ 2 + vz v ^ 2"
    by (intro add_mono)
  then show ?thesis by (simp only: vector_length_def scale_sel real_sqrt_le_iff)
qed

lemma retime_accepted:
  assumes acc: "check_trajectory tr = Inr ()" and f: "1 \<le> f"
    and id: "valid_identifier (tr_trajectory_id tr @ ''-retimed'')"
  shows "check_trajectory (retime_trajectory f tr) = Inr ()"
proof -
  let ?p = "tr_points tr" and ?s = "tr_declared_stop_sequences tr"
  have fld: "trajectory_fields_ok tr" and ord: "ordered_and_continuous tr = Inr ()"
    using acc by (auto simp: check_trajectory_def split: if_splits)
  have ne: "?p \<noteq> []" by (rule accepted_nonempty [OF acc])
  have "trajectory_fields_ok (retime_trajectory f tr)"
    using fld id f by (simp add: trajectory_fields_ok_def retime_trajectory_def list_all_iff valid_point_def)
  moreover have "ordered_and_continuous (retime_trajectory f tr) = Inr ()"
  proof -
    have zip: "list_ex not_increasing (zip (map (retime_point f) ?p) (tl (map (retime_point f) ?p)))
        = list_ex not_increasing (zip ?p (tl ?p))"
      using f by (simp add: list_ex_iff not_increasing_def zip_map_map map_tl [symmetric] image_iff split_beta)
    have stops: "\<forall>c \<in> set (stop_checks (retime_trajectory f tr) s). \<not> fst c"
      if c: "\<forall>c \<in> set (stop_checks tr s). \<not> fst c" for s
    proof -
      from c have b: "1 \<le> s" "s \<le> int (length ?p)"
        "vector_length (tp_velocity_m_s (?p ! nat (s - 1))) \<le> tr_completion_velocity_tolerance_m_s tr"
        by (auto simp: stop_checks_def)
      then have "nat (s - 1) < length ?p" by linarith
      with b order_trans [OF vector_length_scale1 [OF f] b(3)] show ?thesis
        by (simp add: stop_checks_def retime_trajectory_def)
    qed
    show ?thesis
      using ord ne f zip stops
      unfolding ordered_and_continuous_def Let_def raise_first_Inr
      by (simp add: retime_trajectory_def hd_map comp_def ball_Un) blast
  qed
  ultimately show ?thesis by (simp add: check_trajectory_def)
qed


definition exact_windows :: "execution_operation list \<Rightarrow> bool" where
  "exact_windows ops \<longleftrightarrow> list_all (\<lambda>op. is_TrajectoryOp op \<longrightarrow> exact_window op) ops"

definition retimable :: "execution_operation list \<Rightarrow> bool" where
  "retimable ops \<longleftrightarrow> list_all (\<lambda>op. is_TrajectoryOp op \<longrightarrow>
     valid_identifier (tr_trajectory_id (op_trajectory op) @ ''-retimed'')) ops"

lemma retime_operations_accepted:
  "retime_operations H f added ops = Inr ops' \<Longrightarrow> 0 \<le> added \<Longrightarrow> exact_windows ops \<Longrightarrow> retimable ops \<Longrightarrow>
    list_all (\<lambda>op. check_operation (ph_trajectory H) op = Inr ()) ops \<Longrightarrow>
    1 \<le> f \<Longrightarrow> \<forall>t. valid_sha256 (ph_trajectory H t) \<Longrightarrow>
    list_all (\<lambda>op. check_operation (ph_trajectory H) op = Inr ()) ops'"
proof (induction H f added ops arbitrary: ops' rule: retime_operations.induct)
  case (2 H f added n s e h t ops)
  let ?t = "retime_trajectory f t" and ?d = "trajectory_duration_s (retime_trajectory f t)"
  note f = "2.prems"(6) and hash = "2.prems"(7)
  have chk: "check_operation (ph_trajectory H) (TrajectoryOp n s e h t) = Inr ()"
    using "2.prems"(5) by (simp only: list.pred_inject)
  have t: "check_trajectory t = Inr ()" using accepted_trajectory_op [OF chk] by blast
  have s: "0 \<le> s" "1 \<le> n" using check_operation_times [OF chk] by simp_all
  have ex: "e - s = trajectory_duration_s t" and id: "valid_identifier (tr_trajectory_id t @ ''-retimed'')"
    using "2.prems"(3,4) by (simp_all add: exact_windows_def exact_window_def retimable_def)
  have ne: "tr_points t \<noteq> []" by (rule accepted_nonempty [OF t])
  have pos: "0 < trajectory_duration_s t" by (rule duration_pos [OF t])
  have d: "?d = trajectory_duration_s t * f" by (rule retime_duration [OF ne])
  have grow: "trajectory_duration_s t \<le> ?d" using f pos d by simp
  obtain rest where rest: "retime_operations H f (added + (?d - (e - s))) ops = Inr rest"
    and ops': "ops' = TrajectoryOp n (s + added) (s + added + ?d) (ph_trajectory H ?t) ?t # rest"
    using "2.prems"(1) by (auto simp: Let_def bind_ok_Inr split: if_splits)
  have "0 \<le> added + (?d - (e - s))" using grow ex "2.prems"(2) by simp
  then have "list_all (\<lambda>op. check_operation (ph_trajectory H) op = Inr ()) rest"
    using "2.IH" [OF _ refl refl rest] "2.prems"(3-7) by (simp add: exact_windows_def retimable_def)
  moreover have "check_operation (ph_trajectory H) (TrajectoryOp n (s + added) (s + added + ?d) (ph_trajectory H ?t) ?t) = Inr ()"
    using s "2.prems"(2) grow pos hash retime_accepted [OF t f id]
    by (simp add: timed_fields_ok_def isclose_def)
  ultimately show ?case by (simp add: ops')
qed (auto simp: bind_ok_Inr timed_fields_ok_def exact_windows_def retimable_def split: if_splits)

lemma retime_program_accepted:
  assumes "check_program (ph_trajectory H) p = Inr ()" "retime_program H p f = Inr p'" "1 \<le> f"
    "\<And>t. valid_sha256 (ph_trajectory H t)" "exact_windows (ep_operations p)" "retimable (ep_operations p)"
  shows "check_program (ph_trajectory H) p' = Inr ()"
proof -
  from assms(2) obtain ops where ops: "retime_operations H f 0 (ep_operations p) = Inr ops"
    and rb: "rebuild_program p ops = Inr p'"
    by (auto simp: retime_program_def bind_ok_Inr)
  from retime_operations_accepted [OF ops _ assms(5,6) accepted_operations [OF assms(1)] assms(3)] assms(4)
  have "list_all (\<lambda>op. check_operation (ph_trajectory H) op = Inr ()) ops" by simp
  with check_rebuilt [OF rb] show ?thesis by blast
qed

section \<open>The bumps and their derivatives\<close>

lemma DERIV_glue:
  fixes f g :: "real \<Rightarrow> real"
  assumes f: "(f has_real_derivative D) (at x)" and g: "(g has_real_derivative D) (at x)" and eq: "f x = g x"
  shows "((\<lambda>y. if y \<le> x then f y else g y) has_real_derivative D) (at x)"
proof -
  let ?h = "\<lambda>y. if y \<le> x then f y else g y"
  have q: "((\<lambda>y. (f y - f x) / (y - x)) \<longlongrightarrow> D) (at x)" "((\<lambda>y. (g y - g x) / (y - x)) \<longlongrightarrow> D) (at x)"
    using f g by (simp_all add: has_field_derivative_iff)
  have "((\<lambda>y. if y \<le> x then (f y - f x) / (y - x) else (g y - g x) / (y - x)) \<longlongrightarrow> D) (at x)"
    by (intro filterlim_If tendsto_mono [OF inf_le1 q(1)] tendsto_mono [OF inf_le1 q(2)])
  then have "((\<lambda>y. (?h y - ?h x) / (y - x)) \<longlongrightarrow> D) (at x)"
    by (rule Lim_transform_eventually) (auto simp: eq intro: always_eventually)
  then show ?thesis by (simp add: has_field_derivative_iff)
qed

lemma DERIV_clamp:
  fixes f :: "real \<Rightarrow> real"
  assumes d: "\<And>x. (f has_real_derivative f' x) (at x)" and z: "f' 0 = 0" "f' 1 = 0"
  shows "((\<lambda>x. f (max 0 (min 1 x))) has_real_derivative f' (max 0 (min 1 x))) (at x)"
proof -
  let ?c = "\<lambda>x. f (max 0 (min 1 x))"
  have const: "((\<lambda>y. c) has_real_derivative 0) (at x)" for c x :: real by simp
  have tr: "(?c has_real_derivative D) (at x)"
    if "(g has_real_derivative D) (at x)" "x \<in> S" "open S" "\<And>y. y \<in> S \<Longrightarrow> g y = ?c y" for g D x S
    using has_field_derivative_transform_within_open [OF that(1,3,2) that(4)] .
  consider "x < 0" | "x = 0" | "0 < x" "x < 1" | "x = 1" | "1 < x" by linarith
  then show ?thesis
  proof cases
    case 1
    then show ?thesis using tr [OF const [of "f 0" x], of "{..<0}"] z by (simp add: max_def min_def)
  next
    case 2
    have "((\<lambda>y. if y \<le> 0 then f 0 else f y) has_real_derivative 0) (at 0)"
      using DERIV_glue [OF const [of "f 0" 0], of f] d [of 0] z by simp
    from tr [OF this, of "{..<1}"] 2 z show ?thesis by (simp add: max_def min_def)
  next
    case 3
    then show ?thesis using tr [OF d [of x], of "{0<..<1}"] by (simp add: max_def min_def)
  next
    case 4
    have "((\<lambda>y. if y \<le> 1 then f y else f 1) has_real_derivative 0) (at 1)"
      using DERIV_glue [of f 0 1 "\<lambda>_. f 1"] const [of "f 1" 1] d [of 1] z by simp
    from tr [OF this, of "{0<..}"] 4 z show ?thesis by (simp add: max_def min_def)
  next
    case 5
    then show ?thesis using tr [OF const [of "f 1" x], of "{1<..}"] z by (simp add: max_def min_def)
  qed
qed

definition smooth :: "real \<Rightarrow> real" where "smooth u = 10 * u ^ 3 - 15 * u ^ 4 + 6 * u ^ 5"
definition smooth1 :: "real \<Rightarrow> real" where "smooth1 u = 30 * u ^ 2 - 60 * u ^ 3 + 30 * u ^ 4"
definition smooth2 :: "real \<Rightarrow> real" where "smooth2 u = 60 * u - 180 * u ^ 2 + 120 * u ^ 3"

lemma smooth_deriv: "(smooth has_real_derivative smooth1 u) (at u)"
  unfolding smooth_def smooth1_def
  by (auto intro!: derivative_eq_intros simp: eval_nat_numeral algebra_simps)

lemma smooth1_deriv: "(smooth1 has_real_derivative smooth2 u) (at u)"
  unfolding smooth1_def smooth2_def
  by (auto intro!: derivative_eq_intros simp: eval_nat_numeral algebra_simps)

lemma smooth_ends [simp]: "smooth 0 = 0" "smooth 1 = 1" "smooth1 0 = 0" "smooth1 1 = 0" "smooth2 0 = 0" "smooth2 1 = 0"
  by (simp_all add: smooth_def smooth1_def smooth2_def)

abbreviation unit_clamp :: "real \<Rightarrow> real" where "unit_clamp x \<equiv> max 0 (min 1 x)"

lemma plateau_rising:
  "y < 3 / 4 \<Longrightarrow> plateau_bump y D =
     (smooth (unit_clamp (4 * y)), smooth1 (unit_clamp (4 * y)) * 4 / D, smooth2 (unit_clamp (4 * y)) * 16 / D ^ 2)"
  by (cases "1 / 4 \<le> y")
     (simp_all add: plateau_bump_def Let_def field_simps power2_eq_square smooth_def smooth1_def smooth2_def)

lemma plateau_falling:
  "1 / 4 < y \<Longrightarrow> plateau_bump y D =
     (smooth (unit_clamp (4 * (1 - y))), - smooth1 (unit_clamp (4 * (1 - y))) * 4 / D,
      smooth2 (unit_clamp (4 * (1 - y))) * 16 / D ^ 2)"
  by (cases "y \<le> 3 / 4")
     (simp_all add: plateau_bump_def Let_def field_simps power2_eq_square smooth_def smooth1_def smooth2_def)


lemma clamped_chain:
  assumes "\<And>x. (f has_real_derivative f' x) (at x)" "f' 0 = 0" "f' 1 = 0"
    and "(g has_real_derivative k) (at t)"
  shows "((\<lambda>t. f (unit_clamp (g t))) has_real_derivative f' (unit_clamp (g t)) * k) (at t)"
  by (rule DERIV_chain2 [OF DERIV_clamp assms(4)]) (use assms in auto)

lemma plateau_derivatives:
  assumes D: "0 < D"
  shows "((\<lambda>t. fst (plateau_bump (t / D) D)) has_real_derivative fst (snd (plateau_bump (t / D) D))) (at t)"
    and "((\<lambda>t. fst (snd (plateau_bump (t / D) D))) has_real_derivative snd (snd (plateau_bump (t / D) D))) (at t)"
proof -
  have up: "((\<lambda>t. 4 * (t / D)) has_real_derivative 4 / D) (at t)"
    and down: "((\<lambda>t. 4 * (1 - t / D)) has_real_derivative - (4 / D)) (at t)"
    using D by (auto intro!: derivative_eq_intros)
  note s = clamped_chain [of smooth smooth1, OF smooth_deriv] and s1 = clamped_chain [of smooth1 smooth2, OF smooth1_deriv]
  consider "t / D < 3 / 4" | "1 / 4 < t / D" by linarith
  then have "((\<lambda>t. fst (plateau_bump (t / D) D)) has_real_derivative fst (snd (plateau_bump (t / D) D))) (at t)
    \<and> ((\<lambda>t. fst (snd (plateau_bump (t / D) D))) has_real_derivative snd (snd (plateau_bump (t / D) D))) (at t)"
  proof cases
    case 1
    let ?S = "{..< 3 / 4 * D}"
    have S: "open ?S" "t \<in> ?S" "\<And>y. y \<in> ?S \<Longrightarrow> y / D < 3 / 4" using 1 D by (simp_all add: field_simps)
    have "((\<lambda>t. fst (plateau_bump (t / D) D)) has_real_derivative smooth1 (unit_clamp (4 * (t / D))) * (4 / D)) (at t)"
      using has_field_derivative_transform_within_open [OF s [OF _ _ up] S(1,2)] S(3) by (simp add: plateau_rising)
    moreover have "((\<lambda>t. fst (snd (plateau_bump (t / D) D))) has_real_derivative smooth2 (unit_clamp (4 * (t / D))) * (4 / D) * (4 / D)) (at t)"
      using has_field_derivative_transform_within_open [OF DERIV_cmult_right [OF s1 [OF _ _ up]] S(1,2), of "4 / D"] S(3)
      by (simp add: plateau_rising)
    ultimately show ?thesis using 1 by (simp add: plateau_rising power2_eq_square mult.commute)
  next
    case 2
    let ?S = "{1 / 4 * D <..}"
    have S: "open ?S" "t \<in> ?S" "\<And>y. y \<in> ?S \<Longrightarrow> 1 / 4 < y / D" using 2 D by (simp_all add: field_simps)
    have "((\<lambda>t. fst (plateau_bump (t / D) D)) has_real_derivative smooth1 (unit_clamp (4 * (1 - t / D))) * - (4 / D)) (at t)"
      using has_field_derivative_transform_within_open [OF s [OF _ _ down] S(1,2)] S(3) by (simp add: plateau_falling)
    moreover have "((\<lambda>t. fst (snd (plateau_bump (t / D) D))) has_real_derivative smooth2 (unit_clamp (4 * (1 - t / D))) * - (4 / D) * - (4 / D)) (at t)"
      using has_field_derivative_transform_within_open [OF DERIV_cmult_right [OF s1 [OF _ _ down]] S(1,2), of "- (4 / D)"] S(3)
      by (simp add: plateau_falling)
    ultimately show ?thesis using 2 by (simp add: plateau_falling power2_eq_square mult.commute)
  qed
  then show "((\<lambda>t. fst (plateau_bump (t / D) D)) has_real_derivative fst (snd (plateau_bump (t / D) D))) (at t)"
    "((\<lambda>t. fst (snd (plateau_bump (t / D) D))) has_real_derivative snd (snd (plateau_bump (t / D) D))) (at t)" by blast+
qed

lemma sine_derivatives:
  assumes D: "0 < D"
  shows "((\<lambda>t. fst (sine_bump (t / D) D)) has_real_derivative fst (snd (sine_bump (t / D) D))) (at t)"
    and "((\<lambda>t. fst (snd (sine_bump (t / D) D))) has_real_derivative snd (snd (sine_bump (t / D) D))) (at t)"
  using D sin_double [of "pi * (t / D)"]
  by (auto simp: sine_bump_def power2_eq_square field_simps intro!: derivative_eq_intros)

lemma bump_derivatives:
  assumes "0 < D"
  shows "((\<lambda>t. fst (bump_of h (t / D) D)) has_real_derivative fst (snd (bump_of h (t / D) D))) (at t)"
    and "((\<lambda>t. fst (snd (bump_of h (t / D) D))) has_real_derivative snd (snd (bump_of h (t / D) D))) (at t)"
  using plateau_derivatives [OF assms, of t] sine_derivatives [OF assms, of t] by (simp_all add: bump_of_def)

lemma bump_ends:
  "fst (bump_of h 0 D) = 0" "fst (bump_of h 1 D) = 0" "fst (snd (bump_of h 0 D)) = 0" "fst (snd (bump_of h 1 D)) = 0"
  by (simp_all add: bump_of_def sine_bump_def plateau_bump_def Let_def)

section \<open>Properties\<close>

text \<open>
  C24. A retimed trajectory flies the same path: at the stretched time it is at the same position and
  yaw, with the velocity divided by the factor and the acceleration by its square. Slowed down (a
  factor of at least one) it still passes every check of the trajectory contract, provided its longer
  identifier does, although the code never repeats these checks.
\<close>

theorem retimed_flight_is_slower_original:
  assumes "check_trajectory tr = Inr ()" "0 < f"
  shows "sample_trajectory (retime_trajectory f tr) (t * f)
      = bind_ok (sample_trajectory tr t) (\<lambda>sp. Inr (retimed_setpoint f sp))
    \<and> (1 \<le> f \<and> valid_identifier (tr_trajectory_id tr @ ''-retimed'')
        \<longrightarrow> check_trajectory (retime_trajectory f tr) = Inr ())"
  using sample_retime [OF assms] retime_accepted [OF assms(1)] by blast

theorem retimed_flight_is_slower_original_witness:
  "sample_trajectory (retime_trajectory 2 sample_tr) 8 = Inr (retimed_setpoint 2 (setpoint_of (sample_points ! 1)))"
proof -
  have "sample_trajectory sample_tr 4 = Inr (setpoint_of (sample_points ! 1))"
    using sample_waypoint [OF sample_tr_accepted, of 1 4]
    by (simp add: sample_tr_facts bounded_time_def trajectory_duration_s_def)
       (simp add: sample_points_def)
  with retimed_flight_is_slower_original [OF sample_tr_accepted, of 2 4] show ?thesis by simp
qed

text \<open>
  A hold before the trajectory and a longer wait before the launch both shift the whole flight:
  at every time the vehicle is where the undelayed program had it \<open>d\<close> seconds earlier, and the
  delayed program, each of its operations included, passes the full program validator.
\<close>

theorem delayed_program_is_shifted:
  assumes "check_program sha p = Inr ()" "0 < d"
    and "delay_before_trajectory p d = Inr p' \<or> delay_before_launch p d = Inr p'"
  shows "program_position p' t = program_position p (t - d) \<and> check_program sha p' = Inr ()"
  using assms(3)
proof
  assume "delay_before_trajectory p d = Inr p'"
  with assms show ?thesis
    using shifted_program_position [OF delay_before_trajectory_ops] delay_before_trajectory_accepted by simp
next
  assume "delay_before_launch p d = Inr p'"
  with assms show ?thesis
    using shifted_program_position [OF delay_before_launch_ops] delay_before_launch_accepted accepted_program(1) by blast
qed

lemma flight_program_delays:
  "outcome_ok (delay_before_launch flight_program 2)" "outcome_ok (delay_before_trajectory flight_program 2)"
  by code_simp+

theorem delayed_program_is_shifted_witness:
  "\<exists>p. delay_before_launch flight_program 2 = Inr p \<and> program_position p 8 = program_position flight_program 6"
proof -
  obtain p where p: "delay_before_launch flight_program 2 = Inr p"
    using flight_program_delays(1) by (rule outcome_okE)
  with delayed_program_is_shifted [OF flight_program_accepted, of 2 p 8] show ?thesis by simp
qed

text \<open>
  The bumps of the detours are consistent: at every time the velocity added to a point is the
  derivative of the offset added to its position and the acceleration the derivative of that, for the
  plateau of a lateral detour, its joints included, and for the sine of a vertical one. Both bumps
  vanish with their velocity at the two ends, so the detour starts and ends where the trajectory did.
\<close>

theorem bumps_are_consistent:
  assumes "0 < D"
  shows "((\<lambda>t. fst (bump_of h (t / D) D)) has_real_derivative fst (snd (bump_of h (t / D) D))) (at t)
    \<and> ((\<lambda>t. fst (snd (bump_of h (t / D) D))) has_real_derivative snd (snd (bump_of h (t / D) D))) (at t)
    \<and> (tp_time p \<in> {0, D} \<longrightarrow> tp_position_m (offset_point h v D p) = tp_position_m p
         \<and> tp_velocity_m_s (offset_point h v D p) = tp_velocity_m_s p)"
proof (intro conjI impI)
  show "((\<lambda>t. fst (bump_of h (t / D) D)) has_real_derivative fst (snd (bump_of h (t / D) D))) (at t)"
    "((\<lambda>t. fst (snd (bump_of h (t / D) D))) has_real_derivative snd (snd (bump_of h (t / D) D))) (at t)"
    using bump_derivatives [OF assms] by blast+
next
  assume t: "tp_time p \<in> {0, D}"
  obtain b bv ba where b: "bump_of h (tp_time p / D) D = (b, bv, ba)" by (cases "bump_of h (tp_time p / D) D")
  with t assms bump_ends [of h D] have z: "b = 0" "bv = 0" by (auto simp: divide_self_if)
  show "tp_position_m (offset_point h v D p) = tp_position_m p" "tp_velocity_m_s (offset_point h v D p) = tp_velocity_m_s p"
    using z b by (simp_all add: offset_point_def offset_vector_def)
qed

theorem bumps_are_consistent_witness:
  "tp_position_m (offset_point (4/5) 0 8 (sample_points ! 2)) = vec 1 0 (1/2)"
  using bumps_are_consistent [of 8 "4/5" 0 "sample_points ! 2" 0] by (simp add: sample_points_def)

end
