(* ===== verification/Deconfliction.thy ===== *)
theory Deconfliction
  imports Retiming Artifacts
begin

text \<open>
  The two-drone planner of \<open>planning/deconfliction.py\<close>: \<open>_prediction\<close> samples two programs and finds
  their closest approach; \<open>plan_crossing_deconfliction\<close> tries the five resolution strategies in order
  and returns the programs of the first feasible one. The identifiers and hashes the planner derives
  with \<open>canonical_sha256\<close> are a parameter, one function for each kind of payload.
\<close>

section \<open>Contracts\<close>

datatype conflict_resolution_strategy =
  STAGING_HOLD | SPEED_RETIMING | HORIZONTAL_DETOUR | VERTICAL_SEPARATION | COMBINED_RETIMING_VERTICAL

datatype deconfliction_status = DC_NOT_REQUIRED | DC_RESOLVED | DC_BLOCKED

record tube_reservation =
  tb_reservation_id :: string
  tb_role_id :: string
  tb_starts_at_s :: real
  tb_ends_at_s :: real
  tb_minimum_m :: vector3
  tb_maximum_m :: vector3
  tb_uncertainty_radius_m :: real

definition ordered_corners :: "vector3 \<Rightarrow> vector3 \<Rightarrow> bool" where
  "ordered_corners lo hi \<longleftrightarrow> vx lo \<le> vx hi \<and> vy lo \<le> vy hi \<and> vz lo \<le> vz hi"

definition check_tube :: "tube_reservation \<Rightarrow> unit outcome" where
  "check_tube t = raise_first
     [(\<not> (valid_identifier (tb_reservation_id t) \<and> valid_identifier (tb_role_id t) \<and> 0 \<le> tb_starts_at_s t
          \<and> 0 < tb_ends_at_s t \<and> 0 \<le> tb_uncertainty_radius_m t), ValidationError ''TrajectoryTubeReservation field''),
      (tb_ends_at_s t \<le> tb_starts_at_s t, ValidationError ''trajectory tube reservation requires positive duration''),
      (\<not> ordered_corners (tb_minimum_m t) (tb_maximum_m t),
       ValidationError ''trajectory tube reservation bounds are reversed'')]"

record predicted_conflict =
  pc_conflict_id :: string
  pc_role_ids :: "string \<times> string"
  pc_starts_at_s :: real
  pc_ends_at_s :: real
  pc_closest_approach_s :: real
  pc_predicted_minimum_separation_m :: real
  pc_required_separation_m :: real
  pc_warning_separation_m :: real
  pc_uncertainty_margin_m :: real
  pc_tubes :: "tube_reservation \<times> tube_reservation"

definition conflict_fields_ok :: "predicted_conflict \<Rightarrow> bool" where
  "conflict_fields_ok c \<longleftrightarrow> valid_identifier (pc_conflict_id c) \<and> valid_identifier (fst (pc_role_ids c)) \<and>
     valid_identifier (snd (pc_role_ids c)) \<and> 0 \<le> pc_starts_at_s c \<and> 0 < pc_ends_at_s c \<and>
     0 \<le> pc_closest_approach_s c \<and> 0 \<le> pc_predicted_minimum_separation_m c \<and> 0 < pc_required_separation_m c \<and>
     0 < pc_warning_separation_m c \<and> 0 \<le> pc_uncertainty_margin_m c"

record resolution_candidate =
  rc_strategy :: conflict_resolution_strategy
  rc_feasible :: bool
  rc_precedence_role_id :: "string option"
  rc_held_role_id :: "string option"
  rc_staging_point_m :: "vector3 option"
  rc_planned_hold_s :: real
  rc_retiming_factor :: "real option"
  rc_horizontal_detour_m :: "real option"
  rc_vertical_offset_m :: "real option"
  rc_predicted_minimum_separation_m :: "real option"
  rc_added_duration_s :: real
  rc_added_path_length_m :: real
  rc_execution_program_sha256 :: "string option"
  rc_reason :: string

text \<open>A candidate with the defaults of the class.\<close>

definition plain_candidate :: "conflict_resolution_strategy \<Rightarrow> bool \<Rightarrow> string \<Rightarrow> resolution_candidate" where
  "plain_candidate strategy feasible reason = \<lparr>rc_strategy = strategy, rc_feasible = feasible,
     rc_precedence_role_id = None, rc_held_role_id = None, rc_staging_point_m = None, rc_planned_hold_s = 0,
     rc_retiming_factor = None, rc_horizontal_detour_m = None, rc_vertical_offset_m = None,
     rc_predicted_minimum_separation_m = None, rc_added_duration_s = 0, rc_added_path_length_m = 0,
     rc_execution_program_sha256 = None, rc_reason = reason\<rparr>"

definition candidate_fields_ok :: "resolution_candidate \<Rightarrow> bool" where
  "candidate_fields_ok c \<longleftrightarrow> opt_all valid_identifier (rc_precedence_role_id c) \<and>
     opt_all valid_identifier (rc_held_role_id c) \<and> 0 \<le> rc_planned_hold_s c \<and>
     opt_all (\<lambda>f. 1 \<le> f) (rc_retiming_factor c) \<and> opt_all (\<lambda>m. 0 \<le> m) (rc_predicted_minimum_separation_m c) \<and>
     0 \<le> rc_added_duration_s c \<and> 0 \<le> rc_added_path_length_m c \<and>
     opt_all valid_sha256 (rc_execution_program_sha256 c)"

record deconfliction_plan =
  dp_deconfliction_id :: string
  dp_status :: deconfliction_status
  dp_conflict :: "predicted_conflict option"
  dp_candidates :: "resolution_candidate list"
  dp_selected_strategy :: "conflict_resolution_strategy option"
  dp_selected_candidate_index :: "nat option"
  dp_selected_program_sha256s :: "string list"
  dp_plan_sha256 :: string

definition plan_fields_ok :: "deconfliction_plan \<Rightarrow> bool" where
  "plan_fields_ok p \<longleftrightarrow> valid_identifier (dp_deconfliction_id p) \<and>
     list_all valid_sha256 (dp_selected_program_sha256s p) \<and> valid_sha256 (dp_plan_sha256 p)"

record deconfliction_hash = planning_hash +
  dh_roles :: "string \<Rightarrow> string \<times> string \<Rightarrow> string"
  dh_reason :: "string \<Rightarrow> string \<Rightarrow> string"
  dh_window :: "string \<Rightarrow> string \<times> string \<Rightarrow> real \<Rightarrow> real \<Rightarrow> string"
  dh_conflict :: "string \<Rightarrow> predicted_conflict \<Rightarrow> string"
  dh_plan :: "deconfliction_plan \<Rightarrow> string"

section \<open>Prediction\<close>

text \<open>
  The loop starts with an infinite minimum, which the first sample replaces; \<open>closest\<close> therefore
  starts with the first sample.
\<close>

record prediction =
  pd_minimum_separation_m :: real
  pd_closest_approach_s :: real
  pd_conflict_start_s :: "real option"
  pd_conflict_end_s :: "real option"

fun closest :: "real \<times> real \<Rightarrow> (real \<times> real) list \<Rightarrow> real \<times> real" where
  "closest best [] = best"
| "closest best (s # ss) = closest (if snd s < snd best then s else best) ss"

definition sample_distance :: "execution_program \<Rightarrow> execution_program \<Rightarrow> real \<Rightarrow> (real \<times> real) outcome" where
  "sample_distance first second t =
     bind_ok (program_position first t) (\<lambda>a. bind_ok (program_position second t) (\<lambda>b. Inr (t, distance a b)))"

definition summarize :: "real \<Rightarrow> (real \<times> real) list \<Rightarrow> prediction" where
  "summarize required samples =
     (let best = closest (hd samples) (tl samples);
          conflict_times = map fst (filter (\<lambda>s. snd s < required) samples)
      in \<lparr>pd_minimum_separation_m = snd best, pd_closest_approach_s = fst best,
          pd_conflict_start_s = (if conflict_times = [] then None else Some (Min (set conflict_times))),
          pd_conflict_end_s = (if conflict_times = [] then None else Some (Max (set conflict_times)))\<rparr>)"

definition predict :: "execution_program \<Rightarrow> execution_program \<Rightarrow> real \<Rightarrow> prediction outcome" where
  "predict first second required =
     (let duration = max (ep_schedule_duration_s first) (ep_schedule_duration_s second) in
      bind_ok (map_ok (sample_distance first second) (sample_times duration)) (\<lambda>samples.
        Inr (summarize required samples)))"

definition predict_program_minimum_separation ::
    "execution_program \<Rightarrow> execution_program \<Rightarrow> (real \<times> real) outcome" where
  "predict_program_minimum_separation first second =
     bind_ok (predict first second (1 / 1000)) (\<lambda>p. Inr (pd_minimum_separation_m p, pd_closest_approach_s p))"

definition delay_program_before_trajectory :: "execution_program \<Rightarrow> real \<Rightarrow> execution_program outcome" where
  "delay_program_before_trajectory = delay_before_launch"

section \<open>The conflict report\<close>

text \<open>Python's \<open>x or y\<close>: \<open>None\<close> and zero are both falsy.\<close>

definition or_else :: "real option \<Rightarrow> real \<Rightarrow> real" where
  "or_else v y = (case v of None \<Rightarrow> y | Some x \<Rightarrow> if x = 0 then y else x)"

definition lower_corner :: "vector3 list \<Rightarrow> real \<Rightarrow> vector3" where
  "lower_corner ps m = vec (Min (vx ` set ps) - m) (Min (vy ` set ps) - m) (Min (vz ` set ps) - m)"

definition upper_corner :: "vector3 list \<Rightarrow> real \<Rightarrow> vector3" where
  "upper_corner ps m = vec (Max (vx ` set ps) + m) (Max (vy ` set ps) + m) (Max (vz ` set ps) + m)"

definition tube :: "string \<Rightarrow> execution_program \<Rightarrow> real \<Rightarrow> real \<Rightarrow> real \<Rightarrow> tube_reservation outcome" where
  "tube conflict_id p starts ends uncertainty =
     bind_ok (map_ok (program_position p) [starts, (starts + ends) / 2, ends]) (\<lambda>positions.
       let t = \<lparr>tb_reservation_id = ''tube-'' @ conflict_id @ ''-'' @ ep_role_id p, tb_role_id = ep_role_id p,
                tb_starts_at_s = starts, tb_ends_at_s = ends,
                tb_minimum_m = lower_corner positions uncertainty, tb_maximum_m = upper_corner positions uncertainty,
                tb_uncertainty_radius_m = uncertainty\<rparr>
       in bind_ok (check_tube t) (\<lambda>_. Inr t))"

definition prediction_step_s :: real where
  "prediction_step_s = 2 / 100"

definition conflict_window :: "prediction \<Rightarrow> real \<times> real" where
  "conflict_window pd =
     (let start = or_else (pd_conflict_start_s pd) (pd_closest_approach_s pd);
          fin = or_else (pd_conflict_end_s pd) (start + prediction_step_s)
      in (start, if fin \<le> start then start + prediction_step_s else fin))"

definition conflict_contract ::
    "deconfliction_hash \<Rightarrow> string \<Rightarrow> string \<times> string \<Rightarrow> execution_program \<Rightarrow> execution_program \<Rightarrow> prediction
       \<Rightarrow> real \<Rightarrow> real \<Rightarrow> real \<Rightarrow> predicted_conflict outcome" where
  "conflict_contract H mission roles first second pd warning required uncertainty =
     (let (start, fin) = conflict_window pd;
          cid = ''conflict-'' @ take 20 (dh_window H mission roles start fin) in
      bind_ok (tube cid first start fin uncertainty) (\<lambda>t1.
      bind_ok (tube cid second start fin uncertainty) (\<lambda>t2.
        let c = \<lparr>pc_conflict_id = cid, pc_role_ids = roles, pc_starts_at_s = start, pc_ends_at_s = fin,
                 pc_closest_approach_s = pd_closest_approach_s pd,
                 pc_predicted_minimum_separation_m = pd_minimum_separation_m pd,
                 pc_required_separation_m = required, pc_warning_separation_m = warning,
                 pc_uncertainty_margin_m = uncertainty, pc_tubes = (t1, t2)\<rparr>
        in if conflict_fields_ok c then Inr c else Inl (ValidationError ''PredictedConflict field''))))"

section \<open>Resolution candidates\<close>

definition by_role :: "execution_program list \<Rightarrow> string \<Rightarrow> execution_program outcome" where
  "by_role programs role =
     (case find (\<lambda>p. ep_role_id p = role) (rev programs) of Some p \<Rightarrow> Inr p | None \<Rightarrow> Inl KeyError)"

definition next_of_role :: "execution_program list \<Rightarrow> string \<Rightarrow> execution_program outcome" where
  "next_of_role programs role =
     (case find (\<lambda>p. ep_role_id p = role) programs of Some p \<Rightarrow> Inr p | None \<Rightarrow> Inl StopIteration)"

definition replace_role ::
    "string \<Rightarrow> execution_program \<Rightarrow> execution_program list \<Rightarrow> execution_program list" where
  "replace_role role p programs = map (\<lambda>q. if ep_role_id q = role then p else q) programs"

definition predict_pair :: "execution_program list \<Rightarrow> real \<Rightarrow> prediction outcome" where
  "predict_pair programs required =
     (case programs of a # b # _ \<Rightarrow> predict a b required | _ \<Rightarrow> Inl index_error)"

type_synonym attempt = "execution_program list \<times> resolution_candidate"

definition offer :: "execution_program list \<Rightarrow> resolution_candidate \<Rightarrow> attempt outcome" where
  "offer programs c =
     (if candidate_fields_ok c then Inr (programs, c) else Inl (ValidationError ''ResolutionCandidate field''))"

definition staging_candidate ::
    "deconfliction_hash \<Rightarrow> execution_program list \<Rightarrow> string \<Rightarrow> string \<Rightarrow> real \<Rightarrow> safety_policy \<Rightarrow> attempt outcome" where
  "staging_candidate H programs precedence held required policy =
     bind_ok (bind_ok (by_role programs precedence) first_trajectory) (\<lambda>ptr.
     bind_ok (by_role programs held) (\<lambda>hp.
     bind_ok (first_trajectory hp) (\<lambda>htr.
       let delay = max 0 (op_ends_at_s ptr - op_starts_at_s htr + 1 / 4) in
       bind_ok (delay_before_trajectory hp delay) (\<lambda>delayed.
         let transformed = replace_role held delayed programs in
         bind_ok (predict_pair transformed required) (\<lambda>pd.
           let feasible = (pd_minimum_separation_m pd \<ge> required
                 \<and> ep_schedule_duration_s delayed \<le> max_mission_duration_s policy)
           in offer transformed
             ((plain_candidate STAGING_HOLD feasible
                 (if feasible then ''precedence role clears the conflict while the held role remains at an admitted staging point outside the required separation tube''
                  else ''staging delay does not satisfy separation or mission duration''))
              \<lparr>rc_precedence_role_id := Some precedence, rc_held_role_id := Some held,
               rc_staging_point_m := Some (tp_position_m (hd (tr_points (op_trajectory htr)))),
               rc_planned_hold_s := delay,
               rc_predicted_minimum_separation_m := Some (pd_minimum_separation_m pd),
               rc_added_duration_s := delay,
               rc_execution_program_sha256 := (if feasible then Some (ph_program H delayed) else None)\<rparr>))))))"

text \<open>One trial of a search: the programs and the prediction when the trial is accepted.\<close>

type_synonym trial = "execution_program list \<times> execution_program \<times> prediction"

definition try_retiming ::
    "deconfliction_hash \<Rightarrow> execution_program list \<Rightarrow> string \<Rightarrow> real \<Rightarrow> safety_policy \<Rightarrow> real \<Rightarrow> trial option outcome" where
  "try_retiming H programs role required policy factor =
     bind_ok (next_of_role programs role) (\<lambda>original.
     bind_ok (retime_program (planning_hash.truncate H) original factor) (\<lambda>p.
       let transformed = replace_role role p programs in
       bind_ok (predict_pair transformed required) (\<lambda>pd.
         Inr (if pd_minimum_separation_m pd \<ge> required \<and> ep_schedule_duration_s p \<le> max_mission_duration_s policy
              then Some (transformed, p, pd) else None))))"

definition retiming_factors :: "real list" where
  "retiming_factors = [5 / 4, 3 / 2, 7 / 4, 2, 5 / 2, 3, 7 / 2, 4]"

definition retiming_candidate ::
    "deconfliction_hash \<Rightarrow> execution_program list \<Rightarrow> string \<Rightarrow> string \<Rightarrow> real \<Rightarrow> safety_policy \<Rightarrow> attempt outcome" where
  "retiming_candidate H programs precedence retimed required policy =
     bind_ok (first_that (try_retiming H programs retimed required policy) retiming_factors) (\<lambda>found.
       case found of
         None \<Rightarrow> offer programs
           ((plain_candidate SPEED_RETIMING False ''bounded continuous retiming cannot retain the required separation'')
            \<lparr>rc_precedence_role_id := Some precedence, rc_held_role_id := Some retimed\<rparr>)
       | Some (factor, best, _, pd) \<Rightarrow>
           bind_ok (next_of_role best retimed) (\<lambda>p.
           bind_ok (next_of_role programs retimed) (\<lambda>original.
             offer best
               ((plain_candidate SPEED_RETIMING True ''continuous trajectory timing separates the closest-approach instants'')
                \<lparr>rc_precedence_role_id := Some precedence, rc_held_role_id := Some retimed,
                 rc_retiming_factor := Some factor,
                 rc_predicted_minimum_separation_m := Some (pd_minimum_separation_m pd),
                 rc_added_duration_s := ep_schedule_duration_s p - ep_schedule_duration_s original,
                 rc_execution_program_sha256 := Some (ph_program H p)\<rparr>))))"

definition try_offset ::
    "execution_program list \<Rightarrow> string \<Rightarrow> real \<Rightarrow> safety_policy \<Rightarrow> execution_program outcome \<Rightarrow> trial option outcome" where
  "try_offset programs role required policy candidate =
     bind_ok candidate (\<lambda>p.
     bind_ok (program_admissible p policy) (\<lambda>admissible.
       if \<not> admissible then Inr None
       else let transformed = replace_role role p programs in
         bind_ok (predict_pair transformed required) (\<lambda>pd.
           Inr (if pd_minimum_separation_m pd \<ge> required then Some (transformed, p, pd) else None))))"

definition horizontal_offsets :: "real \<Rightarrow> real list" where
  "horizontal_offsets required = [required, - required, 12 / 10, - 12 / 10, 15 / 10, - 15 / 10]"

definition horizontal_candidate ::
    "deconfliction_hash \<Rightarrow> execution_program list \<Rightarrow> string \<Rightarrow> string \<Rightarrow> real \<Rightarrow> safety_policy \<Rightarrow> attempt outcome" where
  "horizontal_candidate H programs precedence detour required policy =
     bind_ok (next_of_role programs detour) (\<lambda>original.
     bind_ok (first_that (\<lambda>offset. try_offset programs detour required policy
                 (offset_program (planning_hash.truncate H) original offset 0)) (horizontal_offsets required)) (\<lambda>found.
       case found of
         None \<Rightarrow> offer programs
           ((plain_candidate HORIZONTAL_DETOUR False ''bounded horizontal detour does not satisfy separation inside the volume'')
            \<lparr>rc_precedence_role_id := Some precedence, rc_held_role_id := Some detour\<rparr>)
       | Some (offset, best, _, pd) \<Rightarrow>
           bind_ok (next_of_role best detour) (\<lambda>p.
             offer best
               ((plain_candidate HORIZONTAL_DETOUR True ''smooth in-volume lateral bump separates the crossing trajectories'')
                \<lparr>rc_precedence_role_id := Some precedence, rc_held_role_id := Some detour,
                 rc_horizontal_detour_m := Some offset,
                 rc_predicted_minimum_separation_m := Some (pd_minimum_separation_m pd),
                 rc_added_path_length_m := \<bar>offset\<bar> * 2,
                 rc_execution_program_sha256 := Some (ph_program H p)\<rparr>))))"

definition vertical_candidate ::
    "deconfliction_hash \<Rightarrow> execution_program list \<Rightarrow> string \<Rightarrow> string \<Rightarrow> real \<Rightarrow> safety_policy \<Rightarrow> attempt outcome" where
  "vertical_candidate H programs precedence shifted required policy =
     bind_ok (next_of_role programs shifted) (\<lambda>original.
     bind_ok (offset_program (planning_hash.truncate H) original 0 required) (\<lambda>p.
     bind_ok (program_admissible p policy) (\<lambda>inside.
       let transformed = replace_role shifted p programs in
       bind_ok (if inside then bind_ok (predict_pair transformed required) (\<lambda>pd. Inr (Some pd)) else Inr None) (\<lambda>pd.
         let feasible = (case pd of None \<Rightarrow> False | Some d \<Rightarrow> pd_minimum_separation_m d \<ge> required)
         in offer (if feasible then transformed else programs)
           ((plain_candidate VERTICAL_SEPARATION feasible
               (if feasible then ''vertical layer fits the flight volume and retains the required margin''
                else ''required vertical layer exceeds altitude, flight-volume, or uncertainty bounds''))
            \<lparr>rc_precedence_role_id := Some precedence, rc_held_role_id := Some shifted,
             rc_vertical_offset_m := Some required,
             rc_predicted_minimum_separation_m := map_option pd_minimum_separation_m pd,
             rc_execution_program_sha256 := (if feasible then Some (ph_program H p) else None)\<rparr>)))))"

definition combinations :: "(real \<times> real) list" where
  "combinations = List.product [3 / 2, 2, 5 / 2, 3, 13 / 4] [2 / 10, 4 / 10, 6 / 10]"

definition combined_candidate ::
    "deconfliction_hash \<Rightarrow> execution_program list \<Rightarrow> string \<Rightarrow> string \<Rightarrow> real \<Rightarrow> safety_policy \<Rightarrow> attempt outcome" where
  "combined_candidate H programs precedence shifted required policy =
     bind_ok (next_of_role programs shifted) (\<lambda>original.
     bind_ok (first_that (\<lambda>(factor, offset). try_offset programs shifted required policy
                 (bind_ok (retime_program (planning_hash.truncate H) original factor) (\<lambda>r.
                    offset_program (planning_hash.truncate H) r 0 offset))) combinations) (\<lambda>found.
       case found of
         None \<Rightarrow> offer programs
           ((plain_candidate COMBINED_RETIMING_VERTICAL False ''bounded retiming and vertical combinations do not fit all hard constraints'')
            \<lparr>rc_precedence_role_id := Some precedence, rc_held_role_id := Some shifted\<rparr>)
       | Some ((factor, offset), best, _, pd) \<Rightarrow>
           let p = (case next_of_role best shifted of Inr q \<Rightarrow> q | Inl _ \<Rightarrow> original) in
           offer best
             ((plain_candidate COMBINED_RETIMING_VERTICAL True ''bounded retiming and vertical offset jointly retain the required margin'')
              \<lparr>rc_precedence_role_id := Some precedence, rc_held_role_id := Some shifted,
               rc_retiming_factor := Some factor, rc_vertical_offset_m := Some offset,
               rc_predicted_minimum_separation_m := Some (pd_minimum_separation_m pd),
               rc_added_duration_s := ep_schedule_duration_s p - ep_schedule_duration_s original,
               rc_execution_program_sha256 := Some (ph_program H p)\<rparr>)))"

section \<open>The planner\<close>

fun resolve ::
    "conflict_resolution_strategy \<Rightarrow> deconfliction_hash \<Rightarrow> execution_program list \<Rightarrow> string \<Rightarrow> string \<Rightarrow> real
       \<Rightarrow> safety_policy \<Rightarrow> attempt outcome" where
  "resolve STAGING_HOLD = staging_candidate"
| "resolve SPEED_RETIMING = retiming_candidate"
| "resolve HORIZONTAL_DETOUR = horizontal_candidate"
| "resolve VERTICAL_SEPARATION = vertical_candidate"
| "resolve COMBINED_RETIMING_VERTICAL = combined_candidate"

definition all_strategies :: "conflict_resolution_strategy list" where
  "all_strategies = [STAGING_HOLD, SPEED_RETIMING, HORIZONTAL_DETOUR, VERTICAL_SEPARATION, COMBINED_RETIMING_VERTICAL]"

definition seal_plan :: "deconfliction_hash \<Rightarrow> deconfliction_plan \<Rightarrow> deconfliction_plan outcome" where
  "seal_plan H payload =
     (let plan = payload\<lparr>dp_plan_sha256 := dh_plan H payload\<rparr>
      in if plan_fields_ok plan then Inr plan else Inl (ValidationError ''FleetDeconflictionPlan field''))"

definition plan_payload ::
    "string \<Rightarrow> deconfliction_status \<Rightarrow> predicted_conflict option \<Rightarrow> resolution_candidate list \<Rightarrow> deconfliction_plan" where
  "plan_payload pid status conflict candidates = \<lparr>dp_deconfliction_id = pid, dp_status = status, dp_conflict = conflict,
     dp_candidates = candidates, dp_selected_strategy = None, dp_selected_candidate_index = None,
     dp_selected_program_sha256s = [], dp_plan_sha256 = ''''\<rparr>"

definition blocked_plan ::
    "deconfliction_hash \<Rightarrow> string \<Rightarrow> resolution_candidate list \<Rightarrow> string \<Rightarrow> predicted_conflict option
       \<Rightarrow> deconfliction_plan outcome" where
  "blocked_plan H mission candidates reason conflict =
     seal_plan H (plan_payload (''deconfliction-'' @ take 20 (dh_reason H mission reason)) DC_BLOCKED conflict
       (if candidates = [] then [plain_candidate STAGING_HOLD False reason] else candidates))"

definition crossing_tasks :: "deployment_manifest \<Rightarrow> (string, task_definition) dict" where
  "crossing_tasks d = fold (\<lambda>t. dict_set (td_task_id t) t) (filter (\<lambda>t. td_task_type t = ''crossing-route'') (tasks d)) []"

definition task_priority :: "(string, task_definition) dict \<Rightarrow> string \<Rightarrow> int" where
  "task_priority ts role = (case dict_get ts role of Some t \<Rightarrow> td_priority t | None \<Rightarrow> 0)"

definition precedence_role :: "(string, task_definition) dict \<Rightarrow> string \<Rightarrow> string \<Rightarrow> string" where
  "precedence_role ts r1 r2 = min_by (\<lambda>r. (- task_priority ts r, r)) r1 [r2]"

definition default_uncertainty :: real where
  "default_uncertainty = 5 / 100"

type_synonym plan_result = "execution_program list \<times> deconfliction_plan option"

definition with_plan :: "execution_program list \<Rightarrow> deconfliction_plan outcome \<Rightarrow> plan_result outcome" where
  "with_plan programs r = bind_ok r (\<lambda>plan. Inr (programs, Some plan))"

definition select_resolution ::
    "deconfliction_hash \<Rightarrow> string \<Rightarrow> execution_program list \<Rightarrow> predicted_conflict \<Rightarrow> attempt list \<Rightarrow> plan_result outcome" where
  "select_resolution H mission programs conflict attempts =
     (let candidates = map snd attempts; i = length (takeWhile (\<lambda>c. \<not> rc_feasible c) candidates) in
      if i = length candidates
      then with_plan programs (blocked_plan H mission candidates
             ''no deterministic two-drone resolution candidate is feasible'' (Some conflict))
      else with_plan (fst (attempts ! i)) (seal_plan H
             ((plan_payload (''deconfliction-'' @ take 20 (dh_conflict H mission conflict)) DC_RESOLVED (Some conflict) candidates)
              \<lparr>dp_selected_strategy := Some (rc_strategy (candidates ! i)), dp_selected_candidate_index := Some i,
               dp_selected_program_sha256s := map (ph_program H) (fst (attempts ! i))\<rparr>)))"

definition resolve_conflict ::
    "deconfliction_hash \<Rightarrow> string \<Rightarrow> execution_program list \<Rightarrow> safety_policy \<Rightarrow> conflict_resolution_strategy list
       \<Rightarrow> predicted_conflict \<Rightarrow> string \<Rightarrow> string \<Rightarrow> real \<Rightarrow> plan_result outcome" where
  "resolve_conflict H mission programs policy allowed conflict precedence held required =
     bind_ok (map_ok (\<lambda>s. resolve s H programs precedence held required policy)
                (filter (\<lambda>s. s \<in> set allowed) all_strategies))
       (select_resolution H mission programs conflict)"

definition plan_crossing_pair ::
    "deconfliction_hash \<Rightarrow> string \<Rightarrow> deployment_manifest \<Rightarrow> execution_program list \<Rightarrow> safety_policy
       \<Rightarrow> conflict_resolution_strategy list \<Rightarrow> string \<Rightarrow> string \<Rightarrow> plan_result outcome" where
  "plan_crossing_pair H mission d programs policy allowed r1 r2 =
     bind_ok (by_role programs r1) (\<lambda>first.
     bind_ok (by_role programs r2) (\<lambda>second.
       let warning = warning_separation_m (constraints d); required = warning + default_uncertainty in
       bind_ok (predict first second required) (\<lambda>pd.
         if pd_minimum_separation_m pd \<ge> required
         then with_plan programs (seal_plan H
                ((plan_payload (''deconfliction-'' @ take 20 (dh_roles H mission (r1, r2))) DC_NOT_REQUIRED None [])
                 \<lparr>dp_selected_program_sha256s := map (ph_program H) programs\<rparr>))
         else bind_ok (conflict_contract H mission (r1, r2) first second pd warning required default_uncertainty) (\<lambda>conflict.
                let precedence = precedence_role (crossing_tasks d) r1 r2;
                    held = (if r1 \<noteq> precedence then r1 else r2)
                in resolve_conflict H mission programs policy allowed conflict precedence held required))))"

definition plan_crossing_deconfliction ::
    "deconfliction_hash \<Rightarrow> string \<Rightarrow> deployment_manifest \<Rightarrow> execution_program list \<Rightarrow> safety_policy
       \<Rightarrow> conflict_resolution_strategy list \<Rightarrow> plan_result outcome" where
  "plan_crossing_deconfliction H mission d programs policy allowed =
     (case sort (dict_keys (crossing_tasks d)) of
        [r1, r2] \<Rightarrow>
          if {r1, r2} \<noteq> set (map ep_role_id programs)
          then with_plan programs (blocked_plan H mission []
                 ''crossing roles do not have static accepted execution programs'' None)
          else bind_ok (map_ok (by_role programs) [r1, r2]) (\<lambda>ps.
            if list_ex (\<lambda>p. length (trajectory_operations p) \<noteq> 1) ps
            then with_plan programs (blocked_plan H mission []
                   ''crossing deconfliction requires one continuous trajectory per role'' None)
            else plan_crossing_pair H mission d programs policy allowed r1 r2)
      | _ \<Rightarrow> Inr (programs, None))"

section \<open>Samples and instants\<close>

lemma closest_in: "closest b ss \<in> set (b # ss)"
  by (induction ss arbitrary: b) (auto split: if_splits)

lemma closest_le: "s \<in> set (b # ss) \<Longrightarrow> snd (closest b ss) \<le> snd s"
proof (induction ss arbitrary: b s)
  case (Cons a ss)
  let ?c = "if snd a < snd b then a else b"
  have c: "snd (closest ?c ss) \<le> snd ?c" by (rule Cons.IH) simp
  consider "s = b" | "s = a" | "s \<in> set ss" using Cons.prems by auto
  then show ?case
  proof cases
    case 3
    then have "snd (closest ?c ss) \<le> snd s" by (intro Cons.IH) simp
    then show ?thesis by simp
  qed (use c in \<open>auto split: if_splits\<close>)
qed simp

lemma sample_count_pos: "0 < sample_count d"
  by (simp add: sample_count_def)

lemma sample_step: "0 < d \<Longrightarrow> d / real (sample_count d) \<le> 2 / 100"
proof -
  assume d: "0 < d"
  have "d / (2 / 100) \<le> real (nat \<lceil>d / (2 / 100)\<rceil>)" by (rule real_nat_ceiling_ge)
  also have "\<dots> \<le> real (sample_count d)" by (simp add: sample_count_def)
  finally show ?thesis using sample_count_pos [of d] by (simp add: field_simps)
qed

lemma sample_times_in:
  assumes "0 \<le> d"
  shows "\<tau> \<in> set (sample_times d) \<longleftrightarrow> (\<exists>i \<le> sample_count d. \<tau> = real i * (d / real (sample_count d)))"
proof -
  have "min d (real i * d / real (sample_count d)) = real i * (d / real (sample_count d))" if "i \<le> sample_count d" for i
  proof -
    have "real i * d \<le> real (sample_count d) * d" using that assms by (simp add: mult_right_mono)
    then show ?thesis using sample_count_pos [of d] by (simp add: min_def field_simps)
  qed
  then have "set (sample_times d) = (\<lambda>i. real i * (d / real (sample_count d))) ` {..sample_count d}"
    unfolding sample_times_def by (force simp: image_iff less_Suc_eq_le)
  then show ?thesis by auto
qed

lemma sample_nearby:
  assumes "0 < d" "0 \<le> t" "t \<le> d"
  shows "\<exists>\<tau> \<in> set (sample_times d). \<bar>t - \<tau>\<bar> \<le> 1 / 100"
proof -
  let ?n = "sample_count d" and ?s = "d / real (sample_count d)"
  define i where i: "i = nat \<lfloor>t / ?s + 1 / 2\<rfloor>"
  have s: "0 < ?s" using assms sample_count_pos [of d] by simp
  have fl: "real_of_int \<lfloor>t / ?s + 1 / 2\<rfloor> \<le> t / ?s + 1 / 2" "t / ?s + 1 / 2 < real_of_int \<lfloor>t / ?s + 1 / 2\<rfloor> + 1"
    by linarith+
  have nn: "0 \<le> t / ?s" using s assms by simp
  then have ri: "real i = real_of_int \<lfloor>t / ?s + 1 / 2\<rfloor>" by (simp add: i)
  have near: "\<bar>t / ?s - real i\<bar> \<le> 1 / 2" using fl ri by linarith
  have "t / ?s \<le> real ?n" using assms sample_count_pos [of d] by (simp add: field_simps)
  with fl ri have "i \<le> ?n" by linarith
  then have "real i * ?s \<in> set (sample_times d)" using assms by (subst sample_times_in) auto
  moreover have "\<bar>t - real i * ?s\<bar> \<le> 1 / 100"
  proof -
    have "\<bar>t - real i * ?s\<bar> = \<bar>t / ?s - real i\<bar> * ?s"
      using s by (metis abs_mult abs_of_pos left_diff_distrib nonzero_eq_divide_eq order_less_irrefl)
    also have "\<dots> \<le> 1 / 2 * (2 / 100)" using near sample_step [OF assms(1)] s by (intro mult_mono) auto
    finally show ?thesis by simp
  qed
  ultimately show ?thesis by blast
qed

text \<open>Two programs keep a distance at every predicted sample.\<close>

definition joint_duration :: "execution_program \<Rightarrow> execution_program \<Rightarrow> real" where
  "joint_duration a b = max (ep_schedule_duration_s a) (ep_schedule_duration_s b)"

definition separated :: "execution_program \<Rightarrow> execution_program \<Rightarrow> real \<Rightarrow> bool" where
  "separated a b s \<longleftrightarrow> (\<forall>t \<in> set (sample_times (joint_duration a b)).
     \<exists>pa pb. program_position a t = Inr pa \<and> program_position b t = Inr pb \<and> s \<le> distance pa pb)"

lemma separated_commute: "separated a b s \<longleftrightarrow> separated b a s"
  unfolding separated_def joint_duration_def by (metis distance_commute max.commute)

lemma predict_samples:
  assumes "predict a b required = Inr pd"
  obtains samples where "list_all2 (\<lambda>t s. sample_distance a b t = Inr s) (sample_times (joint_duration a b)) samples"
    "samples \<noteq> []" "pd = summarize required samples"
proof -
  from assms obtain samples where m: "map_ok (sample_distance a b) (sample_times (joint_duration a b)) = Inr samples"
    and pd: "pd = summarize required samples"
    by (auto simp: predict_def joint_duration_def Let_def bind_ok_Inr)
  from m have l: "list_all2 (\<lambda>t s. sample_distance a b t = Inr s) (sample_times (joint_duration a b)) samples"
    by (simp add: map_ok_Inr)
  moreover from l have "samples \<noteq> []" by (auto simp: sample_times_def dest: list_all2_lengthD)
  ultimately show ?thesis using pd by (intro that)
qed

lemma summarize_minimum: "pd_minimum_separation_m (summarize r samples) = snd (closest (hd samples) (tl samples))"
  by (simp add: summarize_def Let_def)

lemma sample_distance_Inr:
  "sample_distance a b t = Inr s \<longleftrightarrow>
     (\<exists>pa pb. program_position a t = Inr pa \<and> program_position b t = Inr pb \<and> s = (t, distance pa pb))"
  by (auto simp: sample_distance_def bind_ok_Inr)

lemma predict_separated:
  assumes "predict a b required = Inr pd"
  shows "separated a b (pd_minimum_separation_m pd)"
  unfolding separated_def
proof
  fix t assume t: "t \<in> set (sample_times (joint_duration a b))"
  from assms obtain samples where s: "list_all2 (\<lambda>t s. sample_distance a b t = Inr s) (sample_times (joint_duration a b)) samples"
    "samples \<noteq> []" "pd = summarize required samples"
    by (rule predict_samples)
  from t obtain i where i: "i < length (sample_times (joint_duration a b))" "t = sample_times (joint_duration a b) ! i"
    by (auto simp: in_set_conv_nth)
  define x where "x = samples ! i"
  have x: "x \<in> set samples" "sample_distance a b t = Inr x"
    using list_all2_nthD [OF s(1) i(1)] list_all2_lengthD [OF s(1)] i by (simp_all add: x_def)
  have "snd (closest (hd samples) (tl samples)) \<le> snd x" using s(2) x(1) by (intro closest_le) simp
  then have "pd_minimum_separation_m pd \<le> snd x" by (simp add: s(3) summarize_minimum)
  with x(2) show "\<exists>pa pb. program_position a t = Inr pa \<and> program_position b t = Inr pb \<and> pd_minimum_separation_m pd \<le> distance pa pb"
    by (auto simp: sample_distance_Inr)
qed

lemma separated_mono: "separated a b s \<Longrightarrow> r \<le> s \<Longrightarrow> separated a b r"
  unfolding separated_def by (meson order_trans)

section \<open>Between the samples\<close>

definition flies_within :: "execution_program \<Rightarrow> real \<Rightarrow> bool" where
  "flies_within p V \<longleftrightarrow> (\<exists>op. first_trajectory p = Inr op \<and> check_trajectory (op_trajectory op) = Inr ()
     \<and> exact_window op \<and> speed_bounded (op_trajectory op) V)"

lemma flies_position: "flies_within p V \<Longrightarrow> \<exists>x. program_position p t = Inr x"
  using sample_total operation_position_sample
  by (fastforce simp: flies_within_def program_position_def)

lemma flies_speed:
  "flies_within p V \<Longrightarrow> program_position p s = Inr x \<Longrightarrow> program_position p t = Inr y \<Longrightarrow> distance x y \<le> V * \<bar>t - s\<bar>"
  using operation_speed distance_commute by (fastforce simp: flies_within_def program_position_def)

lemma separated_everywhere:
  assumes "separated a b s" "flies_within a V" "flies_within b W" "0 \<le> t" "t \<le> joint_duration a b" "0 < joint_duration a b"
    and pos: "program_position a t = Inr x" "program_position b t = Inr y"
  shows "s - (V + W) / 100 \<le> distance x y"
proof -
  obtain \<tau> where \<tau>: "\<tau> \<in> set (sample_times (joint_duration a b))" "\<bar>t - \<tau>\<bar> \<le> 1 / 100"
    using sample_nearby [OF assms(6,4,5)] by blast
  then obtain pa pb where p: "program_position a \<tau> = Inr pa" "program_position b \<tau> = Inr pb" "s \<le> distance pa pb"
    using assms(1) unfolding separated_def by blast
  have nn: "0 \<le> V" "0 \<le> W" using assms(2,3) by (auto simp: flies_within_def speed_bounded_def)
  have "distance pa x \<le> V * (1 / 100)" "distance y pb \<le> W * (1 / 100)"
    using flies_speed [OF assms(2) p(1) pos(1)] flies_speed [OF assms(3) pos(2) p(2)] \<tau>(2) nn
      mult_left_mono [of "\<bar>t - \<tau>\<bar>" "1 / 100" V] mult_left_mono [of "\<bar>\<tau> - t\<bar>" "1 / 100" W]
    by (simp_all add: abs_minus_commute)
  moreover have "distance pa pb \<le> distance pa x + (distance x y + distance y pb)"
    using distance_triangle [of pa pb x] distance_triangle [of x pb y] by linarith
  ultimately show ?thesis using p(3) by (simp add: field_simps)
qed

section \<open>What a feasible candidate guarantees\<close>

text \<open>
  The limits each strategy enforces: the delays check the mission duration, the bumps the flight
  volume, altitude, speeds and acceleration at the samples.
\<close>

fun strategy_limit :: "safety_policy \<Rightarrow> conflict_resolution_strategy \<Rightarrow> execution_program \<Rightarrow> bool" where
  "strategy_limit policy STAGING_HOLD p \<longleftrightarrow> ep_schedule_duration_s p \<le> max_mission_duration_s policy"
| "strategy_limit policy SPEED_RETIMING p \<longleftrightarrow> ep_schedule_duration_s p \<le> max_mission_duration_s policy"
| "strategy_limit policy _ p \<longleftrightarrow> program_admissible p policy = Inr True"

text \<open>
  The held role flies a rewritten program of its own within these limits, and the pair keeps the
  required distance.
\<close>

definition resolves ::
    "safety_policy \<Rightarrow> conflict_resolution_strategy \<Rightarrow> execution_program list \<Rightarrow> string \<Rightarrow> real \<Rightarrow> execution_program list \<Rightarrow> bool" where
  "resolves policy strategy programs held required programs' \<longleftrightarrow>
     (\<exists>original p pd. original \<in> set programs \<and> ep_role_id original = held \<and> ep_role_id p = held
        \<and> ep_vehicle_id p = ep_vehicle_id original \<and> programs' = replace_role held p programs
        \<and> predict_pair programs' required = Inr pd \<and> required \<le> pd_minimum_separation_m pd
        \<and> strategy_limit policy strategy p)"

lemma by_role_Inr: "by_role ps r = Inr p \<Longrightarrow> p \<in> set ps \<and> ep_role_id p = r"
  by (auto simp: by_role_def split: option.splits dest: find_SomeD)

lemma next_of_role_Inr: "next_of_role ps r = Inr p \<Longrightarrow> p \<in> set ps \<and> ep_role_id p = r"
  by (auto simp: next_of_role_def split: option.splits dest: find_SomeD)

lemma offer_Inr: "offer ps c = Inr (ps', c') \<longleftrightarrow> ps' = ps \<and> c' = c \<and> candidate_fields_ok c"
  by (auto simp: offer_def)

lemma delay_identity:
  "delay_before_trajectory p d = Inr p' \<Longrightarrow> ep_role_id p' = ep_role_id p \<and> ep_vehicle_id p' = ep_vehicle_id p"
  by (auto simp: delay_before_trajectory_def Let_def bind_ok_Inr split: if_splits dest: rebuild_identity)

lemma retime_identity:
  "retime_program H p f = Inr p' \<Longrightarrow> ep_role_id p' = ep_role_id p \<and> ep_vehicle_id p' = ep_vehicle_id p"
  by (auto simp: retime_program_def bind_ok_Inr dest: rebuild_identity)

lemma offset_identity:
  "offset_program H p h v = Inr p' \<Longrightarrow> ep_role_id p' = ep_role_id p \<and> ep_vehicle_id p' = ep_vehicle_id p"
  by (auto simp: offset_program_def bind_ok_Inr dest: rebuild_identity)

lemma resolvesI:
  assumes "original \<in> set programs \<and> ep_role_id original = held"
    "ep_role_id p = ep_role_id original \<and> ep_vehicle_id p = ep_vehicle_id original"
    "predict_pair (replace_role held p programs) required = Inr pd" "required \<le> pd_minimum_separation_m pd"
    "strategy_limit policy strategy p"
  shows "resolves policy strategy programs held required (replace_role held p programs)"
  using assms unfolding resolves_def by metis

lemma try_offset_Some:
  "try_offset programs role required policy candidate = Inr (Some (ps, p, pd)) \<Longrightarrow>
   candidate = Inr p \<and> program_admissible p policy = Inr True \<and> ps = replace_role role p programs
     \<and> predict_pair ps required = Inr pd \<and> required \<le> pd_minimum_separation_m pd"
  by (auto simp: try_offset_def Let_def bind_ok_Inr split: if_splits)

lemma staging_resolves:
  assumes "staging_candidate H programs precedence held required policy = Inr (ps, c)" "rc_feasible c"
  shows "resolves policy STAGING_HOLD programs held required ps"
proof -
  from assms obtain hp delay p pd where x: "by_role programs held = Inr hp" "delay_before_trajectory hp delay = Inr p"
    "ps = replace_role held p programs" "predict_pair (replace_role held p programs) required = Inr pd"
    "required \<le> pd_minimum_separation_m pd"
    "strategy_limit policy STAGING_HOLD p"
    by (auto simp: staging_candidate_def Let_def bind_ok_Inr offer_Inr plain_candidate_def)
  show ?thesis
    unfolding x(3) by (rule resolvesI [OF by_role_Inr [OF x(1)] delay_identity [OF x(2)] x(4-6)])
qed

lemma retiming_resolves:
  assumes "retiming_candidate H programs precedence held required policy = Inr (ps, c)" "rc_feasible c"
  shows "resolves policy SPEED_RETIMING programs held required ps"
proof -
  from assms obtain f p pd where
    "first_that (try_retiming H programs held required policy) retiming_factors = Inr (Some (f, ps, p, pd))"
    by (auto simp: retiming_candidate_def bind_ok_Inr offer_Inr plain_candidate_def split: option.splits)
  from first_that_Some [OF this] obtain original where x: "next_of_role programs held = Inr original"
    "retime_program (planning_hash.truncate H) original f = Inr p" "ps = replace_role held p programs"
    "predict_pair (replace_role held p programs) required = Inr pd" "required \<le> pd_minimum_separation_m pd"
    "strategy_limit policy SPEED_RETIMING p"
    by (auto simp: try_retiming_def Let_def bind_ok_Inr split: if_splits)
  show ?thesis
    unfolding x(3) by (rule resolvesI [OF next_of_role_Inr [OF x(1)] retime_identity [OF x(2)] x(4-6)])
qed

lemma horizontal_resolves:
  assumes "horizontal_candidate H programs precedence held required policy = Inr (ps, c)" "rc_feasible c"
  shows "resolves policy HORIZONTAL_DETOUR programs held required ps"
proof -
  from assms obtain original off p pd where o: "next_of_role programs held = Inr original" and
    "first_that (\<lambda>offset. try_offset programs held required policy
        (offset_program (planning_hash.truncate H) original offset 0)) (horizontal_offsets required)
      = Inr (Some (off, ps, p, pd))"
    by (auto simp: horizontal_candidate_def bind_ok_Inr offer_Inr plain_candidate_def split: option.splits)
  from first_that_Some [OF this(2), THEN conjunct2, THEN try_offset_Some]
  have x: "offset_program (planning_hash.truncate H) original off 0 = Inr p" "ps = replace_role held p programs"
    "predict_pair (replace_role held p programs) required = Inr pd" "required \<le> pd_minimum_separation_m pd"
    "strategy_limit policy HORIZONTAL_DETOUR p" by auto
  show ?thesis
    unfolding x(2) by (rule resolvesI [OF next_of_role_Inr [OF o] offset_identity [OF x(1)] x(3-5)])
qed

lemma vertical_resolves:
  assumes "vertical_candidate H programs precedence held required policy = Inr (ps, c)" "rc_feasible c"
  shows "resolves policy VERTICAL_SEPARATION programs held required ps"
proof -
  from assms obtain original p pd where x: "next_of_role programs held = Inr original"
    "offset_program (planning_hash.truncate H) original 0 required = Inr p" "ps = replace_role held p programs"
    "predict_pair (replace_role held p programs) required = Inr pd" "required \<le> pd_minimum_separation_m pd"
    "strategy_limit policy VERTICAL_SEPARATION p"
    by (auto simp: vertical_candidate_def Let_def bind_ok_Inr offer_Inr plain_candidate_def
        split: if_splits option.splits)
  show ?thesis
    unfolding x(3) by (rule resolvesI [OF next_of_role_Inr [OF x(1)] offset_identity [OF x(2)] x(4-6)])
qed

lemma combined_resolves:
  assumes "combined_candidate H programs precedence held required policy = Inr (ps, c)" "rc_feasible c"
  shows "resolves policy COMBINED_RETIMING_VERTICAL programs held required ps"
proof -
  from assms obtain original fo p pd where o: "next_of_role programs held = Inr original" and
    "first_that (\<lambda>(factor, offset). try_offset programs held required policy
        (bind_ok (retime_program (planning_hash.truncate H) original factor) (\<lambda>r.
           offset_program (planning_hash.truncate H) r 0 offset))) combinations = Inr (Some (fo, ps, p, pd))"
    by (auto simp: combined_candidate_def bind_ok_Inr offer_Inr plain_candidate_def Let_def split: option.splits)
  from first_that_Some [OF this(2), THEN conjunct2] obtain r where x:
    "retime_program (planning_hash.truncate H) original (fst fo) = Inr r"
    "offset_program (planning_hash.truncate H) r 0 (snd fo) = Inr p" "ps = replace_role held p programs"
    "predict_pair (replace_role held p programs) required = Inr pd" "required \<le> pd_minimum_separation_m pd"
    "strategy_limit policy COMBINED_RETIMING_VERTICAL p"
    by (cases fo) (auto simp: bind_ok_Inr dest!: try_offset_Some)
  have "ep_role_id p = ep_role_id original \<and> ep_vehicle_id p = ep_vehicle_id original"
    using retime_identity [OF x(1)] offset_identity [OF x(2)] by simp
  then show ?thesis
    unfolding x(3) by (rule resolvesI [OF next_of_role_Inr [OF o] _ x(4-6)])
qed

lemma resolve_resolves:
  "resolve s H programs precedence held required policy = Inr (ps, c) \<Longrightarrow> rc_feasible c \<Longrightarrow>
   resolves policy s programs held required ps"
  by (cases s) (auto intro: staging_resolves retiming_resolves horizontal_resolves vertical_resolves combined_resolves)


section \<open>What the planner returns\<close>

lemma seal_plan_Inr:
  "seal_plan H payload = Inr plan \<Longrightarrow> plan = payload\<lparr>dp_plan_sha256 := dh_plan H payload\<rparr>"
  by (auto simp: seal_plan_def Let_def split: if_splits)

lemma with_plan_Inr: "with_plan ps r = Inr (ps', po) \<longleftrightarrow> ps' = ps \<and> (\<exists>plan. r = Inr plan \<and> po = Some plan)"
  by (auto simp: with_plan_def bind_ok_Inr)

lemma blocked_plan_status: "blocked_plan H m cs r c = Inr plan \<Longrightarrow> dp_status plan = DC_BLOCKED"
  by (auto simp: blocked_plan_def plan_payload_def dest: seal_plan_Inr)

lemma first_feasible:
  assumes "i = length (takeWhile (\<lambda>c. \<not> P c) cs)" "i \<noteq> length cs"
  shows "i < length cs" "P (cs ! i)" "\<And>j. j < i \<Longrightarrow> \<not> P (cs ! j)"
proof -
  show l: "i < length cs" using assms length_takeWhile_le [of "\<lambda>c. \<not> P c" cs] by simp
  show "P (cs ! i)" using nth_length_takeWhile [of "\<lambda>c. \<not> P c" cs] assms(1) l by simp
  show "\<not> P (cs ! j)" if "j < i" for j
    using that assms(1) takeWhile_nth [of j "\<lambda>c. \<not> P c" cs] set_takeWhileD [of _ "\<lambda>c. \<not> P c" cs] nth_mem
    by metis
qed

definition selects_first :: "deconfliction_plan \<Rightarrow> nat \<Rightarrow> bool" where
  "selects_first plan i \<longleftrightarrow> dp_selected_candidate_index plan = Some i \<and> i < length (dp_candidates plan)
     \<and> rc_feasible (dp_candidates plan ! i) \<and> (\<forall>j < i. \<not> rc_feasible (dp_candidates plan ! j))"

lemma resolve_conflict_resolved:
  assumes "resolve_conflict H mission programs policy allowed conflict precedence held required = Inr (ps, Some plan)"
    and "dp_status plan = DC_RESOLVED"
  shows "\<exists>s \<in> set allowed. resolves policy s programs held required ps"
    and "\<exists>i. selects_first plan i" "dp_selected_program_sha256s plan = map (ph_program H) ps"
    and "dp_conflict plan = Some conflict"
proof -
  let ?ss = "filter (\<lambda>s. s \<in> set allowed) all_strategies"
  from assms(1) obtain attempts where at: "list_all2 (\<lambda>s a. resolve s H programs precedence held required policy = Inr a) ?ss attempts"
    and sel: "select_resolution H mission programs conflict attempts = Inr (ps, Some plan)"
    by (auto simp: resolve_conflict_def bind_ok_Inr map_ok_Inr)
  define i where i: "i = length (takeWhile (\<lambda>c. \<not> rc_feasible c) (map snd attempts))"
  have ne: "i \<noteq> length (map snd attempts)"
    using sel assms(2) by (auto simp: select_resolution_def Let_def i [symmetric] with_plan_Inr dest!: blocked_plan_status)
  note ff = first_feasible [OF i ne]
  from sel ne have ps: "ps = fst (attempts ! i)" and sp: "seal_plan H
             ((plan_payload (''deconfliction-'' @ take 20 (dh_conflict H mission conflict)) DC_RESOLVED (Some conflict) (map snd attempts))
              \<lparr>dp_selected_strategy := Some (rc_strategy (map snd attempts ! i)), dp_selected_candidate_index := Some i,
               dp_selected_program_sha256s := map (ph_program H) (fst (attempts ! i))\<rparr>) = Inr plan"
    by (auto simp: select_resolution_def Let_def i [symmetric] with_plan_Inr)
  note plan = seal_plan_Inr [OF sp]
  have il: "i < length attempts" "rc_feasible (snd (attempts ! i))" using ff(1,2) by auto
  have len: "length ?ss = length attempts" by (rule list_all2_lengthD [OF at])
  have "resolve (?ss ! i) H programs precedence held required policy = Inr (ps, snd (attempts ! i))"
    using list_all2_nthD2 [OF at il(1)] ps by simp
  from resolve_resolves [OF this il(2)] have "resolves policy (?ss ! i) programs held required ps" .
  moreover have "?ss ! i \<in> set allowed" using nth_mem [of i ?ss] il(1) len by simp
  ultimately show "\<exists>s \<in> set allowed. resolves policy s programs held required ps" by blast
  show "\<exists>i. selects_first plan i"
    using ff unfolding plan selects_first_def plan_payload_def by (intro exI [of _ i]) simp
  show "dp_selected_program_sha256s plan = map (ph_program H) ps" "dp_conflict plan = Some conflict"
    unfolding plan ps by (simp_all add: plan_payload_def)
qed

lemma crossing_tasks_wf: "dict_wf (crossing_tasks d)"
proof -
  have "dict_wf acc \<Longrightarrow> dict_wf (fold (\<lambda>t. dict_set (td_task_id t) t) ts acc)" for ts and acc :: "(string, task_definition) dict"
    by (induction ts arbitrary: acc) simp_all
  then show ?thesis by (simp add: crossing_tasks_def)
qed

text \<open>The planner went past its early returns.\<close>

lemma crossing_pair:
  assumes "plan_crossing_deconfliction H mission d programs policy allowed = Inr (ps, Some plan)"
    and "dp_status plan \<noteq> DC_BLOCKED"
  obtains r1 r2 where "r1 \<noteq> r2" "{r1, r2} = set (map ep_role_id programs)"
    "plan_crossing_pair H mission d programs policy allowed r1 r2 = Inr (ps, Some plan)"
proof -
  have no: "blocked_plan H mission cs r c \<noteq> Inr plan" for cs r c
    using assms(2) blocked_plan_status by blast
  from assms(1) obtain r1 r2 where k: "sort (dict_keys (crossing_tasks d)) = [r1, r2]"
    and p: "{r1, r2} = set (map ep_role_id programs)"
      "plan_crossing_pair H mission d programs policy allowed r1 r2 = Inr (ps, Some plan)"
    by (auto simp: plan_crossing_deconfliction_def with_plan_Inr no bind_ok_Inr split: list.splits if_splits)
  have "distinct (sort (dict_keys (crossing_tasks d)))" using crossing_tasks_wf [of d] by (simp add: dict_wf_def)
  with k have "r1 \<noteq> r2" by simp
  then show ?thesis using p by (rule that)
qed

lemma crossing_pair_cases:
  assumes "plan_crossing_pair H mission d programs policy allowed r1 r2 = Inr (ps, Some plan)"
    "dp_status plan \<noteq> DC_BLOCKED" "required = warning_separation_m (constraints d) + default_uncertainty"
  obtains (free) first second where "by_role programs r1 = Inr first" "by_role programs r2 = Inr second"
      "separated first second required" "ps = programs" "dp_selected_program_sha256s plan = map (ph_program H) ps"
      "dp_status plan = DC_NOT_REQUIRED"
  | (resolved) conflict precedence held where "precedence = precedence_role (crossing_tasks d) r1 r2"
      "held = (if r1 \<noteq> precedence then r1 else r2)" "dp_status plan = DC_RESOLVED"
      "resolve_conflict H mission programs policy allowed conflict precedence held required = Inr (ps, Some plan)"
proof -
  from assms(1) obtain first second pd where f: "by_role programs r1 = Inr first" "by_role programs r2 = Inr second"
    and pd: "predict first second required = Inr pd"
    and rest: "(if pd_minimum_separation_m pd \<ge> required
         then with_plan programs (seal_plan H
                ((plan_payload (''deconfliction-'' @ take 20 (dh_roles H mission (r1, r2))) DC_NOT_REQUIRED None [])
                 \<lparr>dp_selected_program_sha256s := map (ph_program H) programs\<rparr>))
         else bind_ok (conflict_contract H mission (r1, r2) first second pd (warning_separation_m (constraints d)) required default_uncertainty) (\<lambda>conflict.
                let precedence = precedence_role (crossing_tasks d) r1 r2;
                    held = (if r1 \<noteq> precedence then r1 else r2)
                in resolve_conflict H mission programs policy allowed conflict precedence held required)) = Inr (ps, Some plan)"
    unfolding plan_crossing_pair_def bind_ok_Inr Let_def assms(3) by blast
  show ?thesis
  proof (cases "pd_minimum_separation_m pd \<ge> required")
    case True
    have "separated first second required" by (rule separated_mono [OF predict_separated [OF pd] True])
    with rest True f show ?thesis
      by (intro free) (auto simp: with_plan_Inr plan_payload_def dest!: seal_plan_Inr)
  next
    case False
    with rest obtain conflict where r: "resolve_conflict H mission programs policy allowed conflict
        (precedence_role (crossing_tasks d) r1 r2)
        (if r1 \<noteq> precedence_role (crossing_tasks d) r1 r2 then r1 else r2) required = Inr (ps, Some plan)"
      by (auto simp: bind_ok_Inr Let_def)
    then have "dp_status plan = DC_RESOLVED"
      using assms(2) by (auto simp: resolve_conflict_def bind_ok_Inr select_resolution_def Let_def with_plan_Inr plan_payload_def
          split: if_splits dest!: seal_plan_Inr blocked_plan_status)
    with r show ?thesis by (intro resolved [OF refl refl])
  qed
qed

lemma replace_role_map:
  assumes "original \<in> set programs" "ep_role_id original = held" "ep_role_id p = held"
    "ep_vehicle_id p = ep_vehicle_id original" "distinct (map ep_role_id programs)"
  shows "map ep_role_id (replace_role held p programs) = map ep_role_id programs"
    "map ep_vehicle_id (replace_role held p programs) = map ep_vehicle_id programs"
proof -
  have "ep_vehicle_id q = ep_vehicle_id p" if "q \<in> set programs" "ep_role_id q = held" for q
    using assms(1,2,4,5) that by (auto simp: distinct_map inj_on_def)
  then show "map ep_role_id (replace_role held p programs) = map ep_role_id programs"
    "map ep_vehicle_id (replace_role held p programs) = map ep_vehicle_id programs"
    using assms(3) by (simp_all add: replace_role_def)
qed

lemma predict_pair_two: "predict_pair [a, b] r = predict a b r"
  by (simp add: predict_pair_def)

lemma separated_margin:
  assumes "separated a b (w + default_uncertainty)" "flies_within a V" "flies_within b W" "V + W \<le> 5"
    "0 \<le> t" "t \<le> joint_duration a b" "0 < joint_duration a b"
    "program_position a t = Inr x" "program_position b t = Inr y"
  shows "w \<le> distance x y"
proof -
  have "(V + W) / 100 \<le> default_uncertainty" using assms(4) by (simp add: default_uncertainty_def)
  with separated_everywhere [OF assms(1,2,3,5,6,7,8,9)] show ?thesis by linarith
qed

lemma two_programs:
  assumes "length programs = 2" "{r1, r2} = set (map ep_role_id programs)" "r1 \<noteq> r2"
  obtains a b where "programs = [a, b]" "ep_role_id a \<noteq> ep_role_id b"
    "(by_role programs r1, by_role programs r2) \<in> {(Inr a, Inr b), (Inr b, Inr a)}"
proof -
  from assms(1) obtain a b where ab: "programs = [a, b]" by (auto simp: numeral_2_eq_2 length_Suc_conv)
  with assms(2,3) have "ep_role_id a = r1 \<and> ep_role_id b = r2 \<or> ep_role_id a = r2 \<and> ep_role_id b = r1"
    by (auto simp: doubleton_eq_iff)
  with ab assms(3) show ?thesis by (intro that [of a b]) (auto simp: by_role_def)
qed

text \<open>
  C19. When the two-drone planner returns a plan that is not blocked, the two programs it returns, of
  the same roles and vehicles and bound by their hashes, keep the warning separation plus the
  uncertainty margin of five centimetres at every predicted sample. Between the samples the guarantee
  depends on the speeds, which the planner does not bound: if the trajectories of the two programs are
  flown within V and W m/s, they lose at most one centimetre of the margin for every m/s of V + W, at
  every instant of the schedule. Up to 5 m/s together that leaves the warning separation.
\<close>

theorem crossing_plan_separates:
  assumes "plan_crossing_deconfliction H mission d programs policy allowed = Inr (ps, Some plan)"
    and "dp_status plan \<noteq> DC_BLOCKED" and "length programs = 2"
  shows "\<exists>a b. ps = [a, b] \<and> separated a b (warning_separation_m (constraints d) + 5 / 100)
    \<and> map ep_role_id ps = map ep_role_id programs \<and> map ep_vehicle_id ps = map ep_vehicle_id programs
    \<and> dp_selected_program_sha256s plan = map (ph_program H) ps
    \<and> (\<forall>V W t x y. flies_within a V \<and> flies_within b W \<and> 0 \<le> t \<and> t \<le> joint_duration a b
         \<and> 0 < joint_duration a b \<and> program_position a t = Inr x \<and> program_position b t = Inr y
         \<longrightarrow> warning_separation_m (constraints d) + 5 / 100 - (V + W) / 100 \<le> distance x y)"
proof -
  let ?r = "warning_separation_m (constraints d) + default_uncertainty"
  obtain r1 r2 where r: "r1 \<noteq> r2" "{r1, r2} = set (map ep_role_id programs)"
    and pair: "plan_crossing_pair H mission d programs policy allowed r1 r2 = Inr (ps, Some plan)"
    using assms(1,2) by (rule crossing_pair)
  from assms(3) r(2,1) obtain a b where ab: "programs = [a, b]" "ep_role_id a \<noteq> ep_role_id b"
    "(by_role programs r1, by_role programs r2) \<in> {(Inr a, Inr b), (Inr b, Inr a)}"
    by (rule two_programs)
  have "\<exists>a b. ps = [a, b] \<and> separated a b ?r \<and> map ep_role_id ps = map ep_role_id programs
      \<and> map ep_vehicle_id ps = map ep_vehicle_id programs \<and> dp_selected_program_sha256s plan = map (ph_program H) ps"
    using pair assms(2) refl
  proof (cases rule: crossing_pair_cases)
    case (free first second)
    then have "separated a b ?r" using ab(3) separated_commute by auto
    with free ab(1) show ?thesis by blast
  next
    case (resolved conflict precedence held)
    note rs = resolve_conflict_resolved [OF resolved(4,3)]
    from rs(1) obtain s original p pd where p: "original \<in> set programs" "ep_role_id original = held" "ep_role_id p = held"
      "ep_vehicle_id p = ep_vehicle_id original" "ps = replace_role held p programs"
      "predict_pair ps ?r = Inr pd" "?r \<le> pd_minimum_separation_m pd"
      unfolding resolves_def by blast
    have dist: "distinct (map ep_role_id programs)" using ab by simp
    obtain a' b' where ps: "ps = [a', b']" using p(5) ab(1) by (auto simp: replace_role_def)
    with p(6,7) have "separated a' b' ?r"
      using separated_mono [OF predict_separated] by (auto simp: predict_pair_two)
    with ps rs(3) replace_role_map [OF p(1-4) dist] p(5) show ?thesis by (intro exI [of _ a'] exI [of _ b']) simp
  qed
  then obtain a b where res: "ps = [a, b]" "separated a b ?r" "map ep_role_id ps = map ep_role_id programs"
    "map ep_vehicle_id ps = map ep_vehicle_id programs" "dp_selected_program_sha256s plan = map (ph_program H) ps" by blast
  have "\<forall>V W t x y. flies_within a V \<and> flies_within b W \<and> 0 \<le> t \<and> t \<le> joint_duration a b
         \<and> 0 < joint_duration a b \<and> program_position a t = Inr x \<and> program_position b t = Inr y
         \<longrightarrow> ?r - (V + W) / 100 \<le> distance x y"
    by (intro allI impI, elim conjE) (rule separated_everywhere [OF res(2)])
  then show ?thesis
    using res unfolding default_uncertainty_def by (intro exI [of _ a] exI [of _ b] conjI)
qed

text \<open>
  A resolved crossing changes only the program of the role that yields, the one with the lower
  priority (by role name when the priorities are equal). The strategy is the first feasible one in
  the declared order, one of those allowed, and the changed program respects what that strategy
  checks: the mission duration for a hold or a slower traversal, the flight envelope at the samples
  for a bump.
\<close>

theorem crossing_resolution_changes_yielding_role:
  assumes "plan_crossing_deconfliction H mission d programs policy allowed = Inr (ps, Some plan)"
    and "dp_status plan = DC_RESOLVED"
  shows "\<exists>winner yielding p s i. {winner, yielding} = set (map ep_role_id programs) \<and> winner \<noteq> yielding
    \<and> (- task_priority (crossing_tasks d) winner, winner) < (- task_priority (crossing_tasks d) yielding, yielding)
    \<and> ps = replace_role yielding p programs \<and> ep_role_id p = yielding
    \<and> s \<in> set allowed \<and> strategy_limit policy s p \<and> selects_first plan i"
proof -
  let ?k = "\<lambda>r. (- task_priority (crossing_tasks d) r, r)"
  have nb: "dp_status plan \<noteq> DC_BLOCKED" using assms(2) by simp
  obtain r1 r2 where r: "r1 \<noteq> r2" "{r1, r2} = set (map ep_role_id programs)"
    and pair: "plan_crossing_pair H mission d programs policy allowed r1 r2 = Inr (ps, Some plan)"
    using assms(1) nb by (rule crossing_pair)
  show ?thesis
    using pair nb refl
  proof (cases rule: crossing_pair_cases)
    case (free first second)
    with assms(2) show ?thesis by simp
  next
    case (resolved conflict precedence held)
    note rs = resolve_conflict_resolved [OF resolved(4,3)]
    from rs(1) obtain s p where p: "s \<in> set allowed" "ep_role_id p = held" "ps = replace_role held p programs"
      "strategy_limit policy s p"
      unfolding resolves_def by blast
    have pm: "precedence = r1 \<or> precedence = r2" "?k precedence \<le> ?k r1" "?k precedence \<le> ?k r2"
      using min_by_in [of ?k r1 "[r2]"] min_by_le [of r1 r1 "[r2]" ?k] min_by_le [of r2 r1 "[r2]" ?k]
      unfolding resolved(1) precedence_role_def by simp_all
    have held: "{precedence, held} = {r1, r2}" "precedence \<noteq> held" using pm(1) r(1) resolved(2) by auto
    then have "?k precedence \<le> ?k held" using pm by (auto simp: doubleton_eq_iff)
    moreover have "?k precedence \<noteq> ?k held" using held(2) by simp
    ultimately have "?k precedence < ?k held" by (rule order.not_eq_order_implies_strict [rotated])
    with held r(2) p rs(2) show ?thesis by metis
  qed
qed

section \<open>A crossing resolved by a hold\<close>

definition rest_point :: "int \<Rightarrow> real \<Rightarrow> real \<Rightarrow> trajectory_point" where
  "rest_point n t x = \<lparr>tp_sequence = n, tp_time = t, tp_position_m = vec x 0 0, tp_velocity_m_s = vec 0 0 0,
     tp_acceleration_m_s2 = vec 0 0 0, tp_yaw_rad = 0, tp_yaw_rate_rad_s = 0\<rparr>"

definition line_program :: "string \<Rightarrow> trajectory_point list \<Rightarrow> execution_program" where
  "line_program role pts =
     (let tr = \<lparr>tr_trajectory_id = ''t-'' @ role, tr_role_id = role, tr_vehicle_id = ''v-'' @ role,
           tr_route_sha256 = sample_sha, tr_points = pts, tr_declared_stop_sequences = [1, int (length pts)],
           tr_completion_position_tolerance_m = 1/10, tr_completion_velocity_tolerance_m_s = 1/20\<rparr>;
          d = trajectory_duration_s tr
      in \<lparr>ep_program_id = ''p-'' @ role, ep_mission_source_sha256 = sample_sha, ep_role_id = role,
          ep_vehicle_id = ''v-'' @ role, ep_operations = [TrajectoryOp 1 0 d sample_sha tr],
          ep_route_sha256s = [sample_sha], ep_schedule_duration_s = d, ep_contingency_reserve_s = 1,
          ep_recovery_reserve_s = 1, ep_execution_timeout_s = d + 2\<rparr>)"

definition alpha_program :: execution_program where
  "alpha_program = line_program ''alpha'' [rest_point 1 0 0, rest_point 2 (2/100) 1, rest_point 3 (4/100) 10]"

definition beta_program :: execution_program where
  "beta_program = line_program ''beta'' [rest_point 1 0 (-1), rest_point 2 (2/100) (2/5), rest_point 3 (4/100) 9]"

text \<open>The second program, flown a quarter slower.\<close>

definition beta_retimed :: execution_program where
  "beta_retimed =
     (let tr = retime_trajectory (5/4) (op_trajectory (hd (ep_operations beta_program))) in
      beta_program\<lparr>ep_program_id := ''p-beta-resolved'', ep_operations := [TrajectoryOp 1 0 (5/100) sample_sha tr],
        ep_schedule_duration_s := 5/100, ep_execution_timeout_s := 5/100 + 2\<rparr>)"

definition route_task :: "string \<Rightarrow> string \<Rightarrow> int \<Rightarrow> task_definition" where
  "route_task role kind priority = \<lparr>td_task_id = role, td_task_type = kind, td_zone_id = ''z'', td_priority = priority,
     td_mission_id = ''m'', td_mission_parameters = [], td_required_capabilities = {},
     td_completion_progress_percent = 100, td_estimated_duration_s = 10, td_estimated_energy_percent = 5,
     td_energy_margin_percent = 10\<rparr>"

definition route_deployment :: "string \<Rightarrow> string list \<Rightarrow> deployment_manifest" where
  "route_deployment kind roles = \<lparr>deployment_id = ''d'', fleet = [], zones = [], tasks = map (\<lambda>r. route_task r kind 100) roles,
     constraints = \<lparr>warning_separation_m = 3/4, critical_separation_m = 1/2, observation_freshness_s = 1,
       child_failure_policy = CONTINUE_HEALTHY\<rparr>, docks = [],
     dm_completion_policy = \<lparr>require_all_tasks = True, allow_partial_fleet = False\<rparr>\<rparr>"

definition constant_hash :: deconfliction_hash where
  "constant_hash = \<lparr>ph_trajectory = \<lambda>_. sample_sha, ph_program = \<lambda>_. sample_sha, ph_route = \<lambda>_ _ _. sample_sha,
     dh_roles = \<lambda>_ _. sample_sha, dh_reason = \<lambda>_ _. sample_sha, dh_window = \<lambda>_ _ _ _. sample_sha,
     dh_conflict = \<lambda>_ _. sample_sha, dh_plan = \<lambda>_. sample_sha\<rparr>"

definition crossing_deployment :: deployment_manifest where
  "crossing_deployment = route_deployment ''crossing-route'' [''alpha'', ''beta'']"

lemma beta_retiming: "retime_program (planning_hash.truncate constant_hash) beta_program (5/4) = Inr beta_retimed"
  by code_simp

lemma crossing_predicted: "predict alpha_program beta_program (4/5) =
    Inr \<lparr>pd_minimum_separation_m = 3/5, pd_closest_approach_s = 1/50, pd_conflict_start_s = Some (1/50), pd_conflict_end_s = Some (1/50)\<rparr>"
  by code_simp

definition retimed_prediction :: prediction where
  "retimed_prediction = projr (predict alpha_program beta_retimed (4/5))"

lemma retimed_predicted: "case predict alpha_program beta_retimed (4/5) of Inr pd \<Rightarrow> 4/5 \<le> pd_minimum_separation_m pd | Inl _ \<Rightarrow> False"
  by code_simp

lemma crossing_positions:
  "map_ok (program_position alpha_program) [1/50, 3/100, 1/25] = Inr [vec 1 0 0, vec (11/2) 0 0, vec 10 0 0]"
  "map_ok (program_position beta_program) [1/50, 3/100, 1/25] = Inr [vec (2/5) 0 0, vec (47/10) 0 0, vec 9 0 0]"
  by code_simp+

lemma retimed_prediction_facts:
  "predict alpha_program beta_retimed (4/5) = Inr retimed_prediction" "4/5 \<le> pd_minimum_separation_m retimed_prediction"
  using retimed_predicted by (auto simp: retimed_prediction_def split: sum.splits)

lemma crossing_roles [simp]:
  "ep_role_id alpha_program = ''alpha''" "ep_role_id beta_program = ''beta''" "ep_role_id beta_retimed = ''beta''"
  "ep_schedule_duration_s beta_program = 1/25" "ep_schedule_duration_s beta_retimed = 1/20"
  by (simp_all add: alpha_program_def beta_program_def beta_retimed_def line_program_def trajectory_duration_s_def rest_point_def Let_def)

lemma crossing_trajectories [simp]:
  "length (trajectory_operations alpha_program) = 1" "length (trajectory_operations beta_program) = 1"
  by (simp_all add: trajectory_operations_def alpha_program_def beta_program_def line_program_def Let_def)

lemma constant_hash_sel [simp]:
  "dh_window constant_hash m r s e = sample_sha" "dh_conflict constant_hash m c = sample_sha"
  "dh_plan constant_hash p = sample_sha" "ph_program constant_hash q = sample_sha"
  by (simp_all add: constant_hash_def)

lemma crossing_identifiers:
  "valid_identifier (''conflict-'' @ take 20 sample_sha)" "valid_identifier (''deconfliction-'' @ take 20 sample_sha)"
  "valid_identifier (''tube-'' @ (''conflict-'' @ take 20 sample_sha) @ ''-'' @ ''alpha'')"
  "valid_identifier (''tube-'' @ (''conflict-'' @ take 20 sample_sha) @ ''-'' @ ''beta'')"
  "valid_identifier ''alpha''" "valid_identifier ''beta''"
  by code_simp+

lemma crossing_tubes:
  "\<exists>t. tube (''conflict-'' @ take 20 sample_sha) alpha_program (1/50) (1/25) (1/20) = Inr t"
  "\<exists>t. tube (''conflict-'' @ take 20 sample_sha) beta_program (1/50) (1/25) (1/20) = Inr t"
  using crossing_identifiers crossing_positions
  by (simp_all add: tube_def check_tube_def ordered_corners_def lower_corner_def upper_corner_def Let_def del: append.simps append_Cons)

lemma crossing_conflict:
  "\<exists>c. conflict_contract constant_hash ''m'' (''alpha'', ''beta'') alpha_program beta_program
     \<lparr>pd_minimum_separation_m = 3/5, pd_closest_approach_s = 1/50, pd_conflict_start_s = Some (1/50), pd_conflict_end_s = Some (1/50)\<rparr>
     (3/4) (4/5) (1/20) = Inr c"
proof -
  have w: "conflict_window \<lparr>pd_minimum_separation_m = 3/5, pd_closest_approach_s = 1/50, pd_conflict_start_s = Some (1/50),
      pd_conflict_end_s = Some (1/50)\<rparr> = (1/50, 1/25)"
    by (simp add: conflict_window_def or_else_def prediction_step_s_def Let_def)
  obtain t1 t2 where t: "tube (''conflict-'' @ take 20 sample_sha) alpha_program (1/50) (1/25) (1/20) = Inr t1"
    "tube (''conflict-'' @ take 20 sample_sha) beta_program (1/50) (1/25) (1/20) = Inr t2"
    using crossing_tubes by blast
  show ?thesis
    unfolding conflict_contract_def w
    using crossing_identifiers by (simp add: t conflict_fields_ok_def Let_def del: append_Cons)
qed

lemma crossing_retimed:
  "try_retiming constant_hash [alpha_program, beta_program] ''beta'' (4/5) default_policy (5/4)
     = Inr (Some ([alpha_program, beta_retimed], beta_retimed, retimed_prediction))"
  using retimed_prediction_facts beta_retiming
  by (simp add: try_retiming_def next_of_role_def replace_role_def predict_pair_def default_policy_def Let_def)

lemma crossing_candidate:
  "\<exists>c. retiming_candidate constant_hash [alpha_program, beta_program] ''alpha'' ''beta'' (4/5) default_policy
     = Inr ([alpha_program, beta_retimed], c) \<and> rc_feasible c"
  using crossing_identifiers retimed_prediction_facts(2)
  by (simp add: retiming_candidate_def retiming_factors_def crossing_retimed next_of_role_def offer_def
      plain_candidate_def candidate_fields_ok_def)

lemma crossing_keys: "sort (dict_keys (crossing_tasks crossing_deployment)) = [''alpha'', ''beta'']"
  by code_simp

lemma crossing_precedence: "precedence_role (crossing_tasks crossing_deployment) ''alpha'' ''beta'' = ''alpha''"
  by code_simp

definition resolved_result :: "plan_result outcome \<Rightarrow> bool" where
  "resolved_result r = (case r of Inr (ps, Some plan) \<Rightarrow> dp_status plan = DC_RESOLVED | _ \<Rightarrow> False)"

lemma resolved_resultE:
  assumes "resolved_result r"
  obtains ps plan where "r = Inr (ps, Some plan)" "dp_status plan = DC_RESOLVED"
  using assms by (auto simp: resolved_result_def split: sum.splits option.splits)

definition retimed_crossing :: "plan_result outcome" where
  "retimed_crossing = plan_crossing_deconfliction constant_hash ''m'' crossing_deployment
     [alpha_program, beta_program] default_policy [SPEED_RETIMING]"

lemma retimed_crossing_resolved: "resolved_result retimed_crossing"
proof -
  let ?ps = "[alpha_program, beta_program]"
  have w: "warning_separation_m (constraints crossing_deployment) = 3/4"
    by (simp add: crossing_deployment_def route_deployment_def)
  obtain c where c: "conflict_contract constant_hash ''m'' (''alpha'', ''beta'') alpha_program beta_program
     \<lparr>pd_minimum_separation_m = 3/5, pd_closest_approach_s = 1/50, pd_conflict_start_s = Some (1/50), pd_conflict_end_s = Some (1/50)\<rparr>
     (3/4) (4/5) (1/20) = Inr c"
    using crossing_conflict by blast
  obtain k where k: "retiming_candidate constant_hash ?ps ''alpha'' ''beta'' (4/5) default_policy
     = Inr ([alpha_program, beta_retimed], k)" "rc_feasible k" using crossing_candidate by blast
  have "filter (\<lambda>s. s \<in> set [SPEED_RETIMING]) all_strategies = [SPEED_RETIMING]" by (simp add: all_strategies_def)
  with k have "resolved_result (resolve_conflict constant_hash ''m'' ?ps default_policy [SPEED_RETIMING] c ''alpha'' ''beta'' (4/5))"
    using crossing_identifiers
    by (simp add: resolve_conflict_def select_resolution_def resolved_result_def with_plan_def seal_plan_def plan_payload_def
        plan_fields_ok_def Let_def del: append_Cons)
  moreover have "plan_crossing_pair constant_hash ''m'' crossing_deployment ?ps default_policy [SPEED_RETIMING] ''alpha'' ''beta''
      = resolve_conflict constant_hash ''m'' ?ps default_policy [SPEED_RETIMING] c ''alpha'' ''beta'' (4/5)"
    using c by (simp add: plan_crossing_pair_def by_role_def w default_uncertainty_def crossing_predicted crossing_precedence Let_def)
  moreover have "retimed_crossing = plan_crossing_pair constant_hash ''m'' crossing_deployment ?ps default_policy [SPEED_RETIMING] ''alpha'' ''beta''"
    by (simp add: retimed_crossing_def plan_crossing_deconfliction_def crossing_keys by_role_def insert_commute)
  ultimately show ?thesis by simp
qed

text \<open>Two vehicles that move a centimetre each, within half a metre per second.\<close>

definition slow_program :: "string \<Rightarrow> real \<Rightarrow> execution_program" where
  "slow_program role x = line_program role [rest_point 1 0 x, rest_point 2 (1/25) (x + 1/100)]"

lemma slow_velocity:
  fixes t :: real
  assumes "0 \<le> t" "t \<le> 1/25"
  shows "\<bar>quintic_velocity (quintic_of x 0 0 (x + 1/100) 0 0 (1/25)) t\<bar> \<le> 1/2"
proof -
  define s where "s = 25 * t * (1 - 25 * t)"
  have v: "quintic_velocity (quintic_of x 0 0 (x + 1/100) 0 0 (1/25)) t = 15 / 2 * s ^ 2"
    by (simp add: quintic_of_def quintic_velocity_def Let_def s_def) (simp add: eval_nat_numeral field_simps)
  have "1/4 - s = (25 * t - 1/2) ^ 2" by (simp add: s_def power2_eq_square algebra_simps)
  then have "s \<le> 1/4" using zero_le_power2 [of "25 * t - 1/2"] by linarith
  moreover have "0 \<le> s" using assms by (simp add: s_def)
  ultimately have "s ^ 2 \<le> (1/4) ^ 2" "0 \<le> s ^ 2" by (intro power_mono) simp_all
  then show ?thesis unfolding v by (simp add: power2_eq_square)
qed

lemma rest_velocity: "quintic_velocity (quintic_of c 0 0 c 0 0 d) t = 0"
  by (simp add: quintic_of_def quintic_velocity_def Let_def)

lemma slow_flies:
  assumes "check_trajectory (op_trajectory (hd (ep_operations (slow_program role x)))) = Inr ()"
  shows "flies_within (slow_program role x) (1/2)"
proof -
  let ?pts = "[rest_point 1 0 x, rest_point 2 (1/25) (x + 1/100)]"
  let ?op = "hd (ep_operations (slow_program role x))"
  have op: "first_trajectory (slow_program role x) = Inr ?op" "op_starts_at_s ?op = 0" "op_ends_at_s ?op = 1/25"
    "tr_points (op_trajectory ?op) = ?pts"
    by (simp_all add: slow_program_def line_program_def first_trajectory_def trajectory_operations_def Let_def
        trajectory_duration_s_def rest_point_def)
  have i: "segment_index ?pts u = 0" for u by (simp add: segment_index_def)
  have "vector_length (sp_velocity_m_s sp) \<le> 1/2" if "sample_trajectory (op_trajectory ?op) t = Inr sp" for t sp
  proof -
    let ?u = "max 0 (min (1/25) (max 0 (min (1/25) t)))"
    have "sp_velocity_m_s sp = vec (quintic_velocity (quintic_of x 0 0 (x + 1/100) 0 0 (1/25)) ?u) 0 0"
      using that op(4) i
      by (auto simp: sample_trajectory_def bounded_time_def trajectory_duration_s_def sample_trajectory_segment_def sample_axis_def
          quintic_sample_def rest_velocity rest_point_def Let_def)
    then show ?thesis using slow_velocity [of ?u x] by (simp add: vector_length_def)
  qed
  then have "speed_bounded (op_trajectory ?op) (1/2)" by (simp add: speed_bounded_def)
  with op assms show ?thesis by (simp add: flies_within_def exact_window_def trajectory_duration_s_def rest_point_def)
qed

lemma slow_checked:
  "check_trajectory (op_trajectory (hd (ep_operations (slow_program ''alpha'' 0)))) = Inr ()"
  "check_trajectory (op_trajectory (hd (ep_operations (slow_program ''beta'' (41/50))))) = Inr ()"
  by code_simp+

definition slow_crossing :: "plan_result outcome" where
  "slow_crossing = plan_crossing_deconfliction constant_hash ''m'' crossing_deployment
     [slow_program ''alpha'' 0, slow_program ''beta'' (41/50)] default_policy [SPEED_RETIMING]"

lemma slow_crossing_free:
  "case slow_crossing of Inr (ps, Some plan) \<Rightarrow> dp_status plan = DC_NOT_REQUIRED \<and> ps = [slow_program ''alpha'' 0, slow_program ''beta'' (41/50)]
   | _ \<Rightarrow> False"
proof -
  let ?a = "slow_program ''alpha'' 0" and ?b = "slow_program ''beta'' (41/50)"
  have w: "warning_separation_m (constraints crossing_deployment) = 3/4"
    by (simp add: crossing_deployment_def route_deployment_def)
  have p: "case predict ?a ?b (4/5) of Inr pd \<Rightarrow> 4/5 \<le> pd_minimum_separation_m pd | Inl _ \<Rightarrow> False" by code_simp
  have r: "ep_role_id ?a = ''alpha''" "ep_role_id ?b = ''beta''"
    "length (trajectory_operations ?a) = 1" "length (trajectory_operations ?b) = 1"
    by (simp_all add: slow_program_def line_program_def trajectory_operations_def Let_def)
  obtain pd where pd: "predict ?a ?b (4/5) = Inr pd" "4/5 \<le> pd_minimum_separation_m pd" using p by (auto split: sum.splits)
  have b: "by_role [?a, ?b] ''alpha'' = Inr ?a" "by_role [?a, ?b] ''beta'' = Inr ?b" by (simp_all add: by_role_def r)
  have "slow_crossing = plan_crossing_pair constant_hash ''m'' crossing_deployment [?a, ?b] default_policy [SPEED_RETIMING] ''alpha'' ''beta''"
    using r by (simp add: slow_crossing_def plan_crossing_deconfliction_def crossing_keys b insert_commute)
  moreover have "plan_crossing_pair constant_hash ''m'' crossing_deployment [?a, ?b] default_policy [SPEED_RETIMING] ''alpha'' ''beta''
      = with_plan [?a, ?b] (seal_plan constant_hash ((plan_payload (''deconfliction-'' @ take 20 sample_sha) DC_NOT_REQUIRED None [])
      \<lparr>dp_selected_program_sha256s := [sample_sha, sample_sha]\<rparr>))"
    using pd by (simp add: plan_crossing_pair_def b w default_uncertainty_def constant_hash_def)
  moreover have "\<exists>plan. seal_plan constant_hash ((plan_payload (''deconfliction-'' @ take 20 sample_sha) DC_NOT_REQUIRED None [])
      \<lparr>dp_selected_program_sha256s := [sample_sha, sample_sha]\<rparr>) = Inr plan \<and> dp_status plan = DC_NOT_REQUIRED"
    using crossing_identifiers(2) by (simp add: seal_plan_def plan_payload_def plan_fields_ok_def Let_def del: append_Cons)
  ultimately obtain plan where "slow_crossing = Inr ([?a, ?b], Some plan)" "dp_status plan = DC_NOT_REQUIRED"
    unfolding with_plan_def by (metis bind_ok_simps(2))
  then show ?thesis unfolding slow_crossing_def by simp
qed

theorem crossing_plan_separates_witness:
  "\<exists>plan. slow_crossing = Inr ([slow_program ''alpha'' 0, slow_program ''beta'' (41/50)], Some plan)
     \<and> separated (slow_program ''alpha'' 0) (slow_program ''beta'' (41/50)) (4/5)
     \<and> (\<forall>t \<in> {0..1/25}. \<exists>x y. program_position (slow_program ''alpha'' 0) t = Inr x
          \<and> program_position (slow_program ''beta'' (41/50)) t = Inr y \<and> 79/100 \<le> distance x y)"
proof -
  let ?a = "slow_program ''alpha'' 0" and ?b = "slow_program ''beta'' (41/50)"
  obtain plan where r: "slow_crossing = Inr ([?a, ?b], Some plan)" "dp_status plan = DC_NOT_REQUIRED"
    using slow_crossing_free by (auto split: sum.splits option.splits)
  have w: "warning_separation_m (constraints crossing_deployment) = 3/4"
    by (simp add: crossing_deployment_def route_deployment_def)
  have d: "joint_duration ?a ?b = 1/25"
    by (simp add: slow_program_def line_program_def joint_duration_def trajectory_duration_s_def rest_point_def Let_def)
  note flies = slow_flies [OF slow_checked(1)] slow_flies [OF slow_checked(2)]
  have sep: "separated ?a ?b (4/5)"
    and between: "\<And>V W t x y. flies_within ?a V \<Longrightarrow> flies_within ?b W \<Longrightarrow> 0 \<le> t \<Longrightarrow> t \<le> 1/25 \<Longrightarrow> program_position ?a t = Inr x
      \<Longrightarrow> program_position ?b t = Inr y \<Longrightarrow> 4/5 - (V + W) / 100 \<le> distance x y"
    using crossing_plan_separates [OF r(1) [unfolded slow_crossing_def]] r(2) by (auto simp: w d)
  have "\<exists>x y. program_position ?a t = Inr x \<and> program_position ?b t = Inr y \<and> 79/100 \<le> distance x y" if "t \<in> {0..1/25}" for t
  proof -
    obtain x y where xy: "program_position ?a t = Inr x" "program_position ?b t = Inr y" using flies_position flies by metis
    with between [OF flies _ _ xy] that show ?thesis by auto
  qed
  with r sep show ?thesis by blast
qed

theorem crossing_resolution_changes_yielding_role_witness:
  "\<exists>p s. ep_role_id p \<in> {''alpha'', ''beta''} \<and> s \<in> {SPEED_RETIMING} \<and> strategy_limit default_policy s p"
proof -
  obtain ps plan where r: "retimed_crossing = Inr (ps, Some plan)" "dp_status plan = DC_RESOLVED"
    using retimed_crossing_resolved by (rule resolved_resultE)
  from crossing_resolution_changes_yielding_role [OF r(1) [unfolded retimed_crossing_def] r(2)] show ?thesis
    by (auto simp: doubleton_eq_iff)
qed

section \<open>Gaps of the planner\<close>

text \<open>
  \<open>prediction.conflict_start_s or prediction.closest_approach_s\<close>: a conflict that begins at time zero
  is reported as beginning at the closest approach, and its tubes cover nothing before it.
\<close>

lemma conflict_at_zero_is_misreported:
  assumes "pd_conflict_start_s pd = Some 0"
  shows "fst (conflict_window pd) = pd_closest_approach_s pd"
  using assms by (simp add: conflict_window_def or_else_def Let_def)

text \<open>
  The combined strategy slows the vehicle down by up to 3.25 and never reads the mission duration
  limit that the hold and the plain retiming check: the limit has no influence on its result.
\<close>

lemma combined_ignores_mission_duration:
  "combined_candidate H programs precedence held required (policy\<lparr>max_mission_duration_s := x\<rparr>)
     = combined_candidate H programs precedence held required policy"
proof -
  have "setpoint_within (policy\<lparr>max_mission_duration_s := x\<rparr>) = setpoint_within policy"
    by (auto simp: setpoint_within_def fun_eq_iff)
  then show ?thesis by (simp add: combined_candidate_def try_offset_def program_admissible_def)
qed

end
