(* ===== verification/Zones.thy ===== *)
theory Zones
  imports Deconfliction
begin

text \<open>
  The decomposition of a zone task into a flight around box obstacles, \<open>fleet/zones.py\<close>, and the
  assessment of a leader-follower pair, \<open>fleet/coordination.py\<close>.
\<close>

section \<open>Plans for a zone task\<close>

datatype zone_action_kind = ZA_TAKEOFF | ZA_MOVE_TO | ZA_HOLD | ZA_LAND

record box_obstacle =
  ob_obstacle_id :: string
  ob_minimum_m :: vector3
  ob_maximum_m :: vector3

record zone_action =
  za_kind :: zone_action_kind
  za_target_m :: "vector3 option"
  za_duration_s :: real

record zone_task_plan =
  zp_task_id :: string
  zp_zone_id :: string
  zp_actions :: "zone_action list"
  zp_waypoints_m :: "vector3 list"
  zp_obstacle_aware :: bool
  zp_path_length_m :: real
  zp_estimated_duration_s :: real
  zp_estimated_energy_percent :: real
  zp_plan_sha256 :: string

definition zone_plan_fields_ok :: "zone_task_plan \<Rightarrow> bool" where
  "zone_plan_fields_ok p \<longleftrightarrow> valid_identifier (zp_task_id p) \<and> valid_identifier (zp_zone_id p) \<and>
     list_all (\<lambda>a. 0 < za_duration_s a) (zp_actions p) \<and> 0 \<le> zp_path_length_m p \<and>
     0 < zp_estimated_duration_s p \<and> 0 < zp_estimated_energy_percent p \<and> valid_sha256 (zp_plan_sha256 p)"

record zone_task_planner =
  zt_cruise_speed_m_s :: real
  zt_safety_margin_m :: real
  zt_transit_energy_percent_per_m :: real

definition zone_task_planner_init :: "real \<Rightarrow> real \<Rightarrow> real \<Rightarrow> zone_task_planner outcome" where
  "zone_task_planner_init cruise margin energy =
     (if cruise \<le> 0 \<or> margin \<le> 0 then Inl (ValueError ''zone planner parameters must be positive'')
      else Inr \<lparr>zt_cruise_speed_m_s = cruise, zt_safety_margin_m = margin, zt_transit_energy_percent_per_m = energy\<rparr>)"

definition default_zone_planner :: zone_task_planner where
  "default_zone_planner = \<lparr>zt_cruise_speed_m_s = 4/10, zt_safety_margin_m = 2/10, zt_transit_energy_percent_per_m = 1\<rparr>"

section \<open>Geometry\<close>

definition inside_expanded_box :: "vector3 \<Rightarrow> box_obstacle \<Rightarrow> real \<Rightarrow> bool" where
  "inside_expanded_box p ob margin \<longleftrightarrow>
     vx (ob_minimum_m ob) - margin \<le> vx p \<and> vx p \<le> vx (ob_maximum_m ob) + margin \<and>
     vy (ob_minimum_m ob) - margin \<le> vy p \<and> vy p \<le> vy (ob_maximum_m ob) + margin \<and>
     vz (ob_minimum_m ob) \<le> vz p \<and> vz p \<le> vz (ob_maximum_m ob)"

definition point_at_height :: "vector3 \<Rightarrow> vector3 \<Rightarrow> real \<Rightarrow> real \<Rightarrow> vector3" where
  "point_at_height a b height ratio = vec (vx a + (vx b - vx a) * ratio) (vy a + (vy b - vy a) * ratio) height"

definition segment_intersects_box_xy :: "vector3 \<Rightarrow> vector3 \<Rightarrow> box_obstacle \<Rightarrow> real \<Rightarrow> bool" where
  "segment_intersects_box_xy a b ob height \<longleftrightarrow>
     vz (ob_minimum_m ob) \<le> height \<and> height \<le> vz (ob_maximum_m ob) \<and>
     list_ex (\<lambda>i. inside_expanded_box (point_at_height a b height (real i / 200)) ob 0) [0..<200 + 1]"

fun path_length :: "vector3 list \<Rightarrow> real" where
  "path_length (a # b # ps) = distance a b + path_length (b # ps)"
| "path_length _ = 0"

section \<open>The planner\<close>

definition sidestep :: "real \<Rightarrow> vector3 \<Rightarrow> vector3 \<Rightarrow> vector3 \<times> vector3" where
  "sidestep y cursor target = (vec (vx cursor) y (vz target), vec (vx target) y (vz target))"

definition detour_around :: "zone_task_planner \<Rightarrow> vector3 \<Rightarrow> vector3 \<Rightarrow> box_obstacle \<Rightarrow> vector3 \<times> vector3" where
  "detour_around Z cursor target ob =
     min_by (\<lambda>(p, q). (path_length [cursor, p, q, target], vy p))
       (sidestep (vy (ob_minimum_m ob) - zt_safety_margin_m Z) cursor target)
       [sidestep (vy (ob_maximum_m ob) + zt_safety_margin_m Z) cursor target]"

text \<open>The points added after \<open>cursor\<close>, and whether an obstacle was met.\<close>

fun detours :: "zone_task_planner \<Rightarrow> vector3 \<Rightarrow> vector3 \<Rightarrow> box_obstacle list \<Rightarrow> vector3 list \<times> bool" where
  "detours Z target cursor [] = ([], False)"
| "detours Z target cursor (ob # obs) =
     (if segment_intersects_box_xy cursor target ob (vz target)
      then let (p, q) = detour_around Z cursor target ob; (rest, _) = detours Z target q obs in (p # q # rest, True)
      else detours Z target cursor obs)"

fun compact_points :: "vector3 list \<Rightarrow> vector3 list" where
  "compact_points (a # b # ps) = (if b = a then compact_points (b # ps) else a # compact_points (b # ps))"
| "compact_points ps = ps"

definition move_actions :: "real \<Rightarrow> vector3 list \<Rightarrow> zone_action list" where
  "move_actions cruise points =
     map (\<lambda>(a, b). \<lparr>za_kind = ZA_MOVE_TO, za_target_m = Some b, za_duration_s = max (1/10) (distance a b / cruise)\<rparr>)
       (zip points (tl points))"

definition zone_actions :: "zone_task_planner \<Rightarrow> task_definition \<Rightarrow> vector3 list \<Rightarrow> vector3 \<Rightarrow> zone_action list" where
  "zone_actions Z task points target =
     (let transit = path_length points / zt_cruise_speed_m_s Z;
          hold = max (1/10) (td_estimated_duration_s task - transit - 4)
      in \<lparr>za_kind = ZA_TAKEOFF, za_target_m = Some (hd points), za_duration_s = 2\<rparr>
         # move_actions (zt_cruise_speed_m_s Z) points
         @ [\<lparr>za_kind = ZA_HOLD, za_target_m = Some target, za_duration_s = hold\<rparr>,
            \<lparr>za_kind = ZA_LAND, za_target_m = None, za_duration_s = 2\<rparr>])"

definition zone_target :: "zone_definition \<Rightarrow> real \<Rightarrow> vector3" where
  "zone_target zone height = (center_m (geometry zone))\<lparr>vz := max height (vz (center_m (geometry zone)))\<rparr>"

definition zone_waypoints :: "zone_task_planner \<Rightarrow> vector3 \<Rightarrow> vector3 \<Rightarrow> box_obstacle list \<Rightarrow> vector3 list" where
  "zone_waypoints Z start target obstacles =
     compact_points (start # fst (detours Z target start (sort_key ob_obstacle_id obstacles)) @ [target])"

definition plan_zone_task ::
    "(zone_task_plan \<Rightarrow> string) \<Rightarrow> zone_task_planner \<Rightarrow> task_definition \<Rightarrow> zone_definition \<Rightarrow> vector3 \<Rightarrow> box_obstacle list
       \<Rightarrow> real \<Rightarrow> zone_task_plan outcome" where
  "plan_zone_task sha Z task zone start_m obstacles height =
     (if td_zone_id task \<noteq> zone_id zone then Inl (CrazySwarmError IDENTITY_MISMATCH ''task and zone do not match'')
      else let target = zone_target zone height; start = start_m\<lparr>vz := vz target\<rparr>;
               points = zone_waypoints Z start target obstacles
        in if list_ex (\<lambda>p. list_ex (\<lambda>ob. inside_expanded_box p ob 0) obstacles) points
           then Inl (CrazySwarmError PREFLIGHT_FAILED ''planned waypoint is obstructed'')
           else let actions = zone_actions Z task points target;
                    payload = \<lparr>zp_task_id = td_task_id task, zp_zone_id = zone_id zone, zp_actions = actions,
                      zp_waypoints_m = points,
                      zp_obstacle_aware = snd (detours Z target start (sort_key ob_obstacle_id obstacles)),
                      zp_path_length_m = path_length points, zp_estimated_duration_s = sum_list (map za_duration_s actions),
                      zp_estimated_energy_percent = max (1/100) (td_estimated_energy_percent task
                        + path_length points * zt_transit_energy_percent_per_m Z), zp_plan_sha256 = ''''\<rparr>;
                    plan = payload\<lparr>zp_plan_sha256 := sha payload\<rparr>
             in if zone_plan_fields_ok plan then Inr plan else Inl (ValidationError ''ZoneTaskPlan field''))"

section \<open>Leader and follower\<close>

record leader_follower_assessment =
  lf_expected_follower_position_m :: vector3
  lf_observed_offset_m :: vector3
  lf_relative_velocity_m_s :: vector3
  lf_tracking_error_m :: real
  lf_speed_error_m_s :: real
  lf_separation_m :: real

definition vec_add :: "vector3 \<Rightarrow> vector3 \<Rightarrow> vector3" where
  "vec_add a b = vec (vx a + vx b) (vy a + vy b) (vz a + vz b)"

definition vec_subtract :: "vector3 \<Rightarrow> vector3 \<Rightarrow> vector3" where
  "vec_subtract a b = vec (vx a - vx b) (vy a - vy b) (vz a - vz b)"

definition assess_leader_follower ::
    "vector3 \<Rightarrow> vector3 \<Rightarrow> vector3 \<Rightarrow> vector3 option \<Rightarrow> vector3 option \<Rightarrow> leader_follower_assessment" where
  "assess_leader_follower leader follower offset leader_velocity follower_velocity =
     (let expected = vec_add leader offset;
          relative = vec_subtract (case follower_velocity of Some v \<Rightarrow> v | None \<Rightarrow> vec 0 0 0)
                       (case leader_velocity of Some v \<Rightarrow> v | None \<Rightarrow> vec 0 0 0)
      in \<lparr>lf_expected_follower_position_m = expected, lf_observed_offset_m = vec_subtract follower leader,
          lf_relative_velocity_m_s = relative,
          lf_tracking_error_m = vector_length (vec_subtract follower expected),
          lf_speed_error_m_s = vector_length relative,
          lf_separation_m = vector_length (vec_subtract leader follower)\<rparr>)"

section \<open>The obstacle test\<close>

lemma segment_intersects_box_xy_iff:
  "segment_intersects_box_xy a b ob h \<longleftrightarrow>
   (\<exists>i \<le> 200::nat. inside_expanded_box (point_at_height a b h (real i / 200)) ob 0)"
proof -
  have "(0 \<le> i \<and> i < 200 + 1) = (i \<le> 200)" for i :: nat by linarith
  then have "list_ex P [0..<200 + 1] \<longleftrightarrow> (\<exists>i \<le> 200. P i)" for P :: "nat \<Rightarrow> bool"
    by (simp only: list_ex_iff Bex_def set_upt atLeastLessThan_iff)
  then show ?thesis
    unfolding segment_intersects_box_xy_def
    by (auto simp: inside_expanded_box_def point_at_height_def vec_def)
qed

lemma affine_between:
  assumes "lo \<le> s + d * u" "s + d * u \<le> hi" "lo \<le> s + d * v" "s + d * v \<le> hi" "u \<le> t" "t \<le> (v::real)"
  shows "lo \<le> s + d * t \<and> s + d * t \<le> hi"
proof (cases "0 \<le> d")
  case True
  then have "d * u \<le> d * t" "d * t \<le> d * v" using assms(5,6) by (auto intro: mult_left_mono)
  with assms show ?thesis by linarith
next
  case False
  then have "d * t \<le> d * u" "d * v \<le> d * t" using assms(5,6) by (auto intro: mult_left_mono_neg)
  with assms show ?thesis by linarith
qed

lemma inside_box_convex:
  assumes "inside_expanded_box (point_at_height a b h u) ob m" "inside_expanded_box (point_at_height a b h v) ob m" "u \<le> t" "t \<le> v"
  shows "inside_expanded_box (point_at_height a b h t) ob m"
  using assms affine_between [of "vx (ob_minimum_m ob) - m" "vx a" "vx b - vx a" u "vx (ob_maximum_m ob) + m" v t]
    affine_between [of "vy (ob_minimum_m ob) - m" "vy a" "vy b - vy a" u "vy (ob_maximum_m ob) + m" v t]
  by (simp add: inside_expanded_box_def point_at_height_def vec_def)

lemma sample_between:
  assumes "0 \<le> u" "u + 1 / 200 \<le> (1::real)"
  obtains i :: nat where "i \<le> 200" "u \<le> real i / 200" "real i / 200 \<le> u + 1 / 200"
proof -
  define i where "i = nat \<lceil>200 * u\<rceil>"
  have nn: "0 \<le> \<lceil>200 * u\<rceil>" using assms(1) by (simp add: ceiling_le_iff)
  then have r: "real i = of_int \<lceil>200 * u\<rceil>" by (simp add: i_def)
  have c: "200 * u \<le> of_int \<lceil>200 * u\<rceil>" "of_int \<lceil>200 * u\<rceil> < 200 * u + 1" by linarith+
  have "real i < 201" using r c(2) assms(2) by (simp add: field_simps)
  then have "i \<le> 200" by linarith
  moreover have "u \<le> real i / 200" "real i / 200 \<le> u + 1 / 200" using r c by (simp_all add: field_simps)
  ultimately show ?thesis by (rule that)
qed

text \<open>
  The obstacle test of the zone planner answers yes only for a segment that meets the obstacle, and
  it answers yes for every segment that is inside the obstacle for at least one two-hundredth of its
  length. The middle leg of the detour it then chooses keeps more than any smaller margin from the
  obstacle, at the y coordinate beyond it.
\<close>

theorem zone_obstacle_test:
  "(segment_intersects_box_xy a b ob h \<longrightarrow> (\<exists>t \<in> {0..1}. inside_expanded_box (point_at_height a b h t) ob 0))
   \<and> (\<forall>u. 0 \<le> u \<and> u + 1 / 200 \<le> 1 \<and> inside_expanded_box (point_at_height a b h u) ob 0
        \<and> inside_expanded_box (point_at_height a b h (u + 1 / 200)) ob 0 \<longrightarrow> segment_intersects_box_xy a b ob h)
   \<and> (\<forall>p q t m. detour_around Z a b ob = (p, q) \<and> m < zt_safety_margin_m Z
        \<and> vy (ob_minimum_m ob) \<le> vy (ob_maximum_m ob) \<longrightarrow> \<not> inside_expanded_box (point_at_height p q (vz b) t) ob m)"
proof (intro conjI impI allI)
  assume "segment_intersects_box_xy a b ob h"
  then obtain i where "i \<le> 200" "inside_expanded_box (point_at_height a b h (real i / 200)) ob 0"
    unfolding segment_intersects_box_xy_iff by blast
  then show "\<exists>t \<in> {0..1}. inside_expanded_box (point_at_height a b h t) ob 0"
    by (intro bexI [of _ "real i / 200"]) auto
next
  fix u assume u: "0 \<le> u \<and> u + 1 / 200 \<le> 1 \<and> inside_expanded_box (point_at_height a b h u) ob 0
      \<and> inside_expanded_box (point_at_height a b h (u + 1 / 200)) ob 0"
  then obtain i where i: "i \<le> 200" "u \<le> real i / 200" "real i / 200 \<le> u + 1 / 200" using sample_between by blast
  with u inside_box_convex show "segment_intersects_box_xy a b ob h" unfolding segment_intersects_box_xy_iff by blast
next
  fix p q t m
  assume d: "detour_around Z a b ob = (p, q) \<and> m < zt_safety_margin_m Z \<and> vy (ob_minimum_m ob) \<le> vy (ob_maximum_m ob)"
  have "detour_around Z a b ob \<in> set (sidestep (vy (ob_minimum_m ob) - zt_safety_margin_m Z) a b
      # [sidestep (vy (ob_maximum_m ob) + zt_safety_margin_m Z) a b])"
    unfolding detour_around_def by (rule min_by_in)
  with d show "\<not> inside_expanded_box (point_at_height p q (vz b) t) ob m"
    by (auto simp: sidestep_def inside_expanded_box_def point_at_height_def vec_def)
qed

text \<open>
  What the sampling misses: a wall of six millimetres across a flight of two metres, and what the
  detour does not look at: the legs beside the obstacle. The second plan flies through a box next to
  its start, because each obstacle is tested against the direct line only.
\<close>

definition wall :: box_obstacle where
  "wall = \<lparr>ob_obstacle_id = ''wall'', ob_minimum_m = vec (2/1000) (-1) 0, ob_maximum_m = vec (8/1000) 1 1\<rparr>"

lemma thin_wall_is_missed:
  "\<not> segment_intersects_box_xy (vec 0 0 (1/2)) (vec 2 0 (1/2)) wall (1/2)"
  "inside_expanded_box (point_at_height (vec 0 0 (1/2)) (vec 2 0 (1/2)) (1/2) (5/2000)) wall 0"
proof -
  have "\<not> (2/1000 \<le> 2 * (real i / 200) \<and> 2 * (real i / 200) \<le> 8/1000)" for i :: nat
    by (cases "i = 0") (simp_all add: field_simps)
  then show "\<not> segment_intersects_box_xy (vec 0 0 (1/2)) (vec 2 0 (1/2)) wall (1/2)"
    unfolding segment_intersects_box_xy_iff by (auto simp: inside_expanded_box_def point_at_height_def wall_def vec_def)
  show "inside_expanded_box (point_at_height (vec 0 0 (1/2)) (vec 2 0 (1/2)) (1/2) (5/2000)) wall 0"
    by (simp add: inside_expanded_box_def point_at_height_def wall_def vec_def)
qed

definition ahead :: box_obstacle where
  "ahead = \<lparr>ob_obstacle_id = ''a'', ob_minimum_m = vec 4 (-1) 0, ob_maximum_m = vec 6 1 1\<rparr>"

definition beside :: box_obstacle where
  "beside = \<lparr>ob_obstacle_id = ''b'', ob_minimum_m = vec (-1) (-9/10) 0, ob_maximum_m = vec 1 (-1/2) 1\<rparr>"

lemma ahead_met: "segment_intersects_box_xy (vec 0 0 (1/2)) (vec 10 0 (1/2)) ahead (1/2)"
  unfolding segment_intersects_box_xy_iff
  by (intro exI [of _ 100]) (simp add: inside_expanded_box_def point_at_height_def ahead_def vec_def)

lemma ahead_detour:
  "detour_around default_zone_planner (vec 0 0 (1/2)) (vec 10 0 (1/2)) ahead = (vec 0 (-6/5) (1/2), vec 10 (-6/5) (1/2))"
  by (simp add: detour_around_def sidestep_def default_zone_planner_def ahead_def distance_def vec_def)

theorem zone_obstacle_test_witness:
  "segment_intersects_box_xy (vec 0 0 (1/2)) (vec 10 0 (1/2)) ahead (1/2)
   \<and> \<not> inside_expanded_box (point_at_height (vec 0 (-6/5) (1/2)) (vec 10 (-6/5) (1/2)) (1/2) (1/2)) ahead (1/10)"
proof -
  have "inside_expanded_box (point_at_height (vec 0 0 (1/2)) (vec 10 0 (1/2)) (1/2) (1/2)) ahead 0"
    "inside_expanded_box (point_at_height (vec 0 0 (1/2)) (vec 10 0 (1/2)) (1/2) (1/2 + 1/200)) ahead 0"
    by (simp_all add: inside_expanded_box_def point_at_height_def ahead_def)
  moreover have "(1/10::real) < zt_safety_margin_m default_zone_planner" "vy (ob_minimum_m ahead) \<le> vy (ob_maximum_m ahead)"
    by (simp_all add: default_zone_planner_def ahead_def)
  moreover note zone_obstacle_test [of "vec 0 0 (1/2)" "vec 10 0 (1/2)" ahead "1/2" default_zone_planner, unfolded vec_sel]
  ultimately show ?thesis using ahead_detour
    by (elim conjE, intro conjI) (erule_tac x="1/2" in allE, simp, blast)
qed

lemma detour_through_neighbour:
  "zone_waypoints default_zone_planner (vec 0 0 (1/2)) (vec 10 0 (1/2)) [ahead, beside]
     = [vec 0 0 (1/2), vec 0 (-6/5) (1/2), vec 10 (-6/5) (1/2), vec 10 0 (1/2)]"
  "inside_expanded_box (point_at_height (vec 0 0 (1/2)) (vec 0 (-6/5) (1/2)) (1/2) (1/2)) beside 0"
proof -
  have b: "\<not> segment_intersects_box_xy (vec 10 (-6/5) (1/2)) (vec 10 0 (1/2)) beside (1/2)"
    unfolding segment_intersects_box_xy_iff by (auto simp: inside_expanded_box_def point_at_height_def beside_def vec_def)
  have t: "detours default_zone_planner (vec 10 0 (1/2)) (vec 0 0 (1/2)) [ahead, beside]
      = ([vec 0 (-6/5) (1/2), vec 10 (-6/5) (1/2)], True)"
    unfolding detours.simps vec_sel ahead_detour if_P [OF ahead_met] by (simp add: if_not_P [OF b [simplified]])
  have s: "sort_key ob_obstacle_id [ahead, beside] = [ahead, beside]" by code_simp
  show "zone_waypoints default_zone_planner (vec 0 0 (1/2)) (vec 10 0 (1/2)) [ahead, beside]
     = [vec 0 0 (1/2), vec 0 (-6/5) (1/2), vec 10 (-6/5) (1/2), vec 10 0 (1/2)]"
    unfolding zone_waypoints_def s t by (simp add: vec_def)
  show "inside_expanded_box (point_at_height (vec 0 0 (1/2)) (vec 0 (-6/5) (1/2)) (1/2) (1/2)) beside 0"
    by (simp add: inside_expanded_box_def point_at_height_def beside_def vec_def)
qed

section \<open>The plan\<close>

lemma compact_points_ends:
  assumes "ps \<noteq> []"
  shows "compact_points ps \<noteq> []" "hd (compact_points ps) = hd ps" "last (compact_points ps) = last ps" "set (compact_points ps) = set ps"
  using assms by (induction ps rule: compact_points.induct) auto

lemma compact_points_distinct: "successively (\<noteq>) (compact_points ps)"
  by (induction ps rule: compact_points.induct) (auto simp: successively_Cons compact_points_ends)

lemma path_length_zip: "path_length ps = sum_list (map (\<lambda>(a, b). distance a b) (zip ps (tl ps)))"
  by (induction ps rule: path_length.induct) auto

lemma path_length_nonneg [simp]: "0 \<le> path_length ps"
  by (induction ps rule: path_length.induct) auto

lemma detours_height: "p \<in> set (fst (detours Z target cursor obs)) \<Longrightarrow> vz p = vz target"
proof (induction obs arbitrary: cursor)
  case (Cons ob obs)
  have "vz (fst (detour_around Z cursor target ob)) = vz target" "vz (snd (detour_around Z cursor target ob)) = vz target"
    by (simp_all add: detour_around_def sidestep_def vec_def)
  with Cons show ?case by (auto simp: Let_def split_beta split: if_splits)
qed simp

lemma moves_cover_path:
  assumes "0 < cruise"
  shows "path_length ps / cruise \<le> sum_list (map za_duration_s (move_actions cruise ps))"
proof -
  have le: "sum_list (map (\<lambda>(a, b). distance a b / cruise) qs)
      \<le> sum_list (map (\<lambda>(a, b). max (1/10) (distance a b / cruise)) qs)" for qs
    by (induction qs) (auto intro!: add_mono)
  have split: "sum_list (map (\<lambda>(a, b). distance a b) qs) / cruise = sum_list (map (\<lambda>(a, b). distance a b / cruise) qs)" for qs
    by (induction qs) (auto simp: add_divide_distrib)
  have "path_length ps / cruise = sum_list (map (\<lambda>(a, b). distance a b / cruise) (zip ps (tl ps)))"
    unfolding path_length_zip by (simp add: split)
  also have "\<dots> \<le> sum_list (map (\<lambda>(a, b). max (1/10) (distance a b / cruise)) (zip ps (tl ps)))" by (rule le)
  also have "map (\<lambda>(a, b). max (1/10) (distance a b / cruise)) (zip ps (tl ps)) = map za_duration_s (move_actions cruise ps)"
    by (auto simp: move_actions_def)
  finally show ?thesis .
qed


lemma zone_plan_cases:
  assumes "plan_zone_task sha Z task zone start_m obstacles height = Inr plan"
  defines "target \<equiv> zone_target zone height" and "start \<equiv> start_m\<lparr>vz := vz (zone_target zone height)\<rparr>"
  shows "zp_waypoints_m plan = zone_waypoints Z start target obstacles"
    "zp_actions plan = zone_actions Z task (zp_waypoints_m plan) target"
    "zp_estimated_duration_s plan = sum_list (map za_duration_s (zp_actions plan))"
    "zp_path_length_m plan = path_length (zp_waypoints_m plan)"
    "\<And>p ob. p \<in> set (zp_waypoints_m plan) \<Longrightarrow> ob \<in> set obstacles \<Longrightarrow> \<not> inside_expanded_box p ob 0"
    "td_zone_id task = zone_id zone"
  using assms(1) unfolding target_def start_def
  by (auto simp: plan_zone_task_def Let_def list_ex_iff split: if_splits)

text \<open>
  C28. An accepted zone plan starts above the vehicle and ends at the centre of the zone, all at the
  flight height; its waypoints are outside every obstacle and no two neighbours coincide; each leg has
  a movement that needs no more than the cruise speed; and the plan lasts at least as long as the
  task was estimated.
\<close>

theorem zone_plan_is_flyable:
  assumes "plan_zone_task sha Z task zone start_m obstacles height = Inr plan" "0 < zt_cruise_speed_m_s Z"
  shows "zp_waypoints_m plan \<noteq> []
    \<and> hd (zp_waypoints_m plan) = start_m\<lparr>vz := max height (vz (center_m (geometry zone)))\<rparr>
    \<and> last (zp_waypoints_m plan) = zone_target zone height
    \<and> (\<forall>p \<in> set (zp_waypoints_m plan). vz p = max height (vz (center_m (geometry zone)))
         \<and> (\<forall>ob \<in> set obstacles. \<not> inside_expanded_box p ob 0))
    \<and> successively (\<noteq>) (zp_waypoints_m plan)
    \<and> (\<forall>(a, b) \<in> set (zip (zp_waypoints_m plan) (tl (zp_waypoints_m plan))). \<exists>m \<in> set (zp_actions plan).
         za_kind m = ZA_MOVE_TO \<and> za_target_m m = Some b \<and> distance a b \<le> zt_cruise_speed_m_s Z * za_duration_s m)
    \<and> td_estimated_duration_s task \<le> zp_estimated_duration_s plan"
proof -
  let ?w = "zp_waypoints_m plan" and ?t = "zone_target zone height" and ?c = "zt_cruise_speed_m_s Z"
  let ?s = "start_m\<lparr>vz := vz (zone_target zone height)\<rparr>"
  let ?ps = "?s # fst (detours Z ?t ?s (sort_key ob_obstacle_id obstacles)) @ [?t]"
  note plan = zone_plan_cases [OF assms(1)]
  have w: "?w = compact_points ?ps" using plan(1) by (simp add: zone_waypoints_def)
  have vt: "vz ?t = max height (vz (center_m (geometry zone)))" by (simp add: zone_target_def)
  have ps: "?ps \<noteq> []" by simp
  note ends = compact_points_ends [OF ps]
  have h: "vz p = vz ?t" if "p \<in> set ?w" for p
    using that detours_height [of p Z ?t ?s] unfolding w ends(4) by auto
  have legs: "\<exists>m \<in> set (zp_actions plan). za_kind m = ZA_MOVE_TO \<and> za_target_m m = Some b \<and> distance a b \<le> ?c * za_duration_s m"
    if "(a, b) \<in> set (zip ?w (tl ?w))" for a b
  proof (rule bexI)
    let ?m = "\<lparr>za_kind = ZA_MOVE_TO, za_target_m = Some b, za_duration_s = max (1/10) (distance a b / ?c)\<rparr>"
    show "za_kind ?m = ZA_MOVE_TO \<and> za_target_m ?m = Some b \<and> distance a b \<le> ?c * za_duration_s ?m"
      using assms(2) by (simp add: max_def field_simps)
    have "?m \<in> set (move_actions ?c ?w)" unfolding move_actions_def using that by force
    then show "?m \<in> set (zp_actions plan)" unfolding plan(2) zone_actions_def Let_def by simp
  qed
  have "td_estimated_duration_s task \<le> zp_estimated_duration_s plan"
    using moves_cover_path [OF assms(2), of ?w] unfolding plan(3) plan(2) zone_actions_def Let_def by (simp add: max_def)
  moreover have "successively (\<noteq>) ?w" unfolding w by (rule compact_points_distinct)
  moreover have "?w \<noteq> []" "hd ?w = ?s" "last ?w = ?t" unfolding w using ends by simp_all
  moreover have "\<forall>(a, b) \<in> set (zip ?w (tl ?w)). \<exists>m \<in> set (zp_actions plan).
      za_kind m = ZA_MOVE_TO \<and> za_target_m m = Some b \<and> distance a b \<le> ?c * za_duration_s m" using legs by blast
  ultimately show ?thesis using h plan(5) vt by simp
qed

definition patrol_zone :: zone_definition where
  "patrol_zone = \<lparr>zone_id = ''z'', geometry = \<lparr>zg_minimum_m = vec 9 (-1) 0, zg_maximum_m = vec 11 1 1\<rparr>\<rparr>"

definition patrol_plan :: "zone_task_plan outcome" where
  "patrol_plan = plan_zone_task (\<lambda>_. sample_sha) default_zone_planner (route_task ''t'' ''survey'' 1) patrol_zone (vec 0 0 0) [ahead] (3/10)"

lemma patrol_identifiers: "valid_identifier ''t''" "valid_identifier ''z''"
  by code_simp+

lemma patrol_waypoints:
  "zone_waypoints default_zone_planner (vec 0 0 (1/2)) (vec 10 0 (1/2)) [ahead]
     = [vec 0 0 (1/2), vec 0 (-6/5) (1/2), vec 10 (-6/5) (1/2), vec 10 0 (1/2)]"
proof -
  have t: "detours default_zone_planner (vec 10 0 (1/2)) (vec 0 0 (1/2)) [ahead] = ([vec 0 (-6/5) (1/2), vec 10 (-6/5) (1/2)], True)"
    unfolding detours.simps vec_sel ahead_detour if_P [OF ahead_met] by simp
  have s: "sort_key ob_obstacle_id [ahead] = [ahead]" by simp
  show ?thesis unfolding zone_waypoints_def s t by (simp add: vec_def)
qed

lemma patrol_planned: "outcome_ok patrol_plan"
proof -
  have t: "zone_target patrol_zone (3/10) = vec 10 0 (1/2)"
    by (simp add: zone_target_def patrol_zone_def center_m_def vec_def)
  have s: "(vec 0 0 0)\<lparr>vz := 1/2\<rparr> = vec 0 0 (1/2)" by (simp add: vec_def)
  have "\<forall>p \<in> set [vec 0 0 (1/2), vec 0 (-6/5) (1/2), vec 10 (-6/5) (1/2), vec 10 0 (1/2)]. \<not> inside_expanded_box p ahead 0"
    by (simp add: inside_expanded_box_def ahead_def)
  moreover have "0 < sum_list (map za_duration_s (zone_actions default_zone_planner task pts tgt))"
    "list_all (\<lambda>a. 0 < za_duration_s a) (zone_actions default_zone_planner task pts tgt)" for task pts tgt
    by (auto simp: zone_actions_def move_actions_def Let_def list_all_iff intro!: add_pos_nonneg add_nonneg_pos sum_list_nonneg)
  ultimately show ?thesis
    using patrol_identifiers
    by (simp add: patrol_plan_def plan_zone_task_def s patrol_waypoints t Let_def outcome_ok_def zone_plan_fields_ok_def
        route_task_def) (simp add: patrol_zone_def max_def)
qed

theorem zone_plan_is_flyable_witness:
  "\<exists>plan. patrol_plan = Inr plan \<and> last (zp_waypoints_m plan) = vec 10 0 (1/2) \<and> 10 \<le> zp_estimated_duration_s plan"
proof -
  obtain plan where p: "patrol_plan = Inr plan" using patrol_planned by (rule outcome_okE)
  have c: "0 < zt_cruise_speed_m_s default_zone_planner" by (simp add: default_zone_planner_def)
  have t: "zone_target patrol_zone (3/10) = vec 10 0 (1/2)"
    by (simp add: zone_target_def patrol_zone_def center_m_def vec_def)
  from zone_plan_is_flyable [OF p [unfolded patrol_plan_def] c] p show ?thesis
    unfolding t by (intro exI [of _ plan]) (simp add: route_task_def)
qed

section \<open>Leader and follower\<close>

text \<open>
  The tracking error is the distance between the observed and the expected offset, and the separation
  differs from the length of the expected offset by no more than it.
\<close>

lemma tracking_error_is_offset_error:
  "lf_tracking_error_m (assess_leader_follower l f off lv fv)
     = distance (lf_observed_offset_m (assess_leader_follower l f off lv fv)) off"
  "lf_separation_m (assess_leader_follower l f off lv fv) = distance l f"
  by (simp_all add: assess_leader_follower_def vec_subtract_def vec_add_def vector_length_def distance_def Let_def algebra_simps)

lemma tracking_bounds_separation:
  "vector_length off - lf_tracking_error_m (assess_leader_follower l f off lv fv)
     \<le> lf_separation_m (assess_leader_follower l f off lv fv)"
proof -
  have "vector_length off = distance l (vec_add l off)" by (simp add: vector_length_def vec_add_def distance_def)
  also have "\<dots> \<le> distance l f + distance f (vec_add l off)" by (rule distance_triangle)
  also have "distance f (vec_add l off) = lf_tracking_error_m (assess_leader_follower l f off lv fv)"
    by (simp add: assess_leader_follower_def vec_subtract_def vec_add_def vector_length_def distance_def Let_def)
  finally show ?thesis by (simp add: tracking_error_is_offset_error)
qed

end
