(* ===== verification/Routes.thy ===== *)
theory Routes
  imports Zones
begin

text \<open>
  The route planning plugins of \<open>planning/\<close>: the route contracts of \<open>contracts.py\<close>, the registry that
  resolves a plugin by name and version, and the four route planners of \<open>builtins.py\<close>.
\<close>

section \<open>Plugins\<close>

datatype plugin_kind = ROUTE_PLANNER | FLEET_POLICY | RECOVERY_STRATEGY

datatype qualification_state = QUALIFIED | NOT_QUALIFIED

text \<open>The two patterns of version numbers.\<close>

definition digit :: "char \<Rightarrow> bool" where
  "digit c \<longleftrightarrow> CHR ''0'' \<le> c \<and> c \<le> CHR ''9''"

definition digits :: "string \<Rightarrow> bool" where
  "digits s \<longleftrightarrow> s \<noteq> [] \<and> list_all digit s"

definition canonical_number :: "string \<Rightarrow> bool" where
  "canonical_number s \<longleftrightarrow> digits s \<and> (s = ''0'' \<or> hd s \<noteq> CHR ''0'')"

fun split_dots :: "string \<Rightarrow> string list" where
  "split_dots [] = [[]]"
| "split_dots (c # cs) =
     (if c = CHR ''.'' then [] # split_dots cs
      else case split_dots cs of [] \<Rightarrow> [[c]] | w # ws \<Rightarrow> (c # w) # ws)"

definition valid_version :: "string \<Rightarrow> bool" where
  "valid_version s \<longleftrightarrow> length (split_dots s) = 3 \<and> list_all canonical_number (split_dots s)"

definition valid_contract_version :: "string \<Rightarrow> bool" where
  "valid_contract_version s \<longleftrightarrow> length (split_dots s) = 3 \<and> hd (split_dots s) = ''1'' \<and> list_all digits (split_dots s)"

record plugin_manifest =
  pm_plugin_id :: string
  pm_kind :: plugin_kind
  pm_implementation_version :: string
  pm_control_contract_minimum :: string
  pm_control_contract_maximum :: string
  pm_capabilities :: "string set"
  pm_required_observations :: "string set"
  pm_implementation_sha256 :: string
  pm_qualification :: qualification_state

definition check_manifest :: "plugin_manifest \<Rightarrow> unit outcome" where
  "check_manifest m =
     (if \<not> (valid_identifier (pm_plugin_id m) \<and> valid_version (pm_implementation_version m) \<and>
            valid_contract_version (pm_control_contract_minimum m) \<and> valid_contract_version (pm_control_contract_maximum m) \<and>
            (\<forall>c \<in> pm_capabilities m. valid_identifier c) \<and> (\<forall>c \<in> pm_required_observations m. valid_identifier c) \<and>
            valid_sha256 (pm_implementation_sha256 m))
      then Inl (ValidationError ''PluginManifest field'')
      else if pm_capabilities m = {} then Inl (ValidationError ''plugin manifest requires at least one capability'')
      else Inr ())"

record plugin_selection =
  ps_plugin_id :: string
  ps_kind :: plugin_kind
  ps_implementation_version :: string
  ps_capabilities_used :: "string set"
  ps_manifest_sha256 :: string
  ps_implementation_sha256 :: string

definition selection_fields_ok :: "plugin_selection \<Rightarrow> bool" where
  "selection_fields_ok s \<longleftrightarrow> valid_identifier (ps_plugin_id s) \<and> (\<forall>c \<in> ps_capabilities_used s. valid_identifier c) \<and>
     valid_sha256 (ps_manifest_sha256 s) \<and> valid_sha256 (ps_implementation_sha256 s)"

definition from_manifest :: "(plugin_manifest \<Rightarrow> string) \<Rightarrow> plugin_manifest \<Rightarrow> string set \<Rightarrow> plugin_selection outcome" where
  "from_manifest sha m used =
     (if \<not> used \<subseteq> pm_capabilities m then Inl (ValueError ''selection requests an undeclared plugin capability'')
      else let s = \<lparr>ps_plugin_id = pm_plugin_id m, ps_kind = pm_kind m, ps_implementation_version = pm_implementation_version m,
             ps_capabilities_used = used, ps_manifest_sha256 = sha m, ps_implementation_sha256 = pm_implementation_sha256 m\<rparr>
        in if selection_fields_ok s then Inr s else Inl (ValidationError ''PluginSelection field''))"

section \<open>The registry\<close>

text \<open>A registry of plugins, each represented by its manifest and its behaviour.\<close>

record 'p registry =
  rg_kind :: plugin_kind
  rg_plugins :: "(string \<times> string, plugin_manifest \<times> 'p) dict"

definition empty_registry :: "plugin_kind \<Rightarrow> 'p registry" where
  "empty_registry k = \<lparr>rg_kind = k, rg_plugins = []\<rparr>"

definition plugin_key :: "plugin_manifest \<Rightarrow> string \<times> string" where
  "plugin_key m = (pm_plugin_id m, pm_implementation_version m)"

definition register :: "plugin_manifest \<times> 'p \<Rightarrow> 'p registry \<Rightarrow> 'p registry outcome" where
  "register p R =
     (if pm_kind (fst p) \<noteq> rg_kind R then Inl (ValueError (pm_plugin_id (fst p) @ '' has the wrong plugin kind''))
      else if dict_get (rg_plugins R) (plugin_key (fst p)) \<noteq> None
        then Inl (ValueError (''duplicate plugin registration: '' @ pm_plugin_id (fst p) @ ''@'' @ pm_implementation_version (fst p)))
      else Inr (R\<lparr>rg_plugins := dict_set (plugin_key (fst p)) p (rg_plugins R)\<rparr>))"

fun register_all :: "(plugin_manifest \<times> 'p) list \<Rightarrow> 'p registry \<Rightarrow> 'p registry outcome" where
  "register_all [] R = Inr R"
| "register_all (p # ps) R = bind_ok (register p R) (register_all ps)"

definition resolve_plugin ::
    "'p registry \<Rightarrow> string \<Rightarrow> string \<Rightarrow> string set \<Rightarrow> bool \<Rightarrow> (plugin_manifest \<times> 'p) outcome" where
  "resolve_plugin R plugin_id version required require_qualified =
     (case dict_get (rg_plugins R) (plugin_id, version) of
        None \<Rightarrow> Inl (CrazySwarmError CAPABILITY_MISSING (''plugin is not registered: '' @ plugin_id @ ''@'' @ version))
      | Some p \<Rightarrow>
          if \<not> required \<subseteq> pm_capabilities (fst p)
          then Inl (CrazySwarmError CAPABILITY_MISSING
                 (''plugin does not provide required capabilities: '' @ plugin_id @ ''@'' @ version))
          else if require_qualified \<and> pm_qualification (fst p) \<noteq> QUALIFIED
            then Inl (CrazySwarmError PREFLIGHT_FAILED (''plugin is not qualified: '' @ plugin_id @ ''@'' @ version))
          else Inr p)"

definition manifests :: "'p registry \<Rightarrow> plugin_manifest list" where
  "manifests R = map (\<lambda>k. fst (the (dict_get (rg_plugins R) k))) (sort (dict_keys (rg_plugins R)))"

section \<open>Route contracts\<close>

datatype route_capability =
    RC_DIRECT | RC_ZONE | RC_COVERAGE | RC_OBSTACLE_AWARE | RC_TEMPORAL_SEPARATION | RC_DOCK_APPROACH | RC_LEADER_FOLLOWER

fun route_capability_value :: "route_capability \<Rightarrow> string" where
  "route_capability_value RC_DIRECT = ''DIRECT''"
| "route_capability_value RC_ZONE = ''ZONE''"
| "route_capability_value RC_COVERAGE = ''COVERAGE''"
| "route_capability_value RC_OBSTACLE_AWARE = ''OBSTACLE_AWARE''"
| "route_capability_value RC_TEMPORAL_SEPARATION = ''TEMPORAL_SEPARATION''"
| "route_capability_value RC_DOCK_APPROACH = ''DOCK_APPROACH''"
| "route_capability_value RC_LEADER_FOLLOWER = ''LEADER_FOLLOWER''"

text \<open>A \<open>RouteObstacle\<close> is a box with ordered corners.\<close>

definition check_route_obstacle :: "box_obstacle \<Rightarrow> unit outcome" where
  "check_route_obstacle ob =
     (if \<not> valid_identifier (ob_obstacle_id ob) then Inl (ValidationError ''RouteObstacle field'')
      else if \<not> ordered_corners (ob_minimum_m ob) (ob_maximum_m ob) then Inl (ValidationError ''route obstacle bounds are reversed'')
      else Inr ())"

record route_target =
  rt_position_m :: vector3
  rt_hold_s :: real

record temporal_reservation =
  rv_reservation_id :: string
  rv_role_id :: string
  rv_starts_at_s :: real
  rv_ends_at_s :: real
  rv_minimum_m :: vector3
  rv_maximum_m :: vector3

definition check_reservation :: "temporal_reservation \<Rightarrow> unit outcome" where
  "check_reservation r =
     (if \<not> (valid_identifier (rv_reservation_id r) \<and> valid_identifier (rv_role_id r) \<and> 0 \<le> rv_starts_at_s r \<and> 0 < rv_ends_at_s r)
      then Inl (ValidationError ''TemporalReservation field'')
      else if rv_ends_at_s r \<le> rv_starts_at_s r then Inl (ValidationError ''reservation must have positive duration'')
      else if \<not> ordered_corners (rv_minimum_m r) (rv_maximum_m r)
        then Inl (ValidationError ''reservation spatial bounds are reversed'')
      else Inr ())"

record route_plan_request =
  rq_request_id :: string
  rq_role_id :: string
  rq_capability :: route_capability
  rq_start_m :: vector3
  rq_targets :: "route_target list"
  rq_zone_minimum_m :: "vector3 option"
  rq_zone_maximum_m :: "vector3 option"
  rq_coverage_spacing_m :: real
  rq_flight_volume_minimum_m :: vector3
  rq_flight_volume_maximum_m :: vector3
  rq_obstacles :: "box_obstacle list"
  rq_existing_reservations :: "temporal_reservation list"
  rq_cruise_speed_m_s :: real
  rq_maximum_duration_s :: real
  rq_energy_percent_per_m :: real
  rq_minimum_separation_m :: real
  rq_maximum_hold_s :: real
  rq_frame :: coordinate_frame
  rq_supersedes_route_sha256 :: "string option"

definition request_fields_ok :: "route_plan_request \<Rightarrow> bool" where
  "request_fields_ok q \<longleftrightarrow>
     valid_identifier (rq_request_id q) \<and> valid_identifier (rq_role_id q) \<and> list_all (\<lambda>t. 0 \<le> rt_hold_s t) (rq_targets q) \<and>
     0 < rq_coverage_spacing_m q \<and> list_all (\<lambda>ob. check_route_obstacle ob = Inr ()) (rq_obstacles q) \<and>
     list_all (\<lambda>r. check_reservation r = Inr ()) (rq_existing_reservations q) \<and> 0 < rq_cruise_speed_m_s q \<and>
     0 < rq_maximum_duration_s q \<and> 0 < rq_energy_percent_per_m q \<and> 0 < rq_minimum_separation_m q \<and> 0 \<le> rq_maximum_hold_s q \<and>
     opt_all valid_sha256 (rq_supersedes_route_sha256 q)"

definition below :: "vector3 \<Rightarrow> vector3 \<Rightarrow> bool" where
  "below a b \<longleftrightarrow> vx a < vx b \<and> vy a < vy b"

definition check_request :: "route_plan_request \<Rightarrow> unit outcome" where
  "check_request q =
     (if \<not> request_fields_ok q then Inl (ValidationError ''RoutePlanRequest field'') else raise_first
       [(rq_frame q \<noteq> WORLD, ValidationError ''route planning requires the world frame''),
        (rq_targets q = [], ValidationError ''route planning requires at least one target''),
        ((rq_zone_minimum_m q = None) \<noteq> (rq_zone_maximum_m q = None),
         ValidationError ''route zone requires both minimum and maximum bounds''),
        (case (rq_zone_minimum_m q, rq_zone_maximum_m q) of
           (Some a, Some b) \<Rightarrow> \<not> (below a b \<and> vz a \<le> vz b) | _ \<Rightarrow> False,
         ValidationError ''route zone bounds are invalid''),
        (\<not> (below (rq_flight_volume_minimum_m q) (rq_flight_volume_maximum_m q)
            \<and> vz (rq_flight_volume_minimum_m q) < vz (rq_flight_volume_maximum_m q)),
         ValidationError ''route flight volume is invalid'')])"

record route_waypoint =
  rw_sequence :: int
  rw_position_m :: vector3
  rw_arrival_s :: real
  rw_departure_s :: real

definition check_waypoint :: "route_waypoint \<Rightarrow> unit outcome" where
  "check_waypoint w =
     (if \<not> (0 \<le> rw_sequence w \<and> 0 \<le> rw_arrival_s w \<and> 0 \<le> rw_departure_s w) then Inl (ValidationError ''RouteWaypoint field'')
      else if rw_departure_s w < rw_arrival_s w then Inl (ValidationError ''waypoint departure precedes arrival'')
      else Inr ())"

datatype route_plan_status = RP_READY | RP_BLOCKED

record route_plan_artifact =
  rp_request_id :: string
  rp_role_id :: string
  rp_planner :: plugin_selection
  rp_capability :: route_capability
  rp_status :: route_plan_status
  rp_waypoints :: "route_waypoint list"
  rp_reservations :: "temporal_reservation list"
  rp_route_length_m :: real
  rp_expected_energy_percent :: real
  rp_expected_duration_s :: real
  rp_expected_minimum_separation_m :: real
  rp_completion_conditions :: "string list"
  rp_limitations :: "string list"
  rp_findings :: "string list"
  rp_supersedes_route_sha256 :: "string option"
  rp_route_sha256 :: string

definition artifact_fields_ok :: "route_plan_artifact \<Rightarrow> bool" where
  "artifact_fields_ok a \<longleftrightarrow> valid_identifier (rp_request_id a) \<and> valid_identifier (rp_role_id a) \<and>
     0 \<le> rp_route_length_m a \<and> 0 \<le> rp_expected_energy_percent a \<and> 0 \<le> rp_expected_duration_s a \<and>
     0 \<le> rp_expected_minimum_separation_m a \<and> list_all valid_identifier (rp_findings a) \<and>
     opt_all valid_sha256 (rp_supersedes_route_sha256 a) \<and> valid_sha256 (rp_route_sha256 a)"

record route_replan_request =
  rr_previous_route_sha256 :: string
  rr_changed_observation_sha256 :: string
  rr_replacement_request :: route_plan_request
  rr_planning_budget_s :: real

definition check_replan_request :: "route_replan_request \<Rightarrow> unit outcome" where
  "check_replan_request r =
     (if \<not> (valid_sha256 (rr_previous_route_sha256 r) \<and> valid_sha256 (rr_changed_observation_sha256 r) \<and>
            check_request (rr_replacement_request r) = Inr () \<and> 0 < rr_planning_budget_s r \<and> rr_planning_budget_s r \<le> 10)
      then Inl (ValidationError ''RouteReplanRequest field'')
      else if rq_supersedes_route_sha256 (rr_replacement_request r) \<noteq> Some (rr_previous_route_sha256 r)
        then Inl (ValidationError ''replan request does not supersede the current route authority'')
      else Inr ())"

record route_replan_result =
  rx_previous_route_sha256 :: string
  rx_stale_route_sha256 :: string
  rx_replacement_route :: route_plan_artifact
  rx_changed_observation_sha256 :: string
  rx_replan_sha256 :: string

definition check_replan_result :: "route_replan_result \<Rightarrow> unit outcome" where
  "check_replan_result r =
     (if \<not> (valid_sha256 (rx_previous_route_sha256 r) \<and> valid_sha256 (rx_stale_route_sha256 r) \<and>
            artifact_fields_ok (rx_replacement_route r) \<and> valid_sha256 (rx_changed_observation_sha256 r) \<and>
            valid_sha256 (rx_replan_sha256 r))
      then Inl (ValidationError ''RouteReplanResult field'')
      else if rx_previous_route_sha256 r \<noteq> rx_stale_route_sha256 r
        then Inl (ValidationError ''replan result must explicitly stale the previous route'')
      else if rp_supersedes_route_sha256 (rx_replacement_route r) \<noteq> Some (rx_previous_route_sha256 r)
        then Inl (ValidationError ''replacement route does not bind the previous route'')
      else Inr ())"

section \<open>Geometry of a route\<close>

definition inside_volume :: "vector3 \<Rightarrow> route_plan_request \<Rightarrow> bool" where
  "inside_volume p q \<longleftrightarrow>
     vx (rq_flight_volume_minimum_m q) \<le> vx p \<and> vx p \<le> vx (rq_flight_volume_maximum_m q) \<and>
     vy (rq_flight_volume_minimum_m q) \<le> vy p \<and> vy p \<le> vy (rq_flight_volume_maximum_m q) \<and>
     vz (rq_flight_volume_minimum_m q) \<le> vz p \<and> vz p \<le> vz (rq_flight_volume_maximum_m q)"

text \<open>The loop over the three axes; the interval of the segment still inside all slabs so far.\<close>

fun slabs :: "real \<Rightarrow> real \<Rightarrow> (real \<times> real \<times> real \<times> real) list \<Rightarrow> bool" where
  "slabs lower upper [] = True"
| "slabs lower upper ((origin, target, low, high) # axes) =
     (let delta = target - origin in
      if \<bar>delta\<bar> \<le> 1 / 10 ^ 12
      then if origin < low \<or> origin > high then False else slabs lower upper axes
      else let entry = (low - origin) / delta; exit = (high - origin) / delta;
               first = (if entry > exit then exit else entry); second = (if entry > exit then entry else exit);
               lower' = max lower first; upper' = min upper second
        in if lower' > upper' then False else slabs lower' upper' axes)"

definition box_axes :: "vector3 \<Rightarrow> vector3 \<Rightarrow> box_obstacle \<Rightarrow> (real \<times> real \<times> real \<times> real) list" where
  "box_axes a b ob =
     [(vx a, vx b, vx (ob_minimum_m ob), vx (ob_maximum_m ob)), (vy a, vy b, vy (ob_minimum_m ob), vy (ob_maximum_m ob)),
      (vz a, vz b, vz (ob_minimum_m ob), vz (ob_maximum_m ob))]"

definition segment_intersects_box :: "vector3 \<Rightarrow> vector3 \<Rightarrow> box_obstacle \<Rightarrow> bool" where
  "segment_intersects_box a b ob = slabs 0 1 (box_axes a b ob)"

definition reservations_conflict :: "temporal_reservation \<Rightarrow> temporal_reservation \<Rightarrow> bool" where
  "reservations_conflict r s \<longleftrightarrow>
     (rv_starts_at_s r < rv_ends_at_s s \<and> rv_starts_at_s s < rv_ends_at_s r) \<and>
     \<not> (vx (rv_maximum_m r) < vx (rv_minimum_m s) \<or> vx (rv_maximum_m s) < vx (rv_minimum_m r) \<or>
        vy (rv_maximum_m r) < vy (rv_minimum_m s) \<or> vy (rv_maximum_m s) < vy (rv_minimum_m r) \<or>
        vz (rv_maximum_m r) < vz (rv_minimum_m s) \<or> vz (rv_maximum_m s) < vz (rv_minimum_m r))"

definition reservation :: "route_plan_request \<Rightarrow> route_waypoint list \<Rightarrow> real \<Rightarrow> temporal_reservation outcome" where
  "reservation q ws duration =
     (let margin = rq_minimum_separation_m q / 2; ps = map rw_position_m ws;
          r = \<lparr>rv_reservation_id = ''corridor-'' @ rq_request_id q, rv_role_id = rq_role_id q, rv_starts_at_s = 0,
               rv_ends_at_s = max duration (1 / 1000), rv_minimum_m = lower_corner ps margin, rv_maximum_m = upper_corner ps margin\<rparr>
      in bind_ok (check_reservation r) (\<lambda>_. Inr r))"

section \<open>Route planners\<close>

text \<open>The canonical SHA-256 of each kind of payload.\<close>

record planning_hashes =
  rh_manifest :: "plugin_manifest \<Rightarrow> string"
  rh_implementation :: "string \<Rightarrow> string \<Rightarrow> string"
  rh_route :: "route_plan_artifact \<Rightarrow> string"
  rh_zone :: "zone_task_plan \<Rightarrow> string"

definition builtin_manifest ::
    "planning_hashes \<Rightarrow> string \<Rightarrow> plugin_kind \<Rightarrow> string set \<Rightarrow> string set \<Rightarrow> plugin_manifest" where
  "builtin_manifest H plugin_id kind capabilities observations =
     \<lparr>pm_plugin_id = plugin_id, pm_kind = kind, pm_implementation_version = ''1.0.0'', pm_control_contract_minimum = ''1.0.0'',
      pm_control_contract_maximum = ''1.0.0'', pm_capabilities = capabilities, pm_required_observations = observations,
      pm_implementation_sha256 = rh_implementation H plugin_id ''1.0.0'', pm_qualification = QUALIFIED\<rparr>"

definition route_artifact ::
    "planning_hashes \<Rightarrow> plugin_manifest \<Rightarrow> route_plan_request \<Rightarrow> route_plan_status \<Rightarrow> route_waypoint list
       \<Rightarrow> temporal_reservation list \<Rightarrow> real \<Rightarrow> real \<Rightarrow> string list \<Rightarrow> string list \<Rightarrow> route_plan_artifact outcome" where
  "route_artifact H m q status ws rs len duration limitations findings =
     bind_ok (from_manifest (rh_manifest H) m {route_capability_value (rq_capability q)}) (\<lambda>selection.
       let payload = \<lparr>rp_request_id = rq_request_id q, rp_role_id = rq_role_id q, rp_planner = selection,
             rp_capability = rq_capability q, rp_status = status, rp_waypoints = ws, rp_reservations = rs,
             rp_route_length_m = len, rp_expected_energy_percent = len * rq_energy_percent_per_m q,
             rp_expected_duration_s = duration, rp_expected_minimum_separation_m = rq_minimum_separation_m q,
             rp_completion_conditions = [''final waypoint reached'', ''role completion acknowledged''],
             rp_limitations = limitations, rp_findings = findings,
             rp_supersedes_route_sha256 = rq_supersedes_route_sha256 q, rp_route_sha256 = ''''\<rparr>;
           artifact = payload\<lparr>rp_route_sha256 := rh_route H payload\<rparr>
       in if artifact_fields_ok artifact then Inr artifact else Inl (ValidationError ''RoutePlanArtifact field''))"

definition blocked_route ::
    "planning_hashes \<Rightarrow> plugin_manifest \<Rightarrow> route_plan_request \<Rightarrow> string \<Rightarrow> route_plan_artifact outcome" where
  "blocked_route H m q finding = route_artifact H m q RP_BLOCKED [] [] 0 0 [] [finding]"

text \<open>The loop over the targets, from the point flown to last, the time and the length so far.\<close>

record leg_state =
  ls_elapsed :: real
  ls_length :: real
  ls_waypoints :: "route_waypoint list"

definition hold_of :: "route_plan_request \<Rightarrow> nat \<Rightarrow> real outcome" where
  "hold_of q index =
     (if rq_targets q = [] then Inl index_error
      else Inr (rt_hold_s (rq_targets q ! min (index - 1) (length (rq_targets q) - 1))))"

fun fly_legs :: "route_plan_request \<Rightarrow> nat \<Rightarrow> vector3 \<Rightarrow> leg_state \<Rightarrow> vector3 list \<Rightarrow> leg_state outcome" where
  "fly_legs q index previous st [] = Inr st"
| "fly_legs q index previous st (target # targets) =
     (let segment = distance previous target; elapsed = ls_elapsed st + segment / rq_cruise_speed_m_s q in
      bind_ok (hold_of q index) (\<lambda>hold.
        let w = \<lparr>rw_sequence = int index, rw_position_m = target, rw_arrival_s = elapsed, rw_departure_s = elapsed + hold\<rparr>
        in bind_ok (check_waypoint w) (\<lambda>_.
             fly_legs q (index + 1) target
               \<lparr>ls_elapsed = elapsed + hold, ls_length = ls_length st + segment, ls_waypoints = ls_waypoints st @ [w]\<rparr> targets)))"

definition first_waypoint :: "route_plan_request \<Rightarrow> route_waypoint" where
  "first_waypoint q = \<lparr>rw_sequence = 0, rw_position_m = rq_start_m q, rw_arrival_s = 0, rw_departure_s = 0\<rparr>"

definition plan_polyline ::
    "planning_hashes \<Rightarrow> plugin_manifest \<Rightarrow> bool \<Rightarrow> route_plan_request \<Rightarrow> vector3 list \<Rightarrow> route_plan_artifact outcome" where
  "plan_polyline H m apply_temporal_shift q targets =
     (let points = rq_start_m q # targets in
      if list_ex (\<lambda>p. \<not> inside_volume p q) points then blocked_route H m q ''ROUTE_OUTSIDE_FLIGHT_VOLUME''
      else if list_ex (\<lambda>(a, b). list_ex (segment_intersects_box a b) (rq_obstacles q)) (zip points targets)
        then blocked_route H m q ''ROUTE_INTERSECTS_OBSTACLE''
      else bind_ok (fly_legs q 1 (rq_start_m q) \<lparr>ls_elapsed = 0, ls_length = 0, ls_waypoints = [first_waypoint q]\<rparr> targets) (\<lambda>st.
        if ls_elapsed st > rq_maximum_duration_s q then blocked_route H m q ''ROUTE_DURATION_EXCEEDS_BOUND''
        else bind_ok (reservation q (ls_waypoints st) (ls_elapsed st)) (\<lambda>corridor.
          if apply_temporal_shift \<and> list_ex (reservations_conflict corridor) (rq_existing_reservations q)
          then blocked_route H m q ''TEMPORAL_RESERVATION_REQUIRED''
          else route_artifact H m q RP_READY (ls_waypoints st) [corridor] (ls_length st) (ls_elapsed st) [] [])))"

definition direct_manifest :: "planning_hashes \<Rightarrow> plugin_manifest" where
  "direct_manifest H = builtin_manifest H ''route.direct'' ROUTE_PLANNER
     (route_capability_value ` {RC_DIRECT, RC_DOCK_APPROACH, RC_LEADER_FOLLOWER}) {}"

definition plan_direct :: "planning_hashes \<Rightarrow> route_plan_request \<Rightarrow> route_plan_artifact outcome" where
  "plan_direct H q = plan_polyline H (direct_manifest H) True q (map rt_position_m (rq_targets q))"

definition zone_manifest :: "planning_hashes \<Rightarrow> plugin_manifest" where
  "zone_manifest H = builtin_manifest H ''route.zone'' ROUTE_PLANNER (route_capability_value ` {RC_ZONE, RC_OBSTACLE_AWARE}) {}"

definition around :: "vector3 \<Rightarrow> real \<Rightarrow> vector3" where
  "around p d = vec (vx p + d) (vy p + d) (vz p)"

definition zone_of :: "route_plan_request \<Rightarrow> vector3 \<Rightarrow> zone_definition outcome" where
  "zone_of q target =
     (let z = \<lparr>zone_id = ''zone-'' @ rq_request_id q,
            geometry = \<lparr>zg_minimum_m = (case rq_zone_minimum_m q of Some v \<Rightarrow> v | None \<Rightarrow> around target (- 1 / 100)),
              zg_maximum_m = (case rq_zone_maximum_m q of Some v \<Rightarrow> v | None \<Rightarrow> around target (1 / 100))\<rparr>\<rparr>
      in if valid_identifier (zone_id z) \<and> bounds_are_ordered (geometry z) then Inr z else Inl (ValidationError ''ZoneDefinition''))"

definition zone_task_of :: "route_plan_request \<Rightarrow> zone_definition \<Rightarrow> task_definition outcome" where
  "zone_task_of q zone =
     (let t = \<lparr>td_task_id = rq_role_id q, td_task_type = ''route-zone'', td_zone_id = zone_id zone, td_priority = 100,
           td_mission_id = rq_request_id q, td_mission_parameters = [], td_required_capabilities = {},
           td_completion_progress_percent = 100, td_estimated_duration_s = max (41 / 10) (rq_maximum_duration_s q),
           td_estimated_energy_percent = 1 / 100, td_energy_margin_percent = 0\<rparr>
      in if valid_task_definition t then Inr t else Inl (ValidationError ''DeploymentTaskDefinition field''))"

definition plan_zone :: "planning_hashes \<Rightarrow> route_plan_request \<Rightarrow> route_plan_artifact outcome" where
  "plan_zone H q =
     (if rq_targets q = [] then Inl index_error
      else let target = rt_position_m (last (rq_targets q)) in
        bind_ok (zone_of q target) (\<lambda>zone.
        bind_ok (zone_task_of q zone) (\<lambda>task.
        bind_ok (plan_zone_task (rh_zone H) default_zone_planner task zone (rq_start_m q) (rq_obstacles q)
                   (max (vz target) (vz (zg_minimum_m (geometry zone))))) (\<lambda>route.
          plan_polyline H (zone_manifest H) True q (zp_waypoints_m route)))))"

definition coverage_manifest :: "planning_hashes \<Rightarrow> plugin_manifest" where
  "coverage_manifest H = builtin_manifest H ''route.coverage'' ROUTE_PLANNER {route_capability_value RC_COVERAGE} {}"

definition coverage_rows :: "vector3 \<Rightarrow> vector3 \<Rightarrow> real \<Rightarrow> nat" where
  "coverage_rows lo hi spacing = max 1 (nat \<lceil>(vy hi - vy lo) / spacing\<rceil>)"

definition row_y :: "vector3 \<Rightarrow> vector3 \<Rightarrow> real \<Rightarrow> nat \<Rightarrow> real" where
  "row_y lo hi spacing i = min (vy hi) (vy lo + real i * spacing)"

definition coverage_row :: "vector3 \<Rightarrow> vector3 \<Rightarrow> real \<Rightarrow> real \<Rightarrow> nat \<Rightarrow> vector3 list" where
  "coverage_row lo hi spacing z i =
     map (\<lambda>x. vec x (row_y lo hi spacing i) z) (if i mod 2 = 0 then [vx lo, vx hi] else [vx hi, vx lo])"

definition coverage_points :: "vector3 \<Rightarrow> vector3 \<Rightarrow> real \<Rightarrow> real \<Rightarrow> vector3 list" where
  "coverage_points lo hi spacing z = concat (map (coverage_row lo hi spacing z) [0..<coverage_rows lo hi spacing + 1])"

definition plan_coverage :: "planning_hashes \<Rightarrow> route_plan_request \<Rightarrow> route_plan_artifact outcome" where
  "plan_coverage H q =
     (case (rq_zone_minimum_m q, rq_zone_maximum_m q) of
        (Some lo, Some hi) \<Rightarrow>
          if rq_targets q = [] then Inl index_error
          else plan_polyline H (coverage_manifest H) True q
                 (coverage_points lo hi (rq_coverage_spacing_m q) (vz (rt_position_m (last (rq_targets q)))))
      | _ \<Rightarrow> blocked_route H (coverage_manifest H) q ''COVERAGE_ZONE_UNAVAILABLE'')"

definition temporal_manifest :: "planning_hashes \<Rightarrow> plugin_manifest" where
  "temporal_manifest H = builtin_manifest H ''route.temporal'' ROUTE_PLANNER {route_capability_value RC_TEMPORAL_SEPARATION}
     {''peer-route-reservations''}"

definition required_shift :: "temporal_reservation list \<Rightarrow> temporal_reservation list \<Rightarrow> real" where
  "required_shift mine existing =
     fold (\<lambda>r shift. fold (\<lambda>e shift. if reservations_conflict r e then max shift (rv_ends_at_s e - rv_starts_at_s r + 1 / 1000)
        else shift) existing shift) mine 0"

definition shift_waypoint :: "real \<Rightarrow> route_waypoint \<Rightarrow> route_waypoint" where
  "shift_waypoint d w = w\<lparr>rw_arrival_s := rw_arrival_s w + d, rw_departure_s := rw_departure_s w + d\<rparr>"

definition shift_reservation :: "real \<Rightarrow> temporal_reservation \<Rightarrow> temporal_reservation" where
  "shift_reservation d r = r\<lparr>rv_starts_at_s := rv_starts_at_s r + d, rv_ends_at_s := rv_ends_at_s r + d\<rparr>"

text \<open>Python's format \<open>.3f\<close> of a non-negative number: rounded to even, three decimals.\<close>

definition round_even :: "real \<Rightarrow> int" where
  "round_even y = (let f = \<lfloor>y\<rfloor>; d = y - of_int f in
     if d < 1 / 2 then f else if d > 1 / 2 then f + 1 else if even f then f else f + 1)"

definition format_3f :: "real \<Rightarrow> string" where
  "format_3f x = (let n = round_even (x * 1000); r = n mod 1000 in
     show_int (n div 1000) @ ''.'' @ (if r < 10 then ''00'' else if r < 100 then ''0'' else '''') @ show_int r)"

definition plan_temporal :: "planning_hashes \<Rightarrow> route_plan_request \<Rightarrow> route_plan_artifact outcome" where
  "plan_temporal H q =
     bind_ok (plan_polyline H (temporal_manifest H) False q (map rt_position_m (rq_targets q))) (\<lambda>base.
       if rp_status base = RP_BLOCKED then Inr base
       else let shift = required_shift (rp_reservations base) (rq_existing_reservations q) in
         if shift > rq_maximum_hold_s q then blocked_route H (temporal_manifest H) q ''TEMPORAL_CORRIDOR_UNAVAILABLE''
         else if shift \<le> 0 then Inr base
         else route_artifact H (temporal_manifest H) q RP_READY (map (shift_waypoint shift) (rp_waypoints base))
                (map (shift_reservation shift) (rp_reservations base)) (rp_route_length_m base)
                (rp_expected_duration_s base + shift)
                [''role held for '' @ format_3f shift @ ''s for temporal precedence''] [])"

type_synonym route_planner = "route_plan_request \<Rightarrow> route_plan_artifact outcome"

definition default_route_planner_registry :: "planning_hashes \<Rightarrow> route_planner registry outcome" where
  "default_route_planner_registry H = register_all
     [(direct_manifest H, plan_direct H), (zone_manifest H, plan_zone H), (coverage_manifest H, plan_coverage H),
      (temporal_manifest H, plan_temporal H)] (empty_registry ROUTE_PLANNER)"

section \<open>The slab test\<close>

definition on_axis :: "real \<Rightarrow> real \<times> real \<times> real \<times> real \<Rightarrow> bool" where
  "on_axis t ax = (case ax of (origin, target, low, high) \<Rightarrow> low \<le> origin + (target - origin) * t \<and> origin + (target - origin) * t \<le> high)"

text \<open>The test takes a difference of at most a picometre for none.\<close>

definition snap :: "real \<Rightarrow> real \<Rightarrow> real" where
  "snap origin target = (if \<bar>target - origin\<bar> \<le> 1 / 10 ^ 12 then origin else target)"

definition snap_axis :: "real \<times> real \<times> real \<times> real \<Rightarrow> real \<times> real \<times> real \<times> real" where
  "snap_axis ax = (case ax of (origin, target, low, high) \<Rightarrow> (origin, snap origin target, low, high))"

lemma slab_interval:
  assumes "low \<le> high" "d \<noteq> (0::real)"
  shows "low \<le> origin + d * t \<and> origin + d * t \<le> high \<longleftrightarrow>
    min ((low - origin) / d) ((high - origin) / d) \<le> t \<and> t \<le> max ((low - origin) / d) ((high - origin) / d)"
proof (cases "0 < d")
  case True
  then have "(low - origin) / d \<le> (high - origin) / d" using assms(1) by (intro divide_right_mono) auto
  with True show ?thesis by (auto simp: min_def max_def field_simps)
next
  case False
  with assms(2) have n: "d < 0" by simp
  then have "(high - origin) / d \<le> (low - origin) / d" using assms(1) by (intro divide_right_mono_neg) auto
  with n show ?thesis by (auto simp: min_def max_def field_simps)
qed

lemma slabs_iff:
  assumes "lower \<le> upper" "\<forall>(origin, target, low, high) \<in> set axes. low \<le> high"
  shows "slabs lower upper axes \<longleftrightarrow> (\<exists>t \<in> {lower..upper}. \<forall>ax \<in> set axes. on_axis t (snap_axis ax))"
  using assms
proof (induction axes arbitrary: lower upper)
  case (Cons ax axes)
  obtain origin target low high where ax: "ax = (origin, target, low, high)" by (cases ax)
  have lh: "low \<le> high" and rest: "\<forall>(origin, target, low, high) \<in> set axes. low \<le> high" using Cons.prems(2) ax by auto
  show ?case
  proof (cases "\<bar>target - origin\<bar> \<le> 1 / 10 ^ 12")
    case True
    then show ?thesis using Cons.IH [OF Cons.prems(1) rest]
      by (auto simp: ax on_axis_def snap_axis_def snap_def)
  next
    case False
    let ?d = "target - origin" let ?e = "(low - origin) / ?d" let ?x = "(high - origin) / ?d"
    have d0: "?d \<noteq> 0" using False by auto
    let ?lo = "max lower (min ?e ?x)" let ?up = "min upper (max ?e ?x)"
    have here: "on_axis t (snap_axis ax) \<longleftrightarrow> min ?e ?x \<le> t \<and> t \<le> max ?e ?x" for t
      using slab_interval [OF lh d0, of origin t] False by (simp add: ax on_axis_def snap_axis_def snap_def)
    have step: "slabs lower upper (ax # axes) = (\<not> ?up < ?lo \<and> slabs ?lo ?up axes)"
      using False by (simp add: ax Let_def min_def max_def)
    have "(\<exists>t \<in> {lower..upper}. \<forall>a \<in> set (ax # axes). on_axis t (snap_axis a))
        \<longleftrightarrow> (\<exists>t \<in> {?lo..?up}. \<forall>a \<in> set axes. on_axis t (snap_axis a))"
      using here by auto
    also have "\<dots> \<longleftrightarrow> \<not> ?up < ?lo \<and> slabs ?lo ?up axes"
    proof (cases "?lo \<le> ?up")
      case True
      then show ?thesis using Cons.IH [OF True rest] by (simp add: not_less)
    qed auto
    finally show ?thesis using step by blast
  qed
qed auto

definition point_on :: "vector3 \<Rightarrow> vector3 \<Rightarrow> real \<Rightarrow> vector3" where
  "point_on a b t = vec (vx a + (vx b - vx a) * t) (vy a + (vy b - vy a) * t) (vz a + (vz b - vz a) * t)"

definition snapped :: "vector3 \<Rightarrow> vector3 \<Rightarrow> vector3" where
  "snapped a b = vec (snap (vx a) (vx b)) (snap (vy a) (vy b)) (snap (vz a) (vz b))"

lemma snapped_near: "\<bar>vx (snapped a b) - vx b\<bar> \<le> 1 / 10 ^ 12 \<and> \<bar>vy (snapped a b) - vy b\<bar> \<le> 1 / 10 ^ 12 \<and> \<bar>vz (snapped a b) - vz b\<bar> \<le> 1 / 10 ^ 12"
  by (simp add: snapped_def snap_def abs_minus_commute)

lemma slab_test:
  assumes "ordered_corners (ob_minimum_m ob) (ob_maximum_m ob)"
  shows "segment_intersects_box a b ob \<longleftrightarrow> (\<exists>t \<in> {0..1}. inside_expanded_box (point_on a (snapped a b) t) ob 0)"
proof -
  have o: "\<forall>(origin, target, low, high) \<in> set (box_axes a b ob). low \<le> high"
    using assms by (simp add: box_axes_def ordered_corners_def)
  show ?thesis
    unfolding segment_intersects_box_def slabs_iff [OF zero_le_one o]
    by (simp add: box_axes_def on_axis_def snap_axis_def inside_expanded_box_def point_on_def snapped_def conj_assoc)
qed

lemma inside_volume_convex:
  assumes "inside_volume a q" "inside_volume b q" "0 \<le> t" "t \<le> 1"
  shows "inside_volume (point_on a b t) q"
  using assms affine_between [of "vx (rq_flight_volume_minimum_m q)" "vx a" "vx b - vx a" 0 "vx (rq_flight_volume_maximum_m q)" 1 t]
    affine_between [of "vy (rq_flight_volume_minimum_m q)" "vy a" "vy b - vy a" 0 "vy (rq_flight_volume_maximum_m q)" 1 t]
    affine_between [of "vz (rq_flight_volume_minimum_m q)" "vz a" "vz b - vz a" 0 "vz (rq_flight_volume_maximum_m q)" 1 t]
  by (simp add: inside_volume_def point_on_def)

text \<open>
  C25. The slab test decides exactly whether a segment meets a box: it answers yes if and only if some
  point of the segment is in the box, for every box with ordered corners, where the end of the segment
  is moved by at most a picometre along an axis on which it hardly moves.
\<close>

theorem slab_test_is_exact:
  assumes "ordered_corners (ob_minimum_m ob) (ob_maximum_m ob)"
  shows "segment_intersects_box a b ob \<longleftrightarrow> (\<exists>t \<in> {0..1}. inside_expanded_box (point_on a (snapped a b) t) ob 0)"
  using assms by (rule slab_test)

theorem slab_test_is_exact_witness:
  "segment_intersects_box (vec 0 0 (1/2)) (vec 2 0 (1/2)) wall"
proof -
  have o: "ordered_corners (ob_minimum_m wall) (ob_maximum_m wall)" by (simp add: wall_def ordered_corners_def)
  show ?thesis
    unfolding slab_test_is_exact [OF o]
    by (intro bexI [of _ "5/2000"]) (simp_all add: inside_expanded_box_def point_on_def snapped_def snap_def wall_def)
qed

section \<open>What a route guarantees\<close>

definition route_points :: "route_plan_artifact \<Rightarrow> vector3 list" where
  "route_points a = map rw_position_m (rp_waypoints a)"

abbreviation legs_of :: "'a list \<Rightarrow> ('a \<times> 'a) list" where
  "legs_of xs \<equiv> zip xs (tl xs)"

definition leg_timed :: "route_plan_request \<Rightarrow> route_waypoint \<Rightarrow> route_waypoint \<Rightarrow> bool" where
  "leg_timed q v w \<longleftrightarrow> rw_arrival_s w = rw_departure_s v + distance (rw_position_m v) (rw_position_m w) / rq_cruise_speed_m_s q
     \<and> rw_arrival_s w \<le> rw_departure_s w"

definition leg_clear :: "route_plan_request \<Rightarrow> vector3 \<Rightarrow> vector3 \<Rightarrow> bool" where
  "leg_clear q a b \<longleftrightarrow> (\<forall>t \<in> {0..1}. inside_volume (point_on a b t) q
     \<and> (\<forall>ob \<in> set (rq_obstacles q). \<not> inside_expanded_box (point_on a (snapped a b) t) ob 0))"

text \<open>The reservation of a route: half the separation around its points, for the time of its waypoints.\<close>

definition corridor_of :: "route_plan_request \<Rightarrow> route_plan_artifact \<Rightarrow> temporal_reservation \<Rightarrow> bool" where
  "corridor_of q a c \<longleftrightarrow> rv_minimum_m c = lower_corner (route_points a) (rq_minimum_separation_m q / 2)
     \<and> rv_maximum_m c = upper_corner (route_points a) (rq_minimum_separation_m q / 2) \<and> rv_role_id c = rq_role_id q
     \<and> (\<forall>w \<in> set (rp_waypoints a). rv_starts_at_s c \<le> rw_arrival_s w \<and> rw_departure_s w \<le> rv_ends_at_s c)"

definition safe_route :: "route_plan_request \<Rightarrow> route_plan_artifact \<Rightarrow> bool" where
  "safe_route q a \<longleftrightarrow> rp_waypoints a \<noteq> [] \<and> hd (route_points a) = rq_start_m q
     \<and> (\<forall>(u, v) \<in> set (legs_of (route_points a)). leg_clear q u v)
     \<and> successively (leg_timed q) (rp_waypoints a)
     \<and> (\<exists>c. rp_reservations a = [c] \<and> corridor_of q a c)"

section \<open>Polylines\<close>

definition legs_inv :: "route_plan_request \<Rightarrow> vector3 \<Rightarrow> leg_state \<Rightarrow> bool" where
  "legs_inv q previous st \<longleftrightarrow> ls_waypoints st \<noteq> [] \<and> rw_position_m (last (ls_waypoints st)) = previous
     \<and> rw_departure_s (last (ls_waypoints st)) = ls_elapsed st \<and> successively (leg_timed q) (ls_waypoints st)
     \<and> (\<forall>w \<in> set (ls_waypoints st). 0 \<le> rw_arrival_s w \<and> rw_departure_s w \<le> ls_elapsed st)"

lemma fly_legs_inv:
  assumes "fly_legs q i previous st targets = Inr st'" "legs_inv q previous st" "0 < rq_cruise_speed_m_s q"
  shows "map rw_position_m (ls_waypoints st') = map rw_position_m (ls_waypoints st) @ targets
    \<and> legs_inv q (last (previous # targets)) st'"
  using assms(1,2)
proof (induction targets arbitrary: i previous st)
  case (Cons target targets)
  let ?e = "ls_elapsed st + distance previous target / rq_cruise_speed_m_s q"
  from Cons.prems(1) obtain hold where hold: "hold_of q i = Inr hold"
    and w: "check_waypoint \<lparr>rw_sequence = int i, rw_position_m = target, rw_arrival_s = ?e, rw_departure_s = ?e + hold\<rparr> = Inr ()"
    and rest: "fly_legs q (i + 1) target \<lparr>ls_elapsed = ?e + hold, ls_length = ls_length st + distance previous target,
        ls_waypoints = ls_waypoints st @ [\<lparr>rw_sequence = int i, rw_position_m = target, rw_arrival_s = ?e, rw_departure_s = ?e + hold\<rparr>]\<rparr> targets
      = Inr st'"
    by (auto simp: Let_def bind_ok_Inr)
  have ge: "ls_elapsed st \<le> ?e" using assms(3) by simp
  from w have h: "0 \<le> ?e" "?e \<le> ?e + hold" by (auto simp: check_waypoint_def split: if_splits)
  have "legs_inv q target \<lparr>ls_elapsed = ?e + hold, ls_length = ls_length st + distance previous target,
        ls_waypoints = ls_waypoints st @ [\<lparr>rw_sequence = int i, rw_position_m = target, rw_arrival_s = ?e, rw_departure_s = ?e + hold\<rparr>]\<rparr>"
    using Cons.prems(2) ge h
    by (auto simp: legs_inv_def successively_append_iff leg_timed_def intro: order_trans)
  from Cons.IH [OF rest this] show ?case by simp
qed simp

lemma check_request_facts:
  assumes "check_request q = Inr ()"
  shows "0 < rq_cruise_speed_m_s q" "0 < rq_minimum_separation_m q" "rq_targets q \<noteq> []" "0 < rq_coverage_spacing_m q"
    "\<And>ob. ob \<in> set (rq_obstacles q) \<Longrightarrow> ordered_corners (ob_minimum_m ob) (ob_maximum_m ob)"
    "\<And>e. e \<in> set (rq_existing_reservations q) \<Longrightarrow> check_reservation e = Inr ()"
  using assms
  by (auto simp: check_request_def request_fields_ok_def list_all_iff raise_first_Inr check_route_obstacle_def split: if_splits)

lemma route_artifact_Inr:
  assumes "route_artifact H m q status ws rs len duration limitations findings = Inr a"
  shows "rp_status a = status" "rp_waypoints a = ws" "rp_reservations a = rs" "rp_expected_duration_s a = duration"
    "rp_route_length_m a = len" "route_capability_value (rq_capability q) \<in> pm_capabilities m" "rp_capability a = rq_capability q"
    "ps_plugin_id (rp_planner a) = pm_plugin_id m"
  using assms by (auto simp: route_artifact_def from_manifest_def Let_def bind_ok_Inr split: if_splits)

lemma blocked_not_ready: "blocked_route H m q f = Inr a \<Longrightarrow> rp_status a = RP_BLOCKED"
  unfolding blocked_route_def by (rule route_artifact_Inr)

lemma polyline_ready:
  assumes "plan_polyline H m shift q targets = Inr a" "rp_status a = RP_READY"
  obtains st c where "\<not> list_ex (\<lambda>p. \<not> inside_volume p q) (rq_start_m q # targets)"
    "\<not> list_ex (\<lambda>(a, b). list_ex (segment_intersects_box a b) (rq_obstacles q)) (zip (rq_start_m q # targets) targets)"
    "fly_legs q 1 (rq_start_m q) \<lparr>ls_elapsed = 0, ls_length = 0, ls_waypoints = [first_waypoint q]\<rparr> targets = Inr st"
    "ls_elapsed st \<le> rq_maximum_duration_s q" "reservation q (ls_waypoints st) (ls_elapsed st) = Inr c"
    "shift \<Longrightarrow> \<not> list_ex (reservations_conflict c) (rq_existing_reservations q)"
    "rp_waypoints a = ls_waypoints st" "rp_reservations a = [c]" "rp_expected_duration_s a = ls_elapsed st"
proof -
  have nb: "blocked_route H m q f \<noteq> Inr a" for f using assms(2) blocked_not_ready by fastforce
  from assms(1) obtain st c where x: "\<not> list_ex (\<lambda>p. \<not> inside_volume p q) (rq_start_m q # targets)"
    "\<not> list_ex (\<lambda>(a, b). list_ex (segment_intersects_box a b) (rq_obstacles q)) (zip (rq_start_m q # targets) targets)"
    "fly_legs q 1 (rq_start_m q) \<lparr>ls_elapsed = 0, ls_length = 0, ls_waypoints = [first_waypoint q]\<rparr> targets = Inr st"
    "ls_elapsed st \<le> rq_maximum_duration_s q" "reservation q (ls_waypoints st) (ls_elapsed st) = Inr c"
    "shift \<Longrightarrow> \<not> list_ex (reservations_conflict c) (rq_existing_reservations q)"
    and r: "route_artifact H m q RP_READY (ls_waypoints st) [c] (ls_length st) (ls_elapsed st) [] [] = Inr a"
    by (auto simp: plan_polyline_def Let_def nb bind_ok_Inr not_less split: if_splits)
  show ?thesis by (rule that [OF x route_artifact_Inr(2-4) [OF r]])
qed

lemma reservation_Inr:
  assumes "reservation q ws d = Inr c"
  shows "rv_minimum_m c = lower_corner (map rw_position_m ws) (rq_minimum_separation_m q / 2)"
    "rv_maximum_m c = upper_corner (map rw_position_m ws) (rq_minimum_separation_m q / 2)"
    "rv_role_id c = rq_role_id q" "rv_starts_at_s c = 0" "rv_ends_at_s c = max d (1 / 1000)"
  using assms by (auto simp: reservation_def Let_def bind_ok_Inr)

lemma polyline_safe:
  assumes q: "check_request q = Inr ()" and a: "plan_polyline H m shift q targets = Inr a" "rp_status a = RP_READY"
  shows "safe_route q a" "rp_expected_duration_s a \<le> rq_maximum_duration_s q" "route_points a = rq_start_m q # targets"
proof -
  note f = check_request_facts [OF q]
  obtain st c where vol: "\<not> list_ex (\<lambda>p. \<not> inside_volume p q) (rq_start_m q # targets)"
    and seg: "\<not> list_ex (\<lambda>(a, b). list_ex (segment_intersects_box a b) (rq_obstacles q)) (zip (rq_start_m q # targets) targets)"
    and fl: "fly_legs q 1 (rq_start_m q) \<lparr>ls_elapsed = 0, ls_length = 0, ls_waypoints = [first_waypoint q]\<rparr> targets = Inr st"
    and dur: "ls_elapsed st \<le> rq_maximum_duration_s q" and c: "reservation q (ls_waypoints st) (ls_elapsed st) = Inr c"
    and art: "rp_waypoints a = ls_waypoints st" "rp_reservations a = [c]" "rp_expected_duration_s a = ls_elapsed st"
    using a by (rule polyline_ready)
  have "legs_inv q (rq_start_m q) \<lparr>ls_elapsed = 0, ls_length = 0, ls_waypoints = [first_waypoint q]\<rparr>"
    by (simp add: legs_inv_def first_waypoint_def)
  from fly_legs_inv [OF fl this f(1)] have pts: "map rw_position_m (ls_waypoints st) = rq_start_m q # targets"
    and inv: "legs_inv q (last (rq_start_m q # targets)) st" by (simp_all add: first_waypoint_def)
  show rp: "route_points a = rq_start_m q # targets" using pts art by (simp add: route_points_def)
  show "rp_expected_duration_s a \<le> rq_maximum_duration_s q" using dur art by simp
  have clear: "leg_clear q u v" if uv: "(u, v) \<in> set (legs_of (route_points a))" for u v
  proof -
    have "u \<in> set (rq_start_m q # targets)" "v \<in> set (rq_start_m q # targets)" "(u, v) \<in> set (zip (rq_start_m q # targets) targets)"
      using uv rp set_zip_leftD [OF uv] set_zip_rightD [OF uv] by auto
    then have "inside_volume u q" "inside_volume v q" "\<forall>ob \<in> set (rq_obstacles q). \<not> segment_intersects_box u v ob"
      using vol seg by (auto simp: list_ex_iff)
    then show ?thesis
      unfolding leg_clear_def using inside_volume_convex slab_test [OF f(5)] by auto
  qed
  have "corridor_of q a c"
    using reservation_Inr [OF c] inv art unfolding corridor_of_def legs_inv_def route_points_def by fastforce
  with art inv clear show "safe_route q a" unfolding safe_route_def legs_inv_def by (auto simp: rp)
qed

section \<open>Reserved corridors\<close>

definition on_route :: "route_plan_artifact \<Rightarrow> vector3 \<Rightarrow> bool" where
  "on_route a x \<longleftrightarrow> (\<exists>(u, v) \<in> set (legs_of (route_points a)). \<exists>t \<in> {0..1}. x = point_on u v t)"

lemma on_route_between:
  assumes "on_route a x"
  shows "Min (vx ` set (route_points a)) \<le> vx x \<and> vx x \<le> Max (vx ` set (route_points a))"
    "Min (vy ` set (route_points a)) \<le> vy x \<and> vy x \<le> Max (vy ` set (route_points a))"
    "Min (vz ` set (route_points a)) \<le> vz x \<and> vz x \<le> Max (vz ` set (route_points a))"
proof -
  let ?P = "set (route_points a)"
  from assms obtain u v t where uv: "(u, v) \<in> set (legs_of (route_points a))" and t: "0 \<le> t" "t \<le> 1" and x: "x = point_on u v t"
    by (auto simp: on_route_def)
  have "u \<in> ?P" "v \<in> ?P"
    using set_zip_leftD [OF uv] set_zip_rightD [OF uv] by (auto dest: list.set_sel(2) [rotated])
  then have b: "Min (f ` ?P) \<le> f u \<and> f u \<le> Max (f ` ?P) \<and> Min (f ` ?P) \<le> f v \<and> f v \<le> Max (f ` ?P)" for f :: "vector3 \<Rightarrow> real"
    by simp
  show "Min (vx ` ?P) \<le> vx x \<and> vx x \<le> Max (vx ` ?P)" "Min (vy ` ?P) \<le> vy x \<and> vy x \<le> Max (vy ` ?P)"
    "Min (vz ` ?P) \<le> vz x \<and> vz x \<le> Max (vz ` ?P)"
    using affine_between [of "Min (vx ` ?P)" "vx u" "vx v - vx u" 0 "Max (vx ` ?P)" 1 t] b [of vx]
      affine_between [of "Min (vy ` ?P)" "vy u" "vy v - vy u" 0 "Max (vy ` ?P)" 1 t] b [of vy]
      affine_between [of "Min (vz ` ?P)" "vz u" "vz v - vz u" 0 "Max (vz ` ?P)" 1 t] b [of vz] t
    by (simp_all add: x point_on_def)
qed

definition overlap :: "temporal_reservation \<Rightarrow> temporal_reservation \<Rightarrow> bool" where
  "overlap r s \<longleftrightarrow> rv_starts_at_s r < rv_ends_at_s s \<and> rv_starts_at_s s < rv_ends_at_s r"

lemma corridors_separate:
  assumes "corridor_of q a c" "corridor_of q' b e" "\<not> reservations_conflict c e" "overlap c e" "on_route a x" "on_route b y"
  shows "(rq_minimum_separation_m q + rq_minimum_separation_m q') / 2 < distance x y"
proof -
  note A = on_route_between [OF assms(5)] and B = on_route_between [OF assms(6)]
  let ?m = "rq_minimum_separation_m q / 2" and ?n = "rq_minimum_separation_m q' / 2"
  from assms(3,4) consider
      "vx (rv_maximum_m c) < vx (rv_minimum_m e) \<or> vx (rv_maximum_m e) < vx (rv_minimum_m c)"
    | "vy (rv_maximum_m c) < vy (rv_minimum_m e) \<or> vy (rv_maximum_m e) < vy (rv_minimum_m c)"
    | "vz (rv_maximum_m c) < vz (rv_minimum_m e) \<or> vz (rv_maximum_m e) < vz (rv_minimum_m c)"
    by (auto simp: reservations_conflict_def overlap_def)
  then have "?m + ?n < distance x y"
  proof cases
    case 1
    then have "?m + ?n < \<bar>vx x - vx y\<bar>" using A(1) B(1) assms(1,2) by (auto simp: corridor_of_def lower_corner_def upper_corner_def)
    then show ?thesis using coordinate_le_distance(1) [of x y] by linarith
  next
    case 2
    then have "?m + ?n < \<bar>vy x - vy y\<bar>" using A(2) B(2) assms(1,2) by (auto simp: corridor_of_def lower_corner_def upper_corner_def)
    then show ?thesis using coordinate_le_distance(2) [of x y] by linarith
  next
    case 3
    then have "?m + ?n < \<bar>vz x - vz y\<bar>" using A(3) B(3) assms(1,2) by (auto simp: corridor_of_def lower_corner_def upper_corner_def)
    then show ?thesis using coordinate_le_distance(3) [of x y] by linarith
  qed
  then show ?thesis by (simp add: field_simps)
qed

section \<open>The contract of a route planner\<close>

text \<open>
  What the clients of the \<open>RoutePlanner\<close> protocol rely on: a ready artifact is a safe route of the
  request, made by a planner that declares the capability.
\<close>

locale route_plugin =
  fixes manifest :: plugin_manifest and plan :: route_planner
  assumes ready_safe: "check_request q = Inr () \<Longrightarrow> plan q = Inr a \<Longrightarrow> rp_status a = RP_READY \<Longrightarrow> safe_route q a"
    and declared: "plan q = Inr a \<Longrightarrow>
      route_capability_value (rq_capability q) \<in> pm_capabilities manifest \<and> ps_plugin_id (rp_planner a) = pm_plugin_id manifest"
begin

lemma ready_clear:
  assumes "check_request q = Inr ()" "plan q = Inr a" "rp_status a = RP_READY" "on_route a x"
  shows "inside_volume x q"
  using ready_safe [OF assms(1-3)] assms(4) by (auto simp: safe_route_def on_route_def leg_clear_def)

lemma undeclared_raises:
  assumes "route_capability_value (rq_capability q) \<notin> pm_capabilities manifest"
  shows "\<exists>e. plan q = Inl e"
  using declared [of q] assms by (cases "plan q") auto

end

text \<open>A planner that never enters a corridor somebody else has reserved.\<close>

locale exclusive_plugin = route_plugin +
  assumes exclusive: "check_request q = Inr () \<Longrightarrow> plan q = Inr a \<Longrightarrow> rp_status a = RP_READY \<Longrightarrow>
    c \<in> set (rp_reservations a) \<Longrightarrow> e \<in> set (rq_existing_reservations q) \<Longrightarrow> \<not> reservations_conflict c e"
begin

lemma ready_separated:
  assumes "check_request q = Inr ()" "plan q = Inr a" "rp_status a = RP_READY" "rp_reservations a = [c]"
    and "corridor_of q' b e" "e \<in> set (rq_existing_reservations q)" "overlap c e" "on_route a x" "on_route b y"
  shows "(rq_minimum_separation_m q + rq_minimum_separation_m q') / 2 < distance x y"
proof (rule corridors_separate [OF _ assms(5) _ assms(7-9)])
  show "corridor_of q a c" using ready_safe [OF assms(1-3)] assms(4) by (simp add: safe_route_def)
  show "\<not> reservations_conflict c e" using exclusive [OF assms(1-3)] assms(4,6) by simp
qed

end

lemma polyline_exclusive:
  assumes "plan_polyline H m True q targets = Inr a" "rp_status a = RP_READY" "c \<in> set (rp_reservations a)"
    "e \<in> set (rq_existing_reservations q)"
  shows "\<not> reservations_conflict c e"
  using assms(1,2) by (rule polyline_ready) (use assms(3,4) in \<open>auto simp: list_ex_iff\<close>)

lemma blocked_declared:
  "blocked_route H m q f = Inr a \<Longrightarrow> route_capability_value (rq_capability q) \<in> pm_capabilities m \<and> ps_plugin_id (rp_planner a) = pm_plugin_id m"
  unfolding blocked_route_def by (auto dest: route_artifact_Inr(6,8))

lemma polyline_declared:
  "plan_polyline H m s q targets = Inr a \<Longrightarrow>
   route_capability_value (rq_capability q) \<in> pm_capabilities m \<and> ps_plugin_id (rp_planner a) = pm_plugin_id m"
  unfolding plan_polyline_def Let_def
  by (auto simp: bind_ok_Inr split: if_splits dest: blocked_declared route_artifact_Inr(6,8))

interpretation direct: exclusive_plugin "direct_manifest H" "plan_direct H" for H
proof unfold_locales
  fix q a
  assume p: "plan_direct H q = Inr a"
  then show "route_capability_value (rq_capability q) \<in> pm_capabilities (direct_manifest H) \<and> ps_plugin_id (rp_planner a) = pm_plugin_id (direct_manifest H)"
    unfolding plan_direct_def by (rule polyline_declared)
  assume r: "check_request q = Inr ()" "rp_status a = RP_READY"
  show "safe_route q a" using polyline_safe(1) [OF r(1) p [unfolded plan_direct_def] r(2)] .
  fix c e assume "c \<in> set (rp_reservations a)" "e \<in> set (rq_existing_reservations q)"
  then show "\<not> reservations_conflict c e" using polyline_exclusive [OF p [unfolded plan_direct_def] r(2)] by blast
qed

lemma plan_zone_polyline:
  assumes "plan_zone H q = Inr a"
  obtains targets where "plan_polyline H (zone_manifest H) True q targets = Inr a"
  using assms by (auto simp: plan_zone_def Let_def bind_ok_Inr split: if_splits)

interpretation zone: exclusive_plugin "zone_manifest H" "plan_zone H" for H
proof unfold_locales
  fix q a
  assume "plan_zone H q = Inr a"
  then obtain targets where p: "plan_polyline H (zone_manifest H) True q targets = Inr a" by (rule plan_zone_polyline)
  then show "route_capability_value (rq_capability q) \<in> pm_capabilities (zone_manifest H) \<and> ps_plugin_id (rp_planner a) = pm_plugin_id (zone_manifest H)"
    by (rule polyline_declared)
  assume r: "check_request q = Inr ()" "rp_status a = RP_READY"
  show "safe_route q a" using polyline_safe(1) [OF r(1) p r(2)] .
  fix c e assume "c \<in> set (rp_reservations a)" "e \<in> set (rq_existing_reservations q)"
  then show "\<not> reservations_conflict c e" using polyline_exclusive [OF p r(2)] by blast
qed

lemma plan_coverage_ready:
  assumes "plan_coverage H q = Inr a" "rp_status a = RP_READY"
  obtains lo hi where "rq_zone_minimum_m q = Some lo" "rq_zone_maximum_m q = Some hi"
    "plan_polyline H (coverage_manifest H) True q
       (coverage_points lo hi (rq_coverage_spacing_m q) (vz (rt_position_m (last (rq_targets q))))) = Inr a"
  using assms by (auto simp: plan_coverage_def split: option.splits if_splits dest: blocked_not_ready)

interpretation coverage: exclusive_plugin "coverage_manifest H" "plan_coverage H" for H
proof unfold_locales
  fix q a
  assume p: "plan_coverage H q = Inr a"
  then show "route_capability_value (rq_capability q) \<in> pm_capabilities (coverage_manifest H) \<and> ps_plugin_id (rp_planner a) = pm_plugin_id (coverage_manifest H)"
    by (auto simp: plan_coverage_def split: option.splits if_splits dest: blocked_declared polyline_declared)
  assume r: "check_request q = Inr ()" "rp_status a = RP_READY"
  from p r(2) obtain targets where t: "plan_polyline H (coverage_manifest H) True q targets = Inr a" by (rule plan_coverage_ready)
  show "safe_route q a" using polyline_safe(1) [OF r(1) t r(2)] .
  fix c e assume "c \<in> set (rp_reservations a)" "e \<in> set (rq_existing_reservations q)"
  then show "\<not> reservations_conflict c e" using polyline_exclusive [OF t r(2)] by blast
qed

section \<open>Waiting for a corridor\<close>

lemma fold_max_mono: "s \<le> fold (\<lambda>e s. if P e then max s (f e) else s) es (s::real)"
  by (induction es arbitrary: s) (auto intro: order_trans [OF max.cobounded1])

lemma fold_max_ge:
  "e \<in> set es \<Longrightarrow> P e \<Longrightarrow> f e \<le> fold (\<lambda>e s. if P e then max s (f e) else s) es (s::real)"
proof (induction es arbitrary: s)
  case (Cons x xs)
  show ?case
  proof (cases "e = x")
    case True
    have "f x \<le> max s (f x)" by simp
    also have "\<dots> \<le> fold (\<lambda>e s. if P e then max s (f e) else s) xs (max s (f x))" by (rule fold_max_mono)
    finally show ?thesis using True Cons.prems by simp
  qed (use Cons in auto)
qed simp

lemma required_shift_single:
  "0 \<le> required_shift [c] existing"
  "e \<in> set existing \<Longrightarrow> reservations_conflict c e \<Longrightarrow> rv_ends_at_s e - rv_starts_at_s c + 1 / 1000 \<le> required_shift [c] existing"
  using fold_max_mono [of 0 "reservations_conflict c" "\<lambda>e. rv_ends_at_s e - rv_starts_at_s c + 1 / 1000" existing]
    fold_max_ge [of e existing "reservations_conflict c" "\<lambda>e. rv_ends_at_s e - rv_starts_at_s c + 1 / 1000" 0]
  by (simp_all add: required_shift_def)

lemma held_until_clear:
  assumes "e \<in> set existing"
  shows "reservations_conflict c e \<Longrightarrow> \<not> reservations_conflict (shift_reservation (required_shift [c] existing) c) e"
    "length existing \<le> 1 \<Longrightarrow> \<not> reservations_conflict (shift_reservation (required_shift [c] existing) c) e"
proof -
  have clear: "\<not> reservations_conflict (shift_reservation (required_shift [c] existing) c) e" if "reservations_conflict c e"
    using required_shift_single(2) [OF assms that] by (auto simp: reservations_conflict_def shift_reservation_def)
  then show "reservations_conflict c e \<Longrightarrow> \<not> reservations_conflict (shift_reservation (required_shift [c] existing) c) e" .
  show "\<not> reservations_conflict (shift_reservation (required_shift [c] existing) c) e" if l: "length existing \<le> 1"
  proof (cases "reservations_conflict c e")
    case False
    from l assms have "existing = [e]" by (cases existing) auto
    with False have "required_shift [c] existing = 0" by (simp add: required_shift_def)
    with False show ?thesis by (simp add: shift_reservation_def reservations_conflict_def)
  qed (rule clear)
qed

lemma plan_temporal_ready:
  assumes "plan_temporal H q = Inr a" "rp_status a = RP_READY"
  obtains base c d where "plan_polyline H (temporal_manifest H) False q (map rt_position_m (rq_targets q)) = Inr base"
    "rp_status base = RP_READY" "rp_reservations base = [c]" "d = required_shift [c] (rq_existing_reservations q)" "0 \<le> d"
    "d \<le> rq_maximum_hold_s q" "rp_waypoints a = map (shift_waypoint d) (rp_waypoints base)"
    "rp_reservations a = [shift_reservation d c]" "rp_expected_duration_s a = rp_expected_duration_s base + d"
proof -
  have nb: "blocked_route H (temporal_manifest H) q f \<noteq> Inr a" for f using assms(2) blocked_not_ready by fastforce
  from assms nb obtain base where base: "plan_polyline H (temporal_manifest H) False q (map rt_position_m (rq_targets q)) = Inr base"
    and bs: "rp_status base \<noteq> RP_BLOCKED" by (auto simp: plan_temporal_def bind_ok_Inr Let_def split: if_splits)
  then have ready: "rp_status base = RP_READY" by (cases "rp_status base") auto
  obtain c where c: "rp_reservations base = [c]" using base ready by (rule polyline_ready)
  define d where "d = required_shift [c] (rq_existing_reservations q)"
  have d0: "0 \<le> d" unfolding d_def by (rule required_shift_single)
  have rest: "\<not> d > rq_maximum_hold_s q \<and> (if d \<le> 0 then Inr base
      else route_artifact H (temporal_manifest H) q RP_READY (map (shift_waypoint d) (rp_waypoints base))
        (map (shift_reservation d) (rp_reservations base)) (rp_route_length_m base) (rp_expected_duration_s base + d)
        [''role held for '' @ format_3f d @ ''s for temporal precedence''] []) = Inr a"
    using assms(1) nb bs by (auto simp: plan_temporal_def base c d_def Let_def split: if_splits)
  have z: "shift_waypoint 0 = id" "shift_reservation 0 = id" by (auto simp: shift_waypoint_def shift_reservation_def fun_eq_iff)
  have "rp_waypoints a = map (shift_waypoint d) (rp_waypoints base) \<and> rp_reservations a = [shift_reservation d c]
      \<and> rp_expected_duration_s a = rp_expected_duration_s base + d"
  proof (cases "d \<le> 0")
    case True
    with d0 have "d = 0" by simp
    with rest c show ?thesis by (simp add: z)
  next
    case False
    with rest have "route_artifact H (temporal_manifest H) q RP_READY (map (shift_waypoint d) (rp_waypoints base))
        (map (shift_reservation d) (rp_reservations base)) (rp_route_length_m base) (rp_expected_duration_s base + d)
        [''role held for '' @ format_3f d @ ''s for temporal precedence''] [] = Inr a" by simp
    from route_artifact_Inr(2-4) [OF this] c show ?thesis by simp
  qed
  with base ready c d0 rest show ?thesis by (intro that [OF base ready c d_def d0]) auto
qed

lemma shifted_safe:
  assumes "safe_route q base" "rp_waypoints a = map (shift_waypoint d) (rp_waypoints base)"
    "rp_reservations base = [c]" "rp_reservations a = [shift_reservation d c]"
  shows "safe_route q a"
proof -
  have p: "route_points a = route_points base"
    using assms(2) by (simp add: route_points_def shift_waypoint_def)
  have "successively (leg_timed q) (rp_waypoints a)"
    using assms(1,2) by (auto simp: safe_route_def successively_map leg_timed_def shift_waypoint_def algebra_simps elim!: successively_mono)
  moreover have "corridor_of q a (shift_reservation d c)"
    using assms(1-3) p by (auto simp: safe_route_def corridor_of_def shift_reservation_def shift_waypoint_def)
  ultimately show ?thesis using assms p by (auto simp: safe_route_def)
qed

interpretation temporal: route_plugin "temporal_manifest H" "plan_temporal H" for H
proof unfold_locales
  fix q a
  assume p: "plan_temporal H q = Inr a"
  then show "route_capability_value (rq_capability q) \<in> pm_capabilities (temporal_manifest H)
      \<and> ps_plugin_id (rp_planner a) = pm_plugin_id (temporal_manifest H)"
    by (auto simp: plan_temporal_def Let_def bind_ok_Inr split: if_splits
        dest: polyline_declared blocked_declared route_artifact_Inr(6,8))
  assume r: "check_request q = Inr ()" "rp_status a = RP_READY"
  from p r(2) show "safe_route q a"
    by (rule plan_temporal_ready) (use polyline_safe(1) [OF r(1)] shifted_safe in blast)
qed

text \<open>
  C21. Every planner of the default registry makes safe routes: a planner resolved by name and version
  that returns a ready route for a valid request returns one that starts at the vehicle, lies in the
  flight volume and outside every obstacle along all its legs, is timed leg by leg at the cruise
  speed and has reserved the box around itself, half the separation on every side, for its whole time.
  A planner asked for a capability its manifest does not declare raises instead.
\<close>

theorem registered_planners_are_safe:
  assumes "default_route_planner_registry H = Inr R" "resolve_plugin R plugin_id version required ql = Inr (m, plan)"
    and "check_request q = Inr ()"
  shows "(\<forall>a. plan q = Inr a \<and> rp_status a = RP_READY \<longrightarrow> safe_route q a)
    \<and> (route_capability_value (rq_capability q) \<notin> pm_capabilities m \<longrightarrow> (\<exists>e. plan q = Inl e))"
proof -
  have "rg_plugins R = [(plugin_key (fst p), p). p \<leftarrow> [(direct_manifest H, plan_direct H), (zone_manifest H, plan_zone H),
      (coverage_manifest H, plan_coverage H), (temporal_manifest H, plan_temporal H)]]"
    using assms(1)
    by (simp add: default_route_planner_registry_def empty_registry_def register_def plugin_key_def direct_manifest_def zone_manifest_def
        coverage_manifest_def temporal_manifest_def builtin_manifest_def)
       auto
  with assms(2) have "(m, plan) \<in> {(direct_manifest H, plan_direct H), (zone_manifest H, plan_zone H),
      (coverage_manifest H, plan_coverage H), (temporal_manifest H, plan_temporal H)}"
    by (auto simp: resolve_plugin_def split: option.splits if_splits)
  then show ?thesis
    using direct.ready_safe [OF assms(3)] zone.ready_safe [OF assms(3)] coverage.ready_safe [OF assms(3)] temporal.ready_safe [OF assms(3)]
      direct.undeclared_raises zone.undeclared_raises coverage.undeclared_raises temporal.undeclared_raises
    by auto
qed


text \<open>
  C22. A vehicle that respects a reserved corridor keeps its distance while both corridors are in force:
  when a direct, zone or coverage route is ready for a request that lists the corridor of another safe
  route, and the reserved times of the two corridors overlap, every point of the one route is farther
  from every point of the other than the mean of the two required separations. Routes reserved for
  disjoint times may cross: the planners compare the boxes of overlapping reservations only.
\<close>

theorem reserved_corridors_keep_separation:
  assumes "check_request q = Inr ()" "plan \<in> {plan_direct H, plan_zone H, plan_coverage H}" "plan q = Inr a" "rp_status a = RP_READY"
    and "safe_route q' b" "e \<in> set (rp_reservations b)" "e \<in> set (rq_existing_reservations q)"
    and "c \<in> set (rp_reservations a)" "overlap c e" "on_route a x" "on_route b y"
  shows "(rq_minimum_separation_m q + rq_minimum_separation_m q') / 2 < distance x y"
proof -
  have e: "corridor_of q' b e" using assms(5,6) by (auto simp: safe_route_def)
  from assms(2) consider "plan = plan_direct H" | "plan = plan_zone H" | "plan = plan_coverage H" by blast
  then have "safe_route q a \<and> \<not> reservations_conflict c e"
    using assms(1,3,4,7,8) direct.ready_safe direct.exclusive zone.ready_safe zone.exclusive coverage.ready_safe coverage.exclusive
    by cases metis+
  then have "corridor_of q a c" "\<not> reservations_conflict c e" using assms(8) by (auto simp: safe_route_def)
  then show ?thesis by (rule corridors_separate [OF _ e _ assms(9-11)])
qed

text \<open>
  The temporal planner delays the whole route instead: a ready route is the unshifted safe route
  started later, by no more than the maximum hold, and after the end of every reservation that the
  unshifted corridor conflicted with. With a single reservation to respect it therefore never enters it.
\<close>

theorem temporal_route_waits:
  assumes "check_request q = Inr ()" "plan_temporal H q = Inr a" "rp_status a = RP_READY"
  shows "\<exists>base c d. safe_route q base \<and> rp_reservations base = [c] \<and> rp_reservations a = [shift_reservation d c]
    \<and> rp_waypoints a = map (shift_waypoint d) (rp_waypoints base) \<and> 0 \<le> d \<and> d \<le> rq_maximum_hold_s q
    \<and> (\<forall>e \<in> set (rq_existing_reservations q). reservations_conflict c e \<longrightarrow> \<not> reservations_conflict (shift_reservation d c) e)
    \<and> (length (rq_existing_reservations q) \<le> 1 \<longrightarrow>
         (\<forall>e \<in> set (rq_existing_reservations q). \<not> reservations_conflict (shift_reservation d c) e))"
  using assms(2,3)
proof (rule plan_temporal_ready)
  fix base c d
  assume b: "plan_polyline H (temporal_manifest H) False q (map rt_position_m (rq_targets q)) = Inr base" "rp_status base = RP_READY"
    "rp_reservations base = [c]" and d: "d = required_shift [c] (rq_existing_reservations q)" "0 \<le> d" "d \<le> rq_maximum_hold_s q"
    and a: "rp_waypoints a = map (shift_waypoint d) (rp_waypoints base)" "rp_reservations a = [shift_reservation d c]"
  note clear = held_until_clear(1) [of _ "rq_existing_reservations q" c, folded d(1)]
    and one = held_until_clear(2) [of _ "rq_existing_reservations q" c, folded d(1)]
  show ?thesis
    using polyline_safe(1) [OF assms(1) b(1,2)] b(3) a d(2,3) clear one by (intro exI [of _ base] exI [of _ c] exI [of _ d]) blast
qed

section \<open>Coverage\<close>

lemma row_reached:
  assumes "0 < spacing" "vy lo \<le> y" "y \<le> vy hi"
  obtains i where "i \<le> coverage_rows lo hi spacing" "\<bar>y - row_y lo hi spacing i\<bar> \<le> spacing / 2"
proof -
  let ?rows = "coverage_rows lo hi spacing"
  define j where "j = nat \<lfloor>(y - vy lo) / spacing\<rfloor>"
  have nn: "0 \<le> \<lfloor>(y - vy lo) / spacing\<rfloor>" using assms by simp
  then have rj: "real j = of_int \<lfloor>(y - vy lo) / spacing\<rfloor>" by (simp add: j_def)
  have "real j \<le> (y - vy lo) / spacing" "(y - vy lo) / spacing < real j + 1" unfolding rj by linarith+
  then have low: "vy lo + real j * spacing \<le> y" and up: "y < vy lo + (real j + 1) * spacing" using assms(1) by (auto simp: field_simps)
  have "(vy hi - vy lo) / spacing \<le> real ?rows" unfolding coverage_rows_def by (simp add: le_max_iff_disj) linarith
  then have last: "vy hi \<le> vy lo + real ?rows * spacing" using assms(1) by (simp add: field_simps)
  have jr: "j \<le> ?rows"
  proof (rule ccontr)
    assume "\<not> j \<le> ?rows"
    then have "real ?rows + 1 \<le> real j" by linarith
    then have "vy lo + (real ?rows + 1) * spacing \<le> vy lo + real j * spacing" using assms(1) by (intro add_left_mono mult_right_mono) auto
    with low last assms show False by (simp add: algebra_simps)
  qed
  have yj: "row_y lo hi spacing j = vy lo + real j * spacing" using low assms(3) by (simp add: row_y_def)
  show ?thesis
  proof (cases "y - row_y lo hi spacing j \<le> spacing / 2")
    case True
    with low yj show ?thesis by (intro that [OF jr]) auto
  next
    case False
    have "j < ?rows"
    proof (rule ccontr)
      assume "\<not> j < ?rows"
      with jr have "j = ?rows" by simp
      with last yj False assms show False by simp
    qed
    moreover have "\<bar>y - row_y lo hi spacing (Suc j)\<bar> \<le> spacing / 2"
      using False yj up assms by (auto simp: row_y_def min_def algebra_simps abs_if)
    ultimately show ?thesis by (intro that [of "Suc j"]) auto
  qed
qed

lemma leg_in_middle: "(u, v) \<in> set (legs_of (as @ u # v # bs))"
proof (induction as)
  case (Cons a as)
  then show ?case by (cases as) auto
qed simp

lemma coverage_leg:
  assumes "i \<le> coverage_rows lo hi spacing" "coverage_row lo hi spacing z i = [u, v]"
  shows "(u, v) \<in> set (legs_of (p # coverage_points lo hi spacing z))"
proof -
  let ?n = "coverage_rows lo hi spacing + 1"
  have "[0..<?n] = [0..<i] @ i # [Suc i..<?n]" using upt_add_eq_append [of 0 i "?n - i"] upt_conv_Cons [of i ?n] assms(1) by simp
  then have "p # coverage_points lo hi spacing z = (p # concat (map (coverage_row lo hi spacing z) [0..<i]))
      @ u # v # concat (map (coverage_row lo hi spacing z) [Suc i..<?n])"
    using assms(2) by (simp add: coverage_points_def)
  then show ?thesis by (simp only: leg_in_middle)
qed

text \<open>
  C26. A coverage route leaves nothing out: every point of the zone has a point of the route with the same
  x at most half the row spacing away in y.
\<close>

theorem coverage_route_covers:
  assumes "check_request q = Inr ()" "plan_coverage H q = Inr a" "rp_status a = RP_READY"
  shows "\<exists>lo hi. rq_zone_minimum_m q = Some lo \<and> rq_zone_maximum_m q = Some hi
    \<and> (\<forall>x y. vx lo \<le> x \<and> x \<le> vx hi \<and> vy lo \<le> y \<and> y \<le> vy hi \<longrightarrow>
         (\<exists>p. on_route a p \<and> vx p = x \<and> \<bar>vy p - y\<bar> \<le> rq_coverage_spacing_m q / 2))"
  using assms(2,3)
proof (rule plan_coverage_ready)
  fix lo hi
  let ?s = "rq_coverage_spacing_m q" and ?z = "vz (rt_position_m (last (rq_targets q)))"
  assume z: "rq_zone_minimum_m q = Some lo" "rq_zone_maximum_m q = Some hi"
    and p: "plan_polyline H (coverage_manifest H) True q (coverage_points lo hi ?s ?z) = Inr a"
  have w: "vx lo < vx hi" using assms(1) z by (auto simp: check_request_def raise_first_Inr below_def split: if_splits)
  have s: "0 < ?s" using check_request_facts(4) [OF assms(1)] .
  have rp: "route_points a = rq_start_m q # coverage_points lo hi ?s ?z" by (rule polyline_safe(3) [OF assms(1) p assms(3)])
  have "\<exists>p. on_route a p \<and> vx p = x \<and> \<bar>vy p - y\<bar> \<le> ?s / 2" if x: "vx lo \<le> x" "x \<le> vx hi" and y: "vy lo \<le> y" "y \<le> vy hi" for x y
  proof -
    obtain i where i: "i \<le> coverage_rows lo hi ?s" "\<bar>y - row_y lo hi ?s i\<bar> \<le> ?s / 2" using row_reached [OF s y] by blast
    define l r where "l = (if i mod 2 = 0 then vx lo else vx hi)" and "r = (if i mod 2 = 0 then vx hi else vx lo)"
    have row: "coverage_row lo hi ?s ?z i = [vec l (row_y lo hi ?s i) ?z, vec r (row_y lo hi ?s i) ?z]"
      by (simp add: coverage_row_def l_def r_def)
    define t where "t = (x - l) / (r - l)"
    have lr: "r - l \<noteq> 0" using w by (simp add: l_def r_def)
    have t: "t \<in> {0..1}" using w x by (cases "i mod 2 = 0") (simp_all add: t_def l_def r_def field_simps)
    have "l + (r - l) * t = x" using lr by (simp add: t_def)
    then have pt: "point_on (vec l (row_y lo hi ?s i) ?z) (vec r (row_y lo hi ?s i) ?z) t = vec x (row_y lo hi ?s i) ?z"
      by (simp add: point_on_def)
    have "on_route a (vec x (row_y lo hi ?s i) ?z)"
      unfolding on_route_def rp using coverage_leg [OF i(1) row, of "rq_start_m q"] t pt [symmetric] by blast
    then show ?thesis using i(2) by (intro exI [of _ "vec x (row_y lo hi ?s i) ?z"]) (simp add: abs_minus_commute)
  qed
  with z show ?thesis by blast
qed

section \<open>The registry\<close>

lemma register_all_lookup:
  "register_all ps R = Inr R' \<Longrightarrow>
     dict_get (rg_plugins R') k = Some p \<longleftrightarrow> dict_get (rg_plugins R) k = Some p \<or> p \<in> set ps \<and> plugin_key (fst p) = k"
proof (induction ps arbitrary: R)
  case (Cons q qs)
  then obtain R1 where r: "register q R = Inr R1" "register_all qs R1 = Inr R'" by (auto simp: bind_ok_Inr)
  then have "dict_get (rg_plugins R1) k = (if k = plugin_key (fst q) then Some q else dict_get (rg_plugins R) k)"
    "dict_get (rg_plugins R) (plugin_key (fst q)) = None"
    by (auto simp: register_def simp del: not_None_eq split_paired_All split: if_splits)
  with Cons.IH [OF r(2)] show ?case by auto
qed simp

lemma register_all_kind:
  "register_all ps R = Inr R' \<Longrightarrow> rg_kind R' = rg_kind R \<and> (\<forall>p \<in> set ps. pm_kind (fst p) = rg_kind R)"
  by (induction ps arbitrary: R) (fastforce simp: bind_ok_Inr register_def split: if_splits)+

text \<open>
  C27. The registry is an allow list. It resolves exactly the plugins that were registered: a name and
  version resolve to a plugin if and only if that plugin is in the registered list under this name and
  version, declares the required capabilities and, when asked for, is qualified. Every registered plugin
  has the kind of the registry, and a name and version nobody registered is refused as a missing
  capability. A plugin registered next is resolved again, nothing else changes, and a second
  registration of its name and version is refused.
\<close>

theorem registry_is_allow_list:
  assumes "register_all ps (empty_registry k) = Inr R"
  shows "rg_kind R = k \<and> (\<forall>p \<in> set ps. pm_kind (fst p) = k)
    \<and> (\<forall>plugin_id version required ql p. resolve_plugin R plugin_id version required ql = Inr p \<longleftrightarrow>
       p \<in> set ps \<and> pm_plugin_id (fst p) = plugin_id \<and> pm_implementation_version (fst p) = version
       \<and> required \<subseteq> pm_capabilities (fst p) \<and> (ql \<longrightarrow> pm_qualification (fst p) = QUALIFIED))
    \<and> (\<forall>plugin_id version required ql. (plugin_id, version) \<notin> (\<lambda>p. plugin_key (fst p)) ` set ps \<longrightarrow>
       resolve_plugin R plugin_id version required ql
         = Inl (CrazySwarmError CAPABILITY_MISSING (''plugin is not registered: '' @ plugin_id @ ''@'' @ version)))
    \<and> (\<forall>p R'. register p R = Inr R' \<longrightarrow>
        resolve_plugin R' (pm_plugin_id (fst p)) (pm_implementation_version (fst p)) {} False = Inr p
        \<and> (\<forall>i v req ql. (i, v) \<noteq> plugin_key (fst p) \<longrightarrow> resolve_plugin R' i v req ql = resolve_plugin R i v req ql)
        \<and> (\<forall>p'. plugin_key (fst p') = plugin_key (fst p) \<longrightarrow> \<not> outcome_ok (register p' R')))"
proof -
  have get: "dict_get (rg_plugins R) key = Some p \<longleftrightarrow> p \<in> set ps \<and> plugin_key (fst p) = key" for key p
    using register_all_lookup [OF assms] by (simp add: empty_registry_def)
  have kind: "rg_kind R = k \<and> (\<forall>p \<in> set ps. pm_kind (fst p) = k)"
    using register_all_kind [OF assms] by (simp add: empty_registry_def)
  have res: "resolve_plugin R i v req ql = Inr p \<longleftrightarrow>
      dict_get (rg_plugins R) (i, v) = Some p \<and> req \<subseteq> pm_capabilities (fst p) \<and> (ql \<longrightarrow> pm_qualification (fst p) = QUALIFIED)"
    for i v req ql p
    by (auto simp: resolve_plugin_def split: option.splits)
  have unknown: "resolve_plugin R i v req ql
      = Inl (CrazySwarmError CAPABILITY_MISSING (''plugin is not registered: '' @ i @ ''@'' @ v))"
    if "(i, v) \<notin> (\<lambda>p. plugin_key (fst p)) ` set ps" for i v req ql
  proof -
    have "dict_get (rg_plugins R) (i, v) = None" using that get by (cases "dict_get (rg_plugins R) (i, v)") force+
    then show ?thesis by (simp add: resolve_plugin_def)
  qed
  have reg: "resolve_plugin R' (pm_plugin_id (fst p)) (pm_implementation_version (fst p)) {} False = Inr p
        \<and> (\<forall>i v req ql. (i, v) \<noteq> plugin_key (fst p) \<longrightarrow> resolve_plugin R' i v req ql = resolve_plugin R i v req ql)
        \<and> (\<forall>p'. plugin_key (fst p') = plugin_key (fst p) \<longrightarrow> \<not> outcome_ok (register p' R'))"
    if "register p R = Inr R'" for p R'
    using that by (auto simp: register_def resolve_plugin_def plugin_key_def outcome_ok_def split: if_splits)
  have exact: "resolve_plugin R i v req ql = Inr p \<longleftrightarrow>
      p \<in> set ps \<and> pm_plugin_id (fst p) = i \<and> pm_implementation_version (fst p) = v
      \<and> req \<subseteq> pm_capabilities (fst p) \<and> (ql \<longrightarrow> pm_qualification (fst p) = QUALIFIED)" for i v req ql p
    unfolding res get plugin_key_def by blast
  show ?thesis using kind exact unknown reg by blast
qed

section \<open>Examples\<close>

definition constant_hashes :: planning_hashes where
  "constant_hashes = \<lparr>rh_manifest = \<lambda>_. sample_sha, rh_implementation = \<lambda>_ _. sample_sha, rh_route = \<lambda>_. sample_sha, rh_zone = \<lambda>_. sample_sha\<rparr>"

definition route_request :: "route_capability \<Rightarrow> temporal_reservation list \<Rightarrow> route_plan_request" where
  "route_request capability existing = \<lparr>rq_request_id = ''r1'', rq_role_id = ''alpha'', rq_capability = capability,
     rq_start_m = vec 0 0 1, rq_targets = [\<lparr>rt_position_m = vec 4 0 1, rt_hold_s = 0\<rparr>], rq_zone_minimum_m = Some (vec 0 0 1),
     rq_zone_maximum_m = Some (vec 4 1 1), rq_coverage_spacing_m = 1/2, rq_flight_volume_minimum_m = vec (-10) (-10) 0,
     rq_flight_volume_maximum_m = vec 10 10 3, rq_obstacles = [beside], rq_existing_reservations = existing,
     rq_cruise_speed_m_s = 2, rq_maximum_duration_s = 10, rq_energy_percent_per_m = 1, rq_minimum_separation_m = 1/2,
     rq_maximum_hold_s = 30, rq_frame = WORLD, rq_supersedes_route_sha256 = None\<rparr>"

definition booked :: "string \<Rightarrow> real \<Rightarrow> real \<Rightarrow> temporal_reservation" where
  "booked name s e = \<lparr>rv_reservation_id = name, rv_role_id = ''beta'', rv_starts_at_s = s, rv_ends_at_s = e,
     rv_minimum_m = vec 1 0 1, rv_maximum_m = vec 2 0 1\<rparr>"

definition far_booked :: temporal_reservation where
  "far_booked = \<lparr>rv_reservation_id = ''corridor-r1'', rv_role_id = ''alpha'', rv_starts_at_s = 0, rv_ends_at_s = 2,
     rv_minimum_m = vec (-1/4) (31/4) (3/4), rv_maximum_m = vec (17/4) (33/4) (5/4)\<rparr>"

definition far_request :: route_plan_request where
  "far_request = (route_request RC_DIRECT [])\<lparr>rq_start_m := vec 0 8 1, rq_targets := [\<lparr>rt_position_m = vec 4 8 1, rt_hold_s = 0\<rparr>]\<rparr>"

lemma requests_valid:
  "check_request (route_request RC_DIRECT [far_booked]) = Inr ()"
  "check_request (route_request RC_COVERAGE []) = Inr ()"
  "check_request (route_request RC_TEMPORAL_SEPARATION [booked ''b1'' 0 5]) = Inr ()"
  by code_simp+

definition ready :: "route_plan_artifact outcome \<Rightarrow> bool" where
  "ready r = (case r of Inr a \<Rightarrow> rp_status a = RP_READY | Inl _ \<Rightarrow> False)"

lemma direct_ready: "case plan_direct constant_hashes (route_request RC_DIRECT [far_booked]) of
    Inr a \<Rightarrow> rp_status a = RP_READY \<and> list_all (\<lambda>c. overlap c far_booked) (rp_reservations a) | Inl _ \<Rightarrow> False"
  by code_simp


lemma temporal_ready: "ready (plan_temporal constant_hashes (route_request RC_TEMPORAL_SEPARATION [booked ''b1'' 0 5]))"
  by code_simp
lemma coverage_ready: "ready (plan_coverage constant_hashes (route_request RC_COVERAGE []))"
  by code_simp


theorem registered_planners_are_safe_witness:
  "\<exists>R a. default_route_planner_registry constant_hashes = Inr R
     \<and> plan_direct constant_hashes (route_request RC_DIRECT [far_booked]) = Inr a \<and> safe_route (route_request RC_DIRECT [far_booked]) a"
proof -
  obtain a where a: "plan_direct constant_hashes (route_request RC_DIRECT [far_booked]) = Inr a" "rp_status a = RP_READY"
    using direct_ready by (auto split: sum.splits)
  obtain R where R: "default_route_planner_registry constant_hashes = Inr R"
    "resolve_plugin R ''route.direct'' ''1.0.0'' {} True = Inr (direct_manifest constant_hashes, plan_direct constant_hashes)"
    by (simp add: default_route_planner_registry_def empty_registry_def register_def plugin_key_def direct_manifest_def zone_manifest_def
        coverage_manifest_def temporal_manifest_def builtin_manifest_def resolve_plugin_def)
  from registered_planners_are_safe [OF R requests_valid(1)] a R(1) show ?thesis by blast
qed

lemma far_ready: "case plan_direct constant_hashes far_request of Inr a \<Rightarrow> rp_status a = RP_READY \<and> rp_reservations a = [far_booked] | Inl _ \<Rightarrow> False"
  by code_simp

lemma far_valid: "check_request far_request = Inr ()"
  by code_simp

theorem reserved_corridors_keep_separation_witness:
  "\<exists>a b c. plan_direct constant_hashes (route_request RC_DIRECT [far_booked]) = Inr a \<and> plan_direct constant_hashes far_request = Inr b
     \<and> rp_reservations a = [c] \<and> rp_reservations b = [far_booked] \<and> overlap c far_booked
     \<and> on_route a (vec 0 0 1) \<and> on_route b (vec 0 8 1) \<and> (\<forall>x y. on_route a x \<and> on_route b y \<longrightarrow> 1/2 < distance x y)"
proof -
  let ?q = "route_request RC_DIRECT [far_booked]"
  obtain a where a: "plan_direct constant_hashes ?q = Inr a" "rp_status a = RP_READY"
    and ov: "list_all (\<lambda>c. overlap c far_booked) (rp_reservations a)"
    using direct_ready by (auto split: sum.splits)
  obtain b where b: "plan_direct constant_hashes far_request = Inr b" "rp_status b = RP_READY" "rp_reservations b = [far_booked]"
    using far_ready by (auto split: sum.splits)
  have e: "far_booked \<in> set (rp_reservations b)" "far_booked \<in> set (rq_existing_reservations ?q)" by (simp_all add: route_request_def b(3))
  have sa: "safe_route ?q a" by (rule direct.ready_safe [OF requests_valid(1) a])
  have sb: "safe_route far_request b" by (rule direct.ready_safe [OF far_valid b(1,2)])
  have "route_points a = [vec 0 0 1, vec 4 0 1]" "route_points b = [vec 0 8 1, vec 4 8 1]"
    using polyline_safe(3) [OF requests_valid(1) a(1) [unfolded plan_direct_def] a(2)]
      polyline_safe(3) [OF far_valid b(1) [unfolded plan_direct_def] b(2)]
    by (simp_all add: route_request_def far_request_def)
  then have starts: "on_route a (vec 0 0 1)" "on_route b (vec 0 8 1)"
    by (auto simp: on_route_def point_on_def intro!: bexI [of _ 0])
  obtain c where c: "rp_reservations a = [c]" using sa by (auto simp: safe_route_def)
  have o: "overlap c far_booked" using ov c by simp
  have "plan_direct constant_hashes \<in> {plan_direct constant_hashes, plan_zone constant_hashes, plan_coverage constant_hashes}"
    "c \<in> set (rp_reservations a)" by (simp_all add: c)
  from reserved_corridors_keep_separation [OF requests_valid(1) this(1) a sb e this(2) o]
  have "1/2 < distance x y" if "on_route a x" "on_route b y" for x y
    using that by (simp add: route_request_def far_request_def)
  with a(1) b(1,3) c o starts show ?thesis by blast
qed

theorem temporal_route_waits_witness:
  "\<exists>a c d. plan_temporal constant_hashes (route_request RC_TEMPORAL_SEPARATION [booked ''b1'' 0 5]) = Inr a
     \<and> rp_reservations a = [shift_reservation d c] \<and> \<not> reservations_conflict (shift_reservation d c) (booked ''b1'' 0 5)"
proof -
  obtain a where a: "plan_temporal constant_hashes (route_request RC_TEMPORAL_SEPARATION [booked ''b1'' 0 5]) = Inr a" "rp_status a = RP_READY"
    using temporal_ready by (auto simp: ready_def split: sum.splits)
  from temporal_route_waits [OF requests_valid(3) a] a(1) show ?thesis by (auto simp: route_request_def)
qed

theorem coverage_route_covers_witness:
  "\<exists>a p. plan_coverage constant_hashes (route_request RC_COVERAGE []) = Inr a \<and> on_route a p \<and> vx p = 3 \<and> \<bar>vy p - 1/3\<bar> \<le> 1/4"
proof -
  obtain a where a: "plan_coverage constant_hashes (route_request RC_COVERAGE []) = Inr a" "rp_status a = RP_READY"
    using coverage_ready by (auto simp: ready_def split: sum.splits)
  from coverage_route_covers [OF requests_valid(2) a] a(1) show ?thesis by (auto simp: route_request_def)
qed

theorem registry_is_allow_list_witness:
  "\<exists>R. default_route_planner_registry constant_hashes = Inr R
     \<and> resolve_plugin R ''route.zone'' ''1.0.0'' {''ZONE''} True = Inr (zone_manifest constant_hashes, plan_zone constant_hashes)
     \<and> resolve_plugin R ''route.dock'' ''1.0.0'' {} False
         = Inl (CrazySwarmError CAPABILITY_MISSING ''plugin is not registered: route.dock@1.0.0'')"
proof -
  let ?ps = "[(direct_manifest constant_hashes, plan_direct constant_hashes), (zone_manifest constant_hashes, plan_zone constant_hashes),
      (coverage_manifest constant_hashes, plan_coverage constant_hashes), (temporal_manifest constant_hashes, plan_temporal constant_hashes)]"
  note manifests = direct_manifest_def zone_manifest_def coverage_manifest_def temporal_manifest_def builtin_manifest_def
  obtain R where R: "default_route_planner_registry constant_hashes = Inr R"
    by (simp add: default_route_planner_registry_def empty_registry_def register_def plugin_key_def manifests)
  note list = registry_is_allow_list [OF R [unfolded default_route_planner_registry_def]]
  have "resolve_plugin R ''route.zone'' ''1.0.0'' {''ZONE''} True = Inr (zone_manifest constant_hashes, plan_zone constant_hashes)"
    using list by (simp add: manifests)
  moreover have "resolve_plugin R ''route.dock'' ''1.0.0'' {} False
      = Inl (CrazySwarmError CAPABILITY_MISSING (''plugin is not registered: '' @ ''route.dock'' @ ''@'' @ ''1.0.0''))"
    using list by (simp add: manifests plugin_key_def)
  ultimately show ?thesis using R by simp
qed

section \<open>Gaps of the temporal planner\<close>

text \<open>
  The shift is computed from the conflicts of the unshifted corridor only, and neither the conflicts
  nor the maximum duration are looked at again afterwards: a route held until the first reservation
  has ended flies into the second, and a ready route may last longer than the request allows.
\<close>

definition delayed_into :: "route_plan_artifact outcome \<Rightarrow> route_plan_request \<Rightarrow> bool" where
  "delayed_into r q = (case r of Inl _ \<Rightarrow> False | Inr a \<Rightarrow> rp_status a = RP_READY \<and>
     list_ex (\<lambda>c. list_ex (reservations_conflict c) (rq_existing_reservations q)) (rp_reservations a)
     \<and> rp_expected_duration_s a > rq_maximum_duration_s q)"

lemma shifted_route_conflicts:
  "check_request (route_request RC_TEMPORAL_SEPARATION [booked ''b1'' 0 9, booked ''b2'' 10 12]) = Inr ()"
  "delayed_into (plan_temporal constant_hashes (route_request RC_TEMPORAL_SEPARATION [booked ''b1'' 0 9, booked ''b2'' 10 12]))
     (route_request RC_TEMPORAL_SEPARATION [booked ''b1'' 0 9, booked ''b2'' 10 12])"
  by code_simp+

end
