(* ===== verification/Recovery.thy ===== *)
theory Recovery
  imports Routes SafetyPolicy
begin

text \<open>
  Strategic decisions and their admission: the deterministic fleet policies and recovery strategies of
  \<open>planning/builtins.py\<close>, and the safety kernel of \<open>planning/safety.py\<close> around every proposal.
\<close>

section \<open>Fleet policies\<close>

record fleet_policy_request =
  fr_request_id :: string
  fr_mission_id :: string
  fr_policy_capability :: string
  fr_role_ids :: "string list"
  fr_active_role_ids :: "string list"
  fr_reserve_role_ids :: "string list"
  fr_route_sha256s :: "string list"
  fr_warning_separation_m :: real
  fr_critical_separation_m :: real

definition check_policy_request :: "fleet_policy_request \<Rightarrow> unit outcome" where
  "check_policy_request q =
     (if valid_identifier (fr_request_id q) \<and> valid_identifier (fr_mission_id q) \<and> valid_identifier (fr_policy_capability q) \<and>
         list_all valid_identifier (fr_role_ids q @ fr_active_role_ids q @ fr_reserve_role_ids q) \<and>
         list_all valid_sha256 (fr_route_sha256s q) \<and> 0 < fr_warning_separation_m q \<and> 0 < fr_critical_separation_m q
      then Inr () else Inl (ValidationError ''FleetPolicyRequest field''))"

record fleet_policy_decision =
  fd_request_id :: string
  fd_policy :: plugin_selection
  fd_launch_order :: "string list"
  fd_held_role_ids :: "string list"
  fd_active_role_ids :: "string list"
  fd_reserve_role_ids :: "string list"
  fd_rationale :: "string list"
  fd_decision_sha256 :: string

definition decision_fields_ok :: "fleet_policy_decision \<Rightarrow> bool" where
  "decision_fields_ok d \<longleftrightarrow> valid_identifier (fd_request_id d) \<and>
     list_all valid_identifier (fd_launch_order d @ fd_held_role_ids d @ fd_active_role_ids d @ fd_reserve_role_ids d) \<and>
     valid_sha256 (fd_decision_sha256 d)"

definition policy_manifest :: "planning_hashes \<Rightarrow> string \<Rightarrow> plugin_manifest" where
  "policy_manifest H capability = builtin_manifest H (''fleet.'' @ capability) FLEET_POLICY {capability}
     {''fleet-state'', ''route-reservations''}"

definition decide ::
    "(plugin_manifest \<Rightarrow> string) \<Rightarrow> (fleet_policy_decision \<Rightarrow> string) \<Rightarrow> plugin_manifest \<Rightarrow> fleet_policy_request
       \<Rightarrow> fleet_policy_decision outcome" where
  "decide manifest_sha sha m q =
     (let active = sort (fr_active_role_ids q); reserve = sort (fr_reserve_role_ids q);
          crossing = (fr_policy_capability q = ''crossing-route'' \<and> length active > 1);
          launch = (if crossing then sort active else active);
          held = (if crossing then tl launch else []);
          rationale = (''policy capability '' @ fr_policy_capability q @ '' selected'') #
            (if crossing then [''lexical role precedence resolves the initial crossing'']
             else if fr_policy_capability q = ''persistent-coverage'' then [''reserve roles remain connected, ready, and disarmed'']
             else if fr_policy_capability q = ''leader-follower'' \<and> active \<noteq> [] then [hd active @ '' is the deterministic initial leader'']
             else [])
      in bind_ok (from_manifest manifest_sha m {fr_policy_capability q}) (\<lambda>selection.
        let payload = \<lparr>fd_request_id = fr_request_id q, fd_policy = selection, fd_launch_order = launch, fd_held_role_ids = held,
              fd_active_role_ids = active, fd_reserve_role_ids = reserve, fd_rationale = rationale,
              fd_decision_sha256 = ''''\<rparr>;
            d = payload\<lparr>fd_decision_sha256 := sha payload\<rparr>
        in if decision_fields_ok d then Inr d else Inl (ValidationError ''FleetPolicyDecision field'')))"

definition default_fleet_policy_registry :: "planning_hashes \<Rightarrow> plugin_manifest registry outcome" where
  "default_fleet_policy_registry H = register_all
     (map (\<lambda>c. (policy_manifest H c, policy_manifest H c)) [''persistent-coverage'', ''crossing-route'', ''leader-follower'', ''independent-tasks''])
     (empty_registry FLEET_POLICY)"

section \<open>Recovery strategies\<close>

datatype recovery_trigger =
    RT_LOW_BATTERY | RT_LEADER_LOSS | RT_LINK_LOSS | RT_LOCALIZATION_LOSS | RT_RESERVE_LOSS | RT_DOCK_UNAVAILABLE
  | RT_COMMAND_TIMEOUT | RT_ACKNOWLEDGEMENT_LOSS

datatype recovery_action =
    RA_HOLD | RA_REPLAN | RA_RETURN_HOME | RA_HANDOVER | RA_LAND | RA_ABORT_AND_LAND | RA_EMERGENCY_STOP

fun trigger_value :: "recovery_trigger \<Rightarrow> string" where
  "trigger_value RT_LOW_BATTERY = ''LOW_BATTERY''"
| "trigger_value RT_LEADER_LOSS = ''LEADER_LOSS''"
| "trigger_value RT_LINK_LOSS = ''LINK_LOSS''"
| "trigger_value RT_LOCALIZATION_LOSS = ''LOCALIZATION_LOSS''"
| "trigger_value RT_RESERVE_LOSS = ''RESERVE_LOSS''"
| "trigger_value RT_DOCK_UNAVAILABLE = ''DOCK_UNAVAILABLE''"
| "trigger_value RT_COMMAND_TIMEOUT = ''COMMAND_TIMEOUT''"
| "trigger_value RT_ACKNOWLEDGEMENT_LOSS = ''ACKNOWLEDGEMENT_LOSS''"

text \<open>\<open>trigger.value.lower().replace('_', '-')\<close>.\<close>

definition slug_char :: "char \<Rightarrow> char" where
  "slug_char c = (if c = CHR ''_'' then CHR ''-''
     else if CHR ''A'' \<le> c \<and> c \<le> CHR ''Z'' then char_of (of_char c + 32 :: nat) else c)"

definition slug :: "string \<Rightarrow> string" where
  "slug s = map slug_char s"

fun default_actions :: "recovery_trigger \<Rightarrow> recovery_action \<times> recovery_action" where
  "default_actions RT_LOW_BATTERY = (RA_HANDOVER, RA_LAND)"
| "default_actions RT_LEADER_LOSS = (RA_LAND, RA_ABORT_AND_LAND)"
| "default_actions RT_LINK_LOSS = (RA_RETURN_HOME, RA_LAND)"
| "default_actions RT_LOCALIZATION_LOSS = (RA_LAND, RA_EMERGENCY_STOP)"
| "default_actions RT_RESERVE_LOSS = (RA_HOLD, RA_LAND)"
| "default_actions RT_DOCK_UNAVAILABLE = (RA_REPLAN, RA_LAND)"
| "default_actions RT_COMMAND_TIMEOUT = (RA_ABORT_AND_LAND, RA_LAND)"
| "default_actions RT_ACKNOWLEDGEMENT_LOSS = (RA_ABORT_AND_LAND, RA_LAND)"

record recovery_strategy =
  rs_manifest :: plugin_manifest
  rs_trigger :: recovery_trigger
  rs_preferred_action :: recovery_action
  rs_fallback :: recovery_action

record recovery_request =
  rc_request_id :: string
  rc_mission_id :: string
  rc_trigger :: recovery_trigger
  rc_role_id :: string
  rc_vehicle_id :: string
  rc_available_actions :: "recovery_action set"
  rc_observation_current :: bool
  rc_authority_current :: bool
  rc_lease_generation :: "int option"
  rc_deadline_s :: real

record recovery_proposal =
  rl_request_id :: string
  rl_strategy :: plugin_selection
  rl_action :: recovery_action
  rl_role_id :: string
  rl_vehicle_id :: string
  rl_reason :: string
  rl_preconditions :: "string list"
  rl_deadline_s :: real
  rl_fallback :: recovery_action
  rl_required_evidence :: "string list"
  rl_proposal_sha256 :: string

definition proposal_fields_ok :: "recovery_proposal \<Rightarrow> bool" where
  "proposal_fields_ok p \<longleftrightarrow> valid_identifier (rl_request_id p) \<and> valid_identifier (rl_role_id p) \<and> valid_identifier (rl_vehicle_id p) \<and>
     1 \<le> length (rl_reason p) \<and> length (rl_reason p) \<le> 500 \<and> 0 < rl_deadline_s p \<and>
     list_all valid_identifier (rl_required_evidence p) \<and> valid_sha256 (rl_proposal_sha256 p)"

definition recovery_strategy_for :: "planning_hashes \<Rightarrow> recovery_trigger \<Rightarrow> recovery_strategy" where
  "recovery_strategy_for H t = \<lparr>rs_manifest = builtin_manifest H (''recovery.'' @ slug (trigger_value t)) RECOVERY_STRATEGY
       {trigger_value t} {''vehicle-health'', ''authority-state''},
     rs_trigger = t, rs_preferred_action = fst (default_actions t), rs_fallback = snd (default_actions t)\<rparr>"

definition propose ::
    "(plugin_manifest \<Rightarrow> string) \<Rightarrow> (recovery_proposal \<Rightarrow> string) \<Rightarrow> recovery_strategy \<Rightarrow> recovery_request
       \<Rightarrow> recovery_proposal outcome" where
  "propose manifest_sha sha st q =
     (if rc_trigger q \<noteq> rs_trigger st
      then Inl (ValueError (''strategy does not handle trigger '' @ trigger_value (rc_trigger q)))
      else let action = (if rs_preferred_action st \<in> rc_available_actions q then rs_preferred_action st else rs_fallback st)
        in if action \<notin> rc_available_actions q then Inl (ValueError ''no declared recovery action is available'')
           else bind_ok (from_manifest manifest_sha (rs_manifest st) {trigger_value (rc_trigger q)}) (\<lambda>selection.
             let payload = \<lparr>rl_request_id = rc_request_id q, rl_strategy = selection, rl_action = action, rl_role_id = rc_role_id q,
                   rl_vehicle_id = rc_vehicle_id q, rl_reason = ''deterministic response to '' @ trigger_value (rc_trigger q),
                   rl_preconditions = [''current vehicle and role identity'', ''current execution authority'', ''Safety Kernel admission''],
                   rl_deadline_s = rc_deadline_s q, rl_fallback = rs_fallback st,
                   rl_required_evidence = [''trigger-observation'', ''authority-snapshot'', ''safety-admission''], rl_proposal_sha256 = ''''\<rparr>;
                 p = payload\<lparr>rl_proposal_sha256 := sha payload\<rparr>
             in if proposal_fields_ok p then Inr p else Inl (ValidationError ''RecoveryProposal field'')))"

definition all_triggers :: "recovery_trigger list" where
  "all_triggers = [RT_LOW_BATTERY, RT_LEADER_LOSS, RT_LINK_LOSS, RT_LOCALIZATION_LOSS, RT_RESERVE_LOSS, RT_DOCK_UNAVAILABLE,
     RT_COMMAND_TIMEOUT, RT_ACKNOWLEDGEMENT_LOSS]"

definition default_recovery_registry :: "planning_hashes \<Rightarrow> recovery_strategy registry outcome" where
  "default_recovery_registry H = register_all
     (map (\<lambda>t. (rs_manifest (recovery_strategy_for H t), recovery_strategy_for H t)) all_triggers) (empty_registry RECOVERY_STRATEGY)"

section \<open>The safety kernel\<close>

record mission_safety_declaration =
  ms_declaration_id :: string
  ms_policy_override :: safety_policy_override
  ms_required_observations :: "string set"
  ms_environmental_assumptions :: "string list"
  ms_allowed_recovery_actions :: "recovery_action set"

record safety_case_finding =
  sf_code :: string
  sf_blocking :: bool
  sf_message :: string
  sf_owner :: string
  sf_mitigation :: string

record safety_case_receipt =
  sr_declaration_sha256 :: string
  sr_global_policy_sha256 :: string
  sr_effective_policy_sha256 :: string
  sr_selected_plugin_manifest_sha256s :: "string list"
  sr_hazards :: "string list"
  sr_mitigations :: "string list"
  sr_findings :: "safety_case_finding list"
  sr_safety_case_sha256 :: string

definition receipt_fields_ok :: "safety_case_receipt \<Rightarrow> bool" where
  "receipt_fields_ok r \<longleftrightarrow> valid_sha256 (sr_declaration_sha256 r) \<and> valid_sha256 (sr_global_policy_sha256 r) \<and>
     valid_sha256 (sr_effective_policy_sha256 r) \<and> list_all valid_sha256 (sr_selected_plugin_manifest_sha256s r) \<and>
     list_all valid_identifier (sr_hazards r) \<and> valid_sha256 (sr_safety_case_sha256 r)"

record kernel_hashes =
  kh_declaration :: "mission_safety_declaration \<Rightarrow> string"
  kh_policy :: "safety_policy \<Rightarrow> string"
  kh_manifest :: "plugin_manifest \<Rightarrow> string"
  kh_case :: "safety_case_receipt \<Rightarrow> string"

definition observation_finding :: safety_case_finding where
  "observation_finding = \<lparr>sf_code = ''OBSERVATIONS_DECLARED_BY_GLOBAL_POLICY'', sf_blocking = False,
     sf_message = ''mission declares no additional observation requirements'', sf_owner = ''safety-kernel'',
     sf_mitigation = ''global supervisor freshness and quality checks remain mandatory''\<rparr>"

definition compile_safety_case ::
    "kernel_hashes \<Rightarrow> safety_policy \<Rightarrow> mission_safety_declaration \<Rightarrow> plugin_manifest list \<Rightarrow> safety_case_receipt outcome" where
  "compile_safety_case K global d ms =
     bind_ok (tighten global (ms_policy_override d)) (\<lambda>effective.
       let payload = \<lparr>sr_declaration_sha256 = kh_declaration K d, sr_global_policy_sha256 = kh_policy K global,
             sr_effective_policy_sha256 = kh_policy K effective,
             sr_selected_plugin_manifest_sha256s = sort (map (kh_manifest K) ms),
             sr_hazards = [''STALE_AUTHORITY'', ''STALE_OBSERVATION'', ''BOUNDARY_OR_DYNAMICS_VIOLATION'', ''UNDECLARED_RECOVERY''],
             sr_mitigations = [''SafetySupervisor remains final command authority'', ''mission policy may only tighten the global policy'',
               ''recovery actions are declaration allow-listed'', ''plan and plugin manifests are hash-bound''],
             sr_findings = (if ms_required_observations d = {} then [observation_finding] else []), sr_safety_case_sha256 = ''''\<rparr>;
           r = payload\<lparr>sr_safety_case_sha256 := kh_case K payload\<rparr>
       in if receipt_fields_ok r then Inr r else Inl (ValidationError ''SafetyCaseReceipt field''))"

record safety_admission =
  sa_authorized :: bool
  sa_action :: recovery_action
  sa_reason :: string
  sa_effective_policy_sha256 :: string
  sa_proposal_sha256 :: string

fun join_semicolon :: "string list \<Rightarrow> string" where
  "join_semicolon [] = ''''"
| "join_semicolon [s] = s"
| "join_semicolon (s # ss) = s @ ''; '' @ join_semicolon ss"

definition refusals :: "mission_safety_declaration \<Rightarrow> recovery_request \<Rightarrow> recovery_proposal \<Rightarrow> string list" where
  "refusals d q p =
     (if rl_request_id p \<noteq> rc_request_id q then [''proposal request identity is stale''] else []) @
     (if rl_role_id p \<noteq> rc_role_id q \<or> rl_vehicle_id p \<noteq> rc_vehicle_id q then [''proposal role or vehicle identity is stale''] else []) @
     (if rl_action p \<notin> rc_available_actions q then [''proposal action is unavailable''] else []) @
     (if rl_action p \<notin> ms_allowed_recovery_actions d then [''proposal action is outside the mission declaration''] else []) @
     (if \<not> rc_authority_current q then [''execution authority is stale''] else []) @
     (if \<not> rc_observation_current q then [''required observation is stale''] else [])"

definition authorize_recovery ::
    "kernel_hashes \<Rightarrow> safety_policy \<Rightarrow> mission_safety_declaration \<Rightarrow> recovery_request \<Rightarrow> recovery_proposal
       \<Rightarrow> safety_admission outcome" where
  "authorize_recovery K global d q p =
     bind_ok (tighten global (ms_policy_override d)) (\<lambda>effective.
       let reasons = refusals d q p;
           a = \<lparr>sa_authorized = (reasons = []), sa_action = rl_action p,
             sa_reason = (if reasons \<noteq> [] then join_semicolon reasons else ''proposal admitted by Safety Kernel''),
             sa_effective_policy_sha256 = kh_policy K effective, sa_proposal_sha256 = rl_proposal_sha256 p\<rparr>
       in if valid_sha256 (sa_effective_policy_sha256 a) \<and> valid_sha256 (sa_proposal_sha256 a) then Inr a
          else Inl (ValidationError ''SafetyAdmission field''))"

section \<open>Registering a family of plugins\<close>

lemma update_new: "k \<notin> set (dict_keys d) \<Longrightarrow> dict_set k v d = d @ [(k, v)]"
  by (induction d) auto

lemma register_all_distinct:
  assumes "\<forall>p \<in> set ps. pm_kind (fst p) = rg_kind R" "distinct (dict_keys (rg_plugins R) @ map (plugin_key \<circ> fst) ps)"
  shows "register_all ps R = Inr (R\<lparr>rg_plugins := rg_plugins R @ map (\<lambda>p. (plugin_key (fst p), p)) ps\<rparr>)"
  using assms
proof (induction ps arbitrary: R)
  case (Cons p ps)
  have new: "plugin_key (fst p) \<notin> set (dict_keys (rg_plugins R))" using Cons.prems(2) by auto
  then have "register p R = Inr (R\<lparr>rg_plugins := rg_plugins R @ [(plugin_key (fst p), p)]\<rparr>)"
    using Cons.prems(1) by (auto simp: register_def update_new map_of_eq_None_iff)
  then show ?case
    using Cons.IH [of "R\<lparr>rg_plugins := rg_plugins R @ [(plugin_key (fst p), p)]\<rparr>"] Cons.prems by simp
qed simp

lemma recovery_keys:
  "map (\<lambda>t. ''recovery.'' @ slug (trigger_value t)) all_triggers =
     [''recovery.low-battery'', ''recovery.leader-loss'', ''recovery.link-loss'', ''recovery.localization-loss'',
      ''recovery.reserve-loss'', ''recovery.dock-unavailable'', ''recovery.command-timeout'', ''recovery.acknowledgement-loss'']"
  by code_simp

lemma all_triggers: "t \<in> set all_triggers"
  by (cases t) (simp_all add: all_triggers_def)

lemma recovery_key_fst: "plugin_key (rs_manifest (recovery_strategy_for H t)) = (''recovery.'' @ slug (trigger_value t), ''1.0.0'')"
  by (simp add: plugin_key_def recovery_strategy_for_def builtin_manifest_def)

abbreviation recovery_key :: "recovery_trigger \<Rightarrow> string" where
  "recovery_key t \<equiv> ''recovery.'' @ slug (trigger_value t)"

lemma recovery_registry_value:
  "default_recovery_registry H = Inr \<lparr>rg_kind = RECOVERY_STRATEGY,
     rg_plugins = map (\<lambda>t. ((recovery_key t, ''1.0.0''), (rs_manifest (recovery_strategy_for H t), recovery_strategy_for H t))) all_triggers\<rparr>"
  "distinct (map (\<lambda>t. (recovery_key t, ''1.0.0'')) all_triggers)"
proof -
  let ?ps = "map (\<lambda>t. (rs_manifest (recovery_strategy_for H t), recovery_strategy_for H t)) all_triggers"
  have "map (\<lambda>t. (recovery_key t, ''1.0.0'')) all_triggers = map (\<lambda>k. (k, ''1.0.0'')) (map recovery_key all_triggers)" by simp
  then show dist: "distinct (map (\<lambda>t. (recovery_key t, ''1.0.0'')) all_triggers)" unfolding recovery_keys by simp
  then show "default_recovery_registry H = Inr \<lparr>rg_kind = RECOVERY_STRATEGY,
     rg_plugins = map (\<lambda>t. ((recovery_key t, ''1.0.0''), (rs_manifest (recovery_strategy_for H t), recovery_strategy_for H t))) all_triggers\<rparr>"
    unfolding default_recovery_registry_def
    by (subst register_all_distinct)
       (auto simp: empty_registry_def recovery_key_fst o_def recovery_strategy_for_def builtin_manifest_def plugin_key_def)
qed

lemma recovery_registry:
  "\<exists>R. default_recovery_registry H = Inr R \<and> (\<forall>t. resolve_plugin R (recovery_key t) ''1.0.0'' {trigger_value t} True
     = Inr (rs_manifest (recovery_strategy_for H t), recovery_strategy_for H t))"
proof -
  let ?R = "\<lparr>rg_kind = RECOVERY_STRATEGY,
     rg_plugins = map (\<lambda>t. ((recovery_key t, ''1.0.0''), (rs_manifest (recovery_strategy_for H t), recovery_strategy_for H t))) all_triggers\<rparr>"
  have "resolve_plugin ?R (recovery_key t) ''1.0.0'' {trigger_value t} True = Inr (rs_manifest (recovery_strategy_for H t), recovery_strategy_for H t)" for t
  proof -
    have "((recovery_key t, ''1.0.0''), (rs_manifest (recovery_strategy_for H t), recovery_strategy_for H t)) \<in> set (rg_plugins ?R)"
      using all_triggers [of t] by auto
    moreover have "distinct (dict_keys (rg_plugins ?R))" using recovery_registry_value(2) by (simp add: o_def)
    ultimately have "dict_get (rg_plugins ?R) (recovery_key t, ''1.0.0'') = Some (rs_manifest (recovery_strategy_for H t), recovery_strategy_for H t)"
      by (rule map_of_is_SomeI [rotated])
    then show ?thesis by (simp add: resolve_plugin_def recovery_strategy_for_def builtin_manifest_def)
  qed
  with recovery_registry_value(1) show ?thesis by blast
qed

lemma recovery_identifiers:
  "list_all (\<lambda>t. valid_identifier (''recovery.'' @ slug (trigger_value t)) \<and> valid_identifier (trigger_value t)
     \<and> length (trigger_value t) \<le> 100) all_triggers"
  "list_all valid_identifier [''trigger-observation'', ''authority-snapshot'', ''safety-admission'']"
  by code_simp+

text \<open>The manifests of a registry are those of its plugins.\<close>

lemma manifests_in: "m \<in> set (manifests R) \<Longrightarrow> \<exists>p \<in> set (dict_values (rg_plugins R)). m = fst p"
proof -
  assume "m \<in> set (manifests R)"
  then obtain k where k: "k \<in> set (dict_keys (rg_plugins R))" "m = fst (the (dict_get (rg_plugins R) k))"
    unfolding manifests_def set_map set_sort by blast
  then have "dict_get (rg_plugins R) k \<noteq> None" unfolding map_of_eq_None_iff by simp
  then obtain p where "dict_get (rg_plugins R) k = Some p" by blast
  with k(2) dict_get_values [OF this] show ?thesis by (intro bexI [of _ p]) simp_all
qed

lemma recovery_manifests_valid:
  assumes "default_recovery_registry H = Inr R" "m \<in> set (manifests R)"
  shows "valid_identifier (pm_plugin_id m) \<and> (\<forall>c \<in> pm_capabilities m. valid_identifier c) \<and> pm_kind m = RECOVERY_STRATEGY
    \<and> pm_implementation_sha256 m = rh_implementation H (pm_plugin_id m) ''1.0.0''"
proof -
  from manifests_in [OF assms(2)] assms(1) [unfolded recovery_registry_value(1)]
  obtain t where "m = rs_manifest (recovery_strategy_for H t)" by auto
  with recovery_identifiers(1) all_triggers [of t] show ?thesis
    by (auto simp: list_all_iff recovery_strategy_for_def builtin_manifest_def)
qed

section \<open>Admission\<close>

lemma refusals_none:
  "refusals d q p = [] \<longleftrightarrow> rl_request_id p = rc_request_id q \<and> rl_role_id p = rc_role_id q \<and> rl_vehicle_id p = rc_vehicle_id q
     \<and> rl_action p \<in> rc_available_actions q \<and> rl_action p \<in> ms_allowed_recovery_actions d
     \<and> rc_authority_current q \<and> rc_observation_current q"
  by (auto simp: refusals_def)

text \<open>
  C17. The safety kernel admits a recovery exactly when the proposal answers this request for this role
  and vehicle with an action that is available and allow-listed by the mission's declaration, while
  authority and observation are current; and it does so only under a declaration whose policy is at
  least as strict as the global one.
\<close>

theorem kernel_admits_exactly:
  assumes "authorize_recovery K global d q p = Inr a"
  shows "(sa_authorized a \<longleftrightarrow> rl_request_id p = rc_request_id q \<and> rl_role_id p = rc_role_id q \<and> rl_vehicle_id p = rc_vehicle_id q
       \<and> rl_action p \<in> rc_available_actions q \<inter> ms_allowed_recovery_actions d \<and> rc_authority_current q \<and> rc_observation_current q)
    \<and> sa_action a = rl_action p \<and> sa_proposal_sha256 a = rl_proposal_sha256 p
    \<and> (\<exists>effective. tighten global (ms_policy_override d) = Inr effective \<and> at_least_as_strict effective global
         \<and> sa_effective_policy_sha256 a = kh_policy K effective)"
proof -
  from assms obtain e where e: "tighten global (ms_policy_override d) = Inr e"
    and a: "a = \<lparr>sa_authorized = (refusals d q p = []), sa_action = rl_action p,
         sa_reason = (if refusals d q p \<noteq> [] then join_semicolon (refusals d q p) else ''proposal admitted by Safety Kernel''),
         sa_effective_policy_sha256 = kh_policy K e, sa_proposal_sha256 = rl_proposal_sha256 p\<rparr>"
    by (auto simp: authorize_recovery_def Let_def bind_ok_Inr split: if_splits)
  have "at_least_as_strict e global" using e by (auto simp: tighten_Inr intro: apply_updates_strict)
  with e show ?thesis unfolding a by (simp add: refusals_none)
qed

definition check_recovery_request :: "recovery_request \<Rightarrow> bool" where
  "check_recovery_request q \<longleftrightarrow> valid_identifier (rc_request_id q) \<and> valid_identifier (rc_mission_id q) \<and>
     valid_identifier (rc_role_id q) \<and> valid_identifier (rc_vehicle_id q) \<and> opt_all (\<lambda>g. 1 \<le> g) (rc_lease_generation q) \<and> 0 < rc_deadline_s q"

lemma landing_always_chosen:
  "RA_LAND \<in> A \<Longrightarrow> (if fst (default_actions t) \<in> A then fst (default_actions t) else snd (default_actions t)) \<in> A"
  by (cases t) auto

text \<open>
  C18. Every trigger is answered while landing is possible: the default registry holds a strategy for
  each of the eight triggers, qualified and declared for it, and that strategy turns every valid request
  whose available actions include landing into a proposal for the same role and vehicle, with an
  available action. Given a current authority and observation and a declaration that allows the
  available actions, the safety kernel admits the proposal.
\<close>

theorem every_trigger_is_answered:
  assumes "\<And>m. valid_sha256 (sham m)" "\<And>p. valid_sha256 (shap p)" "\<And>i v. valid_sha256 (rh_implementation H i v)" "\<And>p. valid_sha256 (kh_policy K p)"
    and "check_recovery_request q" "RA_LAND \<in> rc_available_actions q"
  shows "\<exists>R st p. default_recovery_registry H = Inr R
    \<and> resolve_plugin R (recovery_key (rc_trigger q)) ''1.0.0'' {trigger_value (rc_trigger q)} True = Inr (rs_manifest st, st)
    \<and> propose sham shap st q = Inr p \<and> rl_action p \<in> rc_available_actions q
    \<and> (\<forall>global d e. tighten global (ms_policy_override d) = Inr e \<and> rc_available_actions q \<subseteq> ms_allowed_recovery_actions d
         \<and> rc_authority_current q \<and> rc_observation_current q \<longrightarrow>
         (\<exists>a. authorize_recovery K global d q p = Inr a \<and> sa_authorized a))"
proof -
  let ?t = "rc_trigger q" let ?st = "recovery_strategy_for H ?t"
  obtain R where R: "default_recovery_registry H = Inr R"
    "resolve_plugin R (recovery_key ?t) ''1.0.0'' {trigger_value ?t} True = Inr (rs_manifest ?st, ?st)"
    using recovery_registry by blast
  define act where "act = (if fst (default_actions ?t) \<in> rc_available_actions q then fst (default_actions ?t) else snd (default_actions ?t))"
  have act: "act \<in> rc_available_actions q" unfolding act_def by (rule landing_always_chosen [OF assms(6)])
  have ids: "valid_identifier (''recovery.'' @ slug (trigger_value ?t))" "valid_identifier (trigger_value ?t)" "length (trigger_value ?t) \<le> 100"
    using recovery_identifiers(1) all_triggers [of ?t] unfolding list_all_iff by blast+
  have "\<exists>p. propose sham shap ?st q = Inr p \<and> rl_action p = act \<and> rl_request_id p = rc_request_id q \<and> rl_role_id p = rc_role_id q
      \<and> rl_vehicle_id p = rc_vehicle_id q \<and> valid_sha256 (rl_proposal_sha256 p)"
    using act [unfolded act_def] ids assms recovery_identifiers(2)
    by (simp add: propose_def recovery_strategy_for_def from_manifest_def builtin_manifest_def selection_fields_ok_def
        proposal_fields_ok_def check_recovery_request_def act_def Let_def split: if_splits)
  then obtain p where p: "propose sham shap ?st q = Inr p" "rl_action p = act" "rl_request_id p = rc_request_id q" "rl_role_id p = rc_role_id q"
    "rl_vehicle_id p = rc_vehicle_id q" "valid_sha256 (rl_proposal_sha256 p)" by blast
  have "\<exists>a. authorize_recovery K global d q p = Inr a \<and> sa_authorized a"
    if "tighten global (ms_policy_override d) = Inr e" "rc_available_actions q \<subseteq> ms_allowed_recovery_actions d"
      "rc_authority_current q" "rc_observation_current q" for global d e
  proof -
    have none: "refusals d q p = []" using that act p by (auto simp: refusals_none)
    show ?thesis using that(1) p(6) assms(4) by (simp add: authorize_recovery_def none Let_def)
  qed
  with R p act show ?thesis by (intro exI [of _ R] exI [of _ ?st] exI [of _ p]) auto
qed

section \<open>Fleet decisions\<close>

text \<open>
  A fleet decision of \<open>DeterministicFleetPolicy\<close> is a permutation of the request: the launch order and
  the active roles are the requested active roles in lexical order, the reserves the requested ones;
  only a crossing holds roles back, and then all but the first.
\<close>

lemma fleet_decision_orders_roles:
  assumes "decide manifest_sha sha m q = Inr d"
  shows "fd_launch_order d = sort (fr_active_role_ids q) \<and> fd_active_role_ids d = sort (fr_active_role_ids q)
    \<and> fd_reserve_role_ids d = sort (fr_reserve_role_ids q) \<and> fr_policy_capability q \<in> pm_capabilities m
    \<and> fd_held_role_ids d = (if fr_policy_capability q = ''crossing-route'' then tl (fd_launch_order d) else [])"
proof -
  have one: "tl (sort xs) = []" if "\<not> 1 < length xs" for xs :: "string list"
    using that by (cases xs) auto
  show ?thesis
    using assms one [of "fr_active_role_ids q"]
    by (auto simp: decide_def Let_def sorted_sort_id bind_ok_Inr from_manifest_def split: if_splits)
qed

section \<open>An admitted recovery\<close>

definition sample_request :: recovery_request where
  "sample_request = \<lparr>rc_request_id = ''q1'', rc_mission_id = ''m1'', rc_trigger = RT_LOW_BATTERY, rc_role_id = ''alpha'',
     rc_vehicle_id = ''v1'', rc_available_actions = {RA_LAND, RA_HOLD}, rc_observation_current = True, rc_authority_current = True,
     rc_lease_generation = None, rc_deadline_s = 5\<rparr>"

definition sample_declaration :: mission_safety_declaration where
  "sample_declaration = \<lparr>ms_declaration_id = ''d1'', ms_policy_override = no_override, ms_required_observations = {},
     ms_environmental_assumptions = [], ms_allowed_recovery_actions = {RA_LAND, RA_HOLD}\<rparr>"

definition constant_kernel :: kernel_hashes where
  "constant_kernel = \<lparr>kh_declaration = \<lambda>_. sample_sha, kh_policy = \<lambda>_. sample_sha, kh_manifest = \<lambda>_. sample_sha, kh_case = \<lambda>_. sample_sha\<rparr>"

lemma tighten_nothing: "policy_fields_ok p \<Longrightarrow> thresholds_are_consistent p \<Longrightarrow> tighten p no_override = Inr p"
  by (simp add: tighten_Inr no_override_def relaxes_maximum_def relaxes_minimum_def relaxes_volume_def above_def below_limit_def
      apply_updates_def pick_def)

lemma default_policy_valid: "policy_fields_ok default_policy" "thresholds_are_consistent default_policy"
  by (simp_all add: policy_fields_ok_def thresholds_are_consistent_def default_policy_def default_volume_def percentage_def valid_bounds_def)

lemma sample_request_valid: "check_recovery_request sample_request"
  by code_simp

theorem every_trigger_is_answered_witness:
  "\<exists>p a. rl_action p \<in> {RA_LAND, RA_HOLD} \<and> authorize_recovery constant_kernel default_policy sample_declaration sample_request p = Inr a
     \<and> sa_authorized a"
proof -
  have "tighten default_policy (ms_policy_override sample_declaration) = Inr default_policy"
    using tighten_nothing [OF default_policy_valid] by (simp add: sample_declaration_def)
  with every_trigger_is_answered [of "\<lambda>_. sample_sha" "\<lambda>_. sample_sha" constant_hashes constant_kernel sample_request]
    sample_request_valid
  show ?thesis
    by (auto simp: constant_hashes_def constant_kernel_def sample_request_def sample_declaration_def)
qed

definition landing_proposal :: recovery_proposal where
  "landing_proposal = \<lparr>rl_request_id = ''q1'', rl_strategy = \<lparr>ps_plugin_id = ''recovery.low-battery'', ps_kind = RECOVERY_STRATEGY,
       ps_implementation_version = ''1.0.0'', ps_capabilities_used = {''LOW_BATTERY''}, ps_manifest_sha256 = sample_sha,
       ps_implementation_sha256 = sample_sha\<rparr>, rl_action = RA_LAND, rl_role_id = ''alpha'', rl_vehicle_id = ''v1'', rl_reason = ''low'',
     rl_preconditions = [], rl_deadline_s = 5, rl_fallback = RA_LAND, rl_required_evidence = [], rl_proposal_sha256 = sample_sha\<rparr>"

theorem kernel_admits_exactly_witness:
  "\<exists>a. authorize_recovery constant_kernel default_policy sample_declaration sample_request landing_proposal = Inr a \<and> sa_authorized a"
proof -
  obtain a where a: "authorize_recovery constant_kernel default_policy sample_declaration sample_request landing_proposal = Inr a"
    using tighten_nothing [OF default_policy_valid]
    by (simp add: authorize_recovery_def sample_declaration_def constant_kernel_def landing_proposal_def Let_def)
  from kernel_admits_exactly [OF a] a show ?thesis
    by (simp add: sample_request_def sample_declaration_def landing_proposal_def)
qed

end
