(* ===== verification/Intent.thy ===== *)
theory Intent
  imports Recovery
begin

text \<open>
  Declared mission intents and their compilation into an execution graph, \<open>planning/intent.py\<close>. The
  graph is checked by a depth-first search that carries the phases being visited and those reached.
\<close>

section \<open>Intents\<close>

datatype transition_kind =
    TK_COMPLETE | TK_HOLD | TK_RESUME | TK_REPLAN | TK_RETRY | TK_HANDOVER | TK_RETURN_HOME | TK_LAND | TK_ABORT

record intent_phase =
  ip_phase_id :: string
  ip_objective :: string
  ip_role_ids :: "string list"
  ip_route_capability :: route_capability
  ip_completion_conditions :: "string list"
  ip_maximum_duration_s :: real
  ip_checkpoint_required :: bool

definition check_phase :: "intent_phase \<Rightarrow> unit outcome" where
  "check_phase p =
     raise_first
       [(\<not> (valid_identifier (ip_phase_id p) \<and> 1 \<le> length (ip_objective p) \<and> length (ip_objective p) \<le> 500 \<and>
            list_all valid_identifier (ip_role_ids p) \<and> 0 < ip_maximum_duration_s p), ValidationError ''IntentPhase field''),
        (ip_role_ids p = [], ValidationError ''intent phase requires at least one role''),
        (ip_completion_conditions p = [], ValidationError ''intent phase requires completion conditions'')]"

record intent_transition =
  it_transition_id :: string
  it_from_phase_id :: string
  it_kind :: transition_kind
  it_to_phase_id :: "string option"
  it_maximum_retries :: int
  it_recovery_action :: "recovery_action option"

definition check_intent_transition :: "intent_transition \<Rightarrow> unit outcome" where
  "check_intent_transition t =
     raise_first
       [(\<not> (valid_identifier (it_transition_id t) \<and> valid_identifier (it_from_phase_id t) \<and>
            opt_all valid_identifier (it_to_phase_id t) \<and> 0 \<le> it_maximum_retries t \<and> it_maximum_retries t \<le> 10),
         ValidationError ''IntentTransition field''),
        (it_kind t = TK_RETRY \<and> it_maximum_retries t < 1, ValidationError ''retry transition requires a positive retry bound''),
        (it_kind t \<noteq> TK_RETRY \<and> it_maximum_retries t \<noteq> 0, ValidationError ''retry bound is only valid for retry transitions'')]"

datatype source_compatibility = RESTRICTED_PYTHON_EXPLICIT_ACTIONS | DECLARED_INTENT

record mission_intent =
  mi_intent_id :: string
  mi_mission_id :: string
  mi_objective :: string
  mi_success_criteria :: "string list"
  mi_role_ids :: "string list"
  mi_phases :: "intent_phase list"
  mi_entry_phase_id :: string
  mi_transitions :: "intent_transition list"
  mi_safety_declaration :: mission_safety_declaration
  mi_source_compatibility :: source_compatibility

definition check_intent :: "mission_intent \<Rightarrow> unit outcome" where
  "check_intent m =
     raise_first
       [(\<not> (valid_identifier (mi_intent_id m) \<and> valid_identifier (mi_mission_id m) \<and>
            1 \<le> length (mi_objective m) \<and> length (mi_objective m) \<le> 500 \<and>
            list_all valid_identifier (mi_role_ids m) \<and> valid_identifier (mi_entry_phase_id m)),
         ValidationError ''MissionIntent field''),
        (mi_success_criteria m = [], ValidationError ''mission intent requires success criteria''),
        (\<not> distinct (mi_role_ids m), ValidationError ''mission intent role identities must be unique''),
        (\<not> distinct (map ip_phase_id (mi_phases m)), ValidationError ''mission intent phase identities must be unique''),
        (mi_entry_phase_id m \<notin> set (map ip_phase_id (mi_phases m)), ValidationError ''mission intent entry phase is missing''),
        (list_ex (\<lambda>p. list_ex (\<lambda>r. r \<notin> set (mi_role_ids m)) (ip_role_ids p)) (mi_phases m),
         ValidationError ''intent phases reference unknown roles'')]"

section \<open>Execution graphs\<close>

record execution_node =
  en_node_id :: string
  en_phase_id :: string
  en_role_ids :: "string list"
  en_route_sha256s :: "string list"
  en_maximum_duration_s :: real
  en_completion_conditions :: "string list"

definition node_fields_ok :: "execution_node \<Rightarrow> bool" where
  "node_fields_ok n \<longleftrightarrow> valid_identifier (en_node_id n) \<and> valid_identifier (en_phase_id n) \<and>
     list_all valid_identifier (en_role_ids n) \<and> list_all valid_sha256 (en_route_sha256s n) \<and> 0 < en_maximum_duration_s n"

record execution_edge =
  ee_edge_id :: string
  ee_from_node_id :: string
  ee_kind :: transition_kind
  ee_to_node_id :: "string option"
  ee_maximum_retries :: int
  ee_recovery_action :: "recovery_action option"

definition edge_fields_ok :: "execution_edge \<Rightarrow> bool" where
  "edge_fields_ok e \<longleftrightarrow> valid_identifier (ee_edge_id e) \<and> valid_identifier (ee_from_node_id e) \<and>
     opt_all valid_identifier (ee_to_node_id e) \<and> 0 \<le> ee_maximum_retries e \<and> ee_maximum_retries e \<le> 10"

record execution_graph =
  eg_graph_id :: string
  eg_intent_sha256 :: string
  eg_entry_node_id :: string
  eg_nodes :: "execution_node list"
  eg_edges :: "execution_edge list"
  eg_selected_plugins :: "plugin_selection list"
  eg_graph_sha256 :: string

definition graph_fields_ok :: "execution_graph \<Rightarrow> bool" where
  "graph_fields_ok g \<longleftrightarrow> valid_identifier (eg_graph_id g) \<and> valid_sha256 (eg_intent_sha256 g) \<and>
     valid_identifier (eg_entry_node_id g) \<and> valid_sha256 (eg_graph_sha256 g)"

section \<open>The compiler\<close>

definition reject :: "string \<Rightarrow> 'a outcome" where
  "reject message = Inl (CrazySwarmError PREFLIGHT_FAILED message)"

text \<open>
  \<open>outgoing\<close> is a dictionary from every phase, in the order of the phases, to its transitions, in the
  order of the transitions.
\<close>

type_synonym outgoing = "(string, intent_transition list) dict"

definition start_outgoing :: "mission_intent \<Rightarrow> outgoing" where
  "start_outgoing m = map (\<lambda>p. (ip_phase_id p, [])) (mi_phases m)"

fun add_transitions :: "mission_intent \<Rightarrow> intent_transition list \<Rightarrow> outgoing \<Rightarrow> outgoing outcome" where
  "add_transitions m [] out = Inr out"
| "add_transitions m (t # ts) out =
     (let phases = set (map ip_phase_id (mi_phases m)) in
      if it_from_phase_id t \<notin> phases then reject ''transition source phase is missing''
      else if \<not> opt_all (\<lambda>p. p \<in> phases) (it_to_phase_id t) then reject ''transition target phase is missing''
      else if \<not> opt_all (\<lambda>a. a \<in> ms_allowed_recovery_actions (mi_safety_declaration m)) (it_recovery_action t)
        then reject ''transition recovery is outside the safety declaration''
      else case dict_get out (it_from_phase_id t) of
          None \<Rightarrow> Inl KeyError
        | Some us \<Rightarrow> add_transitions m ts (dict_set (it_from_phase_id t) (us @ [t]) out))"

definition targets_of :: "intent_transition list \<Rightarrow> string list" where
  "targets_of ts = concat (map (\<lambda>t. case it_to_phase_id t of Some p \<Rightarrow> [p] | None \<Rightarrow> []) ts)"

lemma bind_ok_cong [fundef_cong]:
  "m = m' \<Longrightarrow> (\<And>x. m' = Inr x \<Longrightarrow> f x = f' x) \<Longrightarrow> bind_ok m f = bind_ok m' f'"
  by (auto simp: bind_ok_def split: sum.splits)

text \<open>
  \<open>visit\<close> for each phase of a list. A phase is removed from \<open>visiting\<close> when its visit returns, and it
  was not there before, so the set the caller sees is its own. The depth of the interpreter's stack is
  not modelled.
\<close>

function visit_each :: "outgoing \<Rightarrow> string set \<Rightarrow> string set \<Rightarrow> string list \<Rightarrow> string set outcome" where
  "visit_each out visiting reachable [] = Inr reachable"
| "visit_each out visiting reachable (phase # phases) =
     bind_ok
       (if phase \<in> visiting then reject ''execution graph contains a cycle''
        else if phase \<in> reachable then Inr reachable
        else case dict_get out phase of
            None \<Rightarrow> Inl KeyError
          | Some ts \<Rightarrow> visit_each out (insert phase visiting) (insert phase reachable) (targets_of ts))
       (\<lambda>reachable'. visit_each out visiting reachable' phases)"
  by pat_completeness auto

lemma visit_each_grows:
  "visit_each_dom (out, visiting, reachable, phases) \<Longrightarrow> visit_each out visiting reachable phases = Inr r \<Longrightarrow> reachable \<subseteq> r"
proof (induction arbitrary: r rule: visit_each.pinduct)
  case (2 out visiting reachable phase phases)
  from 2(1,4) obtain r1 where r1: "(if phase \<in> visiting then reject ''execution graph contains a cycle''
        else if phase \<in> reachable then Inr reachable
        else case dict_get out phase of
            None \<Rightarrow> Inl KeyError
          | Some ts \<Rightarrow> visit_each out (insert phase visiting) (insert phase reachable) (targets_of ts)) = Inr r1"
    and r: "visit_each out visiting r1 phases = Inr r"
    by (auto simp: visit_each.psimps bind_ok_Inr)
  have "reachable \<subseteq> r1" using r1 2(2) by (auto simp: reject_def split: if_splits option.splits)
  moreover have "r1 \<subseteq> r" using 2(3) [OF r1 r] .
  ultimately show ?case by blast
qed (simp add: visit_each.psimps)

termination visit_each
proof (relation "inv_image (less_than <*lex*> less_than)
    (\<lambda>(out, visiting, reachable, phases). (card (set (dict_keys out) - reachable), length phases))")
  fix out :: outgoing and visiting reachable :: "string set" and phase :: string and phases :: "string list" and ts
  assume "phase \<notin> reachable" and get: "dict_get out phase = Some ts"
  then have "phase \<in> set (dict_keys out) - reachable" by (force dest: map_of_SomeD)
  then have "card (set (dict_keys out) - insert phase reachable) < card (set (dict_keys out) - reachable)"
    by (intro psubset_card_mono) auto
  then show "((out, insert phase visiting, insert phase reachable, targets_of ts), out, visiting, reachable, phase # phases)
      \<in> inv_image (less_than <*lex*> less_than) (\<lambda>(out, visiting, reachable, phases). (card (set (dict_keys out) - reachable), length phases))"
    by simp
next
  fix out :: outgoing and visiting reachable :: "string set" and phase :: string and phases :: "string list" and r
  assume r: "(if phase \<in> visiting then reject ''execution graph contains a cycle''
        else if phase \<in> reachable then Inr reachable
        else case dict_get out phase of
            None \<Rightarrow> Inl KeyError
          | Some ts \<Rightarrow> visit_each out (insert phase visiting) (insert phase reachable) (targets_of ts)) = Inr r"
    and dom: "\<And>ts. phase \<notin> visiting \<Longrightarrow> phase \<notin> reachable \<Longrightarrow> dict_get out phase = Some ts \<Longrightarrow>
      visit_each_dom (out, insert phase visiting, insert phase reachable, targets_of ts)"
  have "reachable \<subseteq> r" using r by (auto simp: reject_def split: if_splits option.splits dest: visit_each_grows [OF dom])
  then have "card (set (dict_keys out) - r) \<le> card (set (dict_keys out) - reachable)" by (intro card_mono) auto
  then show "((out, visiting, r, phases), out, visiting, reachable, phase # phases)
      \<in> inv_image (less_than <*lex*> less_than) (\<lambda>(out, visiting, reachable, phases). (card (set (dict_keys out) - reachable), length phases))"
    by auto
qed auto

definition visit :: "outgoing \<Rightarrow> string \<Rightarrow> string set outcome" where
  "visit out phase = visit_each out {} {} [phase]"

record graph_hashes =
  gh_intent :: "mission_intent \<Rightarrow> string"
  gh_graph :: "execution_graph \<Rightarrow> string"

definition route_by_role :: "route_plan_artifact list \<Rightarrow> (string, route_plan_artifact) dict" where
  "route_by_role routes = fold (\<lambda>r d. dict_set (rp_role_id r) r d) routes []"

definition node_of :: "(string, route_plan_artifact) dict \<Rightarrow> intent_phase \<Rightarrow> execution_node outcome" where
  "node_of routes p =
     bind_ok (map_ok (\<lambda>role. case dict_get routes role of None \<Rightarrow> Inl KeyError | Some r \<Rightarrow> Inr (rp_route_sha256 r)) (ip_role_ids p))
       (\<lambda>shas. let n = \<lparr>en_node_id = ''node-'' @ ip_phase_id p, en_phase_id = ip_phase_id p, en_role_ids = ip_role_ids p,
            en_route_sha256s = shas, en_maximum_duration_s = ip_maximum_duration_s p,
            en_completion_conditions = ip_completion_conditions p\<rparr>
          in if node_fields_ok n then Inr n else Inl (ValidationError ''ExecutionNode field''))"

definition edge_of :: "intent_transition \<Rightarrow> execution_edge outcome" where
  "edge_of t =
     (let e = \<lparr>ee_edge_id = ''edge-'' @ it_transition_id t, ee_from_node_id = ''node-'' @ it_from_phase_id t, ee_kind = it_kind t,
        ee_to_node_id = map_option (\<lambda>p. ''node-'' @ p) (it_to_phase_id t), ee_maximum_retries = it_maximum_retries t,
        ee_recovery_action = it_recovery_action t\<rparr>
      in if edge_fields_ok e then Inr e else Inl (ValidationError ''ExecutionEdge field''))"

definition build_graph ::
    "graph_hashes \<Rightarrow> mission_intent \<Rightarrow> (string, route_plan_artifact) dict \<Rightarrow> plugin_selection list \<Rightarrow> execution_graph outcome" where
  "build_graph G m routes selections =
     bind_ok (map_ok (node_of routes) (mi_phases m)) (\<lambda>nodes.
     bind_ok (map_ok edge_of (mi_transitions m)) (\<lambda>edges.
       let payload = \<lparr>eg_graph_id = ''graph-'' @ mi_intent_id m, eg_intent_sha256 = gh_intent G m,
             eg_entry_node_id = ''node-'' @ mi_entry_phase_id m, eg_nodes = nodes, eg_edges = edges,
             eg_selected_plugins = selections, eg_graph_sha256 = ''''\<rparr>;
           g = payload\<lparr>eg_graph_sha256 := gh_graph G payload\<rparr>
       in if graph_fields_ok g then Inr g else Inl (ValidationError ''ExecutionGraph field'')))"

definition compile_execution_graph ::
    "graph_hashes \<Rightarrow> mission_intent \<Rightarrow> route_plan_artifact list \<Rightarrow> plugin_selection list \<Rightarrow> execution_graph outcome" where
  "compile_execution_graph G m routes selections =
     (if \<not> set (mi_role_ids m) \<subseteq> set (dict_keys (route_by_role routes)) then reject ''intent roles are missing compiled routes''
      else bind_ok (add_transitions m (mi_transitions m) (start_outgoing m)) (\<lambda>out.
        bind_ok (visit out (mi_entry_phase_id m)) (\<lambda>reachable.
          if \<not> set (map ip_phase_id (mi_phases m)) \<subseteq> reachable then reject ''execution graph contains unreachable phases''
          else if list_ex (\<lambda>(_, ts). ts = []) out then reject ''execution phase has no bounded terminal transition''
          else build_graph G m (route_by_role routes) selections)))"

section \<open>The depth-first search\<close>

definition phase_edges :: "outgoing \<Rightarrow> (string \<times> string) set" where
  "phase_edges out = {(a, b). \<exists>ts. dict_get out a = Some ts \<and> b \<in> set (targets_of ts)}"

text \<open>
  What has been left behind: finished phases lead only to finished phases, and no cycle runs through them.
\<close>

definition finished :: "outgoing \<Rightarrow> string set \<Rightarrow> bool" where
  "finished out F \<longleftrightarrow> phase_edges out `` F \<subseteq> F \<and> (\<forall>x \<in> F. (x, x) \<notin> (phase_edges out)\<^sup>+)"

lemma finished_insert:
  assumes "finished out F" "p \<notin> F" "phase_edges out `` {p} \<subseteq> F"
  shows "finished out (insert p F)"
proof -
  have closed: "y \<in> F" if "(x, y) \<in> (phase_edges out)\<^sup>+" "x \<in> F" for x y
    using that assms(1) by (induction rule: trancl_induct) (auto simp: finished_def)
  have "(p, p) \<notin> (phase_edges out)\<^sup>+"
  proof
    assume "(p, p) \<in> (phase_edges out)\<^sup>+"
    then obtain y where "(p, y) \<in> phase_edges out" "(y, p) \<in> (phase_edges out)\<^sup>*" by (auto dest: tranclD)
    with assms closed [of y p] show False by (auto simp: rtrancl_eq_or_trancl)
  qed
  then show ?thesis using assms by (auto simp: finished_def)
qed

lemma subset_via: "r \<subseteq> s \<union> B \<Longrightarrow> s \<subseteq> R \<union> A \<Longrightarrow> r \<subseteq> R \<union> (A \<union> B)"
  by blast

lemma visit_each_sound:
  assumes "visit_each out visiting reachable phases = Inr r" "visiting \<subseteq> reachable" "finished out (reachable - visiting)"
  shows "reachable \<subseteq> r \<and> finished out (r - visiting) \<and> set phases \<subseteq> r - visiting
    \<and> r \<subseteq> reachable \<union> (phase_edges out)\<^sup>* `` set phases"
  using assms
proof (induction out visiting reachable phases arbitrary: r rule: visit_each.induct)
  case (2 out visiting reachable phase phases)
  let ?first = "if phase \<in> visiting then reject ''execution graph contains a cycle''
        else if phase \<in> reachable then Inr reachable
        else case dict_get out phase of
            None \<Rightarrow> Inl KeyError
          | Some ts \<Rightarrow> visit_each out (insert phase visiting) (insert phase reachable) (targets_of ts)"
  from "2.prems"(1) obtain r1 where r1: "?first = Inr r1" and r: "visit_each out visiting r1 phases = Inr r"
    by (auto simp: bind_ok_Inr)
  have new: "phase \<notin> visiting" using r1 by (auto simp: reject_def split: if_splits)
  have step: "reachable \<subseteq> r1 \<and> finished out (r1 - visiting) \<and> phase \<in> r1 \<and> r1 \<subseteq> reachable \<union> (phase_edges out)\<^sup>* `` {phase}"
  proof (cases "phase \<in> reachable")
    case True
    with r1 new "2.prems" show ?thesis by auto
  next
    case False
    with r1 new obtain ts where ts: "dict_get out phase = Some ts"
      and inner: "visit_each out (insert phase visiting) (insert phase reachable) (targets_of ts) = Inr r1"
      by (auto split: option.splits)
    have same: "insert phase reachable - insert phase visiting = reachable - visiting" using False by auto
    have succ: "phase_edges out `` {phase} = set (targets_of ts)" using ts by (auto simp: phase_edges_def)
    have ih: "insert phase reachable \<subseteq> r1" "finished out (r1 - insert phase visiting)" "set (targets_of ts) \<subseteq> r1 - insert phase visiting"
      "r1 \<subseteq> insert phase reachable \<union> (phase_edges out)\<^sup>* `` set (targets_of ts)"
      using "2.IH"(1) [OF new False ts inner] "2.prems"(2,3) unfolding same by auto
    have "r1 - visiting = insert phase (r1 - insert phase visiting)" using ih(1) new by auto
    moreover have "finished out (insert phase (r1 - insert phase visiting))"
      using ih(2,3) succ by (intro finished_insert) auto
    moreover have below: "(phase_edges out)\<^sup>* `` set (targets_of ts) \<subseteq> (phase_edges out)\<^sup>* `` {phase}"
      unfolding succ [symmetric] by (auto intro: converse_rtrancl_into_rtrancl)
    moreover have "phase \<in> (phase_edges out)\<^sup>* `` {phase}" by simp
    then have "r1 \<subseteq> reachable \<union> (phase_edges out)\<^sup>* `` {phase}" using ih(4) below by blast
    ultimately show ?thesis using ih(1) by simp
  qed
  have rest: "r1 \<subseteq> r" "finished out (r - visiting)" "set phases \<subseteq> r - visiting" "r \<subseteq> r1 \<union> (phase_edges out)\<^sup>* `` set phases"
    using "2.IH"(2) [OF r1 r] step "2.prems"(2) by blast+
  have "(phase_edges out)\<^sup>* `` set (phase # phases) = (phase_edges out)\<^sup>* `` {phase} \<union> (phase_edges out)\<^sup>* `` set phases"
    by auto
  moreover have "r \<subseteq> reachable \<union> ((phase_edges out)\<^sup>* `` {phase} \<union> (phase_edges out)\<^sup>* `` set phases)"
    using step rest(4) by (intro subset_via) auto
  moreover have "set (phase # phases) \<subseteq> r - visiting" using step rest(1,3) new by auto
  ultimately show ?case using step rest(1,2) by (metis order_trans)
qed auto

lemma visit_each_complete:
  assumes "visit_each out visiting reachable phases = Inl e"
    and "\<forall>v \<in> visiting. \<forall>p \<in> set phases. (v, p) \<in> (phase_edges out)\<^sup>+"
    and "set phases \<subseteq> set (dict_keys out)" "phase_edges out `` UNIV \<subseteq> set (dict_keys out)"
  shows "Inl e = (reject ''execution graph contains a cycle'' :: unit outcome)
    \<and> (\<exists>x. (x, x) \<in> (phase_edges out)\<^sup>+ \<and> x \<in> (phase_edges out)\<^sup>* `` set phases)"
  using assms
proof (induction out visiting reachable phases arbitrary: e rule: visit_each.induct)
  case (2 out visiting reachable phase phases)
  let ?first = "if phase \<in> visiting then reject ''execution graph contains a cycle''
        else if phase \<in> reachable then Inr reachable
        else case dict_get out phase of
            None \<Rightarrow> Inl KeyError
          | Some ts \<Rightarrow> visit_each out (insert phase visiting) (insert phase reachable) (targets_of ts)"
  obtain ts where ts: "dict_get out phase = Some ts" using "2.prems"(3) by (auto dest: weak_map_of_SomeI)
  then have succ: "(phase, q) \<in> phase_edges out" if "q \<in> set (targets_of ts)" for q using that by (auto simp: phase_edges_def)
  show ?case
  proof (cases ?first)
    case (Inr r1)
    with "2.prems"(1) have "visit_each out visiting r1 phases = Inl e" by simp
    from "2.IH"(2) [OF Inr this] "2.prems"(2-4) show ?thesis by auto
  next
    case (Inl e')
    show ?thesis
    proof (cases "phase \<in> visiting")
      case True
      with "2.prems"(1,2) show ?thesis by (auto simp: reject_def)
    next
      case False
      with Inl ts have new: "phase \<notin> reachable" and inner: "visit_each out (insert phase visiting) (insert phase reachable) (targets_of ts) = Inl e'"
        by (auto split: if_splits)
      have "Inl e' = (reject ''execution graph contains a cycle'' :: unit outcome)
          \<and> (\<exists>x. (x, x) \<in> (phase_edges out)\<^sup>+ \<and> x \<in> (phase_edges out)\<^sup>* `` set (targets_of ts))"
      proof (rule "2.IH"(1) [OF False new ts inner])
        show "\<forall>v \<in> insert phase visiting. \<forall>q \<in> set (targets_of ts). (v, q) \<in> (phase_edges out)\<^sup>+"
          using "2.prems"(2) succ by (auto intro: trancl_into_trancl)
        show "set (targets_of ts) \<subseteq> set (dict_keys out)" using succ "2.prems"(4) by blast
      qed (rule "2.prems"(4))
      moreover have "e = e'" using "2.prems"(1) Inl by simp
      ultimately show ?thesis using succ by (auto intro: converse_rtrancl_into_rtrancl)
    qed
  qed
qed auto

lemma visit_reaches:
  assumes "visit out p = Inr r"
  shows "r = (phase_edges out)\<^sup>* `` {p} \<and> finished out r"
proof -
  from visit_each_sound [OF assms [unfolded visit_def]]
  have r: "finished out r" "p \<in> r" "r \<subseteq> (phase_edges out)\<^sup>* `` {p}" by (auto simp: finished_def)
  have "y \<in> r" if "(p, y) \<in> (phase_edges out)\<^sup>*" for y
    using that r(1,2) by (induction rule: rtrancl_induct) (auto simp: finished_def)
  with r show ?thesis by auto
qed

section \<open>The transition table\<close>

definition intent_edges :: "mission_intent \<Rightarrow> (string \<times> string) set" where
  "intent_edges m = {(it_from_phase_id t, p) | t p. t \<in> set (mi_transitions m) \<and> it_to_phase_id t = Some p}"

definition phase_ids :: "mission_intent \<Rightarrow> string set" where
  "phase_ids m = ip_phase_id ` set (mi_phases m)"

definition transition_ok :: "mission_intent \<Rightarrow> intent_transition \<Rightarrow> bool" where
  "transition_ok m t \<longleftrightarrow> it_from_phase_id t \<in> phase_ids m \<and> opt_all (\<lambda>p. p \<in> phase_ids m) (it_to_phase_id t)
     \<and> opt_all (\<lambda>a. a \<in> ms_allowed_recovery_actions (mi_safety_declaration m)) (it_recovery_action t)"

definition leaving :: "intent_transition list \<Rightarrow> string \<Rightarrow> intent_transition list" where
  "leaving ts p = filter (\<lambda>t. it_from_phase_id t = p) ts"

lemma add_transitions_ok:
  assumes "set (dict_keys out) = phase_ids m"
  shows "(list_all (transition_ok m) ts \<longrightarrow> (\<exists>out'. add_transitions m ts out = Inr out' \<and> dict_keys out' = dict_keys out
       \<and> (\<forall>p us. dict_get out p = Some us \<longrightarrow> dict_get out' p = Some (us @ leaving ts p))))
    \<and> (\<not> list_all (transition_ok m) ts \<longrightarrow> (\<exists>msg. add_transitions m ts out = reject msg))"
  using assms
proof (induction ts arbitrary: out)
  case Nil
  then show ?case by (simp add: leaving_def)
next
  case (Cons t ts)
  show ?case
  proof (cases "transition_ok m t")
    case False
    then show ?thesis by (auto simp: transition_ok_def reject_def Let_def phase_ids_def)
  next
    case True
    then have "it_from_phase_id t \<in> set (dict_keys out)" using Cons.prems by (simp add: transition_ok_def)
    then obtain us where us: "dict_get out (it_from_phase_id t) = Some us" by (auto dest: weak_map_of_SomeI)
    let ?out = "dict_set (it_from_phase_id t) (us @ [t]) out"
    have keys: "dict_keys ?out = dict_keys out" using \<open>it_from_phase_id t \<in> _\<close> by (simp only: dict_keys_set if_True)
    have step: "add_transitions m (t # ts) out = add_transitions m ts ?out"
      using True us by (auto simp: transition_ok_def Let_def phase_ids_def)
    have extend: "dict_get out' p = Some (us @ leaving (t # ts) p)"
      if "\<forall>p us. dict_get ?out p = Some us \<longrightarrow> dict_get out' p = Some (us @ leaving ts p)" "dict_get out p = Some us" for out' p us
      using that us by (auto simp: leaving_def)
    have ih: "set (dict_keys ?out) = phase_ids m" using keys Cons.prems by simp
    show ?thesis
    proof (cases "list_all (transition_ok m) ts")
      case all: True
      with Cons.IH [OF ih] obtain out' where out': "add_transitions m ts ?out = Inr out'" "dict_keys out' = dict_keys ?out"
        "\<forall>p us. dict_get ?out p = Some us \<longrightarrow> dict_get out' p = Some (us @ leaving ts p)" by blast
      have "list_all (transition_ok m) (t # ts)" using all True by simp
      moreover have "\<exists>out'. add_transitions m (t # ts) out = Inr out' \<and> dict_keys out' = dict_keys out
          \<and> (\<forall>p us. dict_get out p = Some us \<longrightarrow> dict_get out' p = Some (us @ leaving (t # ts) p))"
        using out'(1,2) extend [OF out'(3)] unfolding step keys by blast
      ultimately show ?thesis by blast
    next
      case False
      then have "\<not> list_all (transition_ok m) (t # ts)" by simp
      with Cons.IH [OF ih] False show ?thesis unfolding step by blast
    qed
  qed
qed

lemma map_of_const: "p \<in> f ` set xs \<Longrightarrow> map_of (map (\<lambda>x. (f x, c)) xs) p = Some c"
  by (induction xs) auto

lemma outgoing_of_intent:
  assumes "check_intent m = Inr ()"
  shows "(list_all (transition_ok m) (mi_transitions m) \<longrightarrow> (\<exists>out. add_transitions m (mi_transitions m) (start_outgoing m) = Inr out
       \<and> dict_keys out = map ip_phase_id (mi_phases m) \<and> dict_wf out
       \<and> (\<forall>p \<in> phase_ids m. dict_get out p = Some (leaving (mi_transitions m) p)) \<and> phase_edges out = intent_edges m))
    \<and> (\<not> list_all (transition_ok m) (mi_transitions m) \<longrightarrow> (\<exists>msg. add_transitions m (mi_transitions m) (start_outgoing m) = reject msg))"
proof -
  have dist: "distinct (map ip_phase_id (mi_phases m))" using assms unfolding check_intent_def raise_first_Inr by simp
  have keys: "dict_keys (start_outgoing m) = map ip_phase_id (mi_phases m)" by (simp add: start_outgoing_def o_def)
  have start: "dict_get (start_outgoing m) p = Some []" if "p \<in> phase_ids m" for p
    using that unfolding start_outgoing_def phase_ids_def by (rule map_of_const)
  have edges: "phase_edges out = intent_edges m"
    if k: "dict_keys out = map ip_phase_id (mi_phases m)" and ts: "list_all (transition_ok m) (mi_transitions m)"
      and get: "\<forall>p \<in> phase_ids m. dict_get out p = Some (leaving (mi_transitions m) p)" for out
  proof -
    have dom: "p \<in> phase_ids m" if "dict_get out p = Some us" for p us
      using that k by (metis map_of_SomeD fst_conv image_eqI image_set phase_ids_def)
    have from_phase: "it_from_phase_id t \<in> phase_ids m" if "t \<in> set (mi_transitions m)" for t
      using that ts by (auto simp: list_all_iff transition_ok_def)
    show ?thesis
    proof (intro set_eqI iffI; clarify)
      fix a b assume "(a, b) \<in> phase_edges out"
      then obtain us where us: "dict_get out a = Some us" "b \<in> set (targets_of us)" by (auto simp: phase_edges_def)
      with dom get have "us = leaving (mi_transitions m) a" by fastforce
      with us(2) show "(a, b) \<in> intent_edges m"
        by (force simp: targets_of_def leaving_def intent_edges_def split: option.splits)
    next
      fix a b assume "(a, b) \<in> intent_edges m"
      then obtain t where "t \<in> set (mi_transitions m)" "it_from_phase_id t = a" "it_to_phase_id t = Some b"
        by (auto simp: intent_edges_def)
      with get from_phase show "(a, b) \<in> phase_edges out"
        by (force simp: phase_edges_def targets_of_def leaving_def)
    qed
  qed
  from add_transitions_ok [of "start_outgoing m" m "mi_transitions m"] keys
  have "(list_all (transition_ok m) (mi_transitions m) \<longrightarrow> (\<exists>out. add_transitions m (mi_transitions m) (start_outgoing m) = Inr out
       \<and> dict_keys out = map ip_phase_id (mi_phases m)
       \<and> (\<forall>p us. dict_get (start_outgoing m) p = Some us \<longrightarrow> dict_get out p = Some (us @ leaving (mi_transitions m) p))))
    \<and> (\<not> list_all (transition_ok m) (mi_transitions m) \<longrightarrow> (\<exists>msg. add_transitions m (mi_transitions m) (start_outgoing m) = reject msg))"
    by (simp add: phase_ids_def)
  then show ?thesis using start edges dist by (fastforce simp: dict_wf_def)
qed

section \<open>What the compiler accepts\<close>

definition well_routed :: "mission_intent \<Rightarrow> route_plan_artifact list \<Rightarrow> bool" where
  "well_routed m routes \<longleftrightarrow> set (mi_role_ids m) \<subseteq> rp_role_id ` set routes"

definition well_formed_graph :: "mission_intent \<Rightarrow> bool" where
  "well_formed_graph m \<longleftrightarrow> list_all (transition_ok m) (mi_transitions m) \<and> acyclic (intent_edges m)
     \<and> phase_ids m \<subseteq> (intent_edges m)\<^sup>* `` {mi_entry_phase_id m}
     \<and> phase_ids m \<subseteq> it_from_phase_id ` set (mi_transitions m)"

lemma route_by_role_keys: "set (dict_keys (route_by_role routes)) = rp_role_id ` set routes"
proof -
  have "set (dict_keys (fold (\<lambda>r d. dict_set (rp_role_id r) r d) routes d)) = set (dict_keys d) \<union> rp_role_id ` set routes" for d
    by (induction routes arbitrary: d) (auto simp: dict_keys_set simp del: set_map)
  then show ?thesis by (simp add: route_by_role_def)
qed

lemma intent_edges_phases:
  assumes "list_all (transition_ok m) (mi_transitions m)"
  shows "intent_edges m \<subseteq> phase_ids m \<times> phase_ids m"
  using assms by (fastforce simp: intent_edges_def list_all_iff transition_ok_def)

lemma visit_verdict:
  assumes out: "set (dict_keys out) = phase_ids m" "phase_edges out = intent_edges m"
    and ok: "list_all (transition_ok m) (mi_transitions m)" and entry: "mi_entry_phase_id m \<in> phase_ids m"
  shows "(\<exists>r. visit out (mi_entry_phase_id m) = Inr r \<and> r = (intent_edges m)\<^sup>* `` {mi_entry_phase_id m}
       \<and> (phase_ids m \<subseteq> r \<longrightarrow> acyclic (intent_edges m)))
    \<or> (\<exists>msg. visit out (mi_entry_phase_id m) = reject msg) \<and> \<not> acyclic (intent_edges m)"
proof (cases "visit out (mi_entry_phase_id m)")
  case (Inr r)
  from visit_reaches [OF Inr] have r: "r = (intent_edges m)\<^sup>* `` {mi_entry_phase_id m}" "finished out r" unfolding out(2) by auto
  have "acyclic (intent_edges m)" if "phase_ids m \<subseteq> r"
    unfolding acyclic_def
  proof (intro allI notI)
    fix x assume c: "(x, x) \<in> (intent_edges m)\<^sup>+"
    then have "x \<in> phase_ids m" using intent_edges_phases [OF ok] by (auto dest: tranclD)
    with that c r(2) out(2) show False by (auto simp: finished_def)
  qed
  with Inr r(1) show ?thesis by blast
next
  case (Inl e)
  have "Inl e = (reject ''execution graph contains a cycle'' :: unit outcome)
      \<and> (\<exists>x. (x, x) \<in> (phase_edges out)\<^sup>+ \<and> x \<in> (phase_edges out)\<^sup>* `` set [mi_entry_phase_id m])"
  proof (rule visit_each_complete [OF Inl [unfolded visit_def]])
    show "phase_edges out `` UNIV \<subseteq> set (dict_keys out)" using intent_edges_phases [OF ok] unfolding out by blast
  qed (use entry out(1) in auto)
  then have "\<exists>msg. visit out (mi_entry_phase_id m) = reject msg" "\<exists>x. (x, x) \<in> (phase_edges out)\<^sup>+"
    using Inl by (auto simp: reject_def)
  then show ?thesis unfolding out(2) acyclic_def by blast
qed

lemma empty_entry:
  assumes "dict_keys out = map ip_phase_id (mi_phases m)" "dict_wf out"
    "\<forall>p \<in> phase_ids m. dict_get out p = Some (leaving (mi_transitions m) p)"
  shows "list_ex (\<lambda>(_, ts). ts = []) out \<longleftrightarrow> \<not> phase_ids m \<subseteq> it_from_phase_id ` set (mi_transitions m)"
proof -
  have get: "(p, ts) \<in> set out \<longleftrightarrow> p \<in> phase_ids m \<and> ts = leaving (mi_transitions m) p" for p ts
  proof
    assume a: "(p, ts) \<in> set out"
    then have "p \<in> phase_ids m" using assms(1) by (metis fst_conv image_eqI image_set phase_ids_def)
    moreover have "dict_get out p = Some ts" using a assms(2) by (auto simp: dict_wf_def)
    ultimately show "p \<in> phase_ids m \<and> ts = leaving (mi_transitions m) p" using assms(3) by simp
  next
    assume "p \<in> phase_ids m \<and> ts = leaving (mi_transitions m) p"
    with assms(3) show "(p, ts) \<in> set out" by (auto dest: map_of_SomeD)
  qed
  have "list_ex (\<lambda>(_, ts). ts = []) out \<longleftrightarrow> (\<exists>p \<in> phase_ids m. leaving (mi_transitions m) p = [])"
    unfolding list_ex_iff Bex_def split_paired_Ex by (auto simp: get)
  moreover have "leaving (mi_transitions m) p = [] \<longleftrightarrow> p \<notin> it_from_phase_id ` set (mi_transitions m)" for p
    by (auto simp: leaving_def filter_empty_conv)
  ultimately show ?thesis by blast
qed

lemma compiler_verdict:
  assumes "check_intent m = Inr ()"
  shows "(well_routed m routes \<and> well_formed_graph m \<longrightarrow>
        compile_execution_graph G m routes selections = build_graph G m (route_by_role routes) selections)
    \<and> (\<not> (well_routed m routes \<and> well_formed_graph m) \<longrightarrow> (\<exists>msg. compile_execution_graph G m routes selections = reject msg))"
proof (cases "well_routed m routes \<and> list_all (transition_ok m) (mi_transitions m)")
  case False
  have "\<exists>msg. compile_execution_graph G m routes selections = reject msg"
  proof (cases "well_routed m routes")
    case True
    with False outgoing_of_intent [OF assms] obtain msg where "add_transitions m (mi_transitions m) (start_outgoing m) = reject msg" by blast
    then show ?thesis by (simp add: compile_execution_graph_def reject_def)
  qed (auto simp: compile_execution_graph_def route_by_role_keys well_routed_def simp del: set_map)
  with False show ?thesis by (auto simp: well_formed_graph_def)
next
  case True
  then obtain out where out: "add_transitions m (mi_transitions m) (start_outgoing m) = Inr out"
    "dict_keys out = map ip_phase_id (mi_phases m)" "dict_wf out"
    "\<forall>p \<in> phase_ids m. dict_get out p = Some (leaving (mi_transitions m) p)" "phase_edges out = intent_edges m"
    using outgoing_of_intent [OF assms] by blast
  have entry: "mi_entry_phase_id m \<in> phase_ids m" using assms unfolding check_intent_def raise_first_Inr by (simp add: phase_ids_def)
  have keys: "set (dict_keys out) = phase_ids m" using out(2) by (simp add: phase_ids_def)
  have ids: "set (map ip_phase_id (mi_phases m)) = phase_ids m" by (simp add: phase_ids_def)
  have routed: "\<not> \<not> set (mi_role_ids m) \<subseteq> set (dict_keys (route_by_role routes))"
    using True unfolding route_by_role_keys well_routed_def by simp
  have c: "compile_execution_graph G m routes selections = bind_ok (visit out (mi_entry_phase_id m)) (\<lambda>reachable.
          if \<not> phase_ids m \<subseteq> reachable then reject ''execution graph contains unreachable phases''
          else if \<not> phase_ids m \<subseteq> it_from_phase_id ` set (mi_transitions m) then reject ''execution phase has no bounded terminal transition''
          else build_graph G m (route_by_role routes) selections)"
    unfolding compile_execution_graph_def ids out(1) bind_ok_simps empty_entry [OF out(2-4)] if_not_P [OF routed] ..
  from visit_verdict [OF keys out(5) conjunct2 [OF True] entry] show ?thesis
  proof (elim disjE exE conjE)
    fix r assume r: "visit out (mi_entry_phase_id m) = Inr r" "r = (intent_edges m)\<^sup>* `` {mi_entry_phase_id m}"
      "phase_ids m \<subseteq> r \<longrightarrow> acyclic (intent_edges m)"
    have "well_formed_graph m \<longleftrightarrow> phase_ids m \<subseteq> r \<and> phase_ids m \<subseteq> it_from_phase_id ` set (mi_transitions m)"
      using True r(2,3) unfolding well_formed_graph_def by blast
    with True show ?thesis unfolding c r(1) bind_ok_simps by (auto simp: reject_def)
  next
    fix msg assume "visit out (mi_entry_phase_id m) = reject msg" "\<not> acyclic (intent_edges m)"
    then show ?thesis unfolding c well_formed_graph_def by (simp add: reject_def)
  qed
qed

text \<open>
  The parts of an intent as pydantic validates them when they are constructed, the digest of a route,
  and the digests of the intent and the graph, which are computed SHA-256 values.
\<close>

definition validated_parts :: "graph_hashes \<Rightarrow> mission_intent \<Rightarrow> route_plan_artifact list \<Rightarrow> bool" where
  "validated_parts G m routes \<longleftrightarrow> check_intent m = Inr ()
     \<and> (\<forall>p \<in> set (mi_phases m). check_phase p = Inr ()) \<and> (\<forall>t \<in> set (mi_transitions m). check_intent_transition t = Inr ())
     \<and> (\<forall>r \<in> set routes. valid_sha256 (rp_route_sha256 r))
     \<and> valid_sha256 (gh_intent G m) \<and> (\<forall>g. valid_sha256 (gh_graph G g))"

text \<open>The identifiers that are still identifiers behind the prefix of a node, an edge or a graph.\<close>

definition names_fit :: "mission_intent \<Rightarrow> bool" where
  "names_fit m \<longleftrightarrow> length (mi_intent_id m) \<le> 90 \<and> list_all (\<lambda>p. length (ip_phase_id p) \<le> 91) (mi_phases m)
     \<and> list_all (\<lambda>t. length (it_transition_id t) \<le> 91) (mi_transitions m)"

lemma identifier_chars: "valid_identifier s \<Longrightarrow> list_all identifier_char s"
  by (cases s) (auto simp: valid_identifier_def identifier_char_def)

lemma prefixed_identifier:
  assumes "valid_identifier s"
  shows "valid_identifier (''node-'' @ s) \<longleftrightarrow> length s \<le> 91" "valid_identifier (''edge-'' @ s) \<longleftrightarrow> length s \<le> 91"
    "valid_identifier (''graph-'' @ s) \<longleftrightarrow> length s \<le> 90"
  using identifier_chars [OF assms] by (auto simp: valid_identifier_def identifier_char_def ascii_alnum_def)

lemma map_ok_total: "\<forall>x \<in> set xs. \<exists>y. f x = Inr y \<Longrightarrow> \<exists>ys. map_ok f xs = Inr ys"
  by (induction xs) fastforce+

lemma map_ok_total_or_error:
  assumes "\<forall>x \<in> set xs. if P x then \<exists>y. f x = Inr y else \<exists>msg. f x = Inl (ValidationError msg)"
  shows "if list_all P xs then \<exists>ys. map_ok f xs = Inr ys else \<exists>msg. map_ok f xs = Inl (ValidationError msg)"
  using assms by (induction xs) (fastforce split: if_splits)+

lemma route_by_role_routes: "dict_get (route_by_role routes) role = Some r \<Longrightarrow> r \<in> set routes"
proof -
  have "dict_get (fold (\<lambda>r d. dict_set (rp_role_id r) r d) routes d) role = Some r \<Longrightarrow> r \<in> set routes \<or> dict_get d role = Some r" for d
    by (induction routes arbitrary: d) (fastforce split: if_splits)+
  from this [of "[]"] show "dict_get (route_by_role routes) role = Some r \<Longrightarrow> r \<in> set routes" by (simp add: route_by_role_def)
qed

lemma node_verdict:
  assumes "check_phase p = Inr ()" "set (ip_role_ids p) \<subseteq> rp_role_id ` set routes" "\<forall>r \<in> set routes. valid_sha256 (rp_route_sha256 r)"
  shows "if length (ip_phase_id p) \<le> 91 then \<exists>n. node_of (route_by_role routes) p = Inr n
    else \<exists>msg. node_of (route_by_role routes) p = Inl (ValidationError msg)"
proof -
  let ?sha = "\<lambda>role. case dict_get (route_by_role routes) role of None \<Rightarrow> Inl KeyError | Some r \<Rightarrow> Inr (rp_route_sha256 r)"
  have p: "valid_identifier (ip_phase_id p)" "list_all valid_identifier (ip_role_ids p)" "0 < ip_maximum_duration_s p"
    using assms(1) unfolding check_phase_def raise_first_Inr by simp_all
  have "\<exists>r. dict_get (route_by_role routes) role = Some r" if "role \<in> set (ip_role_ids p)" for role
    using assms(2) that unfolding route_by_role_keys [symmetric] by (metis map_of_eq_None_iff not_None_eq set_map subsetD)
  then have "\<forall>role \<in> set (ip_role_ids p). \<exists>s. ?sha role = Inr s" by fastforce
  from map_ok_total [OF this] obtain shas where shas: "map_ok ?sha (ip_role_ids p) = Inr shas" by blast
  have "valid_sha256 s" if "?sha role = Inr s" for role s
    using that assms(3) route_by_role_routes by (auto split: option.splits)
  with list_all2_mono [OF shas [unfolded map_ok_Inr], of "\<lambda>_. valid_sha256"] have "list_all2 (\<lambda>_. valid_sha256) (ip_role_ids p) shas" by blast
  then have "list_all valid_sha256 shas" by (induction rule: list_all2_induct) simp_all
  with p prefixed_identifier(1) [OF p(1)] shas show ?thesis by (simp add: node_of_def node_fields_ok_def Let_def)
qed

lemma edge_verdict:
  assumes "check_intent_transition t = Inr ()" "length (it_from_phase_id t) \<le> 91" "opt_all (\<lambda>p. length p \<le> 91) (it_to_phase_id t)"
  shows "if length (it_transition_id t) \<le> 91 then \<exists>e. edge_of t = Inr e else \<exists>msg. edge_of t = Inl (ValidationError msg)"
proof -
  have t: "valid_identifier (it_transition_id t)" "valid_identifier (it_from_phase_id t)" "opt_all valid_identifier (it_to_phase_id t)"
    "0 \<le> it_maximum_retries t" "it_maximum_retries t \<le> 10"
    using assms(1) unfolding check_intent_transition_def raise_first_Inr by simp_all
  have "opt_all valid_identifier (map_option (\<lambda>p. ''node-'' @ p) (it_to_phase_id t))"
    using t(3) assms(3) prefixed_identifier(1) by (cases "it_to_phase_id t") simp_all
  with t prefixed_identifier(2) [OF t(1)] prefixed_identifier(1) [OF t(2)] assms(2)
  show ?thesis by (simp add: edge_of_def edge_fields_ok_def Let_def)
qed

lemma build_graph_verdict:
  assumes "validated_parts G m routes" "well_routed m routes" "well_formed_graph m"
  shows "if names_fit m then \<exists>g. build_graph G m (route_by_role routes) selections = Inr g
    else \<exists>msg. build_graph G m (route_by_role routes) selections = Inl (ValidationError msg)"
proof -
  note v = assms(1) [unfolded validated_parts_def]
  have m: "valid_identifier (mi_intent_id m)" "valid_identifier (mi_entry_phase_id m)" "mi_entry_phase_id m \<in> phase_ids m"
    "\<forall>p \<in> set (mi_phases m). set (ip_role_ids p) \<subseteq> set (mi_role_ids m)"
    using v unfolding check_intent_def raise_first_Inr by (auto simp: phase_ids_def list_ex_iff)
  have "\<forall>p \<in> set (mi_phases m). if length (ip_phase_id p) \<le> 91 then \<exists>n. node_of (route_by_role routes) p = Inr n
      else \<exists>msg. node_of (route_by_role routes) p = Inl (ValidationError msg)"
    using v m(4) assms(2) node_verdict unfolding well_routed_def by (meson order_trans)
  note nodes = map_ok_total_or_error [OF this]
  show ?thesis
  proof (cases "list_all (\<lambda>p. length (ip_phase_id p) \<le> 91) (mi_phases m)")
    case False
    with nodes show ?thesis by (auto simp: build_graph_def names_fit_def bind_ok_def)
  next
    case True
    then have short: "length q \<le> 91" if "q \<in> phase_ids m" for q using that by (auto simp: phase_ids_def list_all_iff)
    have "\<forall>t \<in> set (mi_transitions m). if length (it_transition_id t) \<le> 91 then \<exists>e. edge_of t = Inr e
        else \<exists>msg. edge_of t = Inl (ValidationError msg)"
    proof
      fix t assume t: "t \<in> set (mi_transitions m)"
      then have "transition_ok m t" using assms(3) by (simp add: well_formed_graph_def list_all_iff)
      then have "length (it_from_phase_id t) \<le> 91" "opt_all (\<lambda>p. length p \<le> 91) (it_to_phase_id t)"
        using short by (auto simp: transition_ok_def opt_all_def split: option.splits)
      with t v edge_verdict show "if length (it_transition_id t) \<le> 91 then \<exists>e. edge_of t = Inr e
        else \<exists>msg. edge_of t = Inl (ValidationError msg)" by blast
    qed
    note edges = map_ok_total_or_error [OF this]
    from True nodes obtain ns where ns: "map_ok (node_of (route_by_role routes)) (mi_phases m) = Inr ns" by auto
    show ?thesis
    proof (cases "list_all (\<lambda>t. length (it_transition_id t) \<le> 91) (mi_transitions m)")
      case late: True
      with edges obtain es where "map_ok edge_of (mi_transitions m) = Inr es" by auto
      with late True v prefixed_identifier(1) [OF m(2)] short [OF m(3)] prefixed_identifier(3) [OF m(1)] show ?thesis
        by (simp add: build_graph_def names_fit_def ns graph_fields_ok_def Let_def)
    next
      case False
      with edges show ?thesis by (auto simp: build_graph_def names_fit_def ns)
    qed
  qed
qed

text \<open>
  C16. The compiler accepts exactly the well-formed missions. Given validated parts, it returns a graph if
  and only if every role has a route, every transition joins declared phases with an allow-listed
  recovery, the phases form no cycle, each is reachable from the entry and has a transition out, and the
  identifiers leave room for the prefixes of nodes, edges and the graph. A mission that fails one of the
  former conditions is rejected with PREFLIGHT_FAILED; one that only has too long an identifier fails the
  validation of the graph. There is no other exception. A retry back to its own phase or to one before
  it is a cycle as well and rejected whatever its bound (\<open>retry_in_place_is_rejected\<close>): a bounded retry is
  accepted only on the way to a later phase or with no target.
\<close>

theorem compiler_accepts_exactly:
  assumes "validated_parts G m routes"
  shows "((\<exists>g. compile_execution_graph G m routes selections = Inr g) \<longleftrightarrow> well_routed m routes \<and> well_formed_graph m \<and> names_fit m)
    \<and> (\<not> (well_routed m routes \<and> well_formed_graph m) \<longrightarrow> (\<exists>msg. compile_execution_graph G m routes selections = reject msg))
    \<and> (well_routed m routes \<and> well_formed_graph m \<and> \<not> names_fit m \<longrightarrow>
        (\<exists>msg. compile_execution_graph G m routes selections = Inl (ValidationError msg)))"
proof -
  have "check_intent m = Inr ()" using assms by (simp add: validated_parts_def)
  note verdict = compiler_verdict [OF this, of routes G selections]
  show ?thesis
  proof (cases "well_routed m routes \<and> well_formed_graph m")
    case True
    with build_graph_verdict [OF assms, of selections] verdict show ?thesis by (cases "names_fit m") auto
  qed (use verdict in \<open>auto simp: reject_def\<close>)
qed

section \<open>The graph that is built\<close>

definition graph_steps :: "execution_graph \<Rightarrow> (string \<times> string) set" where
  "graph_steps g = {(ee_from_node_id e, n) | e n. e \<in> set (eg_edges g) \<and> ee_to_node_id e = Some n}"

definition node_ids :: "execution_graph \<Rightarrow> string set" where
  "node_ids g = en_node_id ` set (eg_nodes g)"

abbreviation node_name :: "string \<Rightarrow> string" where
  "node_name p \<equiv> ''node-'' @ p"

text \<open>How nodes and edges stand for phases and transitions.\<close>

definition renders_node :: "(string, route_plan_artifact) dict \<Rightarrow> intent_phase \<Rightarrow> execution_node \<Rightarrow> bool" where
  "renders_node routes p n \<longleftrightarrow> en_node_id n = node_name (ip_phase_id p) \<and> en_phase_id n = ip_phase_id p \<and> en_role_ids n = ip_role_ids p
     \<and> list_all2 (\<lambda>role sha. \<exists>r. dict_get routes role = Some r \<and> sha = rp_route_sha256 r) (ip_role_ids p) (en_route_sha256s n)
     \<and> en_maximum_duration_s n = ip_maximum_duration_s p \<and> en_completion_conditions n = ip_completion_conditions p"

definition renders_edge :: "intent_transition \<Rightarrow> execution_edge \<Rightarrow> bool" where
  "renders_edge t e \<longleftrightarrow> ee_from_node_id e = node_name (it_from_phase_id t) \<and> ee_to_node_id e = map_option node_name (it_to_phase_id t)
     \<and> ee_kind e = it_kind t \<and> ee_maximum_retries e = it_maximum_retries t \<and> ee_recovery_action e = it_recovery_action t"

lemma build_graph_renders:
  assumes "build_graph G m routes selections = Inr g"
  shows "list_all2 (renders_node routes) (mi_phases m) (eg_nodes g)" "list_all2 renders_edge (mi_transitions m) (eg_edges g)"
    "eg_entry_node_id g = node_name (mi_entry_phase_id m)" "eg_intent_sha256 g = gh_intent G m" "eg_selected_plugins g = selections"
proof -
  have node: "renders_node routes p n" if "node_of routes p = Inr n" for p n
    using that by (auto simp: node_of_def Let_def bind_ok_Inr map_ok_Inr renders_node_def split: if_splits option.splits
        elim!: list_all2_mono)
  have edge: "renders_edge t e" if "edge_of t = Inr e" for t e
    using that by (auto simp: edge_of_def Let_def renders_edge_def split: if_splits)
  from assms obtain nodes edges where b: "map_ok (node_of routes) (mi_phases m) = Inr nodes" "map_ok edge_of (mi_transitions m) = Inr edges"
    and g: "eg_nodes g = nodes" "eg_edges g = edges" "eg_entry_node_id g = node_name (mi_entry_phase_id m)"
      "eg_intent_sha256 g = gh_intent G m" "eg_selected_plugins g = selections"
    by (auto simp: build_graph_def Let_def bind_ok_Inr split: if_splits)
  show "list_all2 (renders_node routes) (mi_phases m) (eg_nodes g)" "list_all2 renders_edge (mi_transitions m) (eg_edges g)"
    using b node edge unfolding g map_ok_Inr by (auto elim!: list_all2_mono)
qed (use assms in \<open>auto simp: build_graph_def Let_def bind_ok_Inr split: if_splits\<close>)

lemma rendered_nodes: "list_all2 (renders_node routes) ps ns \<Longrightarrow> map en_node_id ns = map (node_name \<circ> ip_phase_id) ps"
  by (induction rule: list_all2_induct) (auto simp: renders_node_def)

lemma list_all2_partner:
  "list_all2 P xs ys \<Longrightarrow> y \<in> set ys \<Longrightarrow> \<exists>x \<in> set xs. P x y"
  "list_all2 P xs ys \<Longrightarrow> x \<in> set xs \<Longrightarrow> \<exists>y \<in> set ys. P x y"
  by (induction rule: list_all2_induct) auto

lemma rendered_steps:
  assumes "list_all2 renders_edge (mi_transitions m) (eg_edges g)"
  shows "graph_steps g = map_prod node_name node_name ` intent_edges m"
    "ee_from_node_id ` set (eg_edges g) = node_name ` it_from_phase_id ` set (mi_transitions m)"
proof -
  have to: "\<exists>t \<in> set (mi_transitions m). renders_edge t e" if "e \<in> set (eg_edges g)" for e
    using list_all2_partner(1) [OF assms that] .
  have fro: "\<exists>e \<in> set (eg_edges g). renders_edge t e" if "t \<in> set (mi_transitions m)" for t
    using list_all2_partner(2) [OF assms that] .
  show "graph_steps g = map_prod node_name node_name ` intent_edges m"
  proof (rule set_eqI, rule iffI)
    fix x assume "x \<in> graph_steps g"
    then obtain e n where e: "e \<in> set (eg_edges g)" "ee_to_node_id e = Some n" "x = (ee_from_node_id e, n)" by (auto simp: graph_steps_def)
    with to obtain t p where "t \<in> set (mi_transitions m)" "it_to_phase_id t = Some p" "x = map_prod node_name node_name (it_from_phase_id t, p)"
      by (fastforce simp: renders_edge_def)
    then show "x \<in> map_prod node_name node_name ` intent_edges m" unfolding intent_edges_def by blast
  next
    fix x assume "x \<in> map_prod node_name node_name ` intent_edges m"
    then obtain t p where t: "t \<in> set (mi_transitions m)" "it_to_phase_id t = Some p" "x = (node_name (it_from_phase_id t), node_name p)"
      by (auto simp: intent_edges_def)
    with fro obtain e where "e \<in> set (eg_edges g)" "renders_edge t e" by blast
    with t show "x \<in> graph_steps g" unfolding graph_steps_def renders_edge_def by force
  qed
  show "ee_from_node_id ` set (eg_edges g) = node_name ` it_from_phase_id ` set (mi_transitions m)"
    using to fro unfolding image_image renders_edge_def by (auto simp: image_iff) metis+
qed

lemma trancl_image_inj:
  assumes "inj f" "(x, y) \<in> (map_prod f f ` E)\<^sup>+"
  shows "\<exists>a b. x = f a \<and> y = f b \<and> (a, b) \<in> E\<^sup>+"
  using assms(2)
proof (induction rule: trancl_induct)
  case (base y)
  then show ?case by auto
next
  case (step y z)
  then obtain a b c d where "x = f a" "y = f b" "(a, b) \<in> E\<^sup>+" "y = f c" "z = f d" "(c, d) \<in> E" by auto
  with assms(1) show ?case by (metis injD trancl_into_trancl)
qed

lemma rtrancl_image: "(a, b) \<in> E\<^sup>* \<Longrightarrow> (f a, f b) \<in> (map_prod f f ` E)\<^sup>*"
  by (induction rule: rtrancl_induct) (auto intro: rtrancl_into_rtrancl)

lemma acyclic_image_inj: "inj f \<Longrightarrow> acyclic E \<Longrightarrow> acyclic (map_prod f f ` E)"
  unfolding acyclic_def by (metis trancl_image_inj injD)

section \<open>Executions are bounded\<close>

lemma path_distinct:
  assumes "acyclic E" "successively (\<lambda>a b. (a, b) \<in> E) ns"
  shows "distinct ns"
proof -
  have "successively (\<lambda>a b. (a, b) \<in> E\<^sup>+) ns" using assms(2) by (rule successively_mono) auto
  then have "sorted_wrt (\<lambda>a b. (a, b) \<in> E\<^sup>+) ns"
    by (subst (asm) successively_conv_sorted_wrt) (auto intro: transpI trancl_trans)
  then show ?thesis using assms(1) unfolding acyclic_def by (induction ns) auto
qed

lemma path_bounded:
  assumes "acyclic E" "E \<subseteq> N \<times> N" "finite N" "hd ns \<in> N" "successively (\<lambda>a b. (a, b) \<in> E) ns"
  shows "length ns \<le> card N"
proof (cases ns)
  case (Cons n ns')
  have "set ns \<subseteq> N" using assms(2,4,5) by (induction ns) (auto simp: successively_Cons split: if_splits)
  then show ?thesis using path_distinct [OF assms(1,5)] assms(3) by (metis card_mono distinct_card)
qed simp

lemma sink_reached:
  assumes "finite E" "acyclic E"
  shows "\<exists>b. (a, b) \<in> E\<^sup>* \<and> E `` {b} = {}"
proof -
  have "wf (E\<inverse>)" using assms by (rule finite_acyclic_wf_converse)
  then show ?thesis
  proof (induction a rule: wf_induct_rule)
    case (less a)
    show ?case
    proof (cases "E `` {a} = {}")
      case False
      then obtain c where "(a, c) \<in> E" by auto
      with less show ?thesis by (meson converse_iff converse_rtrancl_into_rtrancl)
    qed auto
  qed
qed

lemma compiled_graph:
  assumes "compile_execution_graph G m routes selections = Inr g" "check_intent m = Inr ()"
  shows "well_routed m routes" "well_formed_graph m" "build_graph G m (route_by_role routes) selections = Inr g"
proof -
  have "well_routed m routes \<and> well_formed_graph m"
    using compiler_verdict [OF assms(2), of routes G selections] assms(1) by (auto simp: reject_def)
  with compiler_verdict [OF assms(2), of routes G selections] assms(1)
  show "well_routed m routes" "well_formed_graph m" "build_graph G m (route_by_role routes) selections = Inr g" by auto
qed

text \<open>
  C15. A compiled graph is a faithful, bounded rendering of its intent. Its nodes and edges stand for the
  phases and transitions, each node bound to the route hashes of its roles. No execution from the entry
  visits more nodes than there are phases; every node can be reached from the entry, and from every
  node an edge that ends the mission can be reached.
\<close>

theorem executions_are_bounded:
  assumes "compile_execution_graph G m routes selections = Inr g" "check_intent m = Inr ()"
  shows "list_all2 (renders_node (route_by_role routes)) (mi_phases m) (eg_nodes g)
    \<and> list_all2 renders_edge (mi_transitions m) (eg_edges g)
    \<and> (\<forall>ns. hd ns = eg_entry_node_id g \<and> successively (\<lambda>a b. (a, b) \<in> graph_steps g) ns \<longrightarrow> length ns \<le> length (eg_nodes g))
    \<and> (\<forall>n \<in> node_ids g. (eg_entry_node_id g, n) \<in> (graph_steps g)\<^sup>*
         \<and> (\<exists>e \<in> set (eg_edges g). ee_to_node_id e = None \<and> (n, ee_from_node_id e) \<in> (graph_steps g)\<^sup>*))"
proof -
  note c = compiled_graph [OF assms] and b = build_graph_renders [OF compiled_graph(3) [OF assms]]
  note steps = rendered_steps [OF b(2)]
  have ok: "list_all (transition_ok m) (mi_transitions m)" and acyclic: "acyclic (graph_steps g)"
    and reach: "phase_ids m \<subseteq> (intent_edges m)\<^sup>* `` {mi_entry_phase_id m}"
    and exits: "phase_ids m \<subseteq> it_from_phase_id ` set (mi_transitions m)"
    using c(2) unfolding steps(1) well_formed_graph_def by (auto intro: acyclic_image_inj simp: inj_on_def)
  have ids: "node_ids g = node_name ` phase_ids m"
    using rendered_nodes [OF b(1)] unfolding node_ids_def phase_ids_def by (metis image_comp set_map)
  have card: "card (node_ids g) \<le> length (eg_nodes g)" unfolding node_ids_def by (metis card_length length_map set_map)
  have within: "graph_steps g \<subseteq> node_ids g \<times> node_ids g" using intent_edges_phases [OF ok] unfolding steps(1) ids by auto
  have finite: "finite (node_ids g)" "finite (graph_steps g)"
    using within unfolding node_ids_def by (auto intro: finite_subset)
  have entry: "eg_entry_node_id g \<in> node_ids g"
    using assms(2) unfolding b(3) ids check_intent_def raise_first_Inr by (auto simp: phase_ids_def)
  have "\<exists>e \<in> set (eg_edges g). ee_to_node_id e = None \<and> (n, ee_from_node_id e) \<in> (graph_steps g)\<^sup>*" if n: "n \<in> node_ids g" for n
  proof -
    obtain s where s: "(n, s) \<in> (graph_steps g)\<^sup>*" "graph_steps g `` {s} = {}" using sink_reached [OF finite(2) acyclic] by blast
    have "s \<in> node_ids g" using s(1) n within by (cases rule: rtranclE) auto
    moreover have "node_ids g \<subseteq> ee_from_node_id ` set (eg_edges g)" unfolding steps(2) ids using exits by (rule image_mono)
    ultimately obtain e where "e \<in> set (eg_edges g)" "ee_from_node_id e = s" by auto
    moreover from this s(2) have "ee_to_node_id e = None" unfolding graph_steps_def by (cases "ee_to_node_id e") auto
    ultimately show ?thesis using s(1) by auto
  qed
  moreover have "(eg_entry_node_id g, n) \<in> (graph_steps g)\<^sup>*" if n: "n \<in> node_ids g" for n
  proof -
    obtain p where "n = node_name p" "(mi_entry_phase_id m, p) \<in> (intent_edges m)\<^sup>*" using n reach unfolding ids by blast
    then show ?thesis unfolding b(3) steps(1) by (simp only: rtrancl_image)
  qed
  moreover have "length ns \<le> length (eg_nodes g)" if "hd ns = eg_entry_node_id g" "successively (\<lambda>a b. (a, b) \<in> graph_steps g) ns" for ns
    using path_bounded [OF acyclic within finite(1) _ that(2)] that(1) entry card by simp
  ultimately show ?thesis using b(1,2) by blast
qed

section \<open>A retry cannot return\<close>

text \<open>
  The bound of a retry transition is validated and copied into the graph, yet no graph with a retry that
  returns to its own phase, or to any phase before it, is ever compiled: the search rejects it as a cycle.
\<close>

lemma retry_in_place_is_rejected:
  assumes "check_intent m = Inr ()" "t \<in> set (mi_transitions m)" "it_kind t = TK_RETRY" "it_maximum_retries t = 1"
    and "it_to_phase_id t = Some p" "(p, it_from_phase_id t) \<in> (intent_edges m)\<^sup>*"
  shows "\<exists>msg. compile_execution_graph G m routes selections = reject msg"
proof -
  have "(it_from_phase_id t, p) \<in> intent_edges m" using assms(2,5) by (auto simp: intent_edges_def)
  with assms(6) have "\<not> acyclic (intent_edges m)" by (auto simp: acyclic_def intro: rtrancl_into_trancl2)
  with compiler_verdict [OF assms(1)] show ?thesis by (auto simp: well_formed_graph_def)
qed

section \<open>A patrol in two phases\<close>

definition patrol_phase :: "string \<Rightarrow> intent_phase" where
  "patrol_phase name = \<lparr>ip_phase_id = name, ip_objective = ''fly'', ip_role_ids = [''alpha''], ip_route_capability = RC_DIRECT,
     ip_completion_conditions = [''done''], ip_maximum_duration_s = 60, ip_checkpoint_required = False\<rparr>"

definition patrol_transition :: "string \<Rightarrow> string \<Rightarrow> transition_kind \<Rightarrow> string option \<Rightarrow> recovery_action option \<Rightarrow> intent_transition" where
  "patrol_transition name from_phase kind to_phase recovery = \<lparr>it_transition_id = name, it_from_phase_id = from_phase, it_kind = kind,
     it_to_phase_id = to_phase, it_maximum_retries = 0, it_recovery_action = recovery\<rparr>"

definition patrol_intent :: mission_intent where
  "patrol_intent = \<lparr>mi_intent_id = ''i1'', mi_mission_id = ''m1'', mi_objective = ''patrol'', mi_success_criteria = [''done''],
     mi_role_ids = [''alpha''], mi_phases = [patrol_phase ''out'', patrol_phase ''home''], mi_entry_phase_id = ''out'',
     mi_transitions = [patrol_transition ''t1'' ''out'' TK_COMPLETE (Some ''home'') None,
       patrol_transition ''t2'' ''out'' TK_ABORT None (Some RA_LAND), patrol_transition ''t3'' ''home'' TK_COMPLETE None None],
     mi_safety_declaration = sample_declaration, mi_source_compatibility = DECLARED_INTENT\<rparr>"

definition patrol_route :: route_plan_artifact where
  "patrol_route = \<lparr>rp_request_id = ''r1'', rp_role_id = ''alpha'', rp_planner = \<lparr>ps_plugin_id = ''route.direct'', ps_kind = ROUTE_PLANNER,
       ps_implementation_version = ''1.0.0'', ps_capabilities_used = {''DIRECT''}, ps_manifest_sha256 = sample_sha,
       ps_implementation_sha256 = sample_sha\<rparr>,
     rp_capability = RC_DIRECT, rp_status = RP_READY, rp_waypoints = [], rp_reservations = [], rp_route_length_m = 4,
     rp_expected_energy_percent = 1, rp_expected_duration_s = 10, rp_expected_minimum_separation_m = 1, rp_completion_conditions = [],
     rp_limitations = [], rp_findings = [], rp_supersedes_route_sha256 = None, rp_route_sha256 = sample_sha\<rparr>"

definition constant_graph_hashes :: graph_hashes where
  "constant_graph_hashes = \<lparr>gh_intent = \<lambda>_. sample_sha, gh_graph = \<lambda>_. sample_sha\<rparr>"

lemma patrol_valid: "check_intent patrol_intent = Inr ()" "list_all (\<lambda>p. check_phase p = Inr ()) (mi_phases patrol_intent)"
  "list_all (\<lambda>t. check_intent_transition t = Inr ()) (mi_transitions patrol_intent)"
  by code_simp+

lemma patrol_compiles:
  "case compile_execution_graph constant_graph_hashes patrol_intent [patrol_route] [] of
     Inr g \<Rightarrow> map en_node_id (eg_nodes g) = [''node-out'', ''node-home''] \<and> eg_entry_node_id g = ''node-out'' | Inl _ \<Rightarrow> False"
  by code_simp

theorem executions_are_bounded_witness:
  "\<exists>g. compile_execution_graph constant_graph_hashes patrol_intent [patrol_route] [] = Inr g
     \<and> (''node-out'', ''node-home'') \<in> (graph_steps g)\<^sup>*"
proof -
  obtain g where g: "compile_execution_graph constant_graph_hashes patrol_intent [patrol_route] [] = Inr g"
    "map en_node_id (eg_nodes g) = [''node-out'', ''node-home'']" "eg_entry_node_id g = ''node-out''"
    using patrol_compiles by (auto split: sum.splits)
  have "''node-home'' \<in> node_ids g" using arg_cong [OF g(2), of set] by (auto simp: node_ids_def)
  with executions_are_bounded [OF g(1) patrol_valid(1)] g show ?thesis by auto
qed

definition stuck_intent :: mission_intent where
  "stuck_intent = patrol_intent\<lparr>mi_transitions :=
     [(patrol_transition ''t1'' ''out'' TK_RETRY (Some ''out'') None)\<lparr>it_maximum_retries := 1\<rparr>]\<rparr>"

theorem compiler_accepts_exactly_witness:
  "(\<exists>g. compile_execution_graph constant_graph_hashes patrol_intent [patrol_route] [] = Inr g)
    \<and> well_formed_graph patrol_intent \<and> acyclic (intent_edges patrol_intent)
    \<and> (\<exists>msg. compile_execution_graph constant_graph_hashes stuck_intent [patrol_route] [] = reject msg)"
proof -
  have parts: "validated_parts constant_graph_hashes patrol_intent [patrol_route]"
    "validated_parts constant_graph_hashes stuck_intent [patrol_route]"
    by (simp_all add: validated_parts_def constant_graph_hashes_def patrol_route_def) code_simp+
  have "\<exists>g. compile_execution_graph constant_graph_hashes patrol_intent [patrol_route] [] = Inr g"
    using patrol_compiles by (auto split: sum.splits)
  moreover from this compiler_accepts_exactly [OF parts(1)] have "well_formed_graph patrol_intent" by blast
  moreover have "(''out'', ''out'') \<in> intent_edges stuck_intent"
    by (simp add: intent_edges_def stuck_intent_def patrol_transition_def)
  then have "\<not> well_formed_graph stuck_intent" by (auto simp: well_formed_graph_def acyclic_def)
  with compiler_accepts_exactly [OF parts(2)]
  have "\<exists>msg. compile_execution_graph constant_graph_hashes stuck_intent [patrol_route] [] = reject msg" by blast
  ultimately show ?thesis by (simp add: well_formed_graph_def)
qed

end
