(* ===== verification/Bundle.thy ===== *)
theory Bundle
  imports Intent "HOL-Library.Sublist"
begin

text \<open>
  The planning service, \<open>planning/service.py\<close>: it plans a route for every active role against the
  corridors of the roles before it, asks the fleet policy for the launch order, wraps the mission in a
  one-phase intent and binds everything into one bundle.
\<close>

section \<open>Inputs and the bundle\<close>

record operational_route_input =
  oi_role_id :: string
  oi_vehicle_id :: string
  oi_initial_role :: initial_fleet_role
  oi_start_m :: vector3
  oi_targets_m :: "vector3 list"
  oi_planned_duration_s :: real

definition check_route_input :: "operational_route_input \<Rightarrow> unit outcome" where
  "check_route_input r =
     (if valid_identifier (oi_role_id r) \<and> valid_identifier (oi_vehicle_id r) \<and> 0 \<le> oi_planned_duration_s r then Inr ()
      else Inl (ValidationError ''OperationalRouteInput field''))"

record planning_bundle =
  pb_plugin_selections :: "plugin_selection list"
  pb_route_plans :: "route_plan_artifact list"
  pb_fleet_policy_decision :: fleet_policy_decision
  pb_mission_intent :: mission_intent
  pb_execution_graph :: execution_graph
  pb_safety_case :: safety_case_receipt
  pb_bundle_sha256 :: string

text \<open>The canonical hashes the service takes, by the type they are taken of.\<close>

record service_hashes =
  sh_planning :: planning_hashes
  sh_decision :: "fleet_policy_decision \<Rightarrow> string"
  sh_graph :: graph_hashes
  sh_kernel :: kernel_hashes
  sh_replan :: "route_replan_result \<Rightarrow> string"
  sh_bundle :: "planning_bundle \<Rightarrow> string"

section \<open>Replanning a route\<close>

text \<open>\<open>started\<close> and \<open>ended\<close> are the two readings of the monotonic clock.\<close>

definition replan_route ::
    "service_hashes \<Rightarrow> route_planner \<Rightarrow> real \<Rightarrow> real \<Rightarrow> route_replan_request \<Rightarrow> route_replan_result outcome" where
  "replan_route S plan started ended r =
     bind_ok (plan (rr_replacement_request r)) (\<lambda>replacement.
       if ended - started > rr_planning_budget_s r then Inl TimeoutError
       else let payload = \<lparr>rx_previous_route_sha256 = rr_previous_route_sha256 r, rx_stale_route_sha256 = rr_previous_route_sha256 r,
              rx_replacement_route = replacement, rx_changed_observation_sha256 = rr_changed_observation_sha256 r, rx_replan_sha256 = ''''\<rparr>;
            x = payload\<lparr>rx_replan_sha256 := sh_replan S payload\<rparr>
         in bind_ok (check_replan_result x) (\<lambda>_. Inr x))"

section \<open>Routes of the active roles\<close>

definition active_inputs :: "operational_route_input list \<Rightarrow> operational_route_input list" where
  "active_inputs roles = sort_key oi_role_id (filter (\<lambda>r. oi_initial_role r = ROLE_ACTIVE) roles)"

definition cruise_speed :: "safety_policy \<Rightarrow> real" where
  "cruise_speed policy = min (4 / 10) (max_horizontal_speed_m_s policy)"

definition input_targets :: "operational_route_input \<Rightarrow> vector3 list" where
  "input_targets r = (if oi_targets_m r = [] then [oi_start_m r] else oi_targets_m r)"

definition final_hold :: "safety_policy \<Rightarrow> operational_route_input \<Rightarrow> real" where
  "final_hold policy r =
     max 0 (oi_planned_duration_s r - path_length (oi_start_m r # input_targets r) / cruise_speed policy)"

definition route_targets :: "safety_policy \<Rightarrow> operational_route_input \<Rightarrow> route_target list" where
  "route_targets policy r =
     map (\<lambda>p. \<lparr>rt_position_m = p, rt_hold_s = 0\<rparr>) (butlast (input_targets r)) @
     [\<lparr>rt_position_m = last (input_targets r), rt_hold_s = final_hold policy r\<rparr>]"

definition route_request_for ::
    "string \<Rightarrow> deployment_manifest \<Rightarrow> safety_policy \<Rightarrow> route_capability \<Rightarrow> box_obstacle list \<Rightarrow> temporal_reservation list
       \<Rightarrow> operational_route_input \<Rightarrow> route_plan_request outcome" where
  "route_request_for mission d policy capability obstacles reservations r =
     (if cruise_speed policy = 0 then Inl ZeroDivisionError
      else let q = \<lparr>rq_request_id = ''route-'' @ mission @ ''-'' @ oi_role_id r, rq_role_id = oi_role_id r, rq_capability = capability,
             rq_start_m = oi_start_m r, rq_targets = route_targets policy r, rq_zone_minimum_m = None, rq_zone_maximum_m = None,
             rq_coverage_spacing_m = 1 / 4, rq_flight_volume_minimum_m = minimum_m (flight_volume policy),
             rq_flight_volume_maximum_m = maximum_m (flight_volume policy), rq_obstacles = obstacles,
             rq_existing_reservations = reservations, rq_cruise_speed_m_s = cruise_speed policy,
             rq_maximum_duration_s = max_mission_duration_s policy, rq_energy_percent_per_m = 1,
             rq_minimum_separation_m = critical_separation_m (constraints d),
             rq_maximum_hold_s = min 30 (max_mission_duration_s policy / 4), rq_frame = WORLD, rq_supersedes_route_sha256 = None\<rparr>
        in bind_ok (check_request q) (\<lambda>_. Inr q))"

fun plan_roles ::
    "(temporal_reservation list \<Rightarrow> operational_route_input \<Rightarrow> route_plan_request outcome) \<Rightarrow> route_planner
       \<Rightarrow> temporal_reservation list \<Rightarrow> operational_route_input list \<Rightarrow> route_plan_artifact list outcome" where
  "plan_roles request plan reservations [] = Inr []"
| "plan_roles request plan reservations (r # rs) =
     bind_ok (request reservations r) (\<lambda>q.
     bind_ok (plan q) (\<lambda>route.
     bind_ok (plan_roles request plan (reservations @ rp_reservations route) rs) (\<lambda>routes. Inr (route # routes))))"

section \<open>The fleet policy\<close>

definition mentions :: "string \<Rightarrow> string set \<Rightarrow> bool" where
  "mentions word types \<longleftrightarrow> (\<exists>t \<in> types. sublist word t)"

definition policy_capability :: "deployment_manifest \<Rightarrow> string" where
  "policy_capability d =
     (let types = set (map td_task_type (tasks d)) in
      if mentions ''persistent'' types \<or> mentions ''coverage'' types then ''persistent-coverage''
      else if mentions ''crossing'' types then ''crossing-route''
      else if mentions ''leader'' types \<or> mentions ''follower'' types then ''leader-follower''
      else ''independent-tasks'')"

definition fleet_request ::
    "string \<Rightarrow> deployment_manifest \<Rightarrow> operational_route_input list \<Rightarrow> route_plan_artifact list \<Rightarrow> fleet_policy_request" where
  "fleet_request mission d roles routes =
     \<lparr>fr_request_id = ''fleet-policy-'' @ mission, fr_mission_id = mission, fr_policy_capability = policy_capability d,
      fr_role_ids = sort (map oi_role_id roles), fr_active_role_ids = map oi_role_id (active_inputs roles),
      fr_reserve_role_ids = sort (map oi_role_id (filter (\<lambda>r. oi_initial_role r = ROLE_RESERVE) roles)),
      fr_route_sha256s = map rp_route_sha256 routes, fr_warning_separation_m = warning_separation_m (constraints d),
      fr_critical_separation_m = critical_separation_m (constraints d)\<rparr>"

section \<open>Intent, safety case and selections\<close>

definition service_declaration :: "string \<Rightarrow> mission_safety_declaration outcome" where
  "service_declaration mission =
     (if valid_identifier (''safety-'' @ mission)
      then Inr \<lparr>ms_declaration_id = ''safety-'' @ mission, ms_policy_override = no_override,
        ms_required_observations = {''vehicle-health'', ''authority-state'', ''localization'', ''link'', ''battery''},
        ms_environmental_assumptions = [''configured world geometry is current'', ''simulation observations retain source and freshness''],
        ms_allowed_recovery_actions = {RA_HOLD, RA_REPLAN, RA_RETURN_HOME, RA_HANDOVER, RA_LAND, RA_ABORT_AND_LAND, RA_EMERGENCY_STOP}\<rparr>
      else Inl (ValidationError ''MissionSafetyDeclaration field''))"

definition service_intent ::
    "string \<Rightarrow> string list \<Rightarrow> route_capability \<Rightarrow> safety_policy \<Rightarrow> mission_safety_declaration \<Rightarrow> mission_intent outcome" where
  "service_intent mission active capability policy declaration =
     (let phase = \<lparr>ip_phase_id = ''explicit-actions'', ip_objective = ''execute accepted backend-neutral role actions'',
            ip_role_ids = active, ip_route_capability = capability,
            ip_completion_conditions = [''all active roles report terminal success''],
            ip_maximum_duration_s = max_mission_duration_s policy, ip_checkpoint_required = False\<rparr>;
          transition = \<lparr>it_transition_id = ''explicit-actions-complete'', it_from_phase_id = ''explicit-actions'', it_kind = TK_COMPLETE,
            it_to_phase_id = None, it_maximum_retries = 0, it_recovery_action = None\<rparr>;
          intent = \<lparr>mi_intent_id = ''intent-'' @ mission, mi_mission_id = mission,
            mi_objective = ''execute the restricted Python mission's declared actions exactly'',
            mi_success_criteria = [''all required roles complete their accepted action sequence''], mi_role_ids = active,
            mi_phases = [phase], mi_entry_phase_id = ''explicit-actions'', mi_transitions = [transition],
            mi_safety_declaration = declaration, mi_source_compatibility = RESTRICTED_PYTHON_EXPLICIT_ACTIONS\<rparr>
      in bind_ok (check_phase phase) (\<lambda>_. bind_ok (check_intent_transition transition) (\<lambda>_.
         bind_ok (check_intent intent) (\<lambda>_. Inr intent))))"

fun kind_value :: "plugin_kind \<Rightarrow> string" where
  "kind_value ROUTE_PLANNER = ''ROUTE_PLANNER''"
| "kind_value FLEET_POLICY = ''FLEET_POLICY''"
| "kind_value RECOVERY_STRATEGY = ''RECOVERY_STRATEGY''"

definition selections :: "(plugin_manifest \<Rightarrow> string) \<Rightarrow> plugin_manifest list \<Rightarrow> plugin_selection list outcome" where
  "selections sha ms =
     map_ok (\<lambda>m. from_manifest sha m (pm_capabilities m)) (sort_key (\<lambda>m. (kind_value (pm_kind m), pm_plugin_id m)) ms)"

section \<open>The bundle\<close>

definition seal_bundle :: "service_hashes \<Rightarrow> planning_bundle \<Rightarrow> planning_bundle outcome" where
  "seal_bundle S payload =
     (let b = payload\<lparr>pb_bundle_sha256 := sh_bundle S payload\<rparr>
      in if valid_sha256 (pb_bundle_sha256 b) then Inr b else Inl (ValidationError ''PlanningBundle field''))"

definition compile_operational_planning_bundle ::
    "service_hashes \<Rightarrow> string \<Rightarrow> deployment_manifest \<Rightarrow> operational_route_input list \<Rightarrow> safety_policy \<Rightarrow> box_obstacle list
       \<Rightarrow> planning_bundle outcome" where
  "compile_operational_planning_bundle S mission d roles policy obstacles =
     (let H = sh_planning S; active = active_inputs roles; several = (length active > 1);
          capability = (if several then RC_TEMPORAL_SEPARATION else RC_DIRECT) in
      bind_ok (default_route_planner_registry H) (\<lambda>planners.
      bind_ok (default_fleet_policy_registry H) (\<lambda>policies.
      bind_ok (default_recovery_registry H) (\<lambda>recoveries.
      bind_ok (resolve_plugin planners (if several then ''route.temporal'' else ''route.direct'') ''1.0.0''
                 {route_capability_value capability} True) (\<lambda>(planner, plan).
      bind_ok (plan_roles (route_request_for mission d policy capability obstacles) plan [] active) (\<lambda>routes.
      bind_ok (resolve_plugin policies (''fleet.'' @ policy_capability d) ''1.0.0'' {policy_capability d} True) (\<lambda>(fleet_policy, _).
      bind_ok (check_policy_request (fleet_request mission d roles routes)) (\<lambda>_.
      bind_ok (decide (rh_manifest H) (sh_decision S) fleet_policy (fleet_request mission d roles routes)) (\<lambda>decision.
      bind_ok (service_declaration mission) (\<lambda>declaration.
      let ms = planner # fleet_policy # manifests recoveries in
      bind_ok (selections (rh_manifest H) ms) (\<lambda>chosen.
      bind_ok (service_intent mission (map oi_role_id active) capability policy declaration) (\<lambda>intent.
      bind_ok (compile_execution_graph (sh_graph S) intent routes chosen) (\<lambda>graph.
      bind_ok (compile_safety_case (sh_kernel S) policy declaration ms) (\<lambda>safety_case.
        seal_bundle S \<lparr>pb_plugin_selections = chosen, pb_route_plans = routes, pb_fleet_policy_decision = decision,
          pb_mission_intent = intent, pb_execution_graph = graph, pb_safety_case = safety_case, pb_bundle_sha256 = ''''\<rparr>))))))))))))))"

lemma temporal_single_clear:
  assumes "plan_temporal H q = Inr a" "rp_status a = RP_READY" "length (rq_existing_reservations q) \<le> 1"
    "c \<in> set (rp_reservations a)" "e \<in> set (rq_existing_reservations q)"
  shows "\<not> reservations_conflict c e"
  using assms(1,2) by (rule plan_temporal_ready) (use assms(3-5) held_until_clear(2) in auto)

section \<open>A bundle taken apart\<close>

lemma planner_cases:
  assumes "default_route_planner_registry H = Inr R" "resolve_plugin R plugin_id version required ql = Inr (m, plan)"
  shows "plugin_id = ''route.direct'' \<Longrightarrow> plan = plan_direct H" "plugin_id = ''route.temporal'' \<Longrightarrow> plan = plan_temporal H"
proof -
  have "rg_plugins R = [(plugin_key (fst p), p). p \<leftarrow> [(direct_manifest H, plan_direct H), (zone_manifest H, plan_zone H),
      (coverage_manifest H, plan_coverage H), (temporal_manifest H, plan_temporal H)]]"
    using assms(1)
    by (simp add: default_route_planner_registry_def empty_registry_def register_def plugin_key_def direct_manifest_def zone_manifest_def
        coverage_manifest_def temporal_manifest_def builtin_manifest_def)
       auto
  with assms(2) show "plugin_id = ''route.direct'' \<Longrightarrow> plan = plan_direct H" "plugin_id = ''route.temporal'' \<Longrightarrow> plan = plan_temporal H"
    by (auto simp: resolve_plugin_def plugin_key_def direct_manifest_def zone_manifest_def coverage_manifest_def temporal_manifest_def
        builtin_manifest_def split: option.splits if_splits)
qed

lemma bundle_parts:
  assumes "compile_operational_planning_bundle S mission d roles policy obstacles = Inr b"
  obtains decl ms fleet_policy where
    "plan_roles (route_request_for mission d policy (if length (active_inputs roles) > 1 then RC_TEMPORAL_SEPARATION else RC_DIRECT) obstacles)
       (if length (active_inputs roles) > 1 then plan_temporal (sh_planning S) else plan_direct (sh_planning S)) []
       (active_inputs roles) = Inr (pb_route_plans b)"
    "decide (rh_manifest (sh_planning S)) (sh_decision S) fleet_policy (fleet_request mission d roles (pb_route_plans b))
       = Inr (pb_fleet_policy_decision b)"
    "service_declaration mission = Inr decl"
    "service_intent mission (map oi_role_id (active_inputs roles)) (if length (active_inputs roles) > 1 then RC_TEMPORAL_SEPARATION else RC_DIRECT)
       policy decl = Inr (pb_mission_intent b)"
    "compile_execution_graph (sh_graph S) (pb_mission_intent b) (pb_route_plans b) (pb_plugin_selections b) = Inr (pb_execution_graph b)"
    "compile_safety_case (sh_kernel S) policy decl ms = Inr (pb_safety_case b)"
    "selections (rh_manifest (sh_planning S)) ms = Inr (pb_plugin_selections b)"
proof -
  let ?several = "length (active_inputs roles) > 1"
  let ?cap = "if ?several then RC_TEMPORAL_SEPARATION else RC_DIRECT"
  from assms obtain planners planner plan routes fleet_policy decision decl ms chosen intent graph safety_case where
    R: "default_route_planner_registry (sh_planning S) = Inr planners"
    and P: "resolve_plugin planners (if ?several then ''route.temporal'' else ''route.direct'') ''1.0.0'' {route_capability_value ?cap} True = Inr (planner, plan)"
    and parts: "plan_roles (route_request_for mission d policy ?cap obstacles) plan [] (active_inputs roles) = Inr routes"
      "decide (rh_manifest (sh_planning S)) (sh_decision S) fleet_policy (fleet_request mission d roles routes) = Inr decision"
      "service_declaration mission = Inr decl"
      "service_intent mission (map oi_role_id (active_inputs roles)) ?cap policy decl = Inr intent"
      "compile_execution_graph (sh_graph S) intent routes chosen = Inr graph"
      "compile_safety_case (sh_kernel S) policy decl ms = Inr safety_case"
      "selections (rh_manifest (sh_planning S)) ms = Inr chosen"
    and b: "seal_bundle S \<lparr>pb_plugin_selections = chosen, pb_route_plans = routes, pb_fleet_policy_decision = decision,
          pb_mission_intent = intent, pb_execution_graph = graph, pb_safety_case = safety_case, pb_bundle_sha256 = ''''\<rparr> = Inr b"
    unfolding compile_operational_planning_bundle_def Let_def bind_ok_Inr split_paired_Ex prod.case
    by (elim exE conjE) (rule that; assumption)
  have "plan = (if ?several then plan_temporal (sh_planning S) else plan_direct (sh_planning S))"
    using planner_cases [OF R P] by simp
  moreover have "pb_route_plans b = routes \<and> pb_fleet_policy_decision b = decision \<and> pb_mission_intent b = intent \<and>
      pb_execution_graph b = graph \<and> pb_safety_case b = safety_case \<and> pb_plugin_selections b = chosen"
    using b by (auto simp: seal_bundle_def Let_def split: if_splits)
  ultimately show thesis using that [of fleet_policy decl ms] parts by simp
qed

section \<open>Routes of a bundle\<close>

text \<open>
  What a route owes to the input it was planned for, as long as it is not blocked: it is safe for a
  request with the start, the obstacles, the volume and the separation of the mission.
\<close>

definition plans_role ::
    "deployment_manifest \<Rightarrow> safety_policy \<Rightarrow> box_obstacle list \<Rightarrow> operational_route_input \<Rightarrow> route_plan_artifact \<Rightarrow> bool" where
  "plans_role d policy obstacles r a \<longleftrightarrow> rp_role_id a = oi_role_id r \<and> (rp_status a = RP_READY \<longrightarrow>
     (\<exists>q. safe_route q a \<and> rq_start_m q = oi_start_m r \<and> map rt_position_m (rq_targets q) = input_targets r \<and> rq_obstacles q = obstacles
        \<and> rq_flight_volume_minimum_m q = minimum_m (flight_volume policy) \<and> rq_flight_volume_maximum_m q = maximum_m (flight_volume policy)
        \<and> rq_cruise_speed_m_s q \<le> max_horizontal_speed_m_s policy \<and> rq_minimum_separation_m q = critical_separation_m (constraints d)))"

lemma request_for:
  assumes "route_request_for mission d policy capability obstacles reservations r = Inr q"
  shows "check_request q = Inr ()" "rq_role_id q = oi_role_id r" "rq_start_m q = oi_start_m r" "map rt_position_m (rq_targets q) = input_targets r"
    "rq_obstacles q = obstacles" "rq_flight_volume_minimum_m q = minimum_m (flight_volume policy)"
    "rq_flight_volume_maximum_m q = maximum_m (flight_volume policy)" "rq_cruise_speed_m_s q \<le> max_horizontal_speed_m_s policy"
    "rq_minimum_separation_m q = critical_separation_m (constraints d)" "rq_existing_reservations q = reservations"
proof -
  have "input_targets r \<noteq> []" by (simp add: input_targets_def)
  then have t: "map rt_position_m (route_targets policy r) = input_targets r" by (simp add: route_targets_def o_def)
  show "check_request q = Inr ()" "rq_role_id q = oi_role_id r" "rq_start_m q = oi_start_m r" "map rt_position_m (rq_targets q) = input_targets r"
    "rq_obstacles q = obstacles" "rq_flight_volume_minimum_m q = minimum_m (flight_volume policy)"
    "rq_flight_volume_maximum_m q = maximum_m (flight_volume policy)" "rq_cruise_speed_m_s q \<le> max_horizontal_speed_m_s policy"
    "rq_minimum_separation_m q = critical_separation_m (constraints d)" "rq_existing_reservations q = reservations"
    using assms t by (auto simp: route_request_for_def Let_def bind_ok_Inr cruise_speed_def split: if_splits)
qed

lemma artifact_role: "route_artifact H m q st ws rs len dur limits f = Inr a \<Longrightarrow> rp_role_id a = rq_role_id q"
  by (auto simp: route_artifact_def Let_def bind_ok_Inr split: if_splits)

lemma polyline_role: "plan_polyline H m s q targets = Inr a \<Longrightarrow> rp_role_id a = rq_role_id q"
  unfolding plan_polyline_def blocked_route_def Let_def by (auto simp: bind_ok_Inr split: if_splits dest: artifact_role)

lemma planner_role:
  "plan_direct H q = Inr a \<Longrightarrow> rp_role_id a = rq_role_id q"
  "plan_temporal H q = Inr a \<Longrightarrow> rp_role_id a = rq_role_id q"
  unfolding plan_direct_def plan_temporal_def Let_def blocked_route_def
  by (auto simp: bind_ok_Inr split: if_splits dest: polyline_role artifact_role)

lemma plan_roles_Cons:
  assumes "plan_roles request plan reservations (r # rs) = Inr routes"
  obtains q a rest where "request reservations r = Inr q" "plan q = Inr a"
    "plan_roles request plan (reservations @ rp_reservations a) rs = Inr rest" "routes = a # rest"
  using assms by (auto simp: bind_ok_Inr)

lemma plan_roles_safe:
  assumes "plan_roles (route_request_for mission d policy capability obstacles) plan reservations rs = Inr routes"
    and "plan \<in> {plan_direct H, plan_temporal H}"
  shows "list_all2 (plans_role d policy obstacles) rs routes"
  using assms(1)
proof (induction rs arbitrary: reservations routes)
  case (Cons r rs)
  from Cons.prems obtain q a rest where q: "route_request_for mission d policy capability obstacles reservations r = Inr q" "plan q = Inr a"
    and rest: "plan_roles (route_request_for mission d policy capability obstacles) plan (reservations @ rp_reservations a) rs = Inr rest"
      "routes = a # rest" by (rule plan_roles_Cons)
  note q' = request_for [OF q(1)]
  have "rp_role_id a = rq_role_id q" using q(2) assms(2) planner_role by auto
  moreover have "rp_status a = RP_READY \<longrightarrow> safe_route q a"
    using q(2) assms(2) direct.ready_safe [OF q'(1)] temporal.ready_safe [OF q'(1)] by auto
  ultimately have "plans_role d policy obstacles r a" unfolding plans_role_def using q' by auto
  with Cons.IH [OF rest(1)] rest(2) show ?case by simp
qed simp

lemma two_routes_separate:
  assumes "plan_roles (route_request_for mission d policy capability obstacles) (plan_temporal H) [] rs = Inr [a, b]"
    and "rp_status a = RP_READY" "rp_status b = RP_READY" "c \<in> set (rp_reservations a)" "e \<in> set (rp_reservations b)"
    and "overlap e c" "on_route a x" "on_route b y"
  shows "critical_separation_m (constraints d) < distance x y"
proof -
  let ?q = "route_request_for mission d policy capability obstacles"
  from assms(1) obtain r s qa qb where rs: "rs = [r, s]" and qa: "?q [] r = Inr qa" "plan_temporal H qa = Inr a"
    and qb: "?q (rp_reservations a) s = Inr qb" "plan_temporal H qb = Inr b"
    by (cases rs; cases "tl rs"; cases "tl (tl rs)") (auto simp: bind_ok_Inr)
  note va = request_for [OF qa(1)] and vb = request_for [OF qb(1)]
  have sa: "safe_route qa a" and sb: "safe_route qb b"
    using temporal.ready_safe [OF va(1) qa(2) assms(2)] temporal.ready_safe [OF vb(1) qb(2) assms(3)] .
  then have one: "length (rq_existing_reservations qb) \<le> 1" using vb(10) by (auto simp: safe_route_def)
  have "\<not> reservations_conflict e c"
    using temporal_single_clear [OF qb(2) assms(3) one] assms(4,5) vb(10) by simp
  moreover have "corridor_of qb b e" "corridor_of qa a c" using sa sb assms(4,5) by (auto simp: safe_route_def)
  ultimately have "(rq_minimum_separation_m qb + rq_minimum_separation_m qa) / 2 < distance y x"
    using corridors_separate assms(6-8) by blast
  then show ?thesis using va(9) vb(9) by (simp add: distance_commute)
qed

lemma bundle_plans:
  assumes "compile_operational_planning_bundle S mission d roles policy obstacles = Inr b"
  shows "list_all2 (plans_role d policy obstacles) (active_inputs roles) (pb_route_plans b)"
  using assms
proof (rule bundle_parts)
  let ?several = "length (active_inputs roles) > 1"
  let ?cap = "if ?several then RC_TEMPORAL_SEPARATION else RC_DIRECT"
  let ?plan = "if ?several then plan_temporal (sh_planning S) else plan_direct (sh_planning S)"
  assume p: "plan_roles (route_request_for mission d policy ?cap obstacles) ?plan [] (active_inputs roles) = Inr (pb_route_plans b)"
  show ?thesis using plan_roles_safe [OF p, of "sh_planning S"] by auto
qed

text \<open>
  C13. The routes of a bundle are safe: there is one for every active role, in the order of their names,
  and each that is not blocked is a safe route from the role's start through its targets in the flight
  volume of the policy, clear of the obstacles, at an admissible speed. When there are two active
  roles, as in a crossing, and both routes are ready, the roles are farther apart than the critical
  separation wherever they are on their routes, as long as their reserved times overlap.
\<close>

theorem bundle_routes_are_safe:
  assumes "compile_operational_planning_bundle S mission d roles policy obstacles = Inr b"
  shows "list_all2 (plans_role d policy obstacles) (active_inputs roles) (pb_route_plans b)
    \<and> (\<forall>p r c e x y. pb_route_plans b = [p, r] \<and> rp_status p = RP_READY \<and> rp_status r = RP_READY
         \<and> c \<in> set (rp_reservations p) \<and> e \<in> set (rp_reservations r) \<and> overlap e c \<and> on_route p x \<and> on_route r y
         \<longrightarrow> critical_separation_m (constraints d) < distance x y)"
  using assms
proof (rule bundle_parts)
  let ?several = "length (active_inputs roles) > 1"
  let ?cap = "if ?several then RC_TEMPORAL_SEPARATION else RC_DIRECT"
  let ?plan = "if ?several then plan_temporal (sh_planning S) else plan_direct (sh_planning S)"
  assume p: "plan_roles (route_request_for mission d policy ?cap obstacles) ?plan [] (active_inputs roles) = Inr (pb_route_plans b)"
  have all: "list_all2 (plans_role d policy obstacles) (active_inputs roles) (pb_route_plans b)"
    by (rule bundle_plans [OF assms])
  have "critical_separation_m (constraints d) < distance x y"
    if two: "pb_route_plans b = [a, r]" and rest: "rp_status a = RP_READY" "rp_status r = RP_READY" "c \<in> set (rp_reservations a)"
      "e \<in> set (rp_reservations r)" "overlap e c" "on_route a x" "on_route r y" for a r c e x y
  proof -
    have "length (active_inputs roles) = 2" using list_all2_lengthD [OF all] two by simp
    with p two have "plan_roles (route_request_for mission d policy RC_TEMPORAL_SEPARATION obstacles) (plan_temporal (sh_planning S)) []
        (active_inputs roles) = Inr [a, r]" by simp
    then show ?thesis using rest by (rule two_routes_separate)
  qed
  with all show ?thesis by blast
qed

lemma active_sorted: "sort (map oi_role_id (active_inputs roles)) = map oi_role_id (active_inputs roles)"
  by (simp add: active_inputs_def sorted_sort_id)

lemma route_by_role_get:
  assumes "distinct (map rp_role_id routes)" "r \<in> set routes"
  shows "dict_get (route_by_role routes) (rp_role_id r) = Some r"
proof -
  have "dict_get (fold (\<lambda>r d. dict_set (rp_role_id r) r d) routes d) (rp_role_id r) = Some r" for d
    using assms
  proof (induction routes arbitrary: d)
    case (Cons x xs)
    show ?case
    proof (cases "r = x")
      case True
      have "dict_get (fold (\<lambda>r d. dict_set (rp_role_id r) r d) ys d) k = dict_get d k" if "k \<notin> rp_role_id ` set ys" for ys :: "route_plan_artifact list" and d k
        using that by (induction ys arbitrary: d) auto
      with True Cons.prems(1) show ?thesis by simp
    qed (use Cons in auto)
  qed simp
  then show ?thesis by (simp add: route_by_role_def)
qed

lemma node_hashes:
  assumes "list_all2 (\<lambda>role sha. \<exists>r. dict_get (route_by_role routes) role = Some r \<and> sha = rp_route_sha256 r) (map rp_role_id routes) shas"
    and "distinct (map rp_role_id routes)"
  shows "shas = map rp_route_sha256 routes"
proof -
  have "list_all2 (\<lambda>r sha. sha = rp_route_sha256 r) routes shas"
    using assms(1) unfolding list_all2_map1
    by (rule list.rel_mono_strong) (use route_by_role_get [OF assms(2)] in auto)
  then show ?thesis by (induction rule: list_all2_induct) auto
qed

lemma service_intent_Inr:
  assumes "service_intent mission active capability policy decl = Inr m"
  shows "check_intent m = Inr ()" "distinct active" "map ip_role_ids (mi_phases m) = [active]"
    "map ip_maximum_duration_s (mi_phases m) = [max_mission_duration_s policy]"
  using assms unfolding service_intent_def Let_def bind_ok_Inr check_intent_def raise_first_Inr by auto

lemma safety_case_policy:
  "compile_safety_case K p decl ms = Inr r \<Longrightarrow> \<exists>e. tighten p (ms_policy_override decl) = Inr e \<and> sr_effective_policy_sha256 r = kh_policy K e"
  by (auto simp: compile_safety_case_def Let_def bind_ok_Inr split: if_splits)

text \<open>
  C14. A bundle binds what it was compiled from: its graph is one node for the active roles with the
  hashes of exactly the planned routes, in order, and the chosen plugins; the fleet policy launches the
  active roles in the order of their names and holds all but the first back in a crossing and none
  otherwise; and the safety case is made for the global policy itself.
\<close>

theorem bundle_binds_its_parts:
  assumes "compile_operational_planning_bundle S mission d roles policy obstacles = Inr b"
  shows "(\<exists>n. eg_nodes (pb_execution_graph b) = [n] \<and> en_role_ids n = map oi_role_id (active_inputs roles)
        \<and> en_route_sha256s n = map rp_route_sha256 (pb_route_plans b) \<and> en_maximum_duration_s n = max_mission_duration_s policy)
    \<and> eg_selected_plugins (pb_execution_graph b) = pb_plugin_selections b
    \<and> fd_launch_order (pb_fleet_policy_decision b) = map oi_role_id (active_inputs roles)
    \<and> fd_held_role_ids (pb_fleet_policy_decision b) =
        (if policy_capability d = ''crossing-route'' then tl (map oi_role_id (active_inputs roles)) else [])
    \<and> sr_effective_policy_sha256 (pb_safety_case b) = kh_policy (sh_kernel S) policy"
  using assms
proof (rule bundle_parts)
  let ?cap = "if length (active_inputs roles) > 1 then RC_TEMPORAL_SEPARATION else RC_DIRECT"
  let ?plan = "if length (active_inputs roles) > 1 then plan_temporal (sh_planning S) else plan_direct (sh_planning S)"
  fix decl ms fleet_policy
  assume p: "plan_roles (route_request_for mission d policy ?cap obstacles) ?plan [] (active_inputs roles) = Inr (pb_route_plans b)"
    and f: "decide (rh_manifest (sh_planning S)) (sh_decision S) fleet_policy (fleet_request mission d roles (pb_route_plans b))
       = Inr (pb_fleet_policy_decision b)"
    and dec: "service_declaration mission = Inr decl"
    and i: "service_intent mission (map oi_role_id (active_inputs roles)) ?cap policy decl = Inr (pb_mission_intent b)"
    and g: "compile_execution_graph (sh_graph S) (pb_mission_intent b) (pb_route_plans b) (pb_plugin_selections b) = Inr (pb_execution_graph b)"
    and s: "compile_safety_case (sh_kernel S) policy decl ms = Inr (pb_safety_case b)"
  note intent = service_intent_Inr [OF i]
  have "list_all2 (plans_role d policy obstacles) (active_inputs roles) (pb_route_plans b)"
    by (rule bundle_plans [OF assms])
  then have roles: "map rp_role_id (pb_route_plans b) = map oi_role_id (active_inputs roles)"
    by (induction rule: list_all2_induct) (auto simp: plans_role_def)
  note graph = build_graph_renders [OF compiled_graph(3) [OF g intent(1)]]
  obtain ph n where n: "mi_phases (pb_mission_intent b) = [ph]" "eg_nodes (pb_execution_graph b) = [n]"
    "renders_node (route_by_role (pb_route_plans b)) ph n"
    using graph(1) intent(3) by (auto simp: list_all2_Cons1 map_eq_Cons_conv)
  then have "en_role_ids n = map oi_role_id (active_inputs roles)" "en_maximum_duration_s n = max_mission_duration_s policy"
    "list_all2 (\<lambda>role sha. \<exists>r. dict_get (route_by_role (pb_route_plans b)) role = Some r \<and> sha = rp_route_sha256 r)
       (map oi_role_id (active_inputs roles)) (en_route_sha256s n)"
    using intent(3,4) by (simp_all add: renders_node_def)
  moreover from this(3) have "en_route_sha256s n = map rp_route_sha256 (pb_route_plans b)"
    unfolding roles [symmetric] by (rule node_hashes) (simp add: roles intent(2))
  moreover have "fd_launch_order (pb_fleet_policy_decision b) = map oi_role_id (active_inputs roles)"
    "fd_held_role_ids (pb_fleet_policy_decision b) = (if policy_capability d = ''crossing-route'' then tl (map oi_role_id (active_inputs roles)) else [])"
    using fleet_decision_orders_roles [OF f] by (simp_all add: fleet_request_def active_sorted)
  moreover have unchanged: "apply_updates policy no_override = policy" by (simp add: apply_updates_def pick_def no_override_def)
  moreover have "sr_effective_policy_sha256 (pb_safety_case b) = kh_policy (sh_kernel S) policy"
  proof -
    from safety_case_policy [OF s] dec obtain e where e: "tighten policy no_override = Inr e"
      "sr_effective_policy_sha256 (pb_safety_case b) = kh_policy (sh_kernel S) e" by (auto simp: service_declaration_def split: if_splits)
    then have "e = policy" unfolding tighten_Inr by (metis unchanged)
    with e(2) show ?thesis by simp
  qed
  ultimately show ?thesis using n(2) graph(5) by blast
qed

text \<open>
  Replanning binds the route it replaces: a result is returned only within the budget, names the
  previous route as stale, and its replacement supersedes exactly that route. A replacement that is
  ready is a safe route for the replacement request.
\<close>

theorem replan_binds_previous_route:
  assumes "replan_route S plan started ended r = Inr x" "plan \<in> {plan_direct H, plan_temporal H, plan_zone H, plan_coverage H}"
    "check_request (rr_replacement_request r) = Inr ()"
  shows "ended - started \<le> rr_planning_budget_s r \<and> rx_stale_route_sha256 x = rr_previous_route_sha256 r
    \<and> rp_supersedes_route_sha256 (rx_replacement_route x) = Some (rr_previous_route_sha256 r)
    \<and> plan (rr_replacement_request r) = Inr (rx_replacement_route x)
    \<and> (rp_status (rx_replacement_route x) = RP_READY \<longrightarrow> safe_route (rr_replacement_request r) (rx_replacement_route x))"
proof -
  have x: "ended - started \<le> rr_planning_budget_s r" "plan (rr_replacement_request r) = Inr (rx_replacement_route x)"
    "rx_stale_route_sha256 x = rr_previous_route_sha256 r"
    "rp_supersedes_route_sha256 (rx_replacement_route x) = Some (rr_previous_route_sha256 r)"
    using assms(1) by (auto simp: replan_route_def Let_def bind_ok_Inr check_replan_result_def split: if_splits)
  with assms(2) direct.ready_safe [OF assms(3)] temporal.ready_safe [OF assms(3)] zone.ready_safe [OF assms(3)] coverage.ready_safe [OF assms(3)]
  show ?thesis by auto
qed

section \<open>A crossing planned in full\<close>

definition constant_service :: service_hashes where
  "constant_service = \<lparr>sh_planning = constant_hashes, sh_decision = \<lambda>_. sample_sha, sh_graph = constant_graph_hashes,
     sh_kernel = constant_kernel, sh_replan = \<lambda>_. sample_sha, sh_bundle = \<lambda>_. sample_sha\<rparr>"

definition crossing_input :: "string \<Rightarrow> vector3 \<Rightarrow> vector3 \<Rightarrow> operational_route_input" where
  "crossing_input role a b = \<lparr>oi_role_id = role, oi_vehicle_id = ''v-'' @ role, oi_initial_role = ROLE_ACTIVE, oi_start_m = a,
     oi_targets_m = [b], oi_planned_duration_s = 3\<rparr>"

definition crossing_inputs :: "operational_route_input list" where
  "crossing_inputs = [crossing_input ''beta'' (vec 0 (- 1) (1/2)) (vec 0 (- 1) 1), crossing_input ''alpha'' (vec 0 1 (1/2)) (vec 0 1 1)]"

text \<open>A wall half a metre beside the two climbs.\<close>

definition crossing_obstacles :: "box_obstacle list" where
  "crossing_obstacles = [\<lparr>ob_obstacle_id = ''wall'', ob_minimum_m = vec (1/2) (- 2) 0, ob_maximum_m = vec 1 2 2\<rparr>]"

definition crossing_bundle :: "planning_bundle outcome" where
  "crossing_bundle = compile_operational_planning_bundle constant_service ''m'' crossing_deployment crossing_inputs default_policy crossing_obstacles"

lemma selections_total:
  assumes "\<And>m. valid_sha256 (sha m)"
    "\<forall>m \<in> set ms. valid_identifier (pm_plugin_id m) \<and> (\<forall>c \<in> pm_capabilities m. valid_identifier c) \<and> valid_sha256 (pm_implementation_sha256 m)"
  shows "\<exists>chosen. selections sha ms = Inr chosen"
  unfolding selections_def by (rule map_ok_total) (use assms in \<open>simp add: from_manifest_def selection_fields_ok_def\<close>)

lemma safety_case_total:
  assumes "ms_policy_override decl = no_override"
  shows "\<exists>r. compile_safety_case constant_kernel default_policy decl ms = Inr r"
proof -
  have "list_all valid_identifier [''STALE_AUTHORITY'', ''STALE_OBSERVATION'', ''BOUNDARY_OR_DYNAMICS_VIOLATION'', ''UNDECLARED_RECOVERY'']"
    by code_simp
  then show ?thesis
    using assms tighten_nothing [OF default_policy_valid]
    by (simp add: compile_safety_case_def constant_kernel_def receipt_fields_ok_def list_all_iff Let_def)
qed

definition crossing_plans :: "route_plan_artifact list outcome" where
  "crossing_plans = plan_roles (route_request_for ''m'' crossing_deployment default_policy RC_TEMPORAL_SEPARATION crossing_obstacles)
     (plan_temporal constant_hashes) [] (active_inputs crossing_inputs)"

lemma crossing_plans_ready: "case crossing_plans of Inr routes \<Rightarrow> map rp_role_id routes = [''alpha'', ''beta''] \<and>
    map rp_status routes = [RP_READY, RP_READY] \<and> map rp_route_sha256 routes = [sample_sha, sample_sha]
    \<and> rp_reservations (routes ! 0) \<noteq> [] \<and> list_all2 overlap (rp_reservations (routes ! 1)) (rp_reservations (routes ! 0)) | Inl _ \<Rightarrow> False"
  by code_simp

lemma crossing_active: "map oi_role_id (active_inputs crossing_inputs) = [''alpha'', ''beta'']"
  "policy_capability crossing_deployment = ''crossing-route''"
  by code_simp+

lemma crossing_decided:
  assumes "map rp_role_id routes = [''alpha'', ''beta'']" "map rp_route_sha256 routes = [sample_sha, sample_sha]"
  shows "check_policy_request (fleet_request ''m'' crossing_deployment crossing_inputs routes) = Inr ()"
    "\<not> isl (decide (rh_manifest constant_hashes) (sh_decision constant_service) (policy_manifest constant_hashes ''crossing-route'')
       (fleet_request ''m'' crossing_deployment crossing_inputs routes))"
  unfolding fleet_request_def assms(2) by code_simp+

definition crossing_mission :: "mission_intent outcome" where
  "crossing_mission = bind_ok (service_declaration ''m'') (service_intent ''m'' [''alpha'', ''beta''] RC_TEMPORAL_SEPARATION default_policy)"

lemma crossing_compiles:
  assumes "map rp_role_id routes = [''alpha'', ''beta'']" "map rp_route_sha256 routes = [sample_sha, sample_sha]"
  shows "\<not> isl (bind_ok crossing_mission (\<lambda>i. compile_execution_graph (sh_graph constant_service) i routes chosen))"
proof -
  obtain a b where "routes = [a, b]" "rp_role_id a = ''alpha''" "rp_role_id b = ''beta''" "rp_route_sha256 a = sample_sha" "rp_route_sha256 b = sample_sha"
    using assms by (auto simp: map_eq_Cons_conv)
  then have r: "route_by_role routes = [(''alpha'', a), (''beta'', b)]" "rp_route_sha256 a = sample_sha" "rp_route_sha256 b = sample_sha"
    by (simp_all add: route_by_role_def)
  let ?ref = "[patrol_route, patrol_route\<lparr>rp_role_id := ''beta''\<rparr>]"
  have ref: "route_by_role ?ref = [(''alpha'', patrol_route), (''beta'', patrol_route\<lparr>rp_role_id := ''beta''\<rparr>)]"
    by (simp add: route_by_role_def patrol_route_def)
  have "(\<lambda>role. (case dict_get (route_by_role routes) role of None \<Rightarrow> Inl KeyError | Some r \<Rightarrow> Inr (rp_route_sha256 r))) =
        (\<lambda>role. (case dict_get (route_by_role ?ref) role of None \<Rightarrow> Inl KeyError | Some r \<Rightarrow> Inr (rp_route_sha256 r)))"
    unfolding r(1) ref using r(2,3) by (auto simp: patrol_route_def fun_eq_iff)
  then have "node_of (route_by_role routes) = node_of (route_by_role ?ref)" unfolding node_of_def by (simp only:)
  moreover have "set (dict_keys (route_by_role routes)) = set (dict_keys (route_by_role ?ref))" unfolding r(1) ref by simp
  ultimately have "compile_execution_graph (sh_graph constant_service) i routes chosen = compile_execution_graph (sh_graph constant_service) i ?ref chosen" for i
    unfolding compile_execution_graph_def build_graph_def by (simp only:)
  then show ?thesis by (simp only:) code_simp
qed

lemma crossing_bundle_ready: "case crossing_bundle of Inr b \<Rightarrow> crossing_plans = Inr (pb_route_plans b) | Inl _ \<Rightarrow> False"
proof -
  obtain routes where routes: "crossing_plans = Inr routes" "map rp_role_id routes = [''alpha'', ''beta'']"
    "map rp_route_sha256 routes = [sample_sha, sample_sha]" using crossing_plans_ready by (auto split: sum.splits)
  obtain planners where planners: "default_route_planner_registry constant_hashes = Inr planners"
    "resolve_plugin planners ''route.temporal'' ''1.0.0'' {route_capability_value RC_TEMPORAL_SEPARATION} True
       = Inr (temporal_manifest constant_hashes, plan_temporal constant_hashes)"
    by (simp add: default_route_planner_registry_def empty_registry_def register_def plugin_key_def direct_manifest_def zone_manifest_def
        coverage_manifest_def temporal_manifest_def builtin_manifest_def resolve_plugin_def)
  obtain policies where policies: "default_fleet_policy_registry constant_hashes = Inr policies"
    "resolve_plugin policies ''fleet.crossing-route'' ''1.0.0'' {''crossing-route''} True
       = Inr (policy_manifest constant_hashes ''crossing-route'', policy_manifest constant_hashes ''crossing-route'')"
    by (simp add: default_fleet_policy_registry_def empty_registry_def register_def plugin_key_def policy_manifest_def
        builtin_manifest_def resolve_plugin_def)
  obtain recoveries where recoveries: "default_recovery_registry constant_hashes = Inr recoveries"
    using recovery_registry_value(1) by blast
  let ?ms = "temporal_manifest constant_hashes # policy_manifest constant_hashes ''crossing-route'' # manifests recoveries"
  have ids: "valid_identifier ''route.temporal''" "valid_identifier ''TEMPORAL_SEPARATION''" "valid_identifier ''fleet.crossing-route''"
    "valid_identifier ''crossing-route''" by code_simp+
  obtain chosen where chosen: "selections (\<lambda>_. sample_sha) ?ms = Inr chosen"
    using selections_total [of "\<lambda>_. sample_sha" ?ms] recovery_manifests_valid [OF recoveries] ids
    by (auto simp: temporal_manifest_def policy_manifest_def builtin_manifest_def constant_hashes_def)
  obtain decision where decision: "decide (\<lambda>_. sample_sha) (sh_decision constant_service) (policy_manifest constant_hashes ''crossing-route'')
      (fleet_request ''m'' crossing_deployment crossing_inputs routes) = Inr decision"
    using crossing_decided(2) [OF routes(2,3)] by (auto simp: constant_hashes_def isl_def) (metis sum.exhaust)
  obtain decl intent where decl: "service_declaration ''m'' = Inr decl"
    and intent: "service_intent ''m'' [''alpha'', ''beta''] RC_TEMPORAL_SEPARATION default_policy decl = Inr intent"
    "\<not> isl (compile_execution_graph (sh_graph constant_service) intent routes chosen)"
    using crossing_compiles [OF routes(2,3), of chosen] by (auto simp: crossing_mission_def bind_ok_def split: sum.splits)
  obtain graph where graph: "compile_execution_graph (sh_graph constant_service) intent routes chosen = Inr graph"
    using intent(2) by (metis isl_def sum.exhaust_sel)
  have "\<exists>r. compile_safety_case constant_kernel default_policy decl ?ms = Inr r"
    using safety_case_total decl by (auto simp: service_declaration_def split: if_splits)
  then obtain receipt where receipt: "compile_safety_case constant_kernel default_policy decl ?ms = Inr receipt" by blast
  have several: "length (active_inputs crossing_inputs) > 1" using arg_cong [OF crossing_active(1), of length] by simp
  show ?thesis
    using planners policies recoveries routes(1) crossing_decided(1) [OF routes(2,3)] decision decl chosen intent(1) graph receipt several
    unfolding crossing_bundle_def compile_operational_planning_bundle_def Let_def crossing_plans_def
    by (simp add: crossing_active constant_service_def constant_hashes_def seal_bundle_def Let_def)
qed

theorem bundle_routes_are_safe_witness:
  "\<exists>p r. map rp_role_id [p, r] = [''alpha'', ''beta''] \<and> (\<forall>x y. on_route p x \<and> on_route r y \<longrightarrow> 1/2 < distance x y)"
proof -
  obtain b where b0: "crossing_bundle = Inr b" "crossing_plans = Inr (pb_route_plans b)"
    using crossing_bundle_ready by (auto split: sum.splits)
  obtain p r where b: "crossing_bundle = Inr b" "pb_route_plans b = [p, r]" "rp_status p = RP_READY" "rp_status r = RP_READY"
    and o: "rp_reservations p \<noteq> []" "list_all2 overlap (rp_reservations r) (rp_reservations p)"
    using crossing_plans_ready [unfolded b0(2)] b0(1) by (auto simp: map_eq_Cons_conv)
  note safe = bundle_routes_are_safe [OF b(1) [unfolded crossing_bundle_def]]
  have active: "map oi_role_id (active_inputs crossing_inputs) = [''alpha'', ''beta'']" by code_simp
  obtain i j where ij: "active_inputs crossing_inputs = [i, j]" "oi_role_id i = ''alpha''" "oi_role_id j = ''beta''"
    using active by (auto simp: map_eq_Cons_conv)
  obtain c e where ce: "c \<in> set (rp_reservations p)" "e \<in> set (rp_reservations r)" "overlap e c"
    using list_all2_partner(1) [OF o(2)] o(1) by (meson hd_in_set)
  show ?thesis
  proof (rule exI [of _ p], rule exI [of _ r], rule conjI)
    show "map rp_role_id [p, r] = [''alpha'', ''beta'']" using safe b(2) ij by (auto simp: plans_role_def)
    have "\<forall>x y. on_route p x \<and> on_route r y \<longrightarrow> critical_separation_m (constraints crossing_deployment) < distance x y"
      using conjunct2 [OF safe] b(2-4) ce by blast
    then show "\<forall>x y. on_route p x \<and> on_route r y \<longrightarrow> 1/2 < distance x y"
      by (simp add: crossing_deployment_def route_deployment_def)
  qed
qed

theorem bundle_binds_its_parts_witness:
  "\<exists>b n. crossing_bundle = Inr b \<and> eg_nodes (pb_execution_graph b) = [n] \<and> en_role_ids n = [''alpha'', ''beta'']
     \<and> fd_held_role_ids (pb_fleet_policy_decision b) = [''beta'']"
proof -
  obtain b where b: "crossing_bundle = Inr b" using crossing_bundle_ready by (auto split: sum.splits)
  have "map oi_role_id (active_inputs crossing_inputs) = [''alpha'', ''beta'']" "policy_capability crossing_deployment = ''crossing-route''"
    by code_simp+
  with bundle_binds_its_parts [OF b [unfolded crossing_bundle_def]] b show ?thesis by auto
qed

definition replan_request :: route_replan_request where
  "replan_request = \<lparr>rr_previous_route_sha256 = sample_sha, rr_changed_observation_sha256 = sample_sha,
     rr_replacement_request = (route_request RC_DIRECT [])\<lparr>rq_supersedes_route_sha256 := Some sample_sha\<rparr>, rr_planning_budget_s = 1\<rparr>"

lemma replan_ready: "check_replan_request replan_request = Inr ()"
  "case replan_route constant_service (plan_direct constant_hashes) 0 1 replan_request of
     Inr x \<Rightarrow> rp_status (rx_replacement_route x) = RP_READY | Inl _ \<Rightarrow> False"
  by code_simp+

theorem replan_binds_previous_route_witness:
  "\<exists>x. replan_route constant_service (plan_direct constant_hashes) 0 1 replan_request = Inr x
     \<and> safe_route (rr_replacement_request replan_request) (rx_replacement_route x)"
proof -
  obtain x where x: "replan_route constant_service (plan_direct constant_hashes) 0 1 replan_request = Inr x"
    "rp_status (rx_replacement_route x) = RP_READY" using replan_ready(2) by (auto split: sum.splits)
  have "check_request (rr_replacement_request replan_request) = Inr ()" by code_simp
  with replan_binds_previous_route [OF x(1), of constant_hashes] x show ?thesis by blast
qed

end
