(* ===== verification/Multidrone.thy ===== *)
theory Multidrone
  imports Deconfliction "HOL-Library.Multiset"
begin

text \<open>
  The planner for three and more vehicles, \<open>planning/multidrone.py\<close>: every order of the roles (or the
  priority order when there are too many) is turned into a schedule in which each vehicle waits on the
  ground until the routes of those before it are clear, and the best feasible schedule is selected.
\<close>

section \<open>Contracts\<close>

datatype multi_status = MD_NOT_REQUIRED | MD_RESOLVED | MD_BLOCKED

datatype multi_strategy = EXACT_ENUMERATION_STAGING | PRIORITY_GREEDY_STAGING

record pair_conflict =
  mp_conflict_id :: string
  mp_role_ids :: "string \<times> string"
  mp_predicted_minimum_separation_m :: real
  mp_closest_approach_s :: real
  mp_required_separation_m :: real

definition pair_fields_ok :: "pair_conflict \<Rightarrow> bool" where
  "pair_fields_ok c \<longleftrightarrow> valid_identifier (mp_conflict_id c) \<and> valid_identifier (fst (mp_role_ids c)) \<and>
     valid_identifier (snd (mp_role_ids c)) \<and> 0 \<le> mp_predicted_minimum_separation_m c \<and>
     0 \<le> mp_closest_approach_s c \<and> 0 < mp_required_separation_m c"

record schedule_candidate =
  mc_candidate_id :: string
  mc_strategy :: multi_strategy
  mc_precedence_order :: "string list"
  mc_planned_hold_s_by_role :: "(string, real) dict"
  mc_feasible :: bool
  mc_predicted_minimum_separation_m :: "real option"
  mc_maximum_wait_s :: real
  mc_total_wait_s :: real
  mc_fairness_wait_spread_s :: real
  mc_priority_inversion_penalty :: int
  mc_starved_role_ids :: "string list"
  mc_execution_program_sha256s :: "string list"
  mc_reason :: string

definition schedule_fields_ok :: "schedule_candidate \<Rightarrow> bool" where
  "schedule_fields_ok c \<longleftrightarrow> valid_identifier (mc_candidate_id c) \<and> list_all valid_identifier (mc_precedence_order c) \<and>
     list_all valid_identifier (dict_keys (mc_planned_hold_s_by_role c)) \<and>
     opt_all (\<lambda>m. 0 \<le> m) (mc_predicted_minimum_separation_m c) \<and> 0 \<le> mc_maximum_wait_s c \<and>
     0 \<le> mc_total_wait_s c \<and> 0 \<le> mc_fairness_wait_spread_s c \<and> 0 \<le> mc_priority_inversion_penalty c \<and>
     list_all valid_identifier (mc_starved_role_ids c) \<and> list_all valid_sha256 (mc_execution_program_sha256s c)"

record multi_plan =
  mm_deconfliction_id :: string
  mm_status :: multi_status
  mm_role_ids :: "string list"
  mm_conflicts :: "pair_conflict list"
  mm_candidates :: "schedule_candidate list"
  mm_selected_strategy :: "multi_strategy option"
  mm_selected_candidate_index :: "nat option"
  mm_selected_program_sha256s :: "string list"
  mm_exact_enumeration_limit :: int
  mm_starvation_bound_s :: real
  mm_deadlock_detected :: bool
  mm_optimality_limitation :: string
  mm_plan_sha256 :: string

definition multi_fields_ok :: "multi_plan \<Rightarrow> bool" where
  "multi_fields_ok p \<longleftrightarrow> valid_identifier (mm_deconfliction_id p) \<and> list_all valid_identifier (mm_role_ids p) \<and>
     list_all valid_sha256 (mm_selected_program_sha256s p) \<and> 2 \<le> mm_exact_enumeration_limit p \<and>
     0 < mm_starvation_bound_s p \<and> valid_sha256 (mm_plan_sha256 p)"

record multi_hash =
  mh_program :: "execution_program \<Rightarrow> string"
  mh_roles :: "string \<Rightarrow> string list \<Rightarrow> string"
  mh_pair :: "string \<Rightarrow> string \<times> string \<Rightarrow> real \<Rightarrow> string"
  mh_conflicts :: "string \<Rightarrow> pair_conflict list \<Rightarrow> string"
  mh_reason :: "string \<Rightarrow> string \<Rightarrow> string"
  mh_plan :: "multi_plan \<Rightarrow> string"

section \<open>Orders and pairs\<close>

text \<open>\<open>itertools.permutations\<close>, in its order: by position of the first element, then of the next.\<close>

fun picks :: "'a list \<Rightarrow> ('a \<times> 'a list) list" where
  "picks [] = []"
| "picks (x # xs) = (x, xs) # map (\<lambda>(y, ys). (y, x # ys)) (picks xs)"

lemma picks_length: "(y, ys) \<in> set (picks xs) \<Longrightarrow> length xs = Suc (length ys)"
  by (induction xs arbitrary: y ys) auto

function permutations :: "'a list \<Rightarrow> 'a list list" where
  "permutations [] = [[]]"
| "permutations (x # xs) = concat (map (\<lambda>(y, ys). map ((#) y) (permutations ys)) (picks (x # xs)))"
  by pat_completeness auto
termination
  by (relation "measure length") (auto dest: picks_length)

fun pairs :: "'a list \<Rightarrow> ('a \<times> 'a) list" where
  "pairs [] = []"
| "pairs (x # xs) = map (Pair x) xs @ pairs xs"

section \<open>Schedules\<close>

definition pair_conflict_of ::
    "multi_hash \<Rightarrow> string \<Rightarrow> real \<Rightarrow> execution_program \<Rightarrow> execution_program \<Rightarrow> pair_conflict option outcome" where
  "pair_conflict_of H mission required first second =
     bind_ok (predict_program_minimum_separation first second) (\<lambda>(minimum, closest_s).
       if minimum \<ge> required then Inr None
       else let roles = (min (ep_role_id first) (ep_role_id second), max (ep_role_id first) (ep_role_id second));
                c = \<lparr>mp_conflict_id = ''multi-conflict-'' @ take 20 (mh_pair H mission roles closest_s),
                     mp_role_ids = roles, mp_predicted_minimum_separation_m = minimum,
                     mp_closest_approach_s = closest_s, mp_required_separation_m = required\<rparr>
            in if pair_fields_ok c then Inr (Some c) else Inl (ValidationError ''MultiDronePairConflict field''))"

record staged =
  sg_role :: string
  sg_program :: execution_program
  sg_wait :: real

text \<open>
  The loop over the order. The roles are distinct, so the dictionaries \<open>scheduled\<close> and \<open>waits\<close>
  of the code are this list.
\<close>

fun stage_loop ::
    "execution_program list \<Rightarrow> bool \<Rightarrow> real \<Rightarrow> string list \<Rightarrow> staged list outcome" where
  "stage_loop programs leading clear [] = Inr []"
| "stage_loop programs leading clear (role # roles) =
     bind_ok (by_role programs role) (\<lambda>p.
     bind_ok (trajectory_schedule_window p) (\<lambda>window.
       let wait = (if leading then 0 else max 0 (clear - fst window + 1 / 4)) in
       bind_ok (if wait \<noteq> 0 then delay_program_before_trajectory p wait else Inr p) (\<lambda>selected.
       bind_ok (trajectory_schedule_window selected) (\<lambda>window'.
       bind_ok (stage_loop programs False (max clear (snd window')) roles) (\<lambda>rest.
         Inr (\<lparr>sg_role = role, sg_program = selected, sg_wait = wait\<rparr> # rest))))))"

definition inversion_penalty :: "(string \<Rightarrow> int) \<Rightarrow> string list \<Rightarrow> int" where
  "inversion_penalty priority order =
     sum_list (map (\<lambda>(earlier, later). max 0 (priority later - priority earlier)) (pairs order))"

definition ordered_programs :: "staged list \<Rightarrow> execution_program list" where
  "ordered_programs sgs = map sg_program (sort_key sg_role sgs)"

definition candidate_of ::
    "multi_hash \<Rightarrow> nat \<Rightarrow> string list \<Rightarrow> multi_strategy \<Rightarrow> (string \<Rightarrow> int) \<Rightarrow> real \<Rightarrow> real \<Rightarrow> safety_policy
       \<Rightarrow> staged list \<Rightarrow> real \<Rightarrow> schedule_candidate" where
  "candidate_of H index order strategy priority required bound policy sgs minimum =
     (let waits = map sg_wait sgs;
          max_wait = Max (set waits); min_wait = Min (set waits);
          starved = sort (map sg_role (filter (\<lambda>s. sg_wait s > bound) sgs));
          exceeded = list_ex (\<lambda>s. ep_schedule_duration_s (sg_program s) > max_mission_duration_s policy) sgs;
          feasible = (minimum \<ge> required \<and> starved = [] \<and> \<not> exceeded)
      in \<lparr>mc_candidate_id = ''multi-candidate-'' @ show_int (int index + 1), mc_strategy = strategy,
          mc_precedence_order = order, mc_planned_hold_s_by_role = map (\<lambda>s. (sg_role s, sg_wait s)) sgs,
          mc_feasible = feasible, mc_predicted_minimum_separation_m = Some minimum, mc_maximum_wait_s = max_wait,
          mc_total_wait_s = sum_list waits, mc_fairness_wait_spread_s = max_wait - min_wait,
          mc_priority_inversion_penalty = inversion_penalty priority order, mc_starved_role_ids = starved,
          mc_execution_program_sha256s = map (mh_program H) (ordered_programs sgs),
          mc_reason = (if feasible then ''joint conflict graph schedule satisfies separation, duration, and starvation bounds''
                       else ''joint schedule violates separation, duration, or starvation bounds'')\<rparr>)"

definition pair_minimum :: "staged \<times> staged \<Rightarrow> real outcome" where
  "pair_minimum ab =
     bind_ok (predict_program_minimum_separation (sg_program (fst ab)) (sg_program (snd ab))) (\<lambda>m. Inr (fst m))"

type_synonym scheduled = "execution_program list \<times> schedule_candidate"

definition schedule_candidate_for ::
    "multi_hash \<Rightarrow> multi_strategy \<Rightarrow> execution_program list \<Rightarrow> (string \<Rightarrow> int) \<Rightarrow> real \<Rightarrow> real \<Rightarrow> safety_policy
       \<Rightarrow> nat \<Rightarrow> string list \<Rightarrow> scheduled outcome" where
  "schedule_candidate_for H strategy programs priority required bound policy index order =
     bind_ok (stage_loop programs True 0 order) (\<lambda>sgs.
     bind_ok (map_ok pair_minimum (pairs sgs)) (\<lambda>minima.
       let c = candidate_of H index order strategy priority required bound policy sgs (Min (set minima))
       in if schedule_fields_ok c then Inr (ordered_programs sgs, c)
          else Inl (ValidationError ''MultiDroneScheduleCandidate field'')))"

section \<open>The planner\<close>

definition seal_multi :: "multi_hash \<Rightarrow> multi_plan \<Rightarrow> multi_plan outcome" where
  "seal_multi H payload =
     (let plan = payload\<lparr>mm_plan_sha256 := mh_plan H payload\<rparr>
      in if multi_fields_ok plan then Inr plan else Inl (ValidationError ''MultiDroneConflictPlan field''))"

definition multi_payload ::
    "string \<Rightarrow> multi_status \<Rightarrow> string list \<Rightarrow> pair_conflict list \<Rightarrow> schedule_candidate list \<Rightarrow> int \<Rightarrow> real \<Rightarrow> string
       \<Rightarrow> multi_plan" where
  "multi_payload pid status roles conflicts candidates limit bound limitation =
     \<lparr>mm_deconfliction_id = pid, mm_status = status, mm_role_ids = roles, mm_conflicts = conflicts,
      mm_candidates = candidates, mm_selected_strategy = None, mm_selected_candidate_index = None,
      mm_selected_program_sha256s = [], mm_exact_enumeration_limit = limit, mm_starvation_bound_s = bound,
      mm_deadlock_detected = False, mm_optimality_limitation = limitation, mm_plan_sha256 = ''''\<rparr>"

definition multi_blocked ::
    "multi_hash \<Rightarrow> string \<Rightarrow> string list \<Rightarrow> pair_conflict list \<Rightarrow> schedule_candidate list \<Rightarrow> real \<Rightarrow> int \<Rightarrow> string
       \<Rightarrow> multi_plan outcome" where
  "multi_blocked H mission roles conflicts candidates bound limit reason =
     seal_multi H ((multi_payload (''multi-plan-'' @ take 20 (mh_reason H mission reason)) MD_BLOCKED roles conflicts
       candidates limit bound reason)\<lparr>mm_deadlock_detected := True\<rparr>)"

definition candidate_key :: "schedule_candidate \<Rightarrow> int \<times> real \<times> real \<times> real \<times> string list" where
  "candidate_key c = (mc_priority_inversion_penalty c, mc_maximum_wait_s c, mc_total_wait_s c,
     mc_fairness_wait_spread_s c, mc_precedence_order c)"

type_synonym multi_result = "execution_program list \<times> multi_plan option"

definition with_multi :: "execution_program list \<Rightarrow> multi_plan outcome \<Rightarrow> multi_result outcome" where
  "with_multi programs r = bind_ok r (\<lambda>plan. Inr (programs, Some plan))"

definition select_schedule ::
    "multi_hash \<Rightarrow> string \<Rightarrow> execution_program list \<Rightarrow> string list \<Rightarrow> pair_conflict list \<Rightarrow> real \<Rightarrow> int \<Rightarrow> string
       \<Rightarrow> scheduled list \<Rightarrow> multi_result outcome" where
  "select_schedule H mission programs roles conflicts bound limit limitation schedules =
     (let candidates = map snd schedules in
      case filter (\<lambda>i. mc_feasible (candidates ! i)) [0..<length candidates] of
        [] \<Rightarrow> with_multi programs (multi_blocked H mission roles conflicts candidates bound limit
                ''joint schedule has deadlock or exceeds the starvation/duration bound'')
      | i # is \<Rightarrow>
          let k = min_by (\<lambda>j. candidate_key (candidates ! j)) i is; selected = fst (schedules ! k) in
          with_multi selected (seal_multi H
            ((multi_payload (''multi-plan-'' @ take 20 (mh_conflicts H mission conflicts)) MD_RESOLVED roles conflicts
                candidates limit bound limitation)
             \<lparr>mm_selected_strategy := Some (mc_strategy (candidates ! k)), mm_selected_candidate_index := Some k,
              mm_selected_program_sha256s := map (mh_program H) selected\<rparr>)))"

definition conflict_tasks :: "deployment_manifest \<Rightarrow> (string, task_definition) dict" where
  "conflict_tasks d =
     fold (\<lambda>t. dict_set (td_task_id t) t) (filter (\<lambda>t. td_task_type t = ''multi-conflict-route'') (tasks d)) []"

definition candidate_orders :: "(string \<Rightarrow> int) \<Rightarrow> int \<Rightarrow> string list \<Rightarrow> string list list" where
  "candidate_orders priority limit roles =
     (if int (length roles) \<le> limit then permutations roles
      else [sort_key (\<lambda>r. (- priority r, r)) roles])"

definition starvation_bound :: "safety_policy \<Rightarrow> real" where
  "starvation_bound policy = min 90 (max_mission_duration_s policy / 2)"

definition find_conflicts ::
    "multi_hash \<Rightarrow> string \<Rightarrow> execution_program list \<Rightarrow> real \<Rightarrow> string list \<Rightarrow> pair_conflict list outcome" where
  "find_conflicts H mission programs required roles =
     bind_ok (map_ok (\<lambda>(r1, r2). bind_ok (by_role programs r1) (\<lambda>a. bind_ok (by_role programs r2) (\<lambda>b.
         pair_conflict_of H mission required a b))) (pairs roles)) (\<lambda>cs. Inr (List.map_filter id cs))"

definition resolve_conflicts ::
    "multi_hash \<Rightarrow> string \<Rightarrow> execution_program list \<Rightarrow> (string \<Rightarrow> int) \<Rightarrow> real \<Rightarrow> safety_policy \<Rightarrow> int \<Rightarrow> string list
       \<Rightarrow> pair_conflict list \<Rightarrow> multi_result outcome" where
  "resolve_conflicts H mission programs priority required policy limit roles conflicts =
     (let bound = starvation_bound policy; exact = int (length roles) \<le> limit;
          strategy = (if exact then EXACT_ENUMERATION_STAGING else PRIORITY_GREEDY_STAGING);
          limitation = (if exact
            then ''globally minimum candidate under the bounded full-route staging model; not a global optimum over arbitrary continuous trajectories''
            else ''deterministic O(n^2) priority-greedy full-route staging; no general optimality guarantee'')
      in bind_ok (map_ok (\<lambda>(i, order). schedule_candidate_for H strategy programs priority required bound policy i order)
                    (List.enumerate 0 (candidate_orders priority limit roles)))
           (select_schedule H mission programs roles conflicts bound limit limitation))"

definition plan_multi_drone_conflicts ::
    "multi_hash \<Rightarrow> string \<Rightarrow> deployment_manifest \<Rightarrow> execution_program list \<Rightarrow> safety_policy \<Rightarrow> int \<Rightarrow> multi_result outcome" where
  "plan_multi_drone_conflicts H mission d programs policy limit =
     (let ts = conflict_tasks d; roles = sort (dict_keys ts); bound = starvation_bound policy;
          required = warning_separation_m (constraints d) + default_uncertainty in
      if length ts < 3 then Inr (programs, None)
      else if set roles \<noteq> set (map ep_role_id programs)
        then with_multi programs (multi_blocked H mission roles [] [] bound limit
               ''multi-conflict roles do not have static accepted programs'')
      else bind_ok (find_conflicts H mission programs required roles) (\<lambda>conflicts.
        if conflicts = []
        then with_multi programs (seal_multi H
               ((multi_payload (''multi-plan-'' @ take 20 (mh_roles H mission roles)) MD_NOT_REQUIRED roles [] [] limit bound
                   ''no conflict resolution was required'')
                \<lparr>mm_selected_program_sha256s := map (mh_program H) programs\<rparr>))
        else resolve_conflicts H mission programs (task_priority ts) required policy limit roles conflicts))"

section \<open>Orders\<close>

lemma picks_split: "(y, ys) \<in> set (picks xs) \<longleftrightarrow> (\<exists>a b. xs = a @ y # b \<and> ys = a @ b)"
proof (induction xs arbitrary: ys)
  case (Cons x xs)
  have "(y, ys) \<in> set (picks (x # xs)) \<longleftrightarrow> (y = x \<and> ys = xs) \<or> (\<exists>zs. (y, zs) \<in> set (picks xs) \<and> ys = x # zs)"
    by auto
  also have "\<dots> \<longleftrightarrow> (\<exists>a b. x # xs = a @ y # b \<and> ys = a @ b)"
    unfolding Cons.IH by (auto simp: Cons_eq_append_conv) blast+
  finally show ?case .
qed simp

lemma permutations_Cons:
  assumes "xs \<noteq> []"
  shows "zs \<in> set (permutations xs) \<longleftrightarrow>
    (\<exists>y a b ws. xs = a @ y # b \<and> zs = y # ws \<and> ws \<in> set (permutations (a @ b)))"
proof -
  obtain v vs where xs: "xs = v # vs" using assms by (cases xs) auto
  have "set (permutations xs) = (\<Union>p \<in> set (picks xs). (#) (fst p) ` set (permutations (snd p)))"
    unfolding xs permutations.simps(2) by (simp add: split_beta del: picks.simps)
  then have "zs \<in> set (permutations xs) \<longleftrightarrow> (\<exists>y ys. (y, ys) \<in> set (picks xs) \<and> zs \<in> (#) y ` set (permutations ys))"
    by (simp add: Bex_def)
  then show ?thesis unfolding picks_split by blast
qed

lemma permutations_mset: "zs \<in> set (permutations xs) \<longleftrightarrow> mset zs = mset xs"
proof (induction "length xs" arbitrary: xs zs)
  case (Suc n)
  then have ne: "xs \<noteq> []" by auto
  have ih: "ws \<in> set (permutations (a @ b)) \<longleftrightarrow> mset ws = mset (a @ b)" if "xs = a @ y # b" for a b y ws
    using that Suc.hyps(2) by (intro Suc.hyps(1)) simp
  show ?case
  proof
    assume "zs \<in> set (permutations xs)"
    then obtain y a b ws where "xs = a @ y # b" "zs = y # ws" "ws \<in> set (permutations (a @ b))"
      unfolding permutations_Cons [OF ne] by blast
    with ih show "mset zs = mset xs" by simp
  next
    assume m: "mset zs = mset xs"
    with ne obtain y ws where zs: "zs = y # ws" by (cases zs) auto
    with m have "y \<in> set xs" by (metis list.set_intros(1) set_mset_mset)
    then obtain a b where xs: "xs = a @ y # b" by (meson split_list)
    with m zs have "mset ws = mset (a @ b)" by simp
    with ih [OF xs] have "ws \<in> set (permutations (a @ b))" by blast
    with xs zs show "zs \<in> set (permutations xs)" unfolding permutations_Cons [OF ne] by blast
  qed
qed simp

lemma pairs_in: "(a, b) \<in> set (pairs xs) \<longleftrightarrow> (\<exists>i j. i < j \<and> j < length xs \<and> a = xs ! i \<and> b = xs ! j)"
proof (induction xs)
  case (Cons x xs)
  have "(a, b) \<in> set (pairs (x # xs)) \<longleftrightarrow> (a = x \<and> b \<in> set xs) \<or> (a, b) \<in> set (pairs xs)" by auto
  also have "\<dots> \<longleftrightarrow> (\<exists>i j. i < j \<and> j < length (x # xs) \<and> a = (x # xs) ! i \<and> b = (x # xs) ! j)"
  proof
    assume "(a = x \<and> b \<in> set xs) \<or> (a, b) \<in> set (pairs xs)"
    then show "\<exists>i j. i < j \<and> j < length (x # xs) \<and> a = (x # xs) ! i \<and> b = (x # xs) ! j"
    proof
      assume "a = x \<and> b \<in> set xs"
      then obtain j where "j < length xs" "b = xs ! j" by (auto simp: in_set_conv_nth)
      with \<open>a = x \<and> b \<in> set xs\<close> show ?thesis by (intro exI [of _ 0] exI [of _ "Suc j"]) simp
    next
      assume "(a, b) \<in> set (pairs xs)"
      then obtain i j where "i < j" "j < length xs" "a = xs ! i" "b = xs ! j" unfolding Cons.IH by blast
      then show ?thesis by (intro exI [of _ "Suc i"] exI [of _ "Suc j"]) simp
    qed
  next
    assume "\<exists>i j. i < j \<and> j < length (x # xs) \<and> a = (x # xs) ! i \<and> b = (x # xs) ! j"
    then obtain i j where ij: "i < j" "j < Suc (length xs)" "a = (x # xs) ! i" "b = (x # xs) ! j" by auto
    then obtain j' where j: "j = Suc j'" by (cases j) auto
    show "(a = x \<and> b \<in> set xs) \<or> (a, b) \<in> set (pairs xs)"
    proof (cases i)
      case (Suc i')
      with ij j have "(a, b) \<in> set (pairs xs)" unfolding Cons.IH by auto
      then show ?thesis by blast
    qed (use ij j in auto)
  qed
  finally show ?case .
qed simp

section \<open>Staged schedules\<close>

definition window_of :: "staged \<Rightarrow> (real \<times> real) outcome" where
  "window_of s = trajectory_schedule_window (sg_program s)"

text \<open>The second vehicle starts its route a quarter of a second after the first has ended its own.\<close>

definition takes_turn :: "staged \<Rightarrow> staged \<Rightarrow> bool" where
  "takes_turn a b \<longleftrightarrow> (\<exists>wa wb. window_of a = Inr wa \<and> window_of b = Inr wb \<and> snd wa + 1 / 4 \<le> fst wb)"

definition staged_from :: "execution_program list \<Rightarrow> staged \<Rightarrow> bool" where
  "staged_from programs s \<longleftrightarrow> 0 \<le> sg_wait s \<and> (\<exists>p. by_role programs (sg_role s) = Inr p \<and>
     (sg_wait s = 0 \<and> sg_program s = p \<or> 0 < sg_wait s \<and> delay_before_launch p (sg_wait s) = Inr (sg_program s)))"

lemma window_nonempty: "trajectory_schedule_window p = Inr w \<Longrightarrow> ep_operations p \<noteq> []"
  by (auto simp: trajectory_schedule_window_def first_trajectory_def trajectory_operations_def bind_ok_Inr)

lemma delayed_window:
  assumes "trajectory_schedule_window p = Inr (s, e)" "delay_before_launch p d = Inr q" "0 < d"
  shows "trajectory_schedule_window q = Inr (s + d, e + d)"
proof -
  from assms(1) obtain op ops where op: "trajectory_operations p = op # ops" "s = op_starts_at_s op" "e = op_ends_at_s op"
    by (auto simp: trajectory_schedule_window_def first_trajectory_def bind_ok_Inr split: list.splits)
  from delay_before_launch_ops [OF assms(2,3) window_nonempty [OF assms(1)]] op(1)
  obtain op' ops' where "trajectory_operations q = op' # ops'" "shifted_by d op op'" by (auto simp: list_all2_Cons1)
  then show ?thesis using op by (auto simp: trajectory_schedule_window_def first_trajectory_def shifted_by_def)
qed

lemma stage_step:
  assumes "stage_loop programs leading clear (role # roles) = Inr sgs"
  obtains s rest w where "sgs = s # rest" "sg_role s = role" "staged_from programs s" "window_of s = Inr w"
    "\<not> leading \<Longrightarrow> clear + 1 / 4 \<le> fst w" "stage_loop programs False (max clear (snd w)) roles = Inr rest"
proof -
  from assms obtain p w0 where p: "by_role programs role = Inr p" and w0: "trajectory_schedule_window p = Inr w0"
    by (auto simp: bind_ok_Inr Let_def)
  obtain st en where w: "trajectory_schedule_window p = Inr (st, en)" using w0 by (cases w0) simp
  from assms obtain selected w' rest where
    sel: "(if (if leading then 0 else max 0 (clear - st + 1 / 4)) \<noteq> 0
        then delay_program_before_trajectory p (if leading then 0 else max 0 (clear - st + 1 / 4)) else Inr p) = Inr selected"
    and w': "trajectory_schedule_window selected = Inr w'"
    and rest: "stage_loop programs False (max clear (snd w')) roles = Inr rest"
    and sgs: "sgs = \<lparr>sg_role = role, sg_program = selected, sg_wait = (if leading then 0 else max 0 (clear - st + 1 / 4))\<rparr> # rest"
    unfolding stage_loop.simps p w bind_ok_simps fst_conv bind_ok_Inr Let_def by blast
  define wait where wait: "wait = (if leading then 0 else max 0 (clear - st + 1 / 4))"
  have nn: "0 \<le> wait" by (simp add: wait)
  have win: "w' = (st + wait, en + wait) \<and> (wait = 0 \<and> selected = p \<or> 0 < wait \<and> delay_before_launch p wait = Inr selected)"
  proof (cases "wait = 0")
    case True
    with sel w w' show ?thesis by (simp add: wait [symmetric])
  next
    case False
    with sel have "delay_before_launch p wait = Inr selected"
      by (simp add: wait [symmetric] delay_program_before_trajectory_def)
    with delayed_window [OF w this] False nn w' show ?thesis by simp
  qed
  show ?thesis
  proof (rule that [OF sgs, of w'])
    show "staged_from programs \<lparr>sg_role = role, sg_program = selected, sg_wait = (if leading then 0 else max 0 (clear - st + 1 / 4))\<rparr>"
      using win nn p unfolding wait [symmetric] by (auto simp: staged_from_def)
    show "\<not> leading \<Longrightarrow> clear + 1 / 4 \<le> fst w'" using win by (auto simp: wait)
  qed (simp_all add: window_of_def w' rest)
qed

lemma stage_loop_roles: "stage_loop programs leading clear order = Inr sgs \<Longrightarrow> map sg_role sgs = order"
proof (induction order arbitrary: leading clear sgs)
  case (Cons role roles)
  from Cons.prems show ?case
  proof (rule stage_step)
    fix s rest w
    assume "sgs = s # rest" "sg_role s = role" and r: "stage_loop programs False (max clear (snd w)) roles = Inr rest"
    with Cons.IH [OF r] show ?case by simp
  qed
qed simp

lemma stage_loop_from: "stage_loop programs leading clear order = Inr sgs \<Longrightarrow> list_all (staged_from programs) sgs"
proof (induction order arbitrary: leading clear sgs)
  case (Cons role roles)
  from Cons.prems show ?case
  proof (rule stage_step)
    fix s rest w
    assume "sgs = s # rest" "staged_from programs s" and r: "stage_loop programs False (max clear (snd w)) roles = Inr rest"
    with Cons.IH [OF r] show ?case by simp
  qed
qed simp

lemma stage_loop_clear:
  "stage_loop programs False clear order = Inr sgs \<Longrightarrow> s \<in> set sgs \<Longrightarrow> \<exists>w. window_of s = Inr w \<and> clear + 1 / 4 \<le> fst w"
proof (induction order arbitrary: clear sgs)
  case (Cons role roles)
  from Cons.prems(1) show ?case
  proof (rule stage_step)
    fix t rest w
    assume t: "sgs = t # rest" "window_of t = Inr w" "\<not> False \<Longrightarrow> clear + 1 / 4 \<le> fst w"
      and r: "stage_loop programs False (max clear (snd w)) roles = Inr rest"
    show ?case
    proof (cases "s \<in> set rest")
      case True
      from Cons.IH [OF r True] obtain v where "window_of s = Inr v" "max clear (snd w) + 1 / 4 \<le> fst v" by blast
      then show ?thesis by (intro exI [of _ v]) simp
    qed (use t Cons.prems(2) in auto)
  qed
qed simp

lemma stage_loop_turns: "stage_loop programs leading clear order = Inr sgs \<Longrightarrow> sorted_wrt takes_turn sgs"
proof (induction order arbitrary: leading clear sgs)
  case (Cons role roles)
  from Cons.prems show ?case
  proof (rule stage_step)
    fix s rest w
    assume s: "sgs = s # rest" "window_of s = Inr w"
      and r: "stage_loop programs False (max clear (snd w)) roles = Inr rest"
    have "takes_turn s t" if "t \<in> set rest" for t
    proof -
      from stage_loop_clear [OF r that] obtain v where "window_of t = Inr v" "max clear (snd w) + 1 / 4 \<le> fst v" by blast
      with s(2) show ?thesis unfolding takes_turn_def by (intro exI [of _ w] exI [of _ v]) simp
    qed
    with s Cons.IH [OF r] show ?case by simp
  qed
qed simp

section \<open>What a selected schedule guarantees\<close>

lemma pair_minimum_separated:
  assumes "pair_minimum (a, b) = Inr m"
  shows "separated (sg_program a) (sg_program b) m"
proof -
  from assms obtain pd where "predict (sg_program a) (sg_program b) (1 / 1000) = Inr pd" "m = pd_minimum_separation_m pd"
    by (auto simp: pair_minimum_def predict_program_minimum_separation_def bind_ok_Inr)
  with predict_separated show ?thesis by blast
qed

text \<open>A schedule a candidate describes and judges feasible.\<close>

definition joint_schedule :: "execution_program list \<Rightarrow> real \<Rightarrow> safety_policy \<Rightarrow> string list \<Rightarrow> staged list \<Rightarrow> bool" where
  "joint_schedule programs required policy order sgs \<longleftrightarrow>
     map sg_role sgs = order \<and> list_all (staged_from programs) sgs \<and> sorted_wrt takes_turn sgs
     \<and> (\<forall>s \<in> set sgs. sg_wait s \<le> starvation_bound policy \<and> ep_schedule_duration_s (sg_program s) \<le> max_mission_duration_s policy)
     \<and> (\<forall>(a, b) \<in> set (pairs sgs). separated (sg_program a) (sg_program b) required)"

lemma candidate_feasible:
  "mc_feasible (candidate_of H i order strategy prio required bound policy sgs m) \<longleftrightarrow>
   required \<le> m \<and> (\<forall>s \<in> set sgs. sg_wait s \<le> bound \<and> ep_schedule_duration_s (sg_program s) \<le> max_mission_duration_s policy)"
proof -
  have "sort (map sg_role (filter (\<lambda>s. sg_wait s > bound) sgs)) = [] \<longleftrightarrow> (\<forall>s \<in> set sgs. sg_wait s \<le> bound)"
    by (metis (no_types, lifting) filter_False filter_empty_conv list.map_disc_iff not_le set_empty set_sort)
  then show ?thesis by (auto simp: candidate_of_def Let_def list_ex_iff not_less)
qed

lemma candidate_sel [simp]:
  "mc_strategy (candidate_of H i order strategy prio required bound policy sgs m) = strategy"
  "mc_precedence_order (candidate_of H i order strategy prio required bound policy sgs m) = order"
  by (simp_all add: candidate_of_def Let_def)

lemma schedule_candidate_cases:
  assumes "schedule_candidate_for H strategy programs prio required bound policy i order = Inr (ps, c)"
  obtains sgs minima where "stage_loop programs True 0 order = Inr sgs" "ps = ordered_programs sgs"
    "map_ok pair_minimum (pairs sgs) = Inr minima"
    "c = candidate_of H i order strategy prio required bound policy sgs (Min (set minima))" "schedule_fields_ok c"
  using assms by (auto simp: schedule_candidate_for_def Let_def bind_ok_Inr split: if_splits)

lemma feasible_schedule:
  assumes "schedule_candidate_for H strategy programs prio required (starvation_bound policy) policy i order = Inr (ps, c)"
    "mc_feasible c"
  shows "\<exists>sgs. ps = ordered_programs sgs \<and> joint_schedule programs required policy order sgs"
  using assms(1)
proof (rule schedule_candidate_cases)
  fix sgs minima
  assume st: "stage_loop programs True 0 order = Inr sgs" and ps: "ps = ordered_programs sgs"
    and mi: "map_ok pair_minimum (pairs sgs) = Inr minima"
    and c: "c = candidate_of H i order strategy prio required (starvation_bound policy) policy sgs (Min (set minima))"
  note feas = assms(2) [unfolded c candidate_feasible]
  have "separated (sg_program a) (sg_program b) required" if "(a, b) \<in> set (pairs sgs)" for a b
  proof -
    from that obtain k where k: "k < length (pairs sgs)" "pairs sgs ! k = (a, b)" by (auto simp: in_set_conv_nth)
    have l2: "list_all2 (\<lambda>x y. pair_minimum x = Inr y) (pairs sgs) minima" using mi by (simp add: map_ok_Inr)
    from list_all2_nthD [OF l2 k(1)] k(2) have sep: "separated (sg_program a) (sg_program b) (minima ! k)"
      by (intro pair_minimum_separated) simp
    have "Min (set minima) \<le> minima ! k" using k(1) list_all2_lengthD [OF l2] by (intro Min_le) auto
    with feas have "required \<le> minima ! k" by linarith
    with sep show ?thesis by (rule separated_mono)
  qed
  then have "joint_schedule programs required policy order sgs"
    unfolding joint_schedule_def using stage_loop_roles [OF st] stage_loop_from [OF st] stage_loop_turns [OF st] feas by auto
  with ps show ?thesis by blast
qed

section \<open>What the planner returns\<close>

lemma seal_multi_Inr: "seal_multi H payload = Inr plan \<Longrightarrow> plan = payload\<lparr>mm_plan_sha256 := mh_plan H payload\<rparr>"
  by (auto simp: seal_multi_def Let_def split: if_splits)

lemma with_multi_Inr: "with_multi ps r = Inr (ps', po) \<longleftrightarrow> ps' = ps \<and> (\<exists>plan. r = Inr plan \<and> po = Some plan)"
  by (auto simp: with_multi_def bind_ok_Inr)

lemma multi_blocked_status: "multi_blocked H m roles cs ks b l r = Inr plan \<Longrightarrow> mm_status plan = MD_BLOCKED \<and> mm_deadlock_detected plan"
  by (auto simp: multi_blocked_def multi_payload_def dest: seal_multi_Inr)

lemma select_schedule_resolved:
  assumes "select_schedule H mission programs roles conflicts bound limit limitation schedules = Inr (ps, Some plan)"
    and "mm_status plan = MD_RESOLVED"
  obtains k where "k < length schedules" "mc_feasible (snd (schedules ! k))" "ps = fst (schedules ! k)"
    "mm_selected_candidate_index plan = Some k" "mm_candidates plan = map snd schedules"
    "mm_selected_program_sha256s plan = map (mh_program H) ps"
    "\<And>j. j < length schedules \<Longrightarrow> mc_feasible (snd (schedules ! j)) \<Longrightarrow>
       candidate_key (snd (schedules ! k)) \<le> candidate_key (snd (schedules ! j))"
proof -
  let ?cs = "map snd schedules" let ?f = "filter (\<lambda>i. mc_feasible (map snd schedules ! i)) [0..<length (map snd schedules)]"
  have "?f \<noteq> []"
    using assms by (auto simp: select_schedule_def Let_def with_multi_Inr dest!: multi_blocked_status split: list.splits)
  then obtain i "is" where f: "?f = i # is" by (cases ?f) auto
  define k where k: "k = min_by (\<lambda>j. candidate_key (?cs ! j)) i is"
  have "k \<in> set (i # is)" unfolding k by (rule min_by_in)
  then have kin: "k \<in> set ?f" by (simp only: f)
  then have kk: "k < length schedules" "mc_feasible (snd (schedules ! k))" by auto
  from assms(1) f have ps: "ps = fst (schedules ! k)"
    and sp: "seal_multi H ((multi_payload (''multi-plan-'' @ take 20 (mh_conflicts H mission conflicts)) MD_RESOLVED roles conflicts
                ?cs limit bound limitation)
             \<lparr>mm_selected_strategy := Some (mc_strategy (?cs ! k)), mm_selected_candidate_index := Some k,
              mm_selected_program_sha256s := map (mh_program H) (fst (schedules ! k))\<rparr>) = Inr plan"
    by (simp_all add: select_schedule_def Let_def with_multi_Inr k [symmetric])
  note plan = seal_multi_Inr [OF sp]
  have le: "candidate_key (snd (schedules ! k)) \<le> candidate_key (snd (schedules ! j))"
    if "j < length schedules" "mc_feasible (snd (schedules ! j))" for j
  proof -
    have "j \<in> set ?f" using that by simp
    then have "j \<in> set (i # is)" by (simp only: f)
    from min_by_le [OF this, of "\<lambda>j. candidate_key (?cs ! j)"] show ?thesis
      using that(1) kk(1) by (simp add: k [symmetric])
  qed
  show ?thesis by (rule that [OF kk ps _ _ _ le]) (simp_all add: plan multi_payload_def ps)
qed

lemma plan_multi_resolved:
  assumes "plan_multi_drone_conflicts H mission d programs policy limit = Inr (ps, Some plan)" "mm_status plan = MD_RESOLVED"
  obtains conflicts where "set (sort (dict_keys (conflict_tasks d))) = set (map ep_role_id programs)"
    "3 \<le> length (conflict_tasks d)"
    "resolve_conflicts H mission programs (task_priority (conflict_tasks d))
       (warning_separation_m (constraints d) + default_uncertainty) policy limit (sort (dict_keys (conflict_tasks d))) conflicts
       = Inr (ps, Some plan)"
  using assms
  by (auto simp: plan_multi_drone_conflicts_def Let_def with_multi_Inr bind_ok_Inr multi_payload_def
      split: if_splits dest!: multi_blocked_status seal_multi_Inr)

lemma resolve_conflicts_schedules:
  assumes "resolve_conflicts H mission programs prio required policy limit roles conflicts = Inr (ps, Some plan)"
  defines "orders \<equiv> candidate_orders prio limit roles"
  obtains schedules limitation strategy where
    "select_schedule H mission programs roles conflicts (starvation_bound policy) limit limitation schedules = Inr (ps, Some plan)"
    "strategy = (if int (length roles) \<le> limit then EXACT_ENUMERATION_STAGING else PRIORITY_GREEDY_STAGING)"
    "length schedules = length orders"
    "\<And>i. i < length schedules \<Longrightarrow> schedule_candidate_for H strategy programs prio required (starvation_bound policy) policy i (orders ! i)
       = Inr (schedules ! i)"
proof -
  let ?st = "if int (length roles) \<le> limit then EXACT_ENUMERATION_STAGING else PRIORITY_GREEDY_STAGING"
  from assms(1) obtain schedules limitation where
    sel: "select_schedule H mission programs roles conflicts (starvation_bound policy) limit limitation schedules = Inr (ps, Some plan)"
    and l2: "list_all2 (\<lambda>(i, order) s. schedule_candidate_for H ?st programs prio required (starvation_bound policy) policy i order = Inr s)
      (List.enumerate 0 orders) schedules"
    unfolding resolve_conflicts_def Let_def bind_ok_Inr map_ok_Inr orders_def by (auto simp: case_prod_unfold)
  have len: "length schedules = length orders" using list_all2_lengthD [OF l2] by simp
  have "schedule_candidate_for H ?st programs prio required (starvation_bound policy) policy i (orders ! i) = Inr (schedules ! i)"
    if "i < length schedules" for i
    using list_all2_nthD2 [OF l2 that] that len by (simp add: nth_enumerate_eq)
  with sel len show ?thesis by (intro that [OF _ refl]) auto
qed

lemma candidate_orders_mset: "order \<in> set (candidate_orders prio limit roles) \<Longrightarrow> mset order = mset roles"
  by (auto simp: candidate_orders_def permutations_mset split: if_splits)

lemma conflict_tasks_wf: "dict_wf (conflict_tasks d)"
proof -
  have "dict_wf acc \<Longrightarrow> dict_wf (fold (\<lambda>t. dict_set (td_task_id t) t) ts acc)" for ts and acc :: "(string, task_definition) dict"
    by (induction ts arbitrary: acc) simp_all
  then show ?thesis by (simp add: conflict_tasks_def)
qed

lemma joint_schedule_pair:
  assumes "joint_schedule programs required policy order sgs" "distinct order" "a \<in> set sgs" "b \<in> set sgs" "sg_role a \<noteq> sg_role b"
  shows "separated (sg_program a) (sg_program b) required"
proof -
  have js: "\<forall>(a, b) \<in> set (pairs sgs). separated (sg_program a) (sg_program b) required"
    using assms(1) by (simp add: joint_schedule_def)
  obtain i j where ij: "i < length sgs" "j < length sgs" "a = sgs ! i" "b = sgs ! j"
    using assms(3,4) by (auto simp: in_set_conv_nth)
  with assms(5) have "i \<noteq> j" by auto
  then consider "i < j" | "j < i" by linarith
  then show ?thesis
  proof cases
    case 1
    with ij have "(a, b) \<in> set (pairs sgs)" unfolding pairs_in by blast
    with js show ?thesis by blast
  next
    case 2
    with ij have "(b, a) \<in> set (pairs sgs)" unfolding pairs_in by blast
    with js show ?thesis using separated_commute by blast
  qed
qed

text \<open>
  C20. A resolved plan for three or more vehicles is a joint schedule: every role is scheduled once, in
  some order, by its own accepted program, at most delayed before launch; each vehicle starts its route
  a quarter of a second after all those before it have ended theirs; nobody waits longer than the
  starvation bound or flies past the mission duration; and any two vehicles keep the warning separation
  plus the uncertainty margin at every predicted sample, hence the warning separation at every instant
  while they are together not faster than 5 m/s.
\<close>

theorem multi_plan_is_joint_schedule:
  assumes "plan_multi_drone_conflicts H mission d programs policy limit = Inr (ps, Some plan)" "mm_status plan = MD_RESOLVED"
  shows "\<exists>order sgs. ps = ordered_programs sgs \<and> mset order = mset (dict_keys (conflict_tasks d))
    \<and> joint_schedule programs (warning_separation_m (constraints d) + 5 / 100) policy order sgs
    \<and> mm_selected_program_sha256s plan = map (mh_program H) ps
    \<and> (\<forall>a \<in> set sgs. \<forall>b \<in> set sgs. \<forall>V W t x y. sg_role a \<noteq> sg_role b \<and> flies_within (sg_program a) V
         \<and> flies_within (sg_program b) W \<and> V + W \<le> 5 \<and> 0 \<le> t \<and> t \<le> joint_duration (sg_program a) (sg_program b)
         \<and> 0 < joint_duration (sg_program a) (sg_program b) \<and> program_position (sg_program a) t = Inr x
         \<and> program_position (sg_program b) t = Inr y \<longrightarrow> warning_separation_m (constraints d) \<le> distance x y)"
proof -
  let ?roles = "sort (dict_keys (conflict_tasks d))" let ?req = "warning_separation_m (constraints d) + default_uncertainty"
  let ?orders = "candidate_orders (task_priority (conflict_tasks d)) limit ?roles"
  obtain conflicts where rc: "resolve_conflicts H mission programs (task_priority (conflict_tasks d)) ?req policy limit ?roles conflicts
      = Inr (ps, Some plan)"
    using assms by (rule plan_multi_resolved)
  from rc obtain schedules limitation strategy where
    sel: "select_schedule H mission programs ?roles conflicts (starvation_bound policy) limit limitation schedules = Inr (ps, Some plan)"
    and len: "length schedules = length ?orders"
    and sch: "\<And>i. i < length schedules \<Longrightarrow> schedule_candidate_for H strategy programs (task_priority (conflict_tasks d)) ?req
       (starvation_bound policy) policy i (?orders ! i) = Inr (schedules ! i)"
    by (rule resolve_conflicts_schedules) blast
  from sel assms(2) obtain k where k: "k < length schedules" "mc_feasible (snd (schedules ! k))" "ps = fst (schedules ! k)"
    "mm_selected_program_sha256s plan = map (mh_program H) ps"
    by (rule select_schedule_resolved) blast
  have "schedule_candidate_for H strategy programs (task_priority (conflict_tasks d)) ?req (starvation_bound policy) policy k (?orders ! k)
      = Inr (ps, snd (schedules ! k))" using sch [OF k(1)] k(3) by simp
  from feasible_schedule [OF this k(2)] obtain sgs where
    sgs: "ps = ordered_programs sgs" "joint_schedule programs ?req policy (?orders ! k) sgs" by blast
  have ms: "mset (?orders ! k) = mset (dict_keys (conflict_tasks d))"
    using candidate_orders_mset [OF nth_mem, of k] k(1) len by simp
  then have dist: "distinct (?orders ! k)"
    using conflict_tasks_wf [of d] mset_eq_imp_distinct_iff unfolding dict_wf_def by metis
  have "\<forall>a \<in> set sgs. \<forall>b \<in> set sgs. \<forall>V W t x y. sg_role a \<noteq> sg_role b \<and> flies_within (sg_program a) V
         \<and> flies_within (sg_program b) W \<and> V + W \<le> 5 \<and> 0 \<le> t \<and> t \<le> joint_duration (sg_program a) (sg_program b)
         \<and> 0 < joint_duration (sg_program a) (sg_program b) \<and> program_position (sg_program a) t = Inr x
         \<and> program_position (sg_program b) t = Inr y \<longrightarrow> warning_separation_m (constraints d) \<le> distance x y"
    by (intro ballI allI impI, elim conjE) (rule separated_margin [OF joint_schedule_pair [OF sgs(2) dist]])
  with sgs ms k(4) show ?thesis unfolding default_uncertainty_def by (intro exI conjI)
qed

text \<open>
  C23. Up to the enumeration limit the selected schedule is optimal in the staging model: its priority
  inversion, longest wait, total wait, spread of the waits and order, compared in this sequence, are
  not above those of any feasible schedule of any order of the roles.
\<close>

theorem multi_plan_is_optimal:
  assumes "plan_multi_drone_conflicts H mission d programs policy limit = Inr (ps, Some plan)" "mm_status plan = MD_RESOLVED"
    and "int (length (conflict_tasks d)) \<le> limit"
    and "mset order = mset (dict_keys (conflict_tasks d))"
    and "schedule_candidate_for H EXACT_ENUMERATION_STAGING programs (task_priority (conflict_tasks d))
      (warning_separation_m (constraints d) + 5 / 100) (starvation_bound policy) policy index order = Inr (qs, c)" "mc_feasible c"
  shows "\<exists>k. mm_selected_candidate_index plan = Some k \<and> k < length (mm_candidates plan)
    \<and> candidate_key (mm_candidates plan ! k) \<le> candidate_key c"
proof -
  let ?roles = "sort (dict_keys (conflict_tasks d))" let ?req = "warning_separation_m (constraints d) + default_uncertainty"
  let ?prio = "task_priority (conflict_tasks d)"
  let ?orders = "candidate_orders ?prio limit ?roles"
  have ex: "int (length ?roles) \<le> limit" using assms(3) by simp
  obtain conflicts where rc: "resolve_conflicts H mission programs ?prio ?req policy limit ?roles conflicts = Inr (ps, Some plan)"
    using assms(1,2) by (rule plan_multi_resolved)
  from rc obtain schedules limitation strategy where
    sel: "select_schedule H mission programs ?roles conflicts (starvation_bound policy) limit limitation schedules = Inr (ps, Some plan)"
    and strategy: "strategy = (if int (length ?roles) \<le> limit then EXACT_ENUMERATION_STAGING else PRIORITY_GREEDY_STAGING)"
    and len: "length schedules = length ?orders"
    and sch: "\<And>i. i < length schedules \<Longrightarrow> schedule_candidate_for H strategy programs ?prio ?req
       (starvation_bound policy) policy i (?orders ! i) = Inr (schedules ! i)"
    by (rule resolve_conflicts_schedules) blast
  have "order \<in> set ?orders" using assms(4) ex by (simp add: candidate_orders_def permutations_mset)
  then obtain j where j: "j < length schedules" "?orders ! j = order" using len by (auto simp: in_set_conv_nth)
  obtain qs' c' where s: "schedules ! j = (qs', c')" by (cases "schedules ! j") auto
  have c1: "schedule_candidate_for H EXACT_ENUMERATION_STAGING programs ?prio ?req (starvation_bound policy) policy j order = Inr (qs', c')"
    using sch [OF j(1)] j(2) s strategy ex by simp
  have c2: "schedule_candidate_for H EXACT_ENUMERATION_STAGING programs ?prio ?req (starvation_bound policy) policy index order = Inr (qs, c)"
    using assms(5) by (simp add: default_uncertainty_def)
  have same: "mc_feasible c' = mc_feasible c \<and> candidate_key c' = candidate_key c"
    using c1
  proof (rule schedule_candidate_cases)
    fix sgs minima assume a: "stage_loop programs True 0 order = Inr sgs" "map_ok pair_minimum (pairs sgs) = Inr minima"
      "c' = candidate_of H j order EXACT_ENUMERATION_STAGING ?prio ?req (starvation_bound policy) policy sgs (Min (set minima))"
    from c2 show ?thesis
    proof (rule schedule_candidate_cases)
      fix sgs' minima' assume b: "stage_loop programs True 0 order = Inr sgs'" "map_ok pair_minimum (pairs sgs') = Inr minima'"
        "c = candidate_of H index order EXACT_ENUMERATION_STAGING ?prio ?req (starvation_bound policy) policy sgs' (Min (set minima'))"
      have "sgs' = sgs" "minima' = minima" using a(1,2) b(1,2) by auto
      then show ?thesis using a(3) b(3) by (simp add: candidate_feasible) (simp add: candidate_key_def candidate_of_def Let_def)
    qed
  qed
  from sel assms(2) obtain k where k: "k < length schedules" "mm_selected_candidate_index plan = Some k"
    "mm_candidates plan = map snd schedules"
    "\<And>j. j < length schedules \<Longrightarrow> mc_feasible (snd (schedules ! j)) \<Longrightarrow>
       candidate_key (snd (schedules ! k)) \<le> candidate_key (snd (schedules ! j))"
    by (rule select_schedule_resolved) blast
  from k(4) [OF j(1)] same s assms(6) have "candidate_key (snd (schedules ! k)) \<le> candidate_key c" by simp
  with k(1-3) show ?thesis by (intro exI [of _ k]) simp
qed

section \<open>Three routes that cross\<close>

lemma predict_bounded:
  assumes "\<And>t. \<exists>x y. program_position a t = Inr x \<and> program_position b t = Inr y \<and> m \<le> distance x y"
  shows "\<exists>pd. predict a b r = Inr pd \<and> m \<le> pd_minimum_separation_m pd"
proof -
  let ?ts = "sample_times (max (ep_schedule_duration_s a) (ep_schedule_duration_s b))"
  define s where "s t = projr (sample_distance a b t)" for t
  have s: "sample_distance a b t = Inr (s t)" "m \<le> snd (s t)" for t
    using assms [of t] by (auto simp: s_def sample_distance_def)
  have mp: "map_ok (sample_distance a b) ?ts = Inr (map s ?ts)"
    by (simp add: map_ok_Inr list_all2_map2 list_all2_same s(1))
  have ne: "map s ?ts \<noteq> []" by (simp add: sample_times_def)
  have "closest (hd (map s ?ts)) (tl (map s ?ts)) \<in> set (map s ?ts)"
    using closest_in [of "hd (map s ?ts)" "tl (map s ?ts)"] list.collapse [OF ne] by metis
  then have "m \<le> snd (closest (hd (map s ?ts)) (tl (map s ?ts)))" using s(2) by auto
  with mp show ?thesis by (simp add: predict_def Let_def summarize_minimum)
qed

definition at_rest :: "int \<Rightarrow> real \<Rightarrow> vector3 \<Rightarrow> trajectory_point" where
  "at_rest n t v = \<lparr>tp_sequence = n, tp_time = t, tp_position_m = v, tp_velocity_m_s = vec 0 0 0,
     tp_acceleration_m_s2 = vec 0 0 0, tp_yaw_rad = 0, tp_yaw_rate_rad_s = 0\<rparr>"

definition leg_program :: "string \<Rightarrow> vector3 \<Rightarrow> vector3 \<Rightarrow> execution_program" where
  "leg_program role a b = line_program role [at_rest 1 0 a, at_rest 2 (1/25) b]"

lemma leg_position:
  obtains x where "program_position (leg_program role a b) t = Inr x"
    "t \<le> 0 \<Longrightarrow> x = a" "1/25 \<le> t \<Longrightarrow> x = b"
    "vx a = vx b \<Longrightarrow> vx x = vx a" "vy a = vy b \<Longrightarrow> vy x = vy a"
proof -
  let ?pts = "[at_rest 1 0 a, at_rest 2 (1/25) b]"
  have i: "segment_index ?pts u = 0" for u by (simp add: segment_index_def)
  have q: "quintic_sample c 0 0 c 0 0 (1/25) u = Inr (c, 0, 0)" for c u :: real
    by (simp add: quintic_sample_def quintic_of_def quintic_position_def quintic_velocity_def quintic_acceleration_def Let_def)
  obtain px px' where px: "quintic_sample (vx a) 0 0 (vx b) 0 0 (1/25) t = Inr (px, px')" by (simp add: quintic_sample_def Let_def)
  obtain py py' where py: "quintic_sample (vy a) 0 0 (vy b) 0 0 (1/25) t = Inr (py, py')" by (simp add: quintic_sample_def Let_def)
  obtain pz pz' where pz: "quintic_sample (vz a) 0 0 (vz b) 0 0 (1/25) t = Inr (pz, pz')" by (simp add: quintic_sample_def Let_def)
  define x where "x = (if t \<le> 0 then a else if 1/25 \<le> t then b else vec px py pz)"
  have "program_position (leg_program role a b) t = Inr x"
    using px py pz q [of 0]
    by (simp add: program_position_def first_trajectory_def trajectory_operations_def leg_program_def line_program_def
        operation_position_def trajectory_duration_s_def sample_trajectory_def i bounded_time_def
        sample_trajectory_segment_def sample_axis_def x_def Let_def split_beta) (simp add: at_rest_def x_def split_beta)
  moreover have "vx a = vx b \<Longrightarrow> px = vx a" "vy a = vy b \<Longrightarrow> py = vy a"
    using px py q by auto
  ultimately show ?thesis by (intro that [of x]) (auto simp: x_def)
qed

text \<open>Alpha flies along the x axis, beta crosses it halfway, gamma climbs far away.\<close>

definition leg :: "string \<Rightarrow> execution_program" where
  "leg r = (if r = ''alpha'' then leg_program r (vec 0 0 0) (vec 4 0 0)
     else if r = ''beta'' then leg_program r (vec 2 (-3/2) 0) (vec 2 (3/2) 0)
     else leg_program r (vec 90 50 0) (vec 90 50 1))"

definition leg_roles :: "string list" where
  "leg_roles = [''alpha'', ''beta'', ''gamma'']"

definition legs :: "execution_program list" where
  "legs = map leg leg_roles"

definition placed :: "string \<Rightarrow> real \<Rightarrow> execution_program" where
  "placed r w = (if w = 0 then leg r else projr (delay_before_launch (leg r) w))"

lemma legs_apart:
  assumes "r \<in> set leg_roles" "s \<in> set leg_roles" "r \<noteq> s" "1/25 \<le> \<bar>w - v\<bar>"
  shows "\<exists>x y. program_position (leg r) (t - w) = Inr x \<and> program_position (leg s) (t - v) = Inr y \<and> 1 \<le> distance x y"
proof -
  obtain xa where xa: "program_position (leg ''alpha'') u = Inr (xa u)" "vy (xa u) = 0" "u \<le> 0 \<Longrightarrow> vx (xa u) = 0" "1/25 \<le> u \<Longrightarrow> vx (xa u) = 4" for u
  proof -
    have "\<exists>x. program_position (leg ''alpha'') u = Inr x \<and> vy x = 0 \<and> (u \<le> 0 \<longrightarrow> vx x = 0) \<and> (1/25 \<le> u \<longrightarrow> vx x = 4)" for u
      by (rule leg_position [of "''alpha''" "vec 0 0 0" "vec 4 0 0" u]) (auto simp: leg_def)
    then show thesis using that by metis
  qed
  obtain xb where xb: "program_position (leg ''beta'') u = Inr (xb u)" "vx (xb u) = 2" "u \<le> 0 \<or> 1/25 \<le> u \<Longrightarrow> 1 \<le> \<bar>vy (xb u)\<bar>" for u
  proof -
    have "\<exists>x. program_position (leg ''beta'') u = Inr x \<and> vx x = 2 \<and> (u \<le> 0 \<or> 1/25 \<le> u \<longrightarrow> 1 \<le> \<bar>vy x\<bar>)" for u
      by (rule leg_position [of "''beta''" "vec 2 (-3/2) 0" "vec 2 (3/2) 0" u]) (auto simp: leg_def)
    then show thesis using that by metis
  qed
  obtain xg where xg: "program_position (leg ''gamma'') u = Inr (xg u)" "vx (xg u) = 90" "vy (xg u) = 50" for u
  proof -
    have "\<exists>x. program_position (leg ''gamma'') u = Inr x \<and> vx x = 90 \<and> vy x = 50" for u
      by (rule leg_position [of "''gamma''" "vec 90 50 0" "vec 90 50 1" u]) (auto simp: leg_def)
    then show thesis using that by metis
  qed
  have ab: "1 \<le> distance (xa (t - w)) (xb (t - v))" if h: "1/25 \<le> \<bar>w - v\<bar>" for t w v
  proof -
    consider "t - w \<le> 0" | "1/25 \<le> t - w" | "t - v \<le> 0 \<or> 1/25 \<le> t - v" using h by linarith
    then show ?thesis
    proof cases
      case 3
      then show ?thesis using coordinate_le_distance(2) [of "xa (t - w)" "xb (t - v)"] xb(3) [of "t - v"] by (simp add: xa(2))
    qed (use coordinate_le_distance(1) [of "xa (t - w)" "xb (t - v)"] in \<open>simp_all add: xa(3,4) xb(2)\<close>)
  qed
  have ag: "1 \<le> distance (xa u) (xg u')" and bg: "1 \<le> distance (xb u) (xg u')" for u u'
    using coordinate_le_distance(2) [of "xa u" "xg u'"] coordinate_le_distance(1) [of "xb u" "xg u'"]
    by (simp_all add: xa(2) xb(2) xg(2,3))
  from assms ab [of w v t] ab [of v w t] ag bg show ?thesis
    by (auto simp: leg_roles_def xa(1) xb(1) xg(1) distance_commute abs_minus_commute)
qed

lemma leg_identifiers:
  "list_all (\<lambda>r. valid_identifier r \<and> valid_identifier (''v-'' @ r) \<and> valid_identifier ((''p-'' @ r) @ ''-resolved'')) leg_roles"
  by code_simp

lemma leg_delay:
  assumes "r \<in> set leg_roles" "0 < d"
  shows "\<exists>q. delay_before_launch (leg r) d = Inr q \<and> ep_schedule_duration_s q = d + 1/25"
proof -
  have "valid_identifier r" "valid_identifier (''v-'' @ r)" "valid_identifier ((''p-'' @ r) @ ''-resolved'')"
    using leg_identifiers assms(1) unfolding list_all_iff by blast+
  then have "\<exists>q. delay_before_launch (leg_program r a b) d = Inr q \<and> ep_schedule_duration_s q = d + 1/25" for a b
    using assms(2)
    by (simp add: delay_before_launch_def leg_program_def line_program_def place_ground_wait_def shift_after_def
        rebuild_program_def program_fields_ok_def coherent_schedule_def disconnected_def isclose_def
        trajectory_duration_s_def at_rest_def Let_def upto.simps del: append.simps append_assoc)
  then show ?thesis unfolding leg_def by presburger
qed

lemma leg_facts:
  assumes "r \<in> set leg_roles"
  shows "ep_role_id (leg r) = r" "ep_schedule_duration_s (leg r) = 1/25" "trajectory_schedule_window (leg r) = Inr (0, 1/25)"
    "by_role legs r = Inr (leg r)" "ep_operations (leg r) \<noteq> []"
proof -
  show role: "ep_role_id (leg r) = r" for r by (simp add: leg_def leg_program_def line_program_def Let_def)
  show "ep_schedule_duration_s (leg r) = 1/25" "trajectory_schedule_window (leg r) = Inr (0, 1/25)" "ep_operations (leg r) \<noteq> []"
    by (simp_all add: leg_def leg_program_def line_program_def at_rest_def trajectory_schedule_window_def first_trajectory_def
        trajectory_operations_def trajectory_duration_s_def Let_def)
  show "by_role legs r = Inr (leg r)" using assms by (auto simp: by_role_def legs_def leg_roles_def role)
qed

lemma placed_facts:
  assumes "r \<in> set leg_roles" "0 \<le> w"
  shows "0 < w \<Longrightarrow> delay_before_launch (leg r) w = Inr (placed r w)"
    and "trajectory_schedule_window (placed r w) = Inr (w, w + 1/25)" "ep_schedule_duration_s (placed r w) = w + 1/25"
    and "program_position (placed r w) t = program_position (leg r) (t - w)"
proof -
  have pos: "delay_before_launch (leg r) w = Inr (placed r w) \<and> ep_schedule_duration_s (placed r w) = w + 1/25" if "0 < w"
    using leg_delay [OF assms(1) that] that by (auto simp: placed_def)
  then show "0 < w \<Longrightarrow> delay_before_launch (leg r) w = Inr (placed r w)" by blast
  have "trajectory_schedule_window (placed r w) = Inr (w, w + 1/25) \<and> ep_schedule_duration_s (placed r w) = w + 1/25
    \<and> program_position (placed r w) t = program_position (leg r) (t - w)"
  proof (cases "w = 0")
    case False
    with assms(2) have w: "0 < w" by simp
    note d = pos [OF w, THEN conjunct1]
    show ?thesis
      using delayed_window [OF leg_facts(3) [OF assms(1)] d w] pos [OF w]
        shifted_program_position [OF delay_before_launch_ops [OF d w leg_facts(5) [OF assms(1)]]] by simp
  qed (simp add: placed_def leg_facts assms(1))
  then show "trajectory_schedule_window (placed r w) = Inr (w, w + 1/25)" "ep_schedule_duration_s (placed r w) = w + 1/25"
    "program_position (placed r w) t = program_position (leg r) (t - w)" by blast+
qed

definition in_place :: "string \<Rightarrow> real \<Rightarrow> staged" where
  "in_place r w = \<lparr>sg_role = r, sg_program = placed r w, sg_wait = w\<rparr>"

lemma legs_staged:
  assumes "{q, r, s} \<subseteq> set leg_roles"
  shows "stage_loop legs True 0 [q, r, s] = Inr [in_place q 0, in_place r (29/100), in_place s (58/100)]"
proof -
  have m: "q \<in> set leg_roles" "r \<in> set leg_roles" "s \<in> set leg_roles" using assms by auto
  have z: "placed q 0 = leg q" by (simp add: placed_def)
  have "delay_program_before_trajectory (leg r) (29/100) = Inr (placed r (29/100))"
    "delay_program_before_trajectory (leg s) (58/100) = Inr (placed s (58/100))"
    using placed_facts(1) [OF m(2), of "29/100"] placed_facts(1) [OF m(3), of "58/100"]
    by (simp_all add: delay_program_before_trajectory_def)
  moreover have "trajectory_schedule_window (placed r (29/100)) = Inr (29/100, 33/100)"
    "trajectory_schedule_window (placed s (58/100)) = Inr (58/100, 62/100)"
    using placed_facts(2) [OF m(2), of "29/100"] placed_facts(2) [OF m(3), of "58/100"] by simp_all
  ultimately show ?thesis by (simp add: leg_facts m in_place_def z Let_def)
qed

lemma placed_apart:
  assumes "r \<in> set leg_roles" "s \<in> set leg_roles" "r \<noteq> s" "0 \<le> w" "0 \<le> v" "1/25 \<le> \<bar>w - v\<bar>"
  shows "\<exists>m. pair_minimum (in_place r w, in_place s v) = Inr m \<and> 1 \<le> m"
proof -
  have "\<exists>x y. program_position (placed r w) t = Inr x \<and> program_position (placed s v) t = Inr y \<and> 1 \<le> distance x y" for t
    using legs_apart [OF assms(1,2,3,6), of t] by (simp add: placed_facts assms)
  from predict_bounded [OF this, of "1/1000"] show ?thesis
    by (auto simp: pair_minimum_def predict_program_minimum_separation_def in_place_def)
qed

definition multi_constant_hash :: multi_hash where
  "multi_constant_hash = \<lparr>mh_program = \<lambda>_. sample_sha, mh_roles = \<lambda>_ _. sample_sha, mh_pair = \<lambda>_ _ _. sample_sha,
     mh_conflicts = \<lambda>_ _. sample_sha, mh_reason = \<lambda>_ _. sample_sha, mh_plan = \<lambda>_. sample_sha\<rparr>"

lemma multi_identifiers:
  "list_all (\<lambda>i. valid_identifier (''multi-candidate-'' @ show_int (int i + 1))) [0..<6]"
  "valid_identifier (''multi-plan-'' @ take 20 sample_sha)" "valid_identifier (''multi-conflict-'' @ take 20 sample_sha)"
  by code_simp+

lemma legs_scheduled:
  assumes "distinct [q, r, s]" "{q, r, s} \<subseteq> set leg_roles" "i < 6"
  shows "\<exists>ps c. schedule_candidate_for multi_constant_hash st legs prio (4/5) (starvation_bound default_policy) default_policy i [q, r, s]
     = Inr (ps, c) \<and> mc_feasible c"
proof -
  have m: "q \<in> set leg_roles" "r \<in> set leg_roles" "s \<in> set leg_roles" using assms by auto
  obtain m1 m2 m3 where mm: "pair_minimum (in_place q 0, in_place r (29/100)) = Inr m1" "pair_minimum (in_place q 0, in_place s (58/100)) = Inr m2"
    "pair_minimum (in_place r (29/100), in_place s (58/100)) = Inr m3" "1 \<le> m1" "1 \<le> m2" "1 \<le> m3"
    using placed_apart [OF m(1,2), of 0 "29/100"] placed_apart [OF m(1,3), of 0 "58/100"] placed_apart [OF m(2,3), of "29/100" "58/100"]
      assms(1) by auto
  let ?sgs = "[in_place q 0, in_place r (29/100), in_place s (58/100)]"
  let ?c = "candidate_of multi_constant_hash i [q, r, s] st prio (4/5) (starvation_bound default_policy) default_policy ?sgs (Min {m1, m2, m3})"
  have f: "mc_feasible ?c"
    using mm(4-6) m by (auto simp: candidate_feasible in_place_def placed_facts starvation_bound_def default_policy_def)
  have "valid_identifier q" "valid_identifier r" "valid_identifier s" "valid_identifier (''multi-candidate-'' @ show_int (int i + 1))"
    using leg_identifiers m multi_identifiers(1) assms(3) unfolding list_all_iff by auto
  moreover have "0 \<le> inversion_penalty prio [q, r, s]" by (simp add: inversion_penalty_def)
  ultimately have "schedule_fields_ok ?c"
    using mm(4-6)
    by (simp add: schedule_fields_ok_def candidate_of_def in_place_def starvation_bound_def default_policy_def ordered_programs_def
        multi_constant_hash_def Let_def del: append_Cons)
  with f mm(1-3) show ?thesis
    by (simp add: schedule_candidate_for_def legs_staged [OF assms(2)] Let_def del: stage_loop.simps)
qed


definition fleet_deployment :: deployment_manifest where
  "fleet_deployment = route_deployment ''multi-conflict-route'' leg_roles"

definition fleet_plan :: "multi_result outcome" where
  "fleet_plan = plan_multi_drone_conflicts multi_constant_hash ''m'' fleet_deployment legs default_policy 4"

lemma fleet_roles: "sort (dict_keys (conflict_tasks fleet_deployment)) = leg_roles" "length (conflict_tasks fleet_deployment) = 3"
  by code_simp+

lemma leg_orders:
  assumes "order \<in> set (permutations leg_roles)"
  shows "\<exists>q r s. order = [q, r, s] \<and> distinct [q, r, s] \<and> {q, r, s} \<subseteq> set leg_roles"
proof -
  from assms have m: "mset order = mset leg_roles" by (simp only: permutations_mset)
  then have "length order = 3" by (metis size_mset leg_roles_def length_Cons list.size(3) numeral_3_eq_3)
  then obtain q r s where o: "order = [q, r, s]" by (auto simp: numeral_3_eq_3 length_Suc_conv)
  have "distinct order" "set order = set leg_roles"
    using m mset_eq_imp_distinct_iff [OF m] mset_eq_setD [OF m] by (simp_all add: leg_roles_def)
  with o show ?thesis by auto
qed

lemma leg_orders_count: "length (permutations leg_roles) = 6"
  by code_simp

text \<open>A selection from feasible schedules is resolved.\<close>

definition resolved_fleet :: "multi_result outcome \<Rightarrow> bool" where
  "resolved_fleet r = (case r of Inr (ps, Some plan) \<Rightarrow> mm_status plan = MD_RESOLVED | _ \<Rightarrow> False)"

lemma feasible_selection:
  assumes "schedules \<noteq> []" "\<forall>s \<in> set schedules. mc_feasible (snd s)" "list_all valid_identifier roles"
  shows "resolved_fleet (select_schedule multi_constant_hash m programs roles conflicts (starvation_bound default_policy) 4 limitation schedules)"
proof -
  let ?f = "filter (\<lambda>i. mc_feasible (map snd schedules ! i)) [0..<length (map snd schedules)]"
  have "0 \<in> set ?f" using assms(1,2) by simp
  then obtain i "is" where f: "?f = i # is" by (metis emptyE list.exhaust list.set(1))
  show ?thesis
    using multi_identifiers(2) assms(3)
    by (simp add: select_schedule_def f [simplified] with_multi_def seal_multi_def multi_payload_def multi_fields_ok_def resolved_fleet_def
        multi_constant_hash_def starvation_bound_def default_policy_def list_all_iff Let_def del: append_Cons)
qed

lemma legs_cross: "predict (leg ''alpha'') (leg ''beta'') (1/1000) =
    Inr \<lparr>pd_minimum_separation_m = 0, pd_closest_approach_s = 1/50, pd_conflict_start_s = Some (1/50), pd_conflict_end_s = Some (1/50)\<rparr>"
  by code_simp

lemma crossing_legs_conflict:
  "\<exists>c. pair_conflict_of multi_constant_hash ''m'' (4/5) (leg ''alpha'') (leg ''beta'') = Inr (Some c)"
  using multi_identifiers(3) leg_identifiers
  by (simp add: pair_conflict_of_def predict_program_minimum_separation_def legs_cross leg_facts leg_roles_def pair_fields_ok_def
      multi_constant_hash_def min_def max_def Let_def del: append_Cons)

lemma distant_legs:
  assumes "r \<in> {''alpha'', ''beta''}"
  shows "pair_conflict_of multi_constant_hash ''m'' (4/5) (leg r) (leg ''gamma'') = Inr None"
proof -
  have "\<exists>x y. program_position (leg r) t = Inr x \<and> program_position (leg ''gamma'') t = Inr y \<and> 1 \<le> distance x y" for t
  proof -
    obtain x where x: "program_position (leg r) t = Inr x" "vy x = 0 \<or> vx x = 2"
    proof (cases "r = ''alpha''")
      case True
      show thesis
        by (rule leg_position [of "''alpha''" "vec 0 0 0" "vec 4 0 0" t]) (use True in \<open>auto simp: leg_def intro!: that\<close>)
    next
      case False
      with assms have "r = ''beta''" by simp
      show thesis
        by (rule leg_position [of "''beta''" "vec 2 (-3/2) 0" "vec 2 (3/2) 0" t]) (use \<open>r = ''beta''\<close> in \<open>auto simp: leg_def intro!: that\<close>)
    qed
    obtain y where y: "program_position (leg ''gamma'') t = Inr y" "vx y = 90" "vy y = 50"
      by (rule leg_position [of "''gamma''" "vec 90 50 0" "vec 90 50 1" t]) (auto simp: leg_def)
    from x(2) y have "1 \<le> distance x y" using coordinate_le_distance [of x y] by auto
    with x y show ?thesis by blast
  qed
  from predict_bounded [OF this, of "1/1000"] show ?thesis
    by (auto simp: pair_conflict_of_def predict_program_minimum_separation_def)
qed

lemma fleet_conflicts:
  "\<exists>c. find_conflicts multi_constant_hash ''m'' legs (4/5) leg_roles = Inr [c]"
proof -
  have b: "by_role legs ''alpha'' = Inr (leg ''alpha'')" "by_role legs ''beta'' = Inr (leg ''beta'')" "by_role legs ''gamma'' = Inr (leg ''gamma'')"
    by (rule leg_facts, simp add: leg_roles_def)+
  obtain c where "pair_conflict_of multi_constant_hash ''m'' (4/5) (leg ''alpha'') (leg ''beta'') = Inr (Some c)"
    using crossing_legs_conflict by blast
  then show ?thesis using distant_legs [of "''alpha''"] distant_legs [of "''beta''"]
    by (simp add: find_conflicts_def leg_roles_def b List.map_filter_simps)
qed

lemma fleet_schedules:
  "\<exists>schedules. map_ok (\<lambda>(i, order). schedule_candidate_for multi_constant_hash st legs prio (4/5) (starvation_bound default_policy) default_policy i order)
     (List.enumerate 0 (permutations leg_roles)) = Inr schedules \<and> schedules \<noteq> [] \<and> (\<forall>s \<in> set schedules. mc_feasible (snd s))"
proof -
  let ?f = "\<lambda>(i, order). schedule_candidate_for multi_constant_hash st legs prio (4/5) (starvation_bound default_policy) default_policy i order"
  let ?xs = "List.enumerate 0 (permutations leg_roles)"
  have "\<exists>s. ?f x = Inr s \<and> mc_feasible (snd s)" if "x \<in> set ?xs" for x
  proof -
    obtain i order where x: "x = (i, order)" by (cases x)
    with that have o: "order \<in> set (permutations leg_roles)" "i < 6"
      using leg_orders_count by (auto simp: in_set_enumerate_eq simp del: permutations.simps)
    from leg_orders [OF o(1)] obtain q r s where "order = [q, r, s]" "distinct [q, r, s]" "{q, r, s} \<subseteq> set leg_roles" by blast
    with legs_scheduled [of q r s i st prio] o(2) x show ?thesis by auto
  qed
  then obtain g where g: "\<And>x. x \<in> set ?xs \<Longrightarrow> ?f x = Inr (g x) \<and> mc_feasible (snd (g x))" by metis
  have "map_ok ?f ?xs = Inr (map g ?xs)" unfolding map_ok_Inr list_all2_map2 using g by (simp add: list_all2_same)
  moreover have "map g ?xs \<noteq> []"
    using leg_orders_count length_enumerate [of 0 "permutations leg_roles"] by (metis length_map list.size(3) zero_neq_numeral)
  ultimately show ?thesis using g by auto
qed

lemma fleet_plan_resolved: "resolved_fleet fleet_plan"
proof -
  have w: "warning_separation_m (constraints fleet_deployment) = 3/4"
    by (simp add: fleet_deployment_def route_deployment_def)
  have p: "set leg_roles = ep_role_id ` set legs" by (auto simp: legs_def image_image leg_facts)
  obtain c where c: "find_conflicts multi_constant_hash ''m'' legs (4/5) leg_roles = Inr [c]" using fleet_conflicts by blast
  obtain schedules where s: "map_ok (\<lambda>(i, order). schedule_candidate_for multi_constant_hash EXACT_ENUMERATION_STAGING legs
      (task_priority (conflict_tasks fleet_deployment)) (4/5) (starvation_bound default_policy) default_policy i order)
     (List.enumerate 0 (permutations leg_roles)) = Inr schedules" "schedules \<noteq> []" "\<forall>s \<in> set schedules. mc_feasible (snd s)"
    using fleet_schedules by blast
  have v: "list_all valid_identifier leg_roles" using leg_identifiers by (simp add: list_all_iff)
  have n: "int (length leg_roles) \<le> 4" by (simp add: leg_roles_def)
  have "fleet_plan = resolve_conflicts multi_constant_hash ''m'' legs (task_priority (conflict_tasks fleet_deployment)) (4/5)
      default_policy 4 leg_roles [c]"
    by (simp add: fleet_plan_def plan_multi_drone_conflicts_def fleet_roles w p c default_uncertainty_def Let_def)
  also have "resolved_fleet \<dots>"
    unfolding resolve_conflicts_def Let_def candidate_orders_def if_P [OF n] s(1) bind_ok_simps
    by (rule feasible_selection [OF s(2,3) v])
  finally show ?thesis .
qed

lemma fleet_planE:
  obtains ps plan where "fleet_plan = Inr (ps, Some plan)" "mm_status plan = MD_RESOLVED"
  using fleet_plan_resolved by (auto simp: resolved_fleet_def split: sum.splits option.splits)

theorem multi_plan_is_joint_schedule_witness:
  "\<exists>order sgs. mset order = mset leg_roles \<and> joint_schedule legs (4/5) default_policy order sgs"
proof -
  obtain ps plan where r: "fleet_plan = Inr (ps, Some plan)" "mm_status plan = MD_RESOLVED" by (rule fleet_planE)
  have w: "warning_separation_m (constraints fleet_deployment) + 5 / 100 = 4/5"
    by (simp add: fleet_deployment_def route_deployment_def)
  have m: "mset (dict_keys (conflict_tasks fleet_deployment)) = mset leg_roles"
    using fleet_roles(1) by (metis mset_sort)
  from multi_plan_is_joint_schedule [OF r(1) [unfolded fleet_plan_def] r(2)] show ?thesis
    unfolding w m by blast
qed

theorem multi_plan_is_optimal_witness:
  "\<exists>k. case fleet_plan of Inr (ps, Some plan) \<Rightarrow>
     mm_selected_candidate_index plan = Some k \<and> mc_priority_inversion_penalty (mm_candidates plan ! k) \<le> 0 | _ \<Rightarrow> False"
proof -
  obtain ps plan where r: "fleet_plan = Inr (ps, Some plan)" "mm_status plan = MD_RESOLVED" by (rule fleet_planE)
  let ?prio = "task_priority (conflict_tasks fleet_deployment)"
  have w: "warning_separation_m (constraints fleet_deployment) + 5 / 100 = 4/5"
    by (simp add: fleet_deployment_def route_deployment_def)
  have m: "mset leg_roles = mset (dict_keys (conflict_tasks fleet_deployment))" using fleet_roles(1) by (metis mset_sort)
  obtain qs c where c: "schedule_candidate_for multi_constant_hash EXACT_ENUMERATION_STAGING legs ?prio (4/5)
      (starvation_bound default_policy) default_policy 0 leg_roles = Inr (qs, c)" "mc_feasible c"
    using legs_scheduled [of "''alpha''" "''beta''" "''gamma''" 0 EXACT_ENUMERATION_STAGING ?prio] by (auto simp: leg_roles_def)
  have z: "inversion_penalty ?prio leg_roles = 0" by code_simp
  from multi_plan_is_optimal [OF r(1) [unfolded fleet_plan_def] r(2) _ m, of 0 qs c, unfolded w] c fleet_roles(2)
  obtain k where k: "mm_selected_candidate_index plan = Some k" "candidate_key (mm_candidates plan ! k) \<le> candidate_key c" by auto
  have "mc_priority_inversion_penalty c = 0"
    by (rule schedule_candidate_cases [OF c(1)]) (simp add: candidate_of_def z Let_def)
  with k(2) have "mc_priority_inversion_penalty (mm_candidates plan ! k) \<le> 0"
    by (auto simp: candidate_key_def less_eq_prod_def)
  with k(1) show ?thesis unfolding r(1) by (intro exI [of _ k]) simp
qed


section \<open>Gaps of the planner\<close>

text \<open>
  The two-drone planner refuses programs that do not have exactly one trajectory. This one does not
  look: a program without a trajectory raises \<open>IndexError\<close> instead of giving a blocked plan, and of
  several trajectories only the first is ever predicted or counted as the route to be cleared.
\<close>

lemma no_trajectory_raises:
  assumes "trajectory_operations b = []" "program_position a 0 = Inr x" "0 < joint_duration a b"
  shows "pair_conflict_of H mission required a b = Inl index_error"
proof -
  let ?ts = "sample_times (max (ep_schedule_duration_s a) (ep_schedule_duration_s b))"
  obtain t ts where "?ts = t # ts" "t = 0"
    using assms(3) by (auto simp: sample_times_def upt_conv_Cons joint_duration_def simp del: upt_Suc)
  moreover have "sample_distance a b 0 = Inl index_error"
    using assms(1,2) by (simp add: sample_distance_def program_position_def first_trajectory_def)
  ultimately show ?thesis
    by (simp add: pair_conflict_of_def predict_program_minimum_separation_def predict_def Let_def)
qed

lemma later_trajectories_ignored:
  assumes "trajectory_operations p = op # ops" "trajectory_operations q = [op]"
  shows "program_position p = program_position q" "trajectory_schedule_window p = trajectory_schedule_window q"
  using assms by (simp_all add: program_position_def trajectory_schedule_window_def first_trajectory_def fun_eq_iff)

end
