(* ===== verification/MissionPlan.thy ===== *)
theory MissionPlan
  imports Bundle Multidrone Guards Commands
begin

text \<open>
  The mission plan receipt, \<open>missions/planning.py\<close>: the previewed commands of every role are flown on
  paper and checked against the policy, compiled into execution programs and routes, deconflicted, and
  summed up in a status.

  Messages and details of findings are left out; they follow from the code.
\<close>

section \<open>Previewed commands\<close>

text \<open>
  A \<open>ScriptStep\<close> with the arguments \<open>_validate_arguments\<close> of \<open>missions/script.py\<close> leaves in it.
\<close>

datatype script_step =
    TakeoffStep real real
  | HoverStep real
  | MoveStep move_relative_command
  | LandStep real
  | ObserveStep real string
  | WaitStep real
  | CheckpointStep

datatype step_action = ACT_TAKEOFF | ACT_HOVER | ACT_MOVE_RELATIVE | ACT_LAND | ACT_OBSERVE | ACT_WAIT | ACT_CHECKPOINT

fun action_of :: "script_step \<Rightarrow> step_action" where
  "action_of (TakeoffStep h d) = ACT_TAKEOFF"
| "action_of (HoverStep d) = ACT_HOVER"
| "action_of (MoveStep c) = ACT_MOVE_RELATIVE"
| "action_of (LandStep d) = ACT_LAND"
| "action_of (ObserveStep t r) = ACT_OBSERVE"
| "action_of (WaitStep d) = ACT_WAIT"
| "action_of CheckpointStep = ACT_CHECKPOINT"

fun valid_arguments :: "script_step \<Rightarrow> bool" where
  "valid_arguments (TakeoffStep h d) \<longleftrightarrow> 0 < h \<and> h \<le> 1 \<and> 0 < d \<and> d \<le> 30"
| "valid_arguments (HoverStep d) \<longleftrightarrow> 0 < d \<and> d \<le> 300"
| "valid_arguments (WaitStep d) \<longleftrightarrow> 0 < d \<and> d \<le> 300"
| "valid_arguments (LandStep d) \<longleftrightarrow> 0 < d \<and> d \<le> 30"
| "valid_arguments (MoveStep c) \<longleftrightarrow> require_motion c = Inr ()"
| "valid_arguments (ObserveStep t r) \<longleftrightarrow> 0 < t \<and> t \<le> 5"
| "valid_arguments CheckpointStep \<longleftrightarrow> True"

record mission_file =
  mf_mission_id :: string
  mf_source_sha256 :: string
  mf_planned_command_budget :: nat
  mf_package_schema_version :: int
  mf_roles :: "(string \<times> string) list"
  mf_deconfliction_strategies :: "conflict_resolution_strategy list option"

text \<open>What the mission worker, a separate process, records for a role.\<close>

record worker_answer =
  wa_steps :: "script_step list"
  wa_source_sha256 :: string

definition preview_isolated_mission_role ::
    "(string \<Rightarrow> worker_answer outcome) \<Rightarrow> mission_file \<Rightarrow> string \<Rightarrow> script_step list outcome" where
  "preview_isolated_mission_role worker f role =
     bind_ok (worker role) (\<lambda>answer.
       if \<not> list_all valid_arguments (wa_steps answer)
       then Inl (CrazySwarmError INVALID_COMMAND ''invalid arguments'')
       else if wa_source_sha256 answer \<noteq> mf_source_sha256 f
       then Inl (CrazySwarmError INVALID_COMMAND ''mission preview output does not match the validated artifact'')
       else if length (wa_steps answer) > mf_planned_command_budget f
       then Inl (CrazySwarmError INVALID_COMMAND ''mission preview exceeded the validated command budget'')
       else Inr (wa_steps answer))"

section \<open>Findings and plans\<close>

datatype mission_plan_status = MP_APPROVED | MP_REQUIRES_CONFIRMATION | MP_BLOCKED

datatype mission_plan_severity = SEV_INFO | SEV_WARNING | SEV_BLOCKER

datatype mission_plan_fidelity = EXACT_ROLE | STATIC_BOUNDS | PREPARED_RESERVE

record plan_finding =
  pf_code :: string
  pf_severity :: mission_plan_severity
  pf_role_id :: string
  pf_step_sequence :: "nat option"
  pf_requires_confirmation :: bool

definition blocker :: "string \<Rightarrow> string \<Rightarrow> nat option \<Rightarrow> plan_finding" where
  "blocker code role step = \<lparr>pf_code = code, pf_severity = SEV_BLOCKER, pf_role_id = role, pf_step_sequence = step,
     pf_requires_confirmation = False\<rparr>"

definition warning :: "string \<Rightarrow> string \<Rightarrow> bool \<Rightarrow> plan_finding" where
  "warning code role confirm = \<lparr>pf_code = code, pf_severity = SEV_WARNING, pf_role_id = role, pf_step_sequence = None,
     pf_requires_confirmation = confirm\<rparr>"

record plan_waypoint =
  wp_sequence :: nat
  wp_action :: step_action
  wp_starts_at_s :: real
  wp_ends_at_s :: real
  wp_start_m :: vector3
  wp_end_m :: vector3
  wp_start_yaw_rad :: real
  wp_end_yaw_rad :: real

definition check_plan_waypoint :: "plan_waypoint \<Rightarrow> unit outcome" where
  "check_plan_waypoint w =
     (if 1 \<le> wp_sequence w \<and> 0 \<le> wp_starts_at_s w \<and> 0 \<le> wp_ends_at_s w then Inr () else Inl (ValidationError ''MissionPlanWaypoint field''))"

record role_plan =
  ro_role_id :: string
  ro_vehicle_id :: string
  ro_initial_role :: initial_fleet_role
  ro_home_m :: vector3
  ro_start_m :: vector3
  ro_existing_vehicle :: bool
  ro_observed_battery_percent :: "real option"
  ro_minimum_battery_percent :: "real option"
  ro_preview_fidelity :: mission_plan_fidelity
  ro_planned_commands :: "script_step list"
  ro_waypoints :: "plan_waypoint list"
  ro_planned_duration_s :: real
  ro_planned_distance_m :: real
  ro_maximum_altitude_m :: real

definition check_role_plan :: "role_plan \<Rightarrow> unit outcome" where
  "check_role_plan r =
     (if valid_identifier (ro_role_id r) \<and> valid_identifier (ro_vehicle_id r) \<and>
         opt_all (\<lambda>b. 0 \<le> b \<and> b \<le> 100) (ro_observed_battery_percent r) \<and>
         opt_all (\<lambda>b. 0 \<le> b \<and> b \<le> 200) (ro_minimum_battery_percent r) \<and>
         0 \<le> ro_planned_duration_s r \<and> 0 \<le> ro_planned_distance_m r
      then Inr () else Inl (ValidationError ''MissionRolePlan field''))"

section \<open>A role flown on paper\<close>

fun step_duration :: "script_step \<Rightarrow> real" where
  "step_duration (TakeoffStep h d) = d"
| "step_duration (HoverStep d) = d"
| "step_duration (MoveStep c) = mv_duration_s c"
| "step_duration (LandStep d) = d"
| "step_duration (ObserveStep t r) = t"
| "step_duration (WaitStep d) = d"
| "step_duration CheckpointStep = 0"

fun step_pose :: "script_step \<Rightarrow> vector3 \<Rightarrow> real \<Rightarrow> vector3 \<times> real" where
  "step_pose (TakeoffStep h d) p yaw = (vec (vx p) (vy p) h, yaw)"
| "step_pose (MoveStep c) p yaw =
     (let dx = (if mv_frame c = BODY then mv_x_m c * math_cos yaw - mv_y_m c * math_sin yaw else mv_x_m c);
          dy = (if mv_frame c = BODY then mv_x_m c * math_sin yaw + mv_y_m c * math_cos yaw else mv_y_m c)
      in (vec (vx p + dx) (vy p + dy) (vz p + mv_z_m c), yaw + mv_yaw_rad c))"
| "step_pose (LandStep d) p yaw = (vec (vx p) (vy p) 0, yaw)"
| "step_pose _ p yaw = (p, yaw)"

definition found :: "(bool \<times> plan_finding) list \<Rightarrow> plan_finding list" where
  "found cs = map snd (filter fst cs)"

fun dynamics_findings :: "safety_policy \<Rightarrow> string \<Rightarrow> nat \<Rightarrow> script_step \<Rightarrow> plan_finding list" where
  "dynamics_findings policy role n (TakeoffStep h d) = found
     [(3 / 2 * h / d > max_vertical_speed_m_s policy, blocker ''TAKEOFF_VERTICAL_SPEED_EXCEEDS_POLICY'' role (Some n)),
      (6 * h / d ^ 2 > max_acceleration_m_s2 policy, blocker ''TAKEOFF_ACCELERATION_EXCEEDS_POLICY'' role (Some n))]"
| "dynamics_findings policy role n (MoveStep c) =
     (let d = mv_duration_s c; horizontal = hypot (mv_x_m c) (mv_y_m c); vertical = \<bar>mv_z_m c\<bar>;
          len = sqrt (horizontal ^ 2 + vertical ^ 2) in found
     [(3 / 2 * horizontal / d > max_horizontal_speed_m_s policy, blocker ''HORIZONTAL_SPEED_EXCEEDS_POLICY'' role (Some n)),
      (3 / 2 * vertical / d > max_vertical_speed_m_s policy, blocker ''VERTICAL_SPEED_EXCEEDS_POLICY'' role (Some n)),
      (6 * len / d ^ 2 > max_acceleration_m_s2 policy, blocker ''ACCELERATION_EXCEEDS_POLICY'' role (Some n)),
      (3 / 2 * \<bar>mv_yaw_rad c\<bar> / d > max_yaw_rate_rad_s policy, blocker ''YAW_RATE_EXCEEDS_POLICY'' role (Some n))])"
| "dynamics_findings policy role n _ = []"

definition geometry_findings ::
    "safety_policy \<Rightarrow> box_obstacle list \<Rightarrow> string \<Rightarrow> nat \<Rightarrow> vector3 \<Rightarrow> vector3 \<Rightarrow> plan_finding list" where
  "geometry_findings policy obstacles role n a b =
     found [(\<not> contains (flight_volume policy) b \<or> vz b > max_altitude_m policy, blocker ''TARGET_OUTSIDE_FLIGHT_VOLUME'' role (Some n))] @
     found (map (\<lambda>ob. (distance a b > 0 \<and> segment_intersects_box a b ob, blocker ''ROUTE_INTERSECTS_OBSTACLE'' role (Some n))) obstacles)"

record flown =
  fl_position :: vector3
  fl_yaw :: real
  fl_elapsed :: real
  fl_distance :: real
  fl_altitude :: real
  fl_waypoints :: "plan_waypoint list"
  fl_findings :: "plan_finding list"

definition fly_step :: "safety_policy \<Rightarrow> box_obstacle list \<Rightarrow> string \<Rightarrow> nat \<Rightarrow> script_step \<Rightarrow> flown \<Rightarrow> flown outcome" where
  "fly_step policy obstacles role n s st =
     (let (position, yaw) = step_pose s (fl_position st) (fl_yaw st);
          elapsed = fl_elapsed st + step_duration s;
          w = \<lparr>wp_sequence = n, wp_action = action_of s, wp_starts_at_s = elapsed - step_duration s, wp_ends_at_s = elapsed,
               wp_start_m = fl_position st, wp_end_m = position, wp_start_yaw_rad = fl_yaw st, wp_end_yaw_rad = yaw\<rparr>
      in bind_ok (check_plan_waypoint w) (\<lambda>_. Inr \<lparr>fl_position = position, fl_yaw = yaw, fl_elapsed = elapsed,
           fl_distance = fl_distance st + distance (fl_position st) position, fl_altitude = max (fl_altitude st) (vz position),
           fl_waypoints = fl_waypoints st @ [w],
           fl_findings = fl_findings st @ dynamics_findings policy role n s @
             geometry_findings policy obstacles role n (fl_position st) position\<rparr>))"

fun fly_steps :: "safety_policy \<Rightarrow> box_obstacle list \<Rightarrow> string \<Rightarrow> nat \<Rightarrow> script_step list \<Rightarrow> flown \<Rightarrow> flown outcome" where
  "fly_steps policy obstacles role n [] st = Inr st"
| "fly_steps policy obstacles role n (s # ss) st =
     bind_ok (fly_step policy obstacles role n s st) (fly_steps policy obstacles role (Suc n) ss)"

definition below_opt :: "real option \<Rightarrow> real option \<Rightarrow> bool" where
  "below_opt a b = (case (a, b) of (Some x, Some y) \<Rightarrow> x < y | _ \<Rightarrow> False)"

definition compile_role ::
    "string \<Rightarrow> string \<Rightarrow> vector3 \<Rightarrow> vector3 \<Rightarrow> bool \<Rightarrow> real option \<Rightarrow> real option \<Rightarrow> script_step list \<Rightarrow> mission_plan_fidelity
       \<Rightarrow> safety_policy \<Rightarrow> box_obstacle list \<Rightarrow> (role_plan \<times> plan_finding list) outcome" where
  "compile_role role vehicle home start existing battery minimum steps fidelity policy obstacles =
     bind_ok (fly_steps policy obstacles role 1 steps
        \<lparr>fl_position = start, fl_yaw = 0, fl_elapsed = 0, fl_distance = 0, fl_altitude = vz start, fl_waypoints = [],
         fl_findings = found [(\<not> contains (flight_volume policy) start, blocker ''START_OUTSIDE_FLIGHT_VOLUME'' role None)]\<rparr>) (\<lambda>st.
       let r = \<lparr>ro_role_id = role, ro_vehicle_id = vehicle, ro_initial_role = ROLE_ACTIVE, ro_home_m = home, ro_start_m = start,
             ro_existing_vehicle = existing, ro_observed_battery_percent = battery, ro_minimum_battery_percent = minimum,
             ro_preview_fidelity = fidelity, ro_planned_commands = steps, ro_waypoints = fl_waypoints st,
             ro_planned_duration_s = fl_elapsed st, ro_planned_distance_m = fl_distance st, ro_maximum_altitude_m = fl_altitude st\<rparr>
       in bind_ok (check_role_plan r) (\<lambda>_. Inr (r, fl_findings st @ found
            [(fl_elapsed st > max_mission_duration_s policy, blocker ''MISSION_DURATION_EXCEEDS_POLICY'' role None),
             (below_opt battery minimum, warning ''BATTERY_BELOW_PLANNED_REQUIREMENT'' role True),
             (below_opt battery (Some (minimum_takeoff_battery_percent policy)), warning ''BATTERY_BELOW_TAKEOFF_MINIMUM'' role True)])))"

section \<open>Execution programs\<close>

text \<open>The canonical hashes of the planner, by the payload they are taken of.\<close>

record plan_hashes =
  xh_service :: service_hashes
  xh_deconfliction :: deconfliction_hash
  xh_multi :: multi_hash
  xh_policy :: "safety_policy \<Rightarrow> string"
  xh_deployment :: "deployment_manifest \<Rightarrow> string"
  xh_route :: "string \<Rightarrow> string \<Rightarrow> string \<Rightarrow> real list \<Rightarrow> vector3 list \<Rightarrow> real list \<Rightarrow> int list \<Rightarrow> string"
  xh_goal :: "string \<Rightarrow> string \<Rightarrow> string \<Rightarrow> vector3 \<Rightarrow> vector3 \<Rightarrow> string"
  xh_program :: "execution_program \<Rightarrow> string"

abbreviation still :: vector3 where
  "still \<equiv> vec 0 0 0"

text \<open>
  The velocity and yaw rate through an inner point, and whether the vehicle stops there: it does when
  the path turns by a right angle or more.
  Every previewed movement takes time, so the difference of the times is never zero.
\<close>

definition through_point ::
    "vector3 \<times> real \<times> real \<Rightarrow> vector3 \<times> real \<times> real \<Rightarrow> vector3 \<times> real \<times> real \<Rightarrow> (vector3 \<times> real) option" where
  "through_point a b c =
     (case (a, b, c) of ((p, ya, ta), (q, yb, tb), (r, yc, tc)) \<Rightarrow>
        let dot = (vx q - vx p) * (vx r - vx q) + (vy q - vy p) * (vy r - vy q) + (vz q - vz p) * (vz r - vz q) in
        if dot \<le> 0 then None
        else Some (vec ((vx r - vx p) / (tc - ta)) ((vy r - vy p) / (tc - ta)) ((vz r - vz p) / (tc - ta)), (yc - ya) / (tc - ta)))"

fun inner_motion :: "(vector3 \<times> real \<times> real) list \<Rightarrow> (vector3 \<times> real) option list" where
  "inner_motion (a # b # c # rest) = through_point a b c # inner_motion (b # c # rest)"
| "inner_motion _ = []"

definition point_motion :: "(vector3 \<times> real \<times> real) list \<Rightarrow> (vector3 \<times> real) option list" where
  "point_motion knots = None # inner_motion knots @ [None]"

definition trajectory_points :: "(vector3 \<times> real \<times> real) list \<Rightarrow> trajectory_point list" where
  "trajectory_points knots =
     map (\<lambda>(i, (p, y, t), m). \<lparr>tp_sequence = int i + 1, tp_time = t, tp_position_m = p,
            tp_velocity_m_s = (case m of None \<Rightarrow> still | Some (v, _) \<Rightarrow> v), tp_acceleration_m_s2 = still, tp_yaw_rad = y,
            tp_yaw_rate_rad_s = (case m of None \<Rightarrow> 0 | Some (_, w) \<Rightarrow> w)\<rparr>)
       (zip [0..<length knots] (zip knots (point_motion knots)))"

definition stop_sequences :: "(vector3 \<times> real \<times> real) list \<Rightarrow> int list" where
  "stop_sequences knots = map (\<lambda>(i, m). int i + 1) (filter (\<lambda>(i, m). m = None) (zip [0..<length knots] (point_motion knots)))"

definition movement_knots :: "plan_waypoint list \<Rightarrow> (vector3 \<times> real \<times> real) list" where
  "movement_knots ws = (wp_start_m (hd ws), wp_start_yaw_rad (hd ws), 0) #
     map (\<lambda>w. (wp_end_m w, wp_end_yaw_rad w, wp_ends_at_s w - wp_starts_at_s (hd ws))) ws"

definition compile_continuous_trajectory :: "plan_hashes \<Rightarrow> mission_file \<Rightarrow> role_plan \<Rightarrow> plan_waypoint list \<Rightarrow> trajectory outcome" where
  "compile_continuous_trajectory X f r ws =
     (let knots = movement_knots ws; stops = stop_sequences knots;
          sha = xh_route X (mf_source_sha256 f) (ro_role_id r) (ro_vehicle_id r) (map (snd \<circ> snd) knots) (map fst knots)
                  (map (fst \<circ> snd) knots) stops;
          tr = \<lparr>tr_trajectory_id = ''trajectory-'' @ take 24 sha, tr_role_id = ro_role_id r, tr_vehicle_id = ro_vehicle_id r,
            tr_route_sha256 = sha, tr_points = trajectory_points knots, tr_declared_stop_sequences = stops,
            tr_completion_position_tolerance_m = 8 / 100, tr_completion_velocity_tolerance_m_s = 5 / 100\<rparr>
      in bind_ok (check_trajectory tr) (\<lambda>_. Inr tr))"

definition landing_goal_for :: "plan_hashes \<Rightarrow> mission_file \<Rightarrow> role_plan \<Rightarrow> plan_waypoint \<Rightarrow> landing_goal_region outcome" where
  "landing_goal_for X f r w =
     (let g = \<lparr>lg_goal_id = ''landing-goal-'' @ take 20 (xh_goal X (mf_source_sha256 f) (ro_role_id r) (ro_vehicle_id r) (wp_end_m w) (wp_start_m w)),
        lg_role_id = ro_role_id r, lg_vehicle_id = ro_vehicle_id r, lg_landing_target_m = wp_end_m w, lg_approach_point_m = wp_start_m w,
        lg_horizontal_tolerance_m = 10 / 100, lg_vertical_tolerance_m = 8 / 100, lg_maximum_capture_speed_m_s = 8 / 100,
        lg_maximum_correction_attempts = 2, lg_correction_duration_s = 1, lg_failure_action = ABORT_AND_LAND_GOAL,
        lg_diversion_target_m = None\<rparr>
      in bind_ok (check_goal g) (\<lambda>_. Inr g))"

definition moves_on :: "plan_waypoint list \<Rightarrow> plan_waypoint list \<times> plan_waypoint list" where
  "moves_on ws = (takeWhile (\<lambda>w. wp_action w = ACT_MOVE_RELATIVE) ws, dropWhile (\<lambda>w. wp_action w = ACT_MOVE_RELATIVE) ws)"

definition single_operation :: "plan_hashes \<Rightarrow> mission_file \<Rightarrow> role_plan \<Rightarrow> int \<Rightarrow> plan_waypoint \<Rightarrow> execution_operation outcome" where
  "single_operation X f r n w =
     (case wp_action w of
        ACT_TAKEOFF \<Rightarrow> Inr (TakeoffOp n (wp_starts_at_s w) (wp_ends_at_s w) (vz (wp_end_m w)))
      | ACT_HOVER \<Rightarrow> Inr (HoldOp n (wp_starts_at_s w) (wp_ends_at_s w))
      | _ \<Rightarrow> bind_ok (landing_goal_for X f r w) (\<lambda>g.
               Inr (LandOp n (wp_starts_at_s w) (wp_ends_at_s w) (vz (wp_end_m w)) (Some g))))"

definition moving_operation ::
    "plan_hashes \<Rightarrow> mission_file \<Rightarrow> role_plan \<Rightarrow> int \<Rightarrow> plan_waypoint list \<Rightarrow> execution_operation outcome" where
  "moving_operation X f r n movement =
     bind_ok (compile_continuous_trajectory X f r movement) (\<lambda>tr.
       Inr (TrajectoryOp n (wp_starts_at_s (hd movement)) (wp_ends_at_s (last movement)) (ph_trajectory (xh_deconfliction X) tr) tr))"

definition checked_operation :: "plan_hashes \<Rightarrow> execution_operation outcome \<Rightarrow> execution_operation outcome" where
  "checked_operation X op = bind_ok op (\<lambda>op. bind_ok (check_operation (ph_trajectory (xh_deconfliction X)) op) (\<lambda>_. Inr op))"

function compile_operations ::
    "plan_hashes \<Rightarrow> mission_file \<Rightarrow> role_plan \<Rightarrow> int \<Rightarrow> plan_waypoint list \<Rightarrow> execution_operation list outcome" where
  "compile_operations X f r n [] = Inr []"
| "compile_operations X f r n (w # ws) =
     (if wp_action w = ACT_MOVE_RELATIVE
      then let (more, rest) = moves_on ws in
        bind_ok (checked_operation X (moving_operation X f r n (w # more))) (\<lambda>op.
        bind_ok (compile_operations X f r (n + 1) rest) (\<lambda>ops. Inr (op # ops)))
      else bind_ok (checked_operation X (single_operation X f r n w)) (\<lambda>op.
        bind_ok (compile_operations X f r (n + 1) ws) (\<lambda>ops. Inr (op # ops))))"
  by pat_completeness auto
termination
  by (relation "measure (\<lambda>(X, f, r, n, ws). length ws)") (auto simp: moves_on_def length_dropWhile_le le_imp_less_Suc)

definition compile_execution_program :: "plan_hashes \<Rightarrow> mission_file \<Rightarrow> role_plan \<Rightarrow> execution_program option outcome" where
  "compile_execution_program X f r =
     (if ro_initial_role r \<noteq> ROLE_ACTIVE \<or> ro_waypoints r = [] \<or>
         list_ex (\<lambda>w. wp_action w \<notin> {ACT_TAKEOFF, ACT_HOVER, ACT_MOVE_RELATIVE, ACT_LAND}) (ro_waypoints r)
      then Inr None
      else bind_ok (compile_operations X f r 1 (ro_waypoints r)) (\<lambda>ops.
        let contingency = max 2 (ro_planned_duration_s r * (20 / 100));
            payload = \<lparr>ep_program_id = '''', ep_mission_source_sha256 = mf_source_sha256 f, ep_role_id = ro_role_id r,
              ep_vehicle_id = ro_vehicle_id r, ep_operations = ops, ep_route_sha256s = map (tr_route_sha256 \<circ> snd) (trajectories_of ops),
              ep_schedule_duration_s = ro_planned_duration_s r, ep_contingency_reserve_s = contingency, ep_recovery_reserve_s = 10,
              ep_execution_timeout_s = ro_planned_duration_s r + contingency + 10\<rparr>;
            p = payload\<lparr>ep_program_id := ''execution-program-'' @ take 20 (xh_program X payload)\<rparr>
        in bind_ok (check_program (ph_trajectory (xh_deconfliction X)) p) (\<lambda>_. Inr (Some p))))"

section \<open>The receipt\<close>

record safety_snapshot =
  ss_policy_sha256 :: string
  ss_flight_volume :: flight_volume
  ss_max_altitude_m :: real
  ss_max_horizontal_speed_m_s :: real
  ss_max_vertical_speed_m_s :: real
  ss_max_acceleration_m_s2 :: real
  ss_max_yaw_rate_rad_s :: real
  ss_max_mission_duration_s :: real
  ss_minimum_takeoff_battery_percent :: real
  ss_warning_separation_m :: real
  ss_critical_separation_m :: real
  ss_observation_freshness_s :: real

definition safety_snapshot_of :: "plan_hashes \<Rightarrow> deployment_manifest \<Rightarrow> safety_policy \<Rightarrow> safety_snapshot outcome" where
  "safety_snapshot_of X d policy =
     (let s = \<lparr>ss_policy_sha256 = xh_policy X policy, ss_flight_volume = flight_volume policy, ss_max_altitude_m = max_altitude_m policy,
        ss_max_horizontal_speed_m_s = max_horizontal_speed_m_s policy, ss_max_vertical_speed_m_s = max_vertical_speed_m_s policy,
        ss_max_acceleration_m_s2 = max_acceleration_m_s2 policy, ss_max_yaw_rate_rad_s = max_yaw_rate_rad_s policy,
        ss_max_mission_duration_s = max_mission_duration_s policy,
        ss_minimum_takeoff_battery_percent = minimum_takeoff_battery_percent policy,
        ss_warning_separation_m = warning_separation_m (constraints d), ss_critical_separation_m = critical_separation_m (constraints d),
        ss_observation_freshness_s = observation_freshness_s (constraints d)\<rparr>
      in if valid_sha256 (ss_policy_sha256 s) \<and> 0 < ss_max_altitude_m s \<and> 0 < ss_max_horizontal_speed_m_s s \<and>
           0 < ss_max_vertical_speed_m_s s \<and> 0 < ss_max_acceleration_m_s2 s \<and> 0 < ss_max_yaw_rate_rad_s s \<and>
           0 < ss_max_mission_duration_s s \<and> 0 \<le> ss_minimum_takeoff_battery_percent s \<and> ss_minimum_takeoff_battery_percent s \<le> 100 \<and>
           0 < ss_warning_separation_m s \<and> 0 < ss_critical_separation_m s \<and> 0 < ss_observation_freshness_s s
         then Inr s else Inl (ValidationError ''MissionSafetySnapshot field''))"

datatype fleet_plan = CrossingPlan deconfliction_plan | MultiPlan multi_plan

record mission_plan_receipt =
  mr_plan_id :: string
  mr_mission_id :: string
  mr_mission_source_sha256 :: string
  mr_package_schema_version :: int
  mr_deployment_sha256 :: string
  mr_status :: mission_plan_status
  mr_roles :: "role_plan list"
  mr_execution_programs :: "execution_program list"
  mr_deconfliction :: "fleet_plan option"
  mr_safety :: safety_snapshot
  mr_findings :: "plan_finding list"
  mr_planning :: planning_bundle

definition check_receipt :: "mission_plan_receipt \<Rightarrow> unit outcome" where
  "check_receipt m =
     (if valid_identifier (mr_plan_id m) \<and> valid_identifier (mr_mission_id m) \<and> valid_sha256 (mr_mission_source_sha256 m) \<and>
         mr_package_schema_version m \<in> {1, 2} \<and> valid_sha256 (mr_deployment_sha256 m)
      then Inr () else Inl (ValidationError ''MissionPlanReceipt field''))"

section \<open>Building the plan\<close>

text \<open>What was observed before planning: start positions, batteries, vehicles that exist, obstacles.\<close>

record plan_observations =
  po_start_positions :: "(string, vector3) dict"
  po_observed_batteries :: "(string, real) dict"
  po_existing_vehicle_ids :: "string set"
  po_obstacles :: "box_obstacle list"

definition role_of_vehicle :: "mission_file \<Rightarrow> (string, string) dict \<Rightarrow> string \<Rightarrow> string" where
  "role_of_vehicle f assignments vehicle =
     (case find (\<lambda>(r, v). v = vehicle) assignments of
        Some (r, _) \<Rightarrow> r
      | None \<Rightarrow> (case find (\<lambda>(r, v). v = vehicle) (mf_roles f) of Some (r, _) \<Rightarrow> r | None \<Rightarrow> vehicle))"

definition reserve_plan :: "string \<Rightarrow> fleet_member \<Rightarrow> vector3 \<Rightarrow> bool \<Rightarrow> real option \<Rightarrow> role_plan outcome" where
  "reserve_plan role m start existing battery =
     (let r = \<lparr>ro_role_id = role, ro_vehicle_id = fm_vehicle_id m, ro_initial_role = fm_initial_role m, ro_home_m = fm_home m,
        ro_start_m = start, ro_existing_vehicle = existing, ro_observed_battery_percent = battery, ro_minimum_battery_percent = None,
        ro_preview_fidelity = PREPARED_RESERVE, ro_planned_commands = [], ro_waypoints = [], ro_planned_duration_s = 0,
        ro_planned_distance_m = 0, ro_maximum_altitude_m = vz start\<rparr>
      in bind_ok (check_role_plan r) (\<lambda>_. Inr r))"

definition plan_member ::
    "(string \<Rightarrow> worker_answer outcome) \<Rightarrow> mission_file \<Rightarrow> deployment_manifest \<Rightarrow> (string, string) dict \<Rightarrow> safety_policy
       \<Rightarrow> plan_observations \<Rightarrow> fleet_member \<Rightarrow> (role_plan \<times> plan_finding list) outcome" where
  "plan_member worker f d assignments policy ob m =
     (let vehicle = fm_vehicle_id m; role = role_of_vehicle f assignments vehicle;
          start = (case dict_get (po_start_positions ob) vehicle of Some p \<Rightarrow> p | None \<Rightarrow> fm_home m);
          battery = dict_get (po_observed_batteries ob) vehicle;
          existing = (vehicle \<in> po_existing_vehicle_ids ob);
          observed = found [(existing \<and> dict_get (po_start_positions ob) vehicle = None, warning ''START_POSITION_UNAVAILABLE'' role False),
            (existing \<and> battery = None, warning ''BATTERY_OBSERVATION_UNAVAILABLE'' role False)]
      in if fm_initial_role m = ROLE_RESERVE
         then bind_ok (reserve_plan role m start existing battery) (\<lambda>r. Inr (r, observed))
         else bind_ok (preview_isolated_mission_role worker f role) (\<lambda>steps.
           bind_ok (compile_role role vehicle (fm_home m) start existing battery
               (map_option required_energy (find (\<lambda>t. td_task_id t = role) (tasks d))) steps EXACT_ROLE policy (po_obstacles ob))
             (\<lambda>(r, fs). Inr (r, observed @ fs))))"

definition role_input :: "role_plan \<Rightarrow> operational_route_input" where
  "role_input r = \<lparr>oi_role_id = ro_role_id r, oi_vehicle_id = ro_vehicle_id r, oi_initial_role = ro_initial_role r, oi_start_m = ro_start_m r,
     oi_targets_m = map wp_end_m (ro_waypoints r), oi_planned_duration_s = ro_planned_duration_s r\<rparr>"

definition route_input_of :: "role_plan \<Rightarrow> operational_route_input outcome" where
  "route_input_of r = bind_ok (check_route_input (role_input r)) (\<lambda>_. Inr (role_input r))"

definition route_findings :: "route_plan_artifact list \<Rightarrow> plan_finding list" where
  "route_findings routes = map (\<lambda>a. blocker ''ROUTE_PLANNER_BLOCKED'' (rp_role_id a) None) (filter (\<lambda>a. rp_status a = RP_BLOCKED) routes)"

definition starting_separation_findings :: "role_plan list \<Rightarrow> deployment_manifest \<Rightarrow> plan_finding list" where
  "starting_separation_findings rs d =
     concat (map (\<lambda>(a, b). let gap = distance (ro_start_m a) (ro_start_m b) in
        if gap \<le> critical_separation_m (constraints d) then [blocker ''STARTING_SEPARATION_CRITICAL'' (ro_role_id a) None]
        else if gap \<le> warning_separation_m (constraints d) then [warning ''STARTING_SEPARATION_WARNING'' (ro_role_id a) False]
        else []) (pairs rs))"

definition deconflict ::
    "plan_hashes \<Rightarrow> mission_file \<Rightarrow> deployment_manifest \<Rightarrow> safety_policy \<Rightarrow> execution_program list
       \<Rightarrow> (execution_program list \<times> fleet_plan option) outcome" where
  "deconflict X f d policy programs =
     bind_ok (plan_crossing_deconfliction (xh_deconfliction X) (mf_mission_id f) d programs policy
         (case mf_deconfliction_strategies f of Some allowed \<Rightarrow> allowed | None \<Rightarrow> all_strategies)) (\<lambda>(ps, crossing).
       case crossing of
         Some plan \<Rightarrow> Inr (ps, Some (CrossingPlan plan))
       | None \<Rightarrow> bind_ok (plan_multi_drone_conflicts (xh_multi X) (mf_mission_id f) d ps policy 4) (\<lambda>(qs, multi).
           Inr (qs, map_option MultiPlan multi)))"

fun plan_is_blocked :: "fleet_plan \<Rightarrow> bool" where
  "plan_is_blocked (CrossingPlan p) = (dp_status p = DC_BLOCKED)"
| "plan_is_blocked (MultiPlan p) = (mm_status p = MD_BLOCKED)"

fun severity_order :: "mission_plan_severity \<Rightarrow> nat" where
  "severity_order SEV_BLOCKER = 0"
| "severity_order SEV_WARNING = 1"
| "severity_order SEV_INFO = 2"

definition finding_sort_key :: "plan_finding \<Rightarrow> nat \<times> string \<times> string \<times> nat" where
  "finding_sort_key x = (severity_order (pf_severity x), pf_role_id x, pf_code x, case pf_step_sequence x of Some n \<Rightarrow> n | None \<Rightarrow> 0)"

definition plan_status :: "plan_finding list \<Rightarrow> mission_plan_status" where
  "plan_status fs = (if list_ex (\<lambda>x. pf_severity x = SEV_BLOCKER) fs then MP_BLOCKED
     else if list_ex pf_requires_confirmation fs then MP_REQUIRES_CONFIRMATION else MP_APPROVED)"

definition assignments_match :: "deployment_manifest \<Rightarrow> (string, string) dict \<Rightarrow> bool" where
  "assignments_match d assignments \<longleftrightarrow> set (dict_keys assignments) = set (map td_task_id (tasks d)) \<and>
     set (dict_values assignments) = set (map fm_vehicle_id (filter (\<lambda>m. fm_initial_role m = ROLE_ACTIVE) (fleet d))) \<and>
     card (set (dict_values assignments)) = length assignments"

definition seal_receipt :: "(mission_plan_receipt \<Rightarrow> string) \<Rightarrow> mission_plan_receipt \<Rightarrow> mission_plan_receipt outcome" where
  "seal_receipt sha payload =
     (let m = payload\<lparr>mr_plan_id := ''mission-plan-'' @ take 24 (sha payload)\<rparr> in bind_ok (check_receipt m) (\<lambda>_. Inr m))"

definition build_mission_plan ::
    "plan_hashes \<Rightarrow> (mission_plan_receipt \<Rightarrow> string) \<Rightarrow> (string \<Rightarrow> worker_answer outcome) \<Rightarrow> mission_file \<Rightarrow> deployment_manifest
       \<Rightarrow> (string, string) dict \<Rightarrow> safety_policy \<Rightarrow> plan_observations \<Rightarrow> mission_plan_receipt outcome" where
  "build_mission_plan X sha worker f d assignments policy ob =
     (if \<not> assignments_match d assignments
      then Inl (CrazySwarmError IDENTITY_MISMATCH ''mission planning assignments do not match active deployment tasks'')
      else bind_ok (map_ok (plan_member worker f d assignments policy ob) (sort_key fm_vehicle_id (fleet d))) (\<lambda>members.
      let roles = map fst members in
      bind_ok (map_ok route_input_of roles) (\<lambda>inputs.
      bind_ok (compile_operational_planning_bundle (xh_service X) (mf_mission_id f) d inputs policy (po_obstacles ob)) (\<lambda>bundle.
      bind_ok (safety_snapshot_of X d policy) (\<lambda>safety.
      bind_ok (map_ok (compile_execution_program X f) roles) (\<lambda>compiled.
      bind_ok (deconflict X f d policy (map the (filter (\<lambda>p. p \<noteq> None) compiled))) (\<lambda>(programs, plan).
      let findings = sort_key finding_sort_key (concat (map snd members) @ route_findings (pb_route_plans bundle) @
            starting_separation_findings roles d @
            found [(opt_all plan_is_blocked plan \<and> plan \<noteq> None, blocker ''PREDICTIVE_DECONFLICTION_BLOCKED'' ''fleet'' None)])
      in seal_receipt sha \<lparr>mr_plan_id = '''', mr_mission_id = mf_mission_id f, mr_mission_source_sha256 = mf_source_sha256 f,
           mr_package_schema_version = mf_package_schema_version f, mr_deployment_sha256 = xh_deployment X d,
           mr_status = plan_status findings, mr_roles = roles, mr_execution_programs = programs, mr_deconfliction = plan,
           mr_safety = safety, mr_findings = findings, mr_planning = bundle\<rparr>)))))))"

section \<open>What an unblocked role flies\<close>

lemma found_nil: "found cs = [] \<longleftrightarrow> (\<forall>c \<in> set cs. \<not> fst c)"
  by (auto simp: found_def filter_empty_conv)

lemma found_in: "x \<in> set (found cs) \<longleftrightarrow> (True, x) \<in> set cs"
  by (force simp: found_def)

text \<open>The dynamic limits of a command, and a leg that stays in the envelope and clear of the obstacles.\<close>

fun within_limits :: "safety_policy \<Rightarrow> script_step \<Rightarrow> bool" where
  "within_limits policy (TakeoffStep h d) \<longleftrightarrow> 3 / 2 * h / d \<le> max_vertical_speed_m_s policy \<and> 6 * h / d ^ 2 \<le> max_acceleration_m_s2 policy"
| "within_limits policy (MoveStep c) \<longleftrightarrow>
     3 / 2 * hypot (mv_x_m c) (mv_y_m c) / mv_duration_s c \<le> max_horizontal_speed_m_s policy \<and>
     3 / 2 * \<bar>mv_z_m c\<bar> / mv_duration_s c \<le> max_vertical_speed_m_s policy \<and>
     6 * sqrt (hypot (mv_x_m c) (mv_y_m c) ^ 2 + mv_z_m c ^ 2) / mv_duration_s c ^ 2 \<le> max_acceleration_m_s2 policy \<and>
     3 / 2 * \<bar>mv_yaw_rad c\<bar> / mv_duration_s c \<le> max_yaw_rate_rad_s policy"
| "within_limits policy _ \<longleftrightarrow> True"

definition leg_admitted :: "safety_policy \<Rightarrow> box_obstacle list \<Rightarrow> vector3 \<Rightarrow> vector3 \<Rightarrow> bool" where
  "leg_admitted policy obstacles a b \<longleftrightarrow> contains (flight_volume policy) b \<and> vz b \<le> max_altitude_m policy \<and>
     (a \<noteq> b \<longrightarrow> (\<forall>ob \<in> set obstacles. \<forall>t \<in> {0..1}. \<not> inside_expanded_box (point_on a (snapped a b) t) ob 0))"

definition flies_step :: "script_step \<Rightarrow> plan_waypoint \<Rightarrow> bool" where
  "flies_step s w \<longleftrightarrow> wp_action w = action_of s \<and> wp_ends_at_s w = wp_starts_at_s w + step_duration s
     \<and> step_pose s (wp_start_m w) (wp_start_yaw_rad w) = (wp_end_m w, wp_end_yaw_rad w)"

definition follows_on :: "plan_waypoint \<Rightarrow> plan_waypoint \<Rightarrow> bool" where
  "follows_on v w \<longleftrightarrow> wp_start_m w = wp_end_m v \<and> wp_start_yaw_rad w = wp_end_yaw_rad v \<and> wp_starts_at_s w = wp_ends_at_s v
     \<and> wp_sequence w = Suc (wp_sequence v)"

lemma dynamics_none: "dynamics_findings policy role n s = [] \<longleftrightarrow> within_limits policy s"
  by (cases s) (auto simp: found_nil Let_def not_less)

lemma dynamics_severity: "x \<in> set (dynamics_findings policy role n s) \<Longrightarrow> pf_severity x = SEV_BLOCKER"
  by (cases s) (auto simp: found_in Let_def blocker_def)

lemma geometry_severity: "x \<in> set (geometry_findings policy obstacles role n a b) \<Longrightarrow> pf_severity x = SEV_BLOCKER"
  by (auto simp: geometry_findings_def found_in blocker_def)

lemma distance_zero: "distance a b = 0 \<longleftrightarrow> a = b"
  by (cases a, cases b) (auto simp: distance_def add_nonneg_eq_0_iff)

lemma geometry_none:
  assumes "geometry_findings policy obstacles role n a b = []" "\<forall>ob \<in> set obstacles. ordered_corners (ob_minimum_m ob) (ob_maximum_m ob)"
  shows "leg_admitted policy obstacles a b"
proof -
  have "0 < distance a b \<longleftrightarrow> a \<noteq> b" using distance_zero [of a b] distance_nonneg [of a b] by linarith
  with assms show ?thesis
    by (auto simp: geometry_findings_def found_nil leg_admitted_def not_less slab_test)
qed

lemma fly_step_Inr:
  assumes "fly_step policy obstacles role n s st = Inr st'"
  obtains w where "fl_waypoints st' = fl_waypoints st @ [w]" "flies_step s w" "wp_sequence w = n" "wp_start_m w = fl_position st"
    "wp_start_yaw_rad w = fl_yaw st" "wp_starts_at_s w = fl_elapsed st" "0 \<le> wp_starts_at_s w" "0 \<le> wp_ends_at_s w" "wp_end_m w = fl_position st'" "wp_end_yaw_rad w = fl_yaw st'"
    "wp_ends_at_s w = fl_elapsed st'"
    "fl_findings st' = fl_findings st @ dynamics_findings policy role n s @ geometry_findings policy obstacles role n (wp_start_m w) (wp_end_m w)"
proof -
  obtain p y where p: "step_pose s (fl_position st) (fl_yaw st) = (p, y)" by (cases "step_pose s (fl_position st) (fl_yaw st)")
  let ?w = "\<lparr>wp_sequence = n, wp_action = action_of s, wp_starts_at_s = fl_elapsed st, wp_ends_at_s = fl_elapsed st + step_duration s,
               wp_start_m = fl_position st, wp_end_m = p, wp_start_yaw_rad = fl_yaw st, wp_end_yaw_rad = y\<rparr>"
  show thesis using assms by (intro that [of ?w]) (auto simp: fly_step_def p Let_def bind_ok_Inr flies_step_def check_plan_waypoint_def split: if_splits)
qed

text \<open>The waypoints of a run: one per step, each starting where and when the previous one ends.\<close>

definition chain_from :: "nat \<Rightarrow> vector3 \<Rightarrow> real \<Rightarrow> real \<Rightarrow> plan_waypoint list \<Rightarrow> bool" where
  "chain_from n p yaw t ws \<longleftrightarrow> successively follows_on ws \<and>
     (ws \<noteq> [] \<longrightarrow> wp_sequence (hd ws) = n \<and> wp_start_m (hd ws) = p \<and> wp_start_yaw_rad (hd ws) = yaw \<and> wp_starts_at_s (hd ws) = t)"

lemma fly_steps_Inr:
  assumes "fly_steps policy obstacles role n steps st = Inr st'"
  shows "\<exists>ws. fl_waypoints st' = fl_waypoints st @ ws \<and> list_all2 flies_step steps ws
    \<and> chain_from n (fl_position st) (fl_yaw st) (fl_elapsed st) ws
    \<and> (ws = [] \<longrightarrow> fl_elapsed st' = fl_elapsed st) \<and> (ws \<noteq> [] \<longrightarrow> fl_elapsed st' = wp_ends_at_s (last ws))
    \<and> (\<forall>w \<in> set ws. 0 \<le> wp_starts_at_s w)
    \<and> (\<exists>fs. fl_findings st' = fl_findings st @ fs \<and> (list_all (\<lambda>x. pf_severity x \<noteq> SEV_BLOCKER) fs \<longrightarrow>
         (\<forall>ob \<in> set obstacles. ordered_corners (ob_minimum_m ob) (ob_maximum_m ob)) \<longrightarrow>
         list_all (within_limits policy) steps \<and> list_all (\<lambda>w. leg_admitted policy obstacles (wp_start_m w) (wp_end_m w)) ws))"
  using assms
proof (induction steps arbitrary: n st)
  case Nil
  then show ?case by (auto simp: chain_from_def)
next
  case (Cons s ss)
  from Cons.prems obtain mid where mid: "fly_step policy obstacles role n s st = Inr mid"
    "fly_steps policy obstacles role (Suc n) ss mid = Inr st'" by (auto simp: bind_ok_Inr)
  from mid(1) obtain w where w: "fl_waypoints mid = fl_waypoints st @ [w]" "flies_step s w" "wp_sequence w = n" "wp_start_m w = fl_position st"
    "wp_start_yaw_rad w = fl_yaw st" "wp_starts_at_s w = fl_elapsed st" "0 \<le> wp_starts_at_s w" "0 \<le> wp_ends_at_s w" "wp_end_m w = fl_position mid" "wp_end_yaw_rad w = fl_yaw mid"
    "wp_ends_at_s w = fl_elapsed mid"
    "fl_findings mid = fl_findings st @ dynamics_findings policy role n s @ geometry_findings policy obstacles role n (wp_start_m w) (wp_end_m w)"
    by (rule fly_step_Inr)
  from Cons.IH [OF mid(2)] obtain ws fs where ws: "fl_waypoints st' = fl_waypoints mid @ ws" "list_all2 flies_step ss ws"
    "chain_from (Suc n) (fl_position mid) (fl_yaw mid) (fl_elapsed mid) ws"
    "ws = [] \<longrightarrow> fl_elapsed st' = fl_elapsed mid" "ws \<noteq> [] \<longrightarrow> fl_elapsed st' = wp_ends_at_s (last ws)" "\<forall>w \<in> set ws. 0 \<le> wp_starts_at_s w"
    and fs: "fl_findings st' = fl_findings mid @ fs" "list_all (\<lambda>x. pf_severity x \<noteq> SEV_BLOCKER) fs \<longrightarrow>
         (\<forall>ob \<in> set obstacles. ordered_corners (ob_minimum_m ob) (ob_maximum_m ob)) \<longrightarrow>
         list_all (within_limits policy) ss \<and> list_all (\<lambda>w. leg_admitted policy obstacles (wp_start_m w) (wp_end_m w)) ws" by blast
  have chain: "chain_from n (fl_position st) (fl_yaw st) (fl_elapsed st) (w # ws)"
    using ws(3) w unfolding chain_from_def by (cases ws) (auto simp: follows_on_def)
  have d: "dynamics_findings policy role n s = []" if "list_all (\<lambda>x. pf_severity x \<noteq> SEV_BLOCKER) (dynamics_findings policy role n s)"
    using that dynamics_severity [of _ policy role n s] by (cases "dynamics_findings policy role n s") auto
  have g: "geometry_findings policy obstacles role n a b = []"
    if "list_all (\<lambda>x. pf_severity x \<noteq> SEV_BLOCKER) (geometry_findings policy obstacles role n a b)" for a b
    using that geometry_severity [of _ policy obstacles role n a b] by (cases "geometry_findings policy obstacles role n a b") auto
  let ?fs = "dynamics_findings policy role n s @ geometry_findings policy obstacles role n (wp_start_m w) (wp_end_m w) @ fs"
  have "list_all (\<lambda>x. pf_severity x \<noteq> SEV_BLOCKER) ?fs \<longrightarrow>
         (\<forall>ob \<in> set obstacles. ordered_corners (ob_minimum_m ob) (ob_maximum_m ob)) \<longrightarrow>
         list_all (within_limits policy) (s # ss) \<and> list_all (\<lambda>w. leg_admitted policy obstacles (wp_start_m w) (wp_end_m w)) (w # ws)"
    using fs(2) d g dynamics_none geometry_none by (simp add: list_all_append) blast
  with ws w fs chain show ?case by (intro exI [of _ "w # ws"] conjI exI [of _ ?fs]) auto
qed

definition admitted_role :: "safety_policy \<Rightarrow> box_obstacle list \<Rightarrow> role_plan \<Rightarrow> bool" where
  "admitted_role policy obstacles r \<longleftrightarrow> contains (flight_volume policy) (ro_start_m r) \<and>
     ro_planned_duration_s r \<le> max_mission_duration_s policy \<and> list_all2 flies_step (ro_planned_commands r) (ro_waypoints r) \<and>
     list_all (within_limits policy) (ro_planned_commands r) \<and>
     list_all (\<lambda>w. leg_admitted policy obstacles (wp_start_m w) (wp_end_m w)) (ro_waypoints r) \<and>
     chain_from 1 (ro_start_m r) 0 0 (ro_waypoints r)"

text \<open>The waypoints of a compiled role, whatever its findings.\<close>

definition previewed_role :: "role_plan \<Rightarrow> bool" where
  "previewed_role r \<longleftrightarrow> list_all2 flies_step (ro_planned_commands r) (ro_waypoints r) \<and> chain_from 1 (ro_start_m r) 0 0 (ro_waypoints r)
     \<and> (ro_waypoints r \<noteq> [] \<longrightarrow> ro_planned_duration_s r = wp_ends_at_s (last (ro_waypoints r)))"

abbreviation no_blocker :: "plan_finding list \<Rightarrow> bool" where
  "no_blocker \<equiv> list_all (\<lambda>x. pf_severity x \<noteq> SEV_BLOCKER)"

abbreviation ordered_obstacles :: "box_obstacle list \<Rightarrow> bool" where
  "ordered_obstacles obstacles \<equiv> \<forall>ob \<in> set obstacles. ordered_corners (ob_minimum_m ob) (ob_maximum_m ob)"

lemma compile_role_Inr:
  assumes "compile_role role vehicle home start existing battery minimum steps fidelity policy obstacles = Inr (r, fs)"
  shows "previewed_role r" "ro_role_id r = role" "ro_vehicle_id r = vehicle" "ro_start_m r = start" "ro_initial_role r = ROLE_ACTIVE"
    "no_blocker fs \<Longrightarrow> ordered_obstacles obstacles \<Longrightarrow> admitted_role policy obstacles r"
proof -
  let ?st = "\<lparr>fl_position = start, fl_yaw = 0, fl_elapsed = 0, fl_distance = 0, fl_altitude = vz start, fl_waypoints = [],
         fl_findings = found [(\<not> contains (flight_volume policy) start, blocker ''START_OUTSIDE_FLIGHT_VOLUME'' role None)]\<rparr>"
  from assms obtain st where st: "fly_steps policy obstacles role 1 steps ?st = Inr st"
    and r: "ro_waypoints r = fl_waypoints st" "ro_planned_commands r = steps" "ro_start_m r = start" "ro_planned_duration_s r = fl_elapsed st"
      "ro_role_id r = role" "ro_vehicle_id r = vehicle" "ro_initial_role r = ROLE_ACTIVE"
    and fs: "fs = fl_findings st @ found
            [(fl_elapsed st > max_mission_duration_s policy, blocker ''MISSION_DURATION_EXCEEDS_POLICY'' role None),
             (below_opt battery minimum, warning ''BATTERY_BELOW_PLANNED_REQUIREMENT'' role True),
             (below_opt battery (Some (minimum_takeoff_battery_percent policy)), warning ''BATTERY_BELOW_TAKEOFF_MINIMUM'' role True)]"
    by (auto simp: compile_role_def Let_def bind_ok_Inr)
  show "ro_role_id r = role" "ro_vehicle_id r = vehicle" "ro_start_m r = start" "ro_initial_role r = ROLE_ACTIVE" using r by auto
  from fly_steps_Inr [OF st] obtain gs where w: "list_all2 flies_step steps (fl_waypoints st)" "chain_from 1 start 0 0 (fl_waypoints st)"
    "fl_waypoints st \<noteq> [] \<longrightarrow> fl_elapsed st = wp_ends_at_s (last (fl_waypoints st))"
    and gs: "fl_findings st = fl_findings ?st @ gs" "no_blocker gs \<longrightarrow> ordered_obstacles obstacles \<longrightarrow>
         list_all (within_limits policy) steps \<and> list_all (\<lambda>w. leg_admitted policy obstacles (wp_start_m w) (wp_end_m w)) (fl_waypoints st)"
    by auto
  show "previewed_role r" using w r by (simp add: previewed_role_def)
  assume "no_blocker fs" and o: "ordered_obstacles obstacles"
  then have "no_blocker gs" "no_blocker (fl_findings ?st)" "\<not> fl_elapsed st > max_mission_duration_s policy"
    unfolding fs gs(1) by (auto simp: found_def blocker_def list_all_append split: if_splits)
  moreover from this(2) have "contains (flight_volume policy) start" by (auto simp: found_def blocker_def split: if_splits)
  ultimately show "admitted_role policy obstacles r" using gs(2) o w r by (simp add: admitted_role_def)
qed

lemma plan_member_Inr:
  assumes "plan_member worker f d assignments policy ob m = Inr (r, fs)"
  shows "ro_vehicle_id r = fm_vehicle_id m"
    "ro_initial_role r = (if fm_initial_role m = ROLE_RESERVE then ROLE_RESERVE else ROLE_ACTIVE)"
    "ro_initial_role r = ROLE_ACTIVE \<Longrightarrow> previewed_role r"
    "ro_initial_role r = ROLE_ACTIVE \<Longrightarrow> no_blocker fs \<Longrightarrow> ordered_obstacles (po_obstacles ob) \<Longrightarrow> admitted_role policy (po_obstacles ob) r"
proof -
  have "ro_vehicle_id r = fm_vehicle_id m
    \<and> ro_initial_role r = (if fm_initial_role m = ROLE_RESERVE then ROLE_RESERVE else ROLE_ACTIVE)
    \<and> (ro_initial_role r = ROLE_ACTIVE \<longrightarrow> previewed_role r
        \<and> (no_blocker fs \<longrightarrow> ordered_obstacles (po_obstacles ob) \<longrightarrow> admitted_role policy (po_obstacles ob) r))"
  proof (cases "fm_initial_role m = ROLE_RESERVE")
    case True
    with assms show ?thesis by (auto simp: plan_member_def Let_def bind_ok_Inr reserve_plan_def)
  next
    case False
    with assms obtain role start existing battery minimum steps gs where
      "compile_role role (fm_vehicle_id m) (fm_home m) start existing battery minimum steps EXACT_ROLE policy (po_obstacles ob) = Inr (r, gs)"
      "set gs \<subseteq> set fs"
      by (fastforce simp: plan_member_def Let_def bind_ok_Inr)
    with compile_role_Inr [OF this(1)] False show ?thesis by (auto simp: list_all_iff)
  qed
  then show "ro_vehicle_id r = fm_vehicle_id m"
    "ro_initial_role r = (if fm_initial_role m = ROLE_RESERVE then ROLE_RESERVE else ROLE_ACTIVE)"
    "ro_initial_role r = ROLE_ACTIVE \<Longrightarrow> previewed_role r"
    "ro_initial_role r = ROLE_ACTIVE \<Longrightarrow> no_blocker fs \<Longrightarrow> ordered_obstacles (po_obstacles ob) \<Longrightarrow> admitted_role policy (po_obstacles ob) r"
    by auto
qed

section \<open>A plan taken apart\<close>

lemma plan_parts:
  assumes "build_mission_plan X sha worker f d assignments policy ob = Inr m"
  obtains members inputs compiled where
    "assignments_match d assignments"
    "map_ok (plan_member worker f d assignments policy ob) (sort_key fm_vehicle_id (fleet d)) = Inr members" "mr_roles m = map fst members"
    "map_ok route_input_of (mr_roles m) = Inr inputs"
    "compile_operational_planning_bundle (xh_service X) (mf_mission_id f) d inputs policy (po_obstacles ob) = Inr (mr_planning m)"
    "map_ok (compile_execution_program X f) (mr_roles m) = Inr compiled"
    "deconflict X f d policy (map the (filter (\<lambda>p. p \<noteq> None) compiled)) = Inr (mr_execution_programs m, mr_deconfliction m)"
    "mr_findings m = sort_key finding_sort_key (concat (map snd members) @ route_findings (pb_route_plans (mr_planning m)) @
       starting_separation_findings (mr_roles m) d @
       found [(opt_all plan_is_blocked (mr_deconfliction m) \<and> mr_deconfliction m \<noteq> None, blocker ''PREDICTIVE_DECONFLICTION_BLOCKED'' ''fleet'' None)])"
    "mr_status m = plan_status (mr_findings m)"
  using assms unfolding build_mission_plan_def Let_def
  by (auto simp: bind_ok_Inr seal_receipt_def Let_def split: if_splits)

lemma plan_status_open: "plan_status fs \<noteq> MP_BLOCKED \<longleftrightarrow> no_blocker fs"
  by (auto simp: plan_status_def list_ex_iff list_all_iff)

lemma no_blocker_concat: "no_blocker (concat xss) \<longleftrightarrow> (\<forall>xs \<in> set xss. no_blocker xs)"
  by (auto simp: list_all_iff)

lemma starts_separated:
  assumes "no_blocker (starting_separation_findings rs d)" "(a, b) \<in> set (pairs rs)"
  shows "critical_separation_m (constraints d) < distance (ro_start_m a) (ro_start_m b)"
proof (rule ccontr)
  assume "\<not> ?thesis"
  then have "blocker ''STARTING_SEPARATION_CRITICAL'' (ro_role_id a) None \<in> set (starting_separation_findings rs d)"
    using assms(2) unfolding starting_separation_findings_def by (auto simp: Let_def not_less intro!: bexI [of _ "(a, b)"])
  with assms(1) show False by (auto simp: list_all_iff blocker_def)
qed

lemma routes_ready: "no_blocker (route_findings routes) \<Longrightarrow> a \<in> set routes \<Longrightarrow> rp_status a = RP_READY"
  by (cases "rp_status a") (auto simp: route_findings_def blocker_def list_all_iff)

lemma inputs_of_roles: "map_ok route_input_of rs = Inr inputs \<Longrightarrow> inputs = map role_input rs"
  by (induction rs arbitrary: inputs) (auto simp: bind_ok_Inr route_input_of_def)

lemma map_ok_list_all2: "map_ok f xs = Inr ys \<Longrightarrow> list_all2 (\<lambda>x y. f x = Inr y) xs ys"
  by (induction xs arbitrary: ys) (auto simp: bind_ok_Inr)

text \<open>
  C10. A plan that is not blocked is admissible. It has one role for every fleet member, in the order of
  the vehicle names; every active role starts inside the flight volume, finishes within the maximum
  mission duration, keeps its commands within the speed, acceleration and yaw rate limits of the
  policy, and ends every leg of its preview in the volume; the straight line of every leg that moves
  misses every obstacle; every active role has a ready route that is safe in the same sense, along
  straight lines; any two roles start farther apart than the critical separation; and the deconfliction
  plan, if there is one, is not blocked. The planner checks straight lines only: of the curve that is
  compiled through a corner the theorem says nothing, and that curve can enter an obstacle
  (\<open>compiled_curve_cuts_obstacle\<close>).
\<close>

theorem unblocked_plan_is_admissible:
  assumes "build_mission_plan X sha worker f d assignments policy ob = Inr m" "mr_status m \<noteq> MP_BLOCKED"
    "ordered_obstacles (po_obstacles ob)"
  shows "map ro_vehicle_id (mr_roles m) = map fm_vehicle_id (sort_key fm_vehicle_id (fleet d))
    \<and> (\<forall>r \<in> set (mr_roles m). ro_initial_role r = ROLE_ACTIVE \<longrightarrow> admitted_role policy (po_obstacles ob) r)
    \<and> list_all2 (\<lambda>i a. plans_role d policy (po_obstacles ob) i a \<and> rp_status a = RP_READY)
        (active_inputs (map role_input (mr_roles m))) (pb_route_plans (mr_planning m))
    \<and> (\<forall>(a, b) \<in> set (pairs (mr_roles m)). critical_separation_m (constraints d) < distance (ro_start_m a) (ro_start_m b))
    \<and> (\<forall>p. mr_deconfliction m = Some p \<longrightarrow> \<not> plan_is_blocked p)"
  using assms(1)
proof (rule plan_parts)
  fix members inputs compiled
  assume members: "map_ok (plan_member worker f d assignments policy ob) (sort_key fm_vehicle_id (fleet d)) = Inr members" "mr_roles m = map fst members"
    and inputs: "map_ok route_input_of (mr_roles m) = Inr inputs"
    and planned: "compile_operational_planning_bundle (xh_service X) (mf_mission_id f) d inputs policy (po_obstacles ob) = Inr (mr_planning m)"
    and findings: "mr_findings m = sort_key finding_sort_key (concat (map snd members) @ route_findings (pb_route_plans (mr_planning m)) @
       starting_separation_findings (mr_roles m) d @
       found [(opt_all plan_is_blocked (mr_deconfliction m) \<and> mr_deconfliction m \<noteq> None, blocker ''PREDICTIVE_DECONFLICTION_BLOCKED'' ''fleet'' None)])"
    and status: "mr_status m = plan_status (mr_findings m)"
  have "no_blocker (mr_findings m)" using assms(2) status plan_status_open by metis
  then have clear: "\<forall>p \<in> set members. no_blocker (snd p)" "no_blocker (route_findings (pb_route_plans (mr_planning m)))"
    "no_blocker (starting_separation_findings (mr_roles m) d)"
    "\<forall>p. mr_deconfliction m = Some p \<longrightarrow> \<not> plan_is_blocked p"
    unfolding findings by (auto simp: list_all_iff found_def blocker_def)
  have all: "list_all2 (\<lambda>x y. plan_member worker f d assignments policy ob x = Inr y) (sort_key fm_vehicle_id (fleet d)) members"
    by (rule map_ok_list_all2 [OF members(1)])
  have "map (ro_vehicle_id \<circ> fst) members = map fm_vehicle_id (sort_key fm_vehicle_id (fleet d))"
    using all by (induction rule: list_all2_induct) (auto dest: plan_member_Inr(1))
  moreover have "admitted_role policy (po_obstacles ob) r" if r: "r \<in> set (mr_roles m)" "ro_initial_role r = ROLE_ACTIVE" for r
  proof -
    obtain fs where fs: "(r, fs) \<in> set members" using r(1) members(2) by auto
    then obtain i where i: "i < length members" "members ! i = (r, fs)" by (auto simp: in_set_conv_nth)
    then have "(r, fs) \<in> set members" "plan_member worker f d assignments policy ob (sort_key fm_vehicle_id (fleet d) ! i) = Inr (r, fs)"
      using fs list_all2_nthD2 [OF all i(1)] by simp_all
    with plan_member_Inr(4) [OF this(2) r(2)] clear(1) assms(3) show ?thesis by auto
  qed
  moreover have "list_all2 (\<lambda>i a. plans_role d policy (po_obstacles ob) i a \<and> rp_status a = RP_READY) (active_inputs inputs) (pb_route_plans (mr_planning m))"
    using bundle_plans [OF planned] routes_ready [OF clear(2)] by (auto simp: list_all2_conv_all_nth)
  ultimately show ?thesis
    using members(2) inputs_of_roles [OF inputs] starts_separated [OF clear(3)] clear(4) by (auto simp: o_def)
qed

section \<open>Programs fly their preview\<close>

fun carries_out :: "execution_operation \<Rightarrow> plan_waypoint \<Rightarrow> bool" where
  "carries_out (TakeoffOp n s e h) w \<longleftrightarrow> wp_action w = ACT_TAKEOFF \<and> s = wp_starts_at_s w \<and> e = wp_ends_at_s w \<and> h = vz (wp_end_m w)"
| "carries_out (HoldOp n s e) w \<longleftrightarrow> wp_action w = ACT_HOVER \<and> s = wp_starts_at_s w \<and> e = wp_ends_at_s w"
| "carries_out (LandOp n s e h g) w \<longleftrightarrow> wp_action w = ACT_LAND \<and> s = wp_starts_at_s w \<and> e = wp_ends_at_s w \<and> h = vz (wp_end_m w)
     \<and> (\<exists>r. g = Some r \<and> lg_landing_target_m r = wp_end_m w \<and> lg_approach_point_m r = wp_start_m w)"
| "carries_out (TrajectoryOp n s e h tr) w \<longleftrightarrow> wp_action w = ACT_MOVE_RELATIVE \<and> s \<le> wp_starts_at_s w \<and> wp_ends_at_s w \<le> e
     \<and> operation_position (TrajectoryOp n s e h tr) (wp_starts_at_s w) = Inr (wp_start_m w)
     \<and> operation_position (TrajectoryOp n s e h tr) (wp_ends_at_s w) = Inr (wp_end_m w)"
| "carries_out (GroundWaitOp n s e) w \<longleftrightarrow> False"

lemma length_inner_motion: "length (inner_motion knots) = length knots - 2"
  by (induction knots rule: inner_motion.induct) auto

lemma length_points: "2 \<le> length knots \<Longrightarrow> length (trajectory_points knots) = length knots"
  by (simp add: trajectory_points_def point_motion_def length_inner_motion)

lemma points_nth:
  assumes "2 \<le> length knots" "i < length knots"
  shows "tp_time (trajectory_points knots ! i) = snd (snd (knots ! i))" "tp_position_m (trajectory_points knots ! i) = fst (knots ! i)"
  using assms by (simp_all add: trajectory_points_def point_motion_def length_inner_motion split: prod.splits)

lemma accepted_position:
  assumes acc: "check_trajectory tr = Inr ()" and i: "i < length (tr_points tr)"
    and e: "e - s = trajectory_duration_s tr" and t: "t - s = tp_time (tr_points tr ! i)"
  shows "operation_position (TrajectoryOp n s e h tr) t = Inr (tp_position_m (tr_points tr ! i)) \<and> s \<le> t \<and> t \<le> e"
proof -
  note b = duration_bounds [OF acc i]
  have "exact_window (TrajectoryOp n s e h tr)" using e by (simp add: exact_window_def)
  moreover have "sample_trajectory tr (t - s) = Inr (setpoint_of (tr_points tr ! i))"
    by (rule sample_waypoint [OF acc i]) (use b t in \<open>simp add: bounded_time_def\<close>)
  ultimately have "operation_position (TrajectoryOp n s e h tr) t = Inr (sp_position_m (setpoint_of (tr_points tr ! i)))"
    using acc by (intro operation_position_sample) auto
  then show ?thesis using b e t by (auto simp: setpoint_of_def)
qed

lemma moving_covers:
  assumes op: "checked_operation X (moving_operation X f r n ws) = Inr op" and ws: "ws \<noteq> []" "successively follows_on ws" "w \<in> set ws"
    and act: "wp_action w = ACT_MOVE_RELATIVE"
  shows "carries_out op w"
proof -
  let ?k = "movement_knots ws"
  from op obtain tr h where tr: "check_trajectory tr = Inr ()" "tr_points tr = trajectory_points ?k"
    and o: "op = TrajectoryOp n (wp_starts_at_s (hd ws)) (wp_ends_at_s (last ws)) h tr"
    by (auto simp: checked_operation_def moving_operation_def compile_continuous_trajectory_def bind_ok_Inr Let_def)
  have k: "2 \<le> length ?k" "length ?k = Suc (length ws)" using ws(1) by (cases ws; simp add: movement_knots_def)+
  have nth: "?k ! Suc i = (wp_end_m (ws ! i), wp_end_yaw_rad (ws ! i), wp_ends_at_s (ws ! i) - wp_starts_at_s (hd ws))" if "i < length ws" for i
    using that by (simp add: movement_knots_def)
  have n0: "?k ! 0 = (wp_start_m (hd ws), wp_start_yaw_rad (hd ws), 0)" by (simp add: movement_knots_def)
  have len: "length (tr_points tr) = Suc (length ws)" using tr(2) length_points [OF k(1)] k(2) by simp
  have "last (tr_points tr) = tr_points tr ! length ws" using len by (metis diff_Suc_1 last_conv_nth length_0_conv nat.distinct(1))
  then have dur: "wp_ends_at_s (last ws) - wp_starts_at_s (hd ws) = trajectory_duration_s tr"
    using points_nth(1) [OF k(1), of "length ws"] nth [of "length ws - 1"] ws(1) k(2) tr(2)
    by (simp add: trajectory_duration_s_def last_conv_nth)
  have pos: "operation_position op t = Inr (fst (?k ! i)) \<and> wp_starts_at_s (hd ws) \<le> t \<and> t \<le> wp_ends_at_s (last ws)"
    if "i \<le> length ws" "t - wp_starts_at_s (hd ws) = snd (snd (?k ! i))" for i t
    using accepted_position [OF tr(1), of i _ _ t n h] that len dur points_nth [OF k(1), of i] k(2) tr(2) unfolding o by simp
  obtain i where i: "i < length ws" "w = ws ! i" using ws(3) by (auto simp: in_set_conv_nth)
  have e: "operation_position op (wp_ends_at_s w) = Inr (wp_end_m w) \<and> wp_ends_at_s w \<le> wp_ends_at_s (last ws)"
    using pos [of "Suc i" "wp_ends_at_s w"] nth [OF i(1)] i by simp
  have s: "operation_position op (wp_starts_at_s w) = Inr (wp_start_m w) \<and> wp_starts_at_s (hd ws) \<le> wp_starts_at_s w"
  proof (cases i)
    case 0
    then show ?thesis using pos [of 0 "wp_starts_at_s w"] n0 i ws(1) by (simp add: hd_conv_nth)
  next
    case (Suc j)
    then have "follows_on (ws ! j) w" using ws(2) i by (simp add: successively_conv_nth)
    then show ?thesis using pos [of i "wp_starts_at_s w"] nth [of j] i Suc by (simp add: follows_on_def)
  qed
  show ?thesis using e s act unfolding o by simp
qed

lemma single_covers:
  assumes "checked_operation X (single_operation X f r n w) = Inr op" "wp_action w \<in> {ACT_TAKEOFF, ACT_HOVER, ACT_LAND}"
  shows "carries_out op w"
  using assms by (auto simp: checked_operation_def single_operation_def landing_goal_for_def bind_ok_Inr Let_def)

lemma operations_cover:
  "compile_operations X f r n ws = Inr ops \<Longrightarrow> successively follows_on ws \<Longrightarrow>
     \<forall>w \<in> set ws. wp_action w \<in> {ACT_TAKEOFF, ACT_HOVER, ACT_MOVE_RELATIVE, ACT_LAND} \<Longrightarrow> w \<in> set ws \<Longrightarrow> \<exists>op \<in> set ops. carries_out op w"
proof (induction X f r n ws arbitrary: ops rule: compile_operations.induct)
  case (2 X f r n v ws)
  show ?case
  proof (cases "wp_action v = ACT_MOVE_RELATIVE")
    case True
    obtain more rest where m: "moves_on ws = (more, rest)" by fastforce
    then have split: "ws = more @ rest" "\<forall>u \<in> set more. wp_action u = ACT_MOVE_RELATIVE"
      by (auto simp: moves_on_def dest: set_takeWhileD)
    from "2.prems"(1) True m obtain op rops where op: "checked_operation X (moving_operation X f r n (v # more)) = Inr op"
      "compile_operations X f r (n + 1) rest = Inr rops" "ops = op # rops" by (auto simp: bind_ok_Inr)
    have succ: "successively follows_on (v # more)" "successively follows_on rest"
      using "2.prems"(2) split(1) by (auto simp: successively_append_iff simp flip: append_Cons)
    show ?thesis
    proof (cases "w \<in> set (v # more)")
      case True
      with moving_covers [OF op(1) _ succ(1), of w] split(2) \<open>wp_action v = ACT_MOVE_RELATIVE\<close> op(3) show ?thesis by auto
    next
      case False
      then have w: "w \<in> set rest" using "2.prems"(4) split(1) by auto
      have "\<forall>u \<in> set rest. wp_action u \<in> {ACT_TAKEOFF, ACT_HOVER, ACT_MOVE_RELATIVE, ACT_LAND}" using "2.prems"(3) split(1) by auto
      from "2.IH"(1) [OF True m [symmetric] refl op(1) op(2) succ(2) this w] op(3) show ?thesis by auto
    qed
  next
    case False
    with "2.prems"(1) obtain op rops where op: "checked_operation X (single_operation X f r n v) = Inr op"
      "compile_operations X f r (n + 1) ws = Inr rops" "ops = op # rops" by (auto simp: bind_ok_Inr)
    have "successively follows_on ws" using "2.prems"(2) by (cases ws) auto
    with False "2.prems" "2.IH"(2) [OF False op(1) op(2)] op(3) single_covers [OF op(1)] show ?thesis by auto
  qed
qed simp

text \<open>
  C12. The program of a role flies its preview: it is an accepted program as long as the preview, its
  timeout adds a contingency of at least two seconds and a fifth of the schedule and ten seconds for
  recovery, and every previewed waypoint is carried out by one of its operations: at the previewed times,
  and a movement's trajectory is at the previewed positions exactly when it starts and ends a leg.
\<close>

theorem program_flies_preview:
  assumes "previewed_role r" "compile_execution_program X f r = Inr (Some p)"
  shows "check_program (ph_trajectory (xh_deconfliction X)) p = Inr () \<and> ep_role_id p = ro_role_id r \<and> ep_vehicle_id p = ro_vehicle_id r
    \<and> ep_schedule_duration_s p = ro_planned_duration_s r
    \<and> ro_planned_duration_s r * (6 / 5) + 10 \<le> ep_execution_timeout_s p \<and> ro_planned_duration_s r + 12 \<le> ep_execution_timeout_s p
    \<and> (\<forall>w \<in> set (ro_waypoints r). \<exists>op \<in> set (ep_operations p). carries_out op w)"
proof -
  from assms(2) obtain ops where ops: "compile_operations X f r 1 (ro_waypoints r) = Inr ops" "ep_operations p = ops"
    and act: "\<forall>w \<in> set (ro_waypoints r). wp_action w \<in> {ACT_TAKEOFF, ACT_HOVER, ACT_MOVE_RELATIVE, ACT_LAND}"
    and rest: "check_program (ph_trajectory (xh_deconfliction X)) p = Inr ()" "ep_role_id p = ro_role_id r" "ep_vehicle_id p = ro_vehicle_id r"
      "ep_schedule_duration_s p = ro_planned_duration_s r"
      "ep_execution_timeout_s p = ro_planned_duration_s r + max 2 (ro_planned_duration_s r * (20 / 100)) + 10"
    by (auto simp: compile_execution_program_def Let_def bind_ok_Inr list_ex_iff split: if_splits)
  have "successively follows_on (ro_waypoints r)" using assms(1) by (simp add: previewed_role_def chain_from_def)
  with operations_cover [OF ops(1)] act ops(2) rest show ?thesis by auto
qed

section \<open>A crossing planned to the receipt\<close>

definition constant_plan_hashes :: plan_hashes where
  "constant_plan_hashes = \<lparr>xh_service = constant_service, xh_deconfliction = constant_hash, xh_multi = multi_constant_hash,
     xh_policy = \<lambda>_. sample_sha, xh_deployment = \<lambda>_. sample_sha, xh_route = \<lambda>_ _ _ _ _ _ _. sample_sha,
     xh_goal = \<lambda>_ _ _ _ _. sample_sha, xh_program = \<lambda>_. sample_sha\<rparr>"

definition climb_file :: mission_file where
  "climb_file = \<lparr>mf_mission_id = ''m'', mf_source_sha256 = sample_sha, mf_planned_command_budget = 10, mf_package_schema_version = 2,
     mf_roles = [], mf_deconfliction_strategies = None\<rparr>"

definition climb_worker :: "string \<Rightarrow> worker_answer outcome" where
  "climb_worker role = Inr \<lparr>wa_steps = [MoveStep \<lparr>mv_x_m = 0, mv_y_m = 0, mv_z_m = 1/2, mv_yaw_rad = 0, mv_duration_s = 3, mv_frame = HOME\<rparr>],
     wa_source_sha256 = sample_sha\<rparr>"

definition climb_member :: "string \<Rightarrow> real \<Rightarrow> fleet_member" where
  "climb_member role y = \<lparr>fm_vehicle_id = ''v-'' @ role, fm_display_name = role, fm_home = vec 0 y (1/2), fm_initial_role = ROLE_ACTIVE,
     fm_required = True, fm_required_capabilities = {}\<rparr>"

definition climb_deployment :: deployment_manifest where
  "climb_deployment = (route_deployment ''crossing'' [''alpha'', ''beta''])\<lparr>fleet := [climb_member ''beta'' (- 1), climb_member ''alpha'' 1]\<rparr>"

definition wall_observed :: plan_observations where
  "wall_observed = \<lparr>po_start_positions = [], po_observed_batteries = [], po_existing_vehicle_ids = {}, po_obstacles = crossing_obstacles\<rparr>"

definition climb_assignments :: "(string, string) dict" where
  "climb_assignments = [(''alpha'', ''v-alpha''), (''beta'', ''v-beta'')]"

definition climb_members :: "(role_plan \<times> plan_finding list) list outcome" where
  "climb_members = map_ok (plan_member climb_worker climb_file climb_deployment climb_assignments default_policy wall_observed)
     (sort_key fm_vehicle_id (fleet climb_deployment))"

definition climb_plan :: "mission_plan_receipt outcome" where
  "climb_plan = build_mission_plan constant_plan_hashes (\<lambda>_. sample_sha) climb_worker climb_file climb_deployment climb_assignments
     default_policy wall_observed"

lemma climb_assigned: "assignments_match climb_deployment climb_assignments"
  by code_simp

lemma climb_bundle:
  "compile_operational_planning_bundle constant_service ''m'' climb_deployment (rev crossing_inputs) default_policy crossing_obstacles = crossing_bundle"
proof -
  have "constraints climb_deployment = constraints crossing_deployment" by code_simp
  moreover have "policy_capability climb_deployment = policy_capability crossing_deployment" by code_simp
  moreover have "active_inputs (rev crossing_inputs) = active_inputs crossing_inputs" by code_simp
  moreover have "sort (map oi_role_id (rev crossing_inputs)) = sort (map oi_role_id crossing_inputs)"
    by (rule properties_for_sort) (simp_all add: rev_map mset_map)
  moreover have "filter (\<lambda>r. oi_initial_role r = ROLE_RESERVE) crossing_inputs = []" by code_simp
  ultimately have "fleet_request ''m'' climb_deployment (rev crossing_inputs) = fleet_request ''m'' crossing_deployment crossing_inputs"
    "route_request_for ''m'' climb_deployment default_policy = route_request_for ''m'' crossing_deployment default_policy"
    "active_inputs (rev crossing_inputs) = active_inputs crossing_inputs" "policy_capability climb_deployment = policy_capability crossing_deployment"
    by (simp_all add: fun_eq_iff fleet_request_def route_request_for_def rev_filter [symmetric])
  then show ?thesis unfolding crossing_bundle_def compile_operational_planning_bundle_def by (simp only:)
qed

lemma climb_flown: "case climb_members of Inr ms \<Rightarrow> map snd ms = [[], []] \<and> map_ok route_input_of (map fst ms) = Inr (rev crossing_inputs)
    \<and> starting_separation_findings (map fst ms) climb_deployment = [] \<and> map ro_role_id (map fst ms) = [''alpha'', ''beta''] \<and> list_all (\<lambda>(r, fs). ro_initial_role r = ROLE_ACTIVE) ms | Inl _ \<Rightarrow> False"
  by code_simp

lemma climb_programs: "case climb_members of Inr ms \<Rightarrow> (case map_ok (compile_execution_program constant_plan_hashes climb_file) (map fst ms) of
     Inr cs \<Rightarrow> list_all (\<lambda>c. c \<noteq> None) cs
       \<and> deconflict constant_plan_hashes climb_file climb_deployment default_policy (map the cs) = Inr (map the cs, None)
   | Inl _ \<Rightarrow> False) | Inl _ \<Rightarrow> False"
  by code_simp

lemma climb_safety: "\<not> isl (safety_snapshot_of constant_plan_hashes climb_deployment default_policy)"
  by code_simp

lemma climb_sel:
  "mf_mission_id climb_file = ''m''" "mf_source_sha256 climb_file = sample_sha" "mf_package_schema_version climb_file = 2"
  "xh_service constant_plan_hashes = constant_service" "xh_deployment constant_plan_hashes = (\<lambda>_. sample_sha)"
  "po_obstacles wall_observed = crossing_obstacles"
  by (simp_all add: climb_file_def constant_plan_hashes_def wall_observed_def)

lemma climb_planned: "case climb_plan of Inr m \<Rightarrow> mr_status m = MP_APPROVED \<and> mr_findings m = [] \<and> crossing_bundle = Inr (mr_planning m)
    \<and> climb_members = Inr (map (\<lambda>r. (r, [])) (mr_roles m)) | Inl _ \<Rightarrow> False"
proof -
  obtain b where b: "crossing_bundle = Inr b" "crossing_plans = Inr (pb_route_plans b)" using crossing_bundle_ready by (auto split: sum.splits)
  have ready: "route_findings (pb_route_plans b) = []"
    using crossing_plans_ready [unfolded b(2)] by (auto simp: route_findings_def filter_empty_conv map_eq_Cons_conv)
  obtain ms where ms: "climb_members = Inr ms" "map snd ms = [[], []]" "map_ok route_input_of (map fst ms) = Inr (rev crossing_inputs)"
    "starting_separation_findings (map fst ms) climb_deployment = []"
    using climb_flown by (auto split: sum.splits)
  obtain cs where cs: "map_ok (compile_execution_program constant_plan_hashes climb_file) (map fst ms) = Inr cs" "filter (\<lambda>c. c \<noteq> None) cs = cs"
    "deconflict constant_plan_hashes climb_file climb_deployment default_policy (map the cs) = Inr (map the cs, None)"
    using climb_programs [unfolded ms(1)] by (auto simp: list_all_iff filter_id_conv split: sum.splits)
  obtain s where s: "safety_snapshot_of constant_plan_hashes climb_deployment default_policy = Inr s"
    using climb_safety by (metis isl_def sum.exhaust_sel)
  have flown: "map_ok (plan_member climb_worker climb_file climb_deployment climb_assignments default_policy wall_observed)
     (sort_key fm_vehicle_id (fleet climb_deployment)) = Inr ms"
    using ms(1) unfolding climb_members_def .
  have ids: "valid_identifier (''mission-plan-'' @ take 24 sample_sha)" "valid_identifier ''m''" by code_simp+
  have pairs: "map (\<lambda>r. (r, [])) (map fst ms) = ms" using ms(2) by (auto simp: map_eq_Cons_conv)
  show ?thesis
    using climb_assigned flown ms(2-4) cs s ready ids climb_bundle pairs
    unfolding climb_plan_def build_mission_plan_def Let_def
    by (simp add: b(1) ms(1) climb_sel seal_receipt_def check_receipt_def found_def plan_status_def)
qed

theorem unblocked_plan_is_admissible_witness:
  "\<exists>m. climb_plan = Inr m \<and> length (mr_roles m) = 2 \<and> crossing_obstacles \<noteq> []
     \<and> (\<forall>r \<in> set (mr_roles m). admitted_role default_policy crossing_obstacles r)
     \<and> list_all2 (\<lambda>i a. plans_role climb_deployment default_policy crossing_obstacles i a \<and> rp_status a = RP_READY)
          (active_inputs (map role_input (mr_roles m))) (pb_route_plans (mr_planning m))"
proof -
  obtain m where m: "climb_plan = Inr m" "mr_status m = MP_APPROVED" "climb_members = Inr (map (\<lambda>r. (r, [])) (mr_roles m))"
    using climb_planned by (auto split: sum.splits)
  have two: "length (mr_roles m) = 2" "\<forall>r \<in> set (mr_roles m). ro_initial_role r = ROLE_ACTIVE"
    using climb_flown [unfolded m(3)] by (auto simp: list_all_iff o_def map_eq_Cons_conv)
  have wall: "ordered_obstacles (po_obstacles wall_observed)" "crossing_obstacles \<noteq> []"
    by (simp_all add: climb_sel crossing_obstacles_def ordered_corners_def)
  show ?thesis
    using unblocked_plan_is_admissible [OF m(1) [unfolded climb_plan_def] _ wall(1)] two m(1,2) wall(2)
    by (intro exI [of _ m]) (simp add: climb_sel)
qed

text \<open>One active role of the crossing on its own.\<close>

definition climb_role :: role_plan where
  "climb_role = \<lparr>ro_role_id = ''alpha'', ro_vehicle_id = ''v-alpha'', ro_initial_role = ROLE_ACTIVE, ro_home_m = vec 0 1 (1/2),
     ro_start_m = vec 0 1 (1/2), ro_existing_vehicle = False, ro_observed_battery_percent = None, ro_minimum_battery_percent = None,
     ro_preview_fidelity = EXACT_ROLE,
     ro_planned_commands = [MoveStep \<lparr>mv_x_m = 0, mv_y_m = 0, mv_z_m = 1/2, mv_yaw_rad = 0, mv_duration_s = 3, mv_frame = HOME\<rparr>],
     ro_waypoints = [\<lparr>wp_sequence = 1, wp_action = ACT_MOVE_RELATIVE, wp_starts_at_s = 0, wp_ends_at_s = 3, wp_start_m = vec 0 1 (1/2),
       wp_end_m = vec 0 1 1, wp_start_yaw_rad = 0, wp_end_yaw_rad = 0\<rparr>],
     ro_planned_duration_s = 3, ro_planned_distance_m = 1/2, ro_maximum_altitude_m = 1\<rparr>"

theorem program_flies_preview_witness:
  "\<exists>p op. compile_execution_program constant_plan_hashes climb_file climb_role = Inr (Some p) \<and> 15 \<le> ep_execution_timeout_s p
     \<and> op \<in> set (ep_operations p) \<and> operation_position op 3 = Inr (vec 0 1 1)"
proof -
  have "case compile_execution_program constant_plan_hashes climb_file climb_role of Inr c \<Rightarrow> c \<noteq> None | Inl _ \<Rightarrow> False" by code_simp
  then obtain p where p: "compile_execution_program constant_plan_hashes climb_file climb_role = Inr (Some p)"
    by (auto split: sum.splits)
  have "previewed_role climb_role" by code_simp
  note flies = program_flies_preview [OF this p]
  then obtain op where op: "op \<in> set (ep_operations p)" "carries_out op (hd (ro_waypoints climb_role))" by (auto simp: climb_role_def)
  from op(2) have "operation_position op 3 = Inr (vec 0 1 1)" by (cases op) (simp_all add: climb_role_def)
  moreover have "15 \<le> ep_execution_timeout_s p" using flies by (simp add: climb_role_def)
  ultimately show ?thesis using p op(1) by blast
qed

definition corner_leg :: "nat \<Rightarrow> real \<Rightarrow> vector3 \<Rightarrow> vector3 \<Rightarrow> plan_waypoint" where
  "corner_leg n t a b = \<lparr>wp_sequence = n, wp_action = ACT_MOVE_RELATIVE, wp_starts_at_s = t, wp_ends_at_s = t + 4, wp_start_m = a,
     wp_end_m = b, wp_start_yaw_rad = 0, wp_end_yaw_rad = 0\<rparr>"

definition corner_legs :: "plan_waypoint list" where
  "corner_legs = [corner_leg 1 0 (vec 0 0 1) (vec 1 0 1), corner_leg 2 4 (vec 1 0 1) (vec (8/5) (4/5) 1)]"

definition beside_the_leg :: box_obstacle where
  "beside_the_leg = \<lparr>ob_obstacle_id = ''box'', ob_minimum_m = vec (1/2) (- 1/5) 0, ob_maximum_m = vec 1 (- 1/20) 1\<rparr>"

text \<open>
  The legs of a preview are checked as straight lines, but a corner that is flown through bends the
  compiled curve off them: here both legs are clear of the obstacle and the vehicle flies into it.
\<close>

lemma compiled_curve_cuts_obstacle:
  "concat (map (\<lambda>w. geometry_findings default_policy [beside_the_leg] ''alpha'' (wp_sequence w) (wp_start_m w) (wp_end_m w)) corner_legs) = []"
  "case compile_continuous_trajectory constant_plan_hashes climb_file climb_role corner_legs of Inr tr \<Rightarrow>
     (case sample_trajectory tr (12/5) of Inr sp \<Rightarrow> inside_expanded_box (sp_position_m sp) beside_the_leg 0 | Inl _ \<Rightarrow> False) | Inl _ \<Rightarrow> False"
  by code_simp+

end
