(* ===== verification/Approval.thy ===== *)
theory Approval
  imports MissionPlan
begin

text \<open>
  \<open>planning/approval.py\<close> and its use in \<open>api/app.py\<close>: an operator approves one mission plan receipt,
  and a start takes that approval. The step relation \<open>approval_run\<close> records who approved and started
  what; the lemmas follow an approval from its grant to the start it admits.
\<close>

section \<open>Approvals\<close>

record plan_approval =
  ma_approval_id :: string
  ma_mission_id :: string
  ma_plan_id :: string
  ma_plan_sha256 :: string
  ma_safety_case_sha256 :: string
  ma_mission_source_sha256 :: string
  ma_deployment_sha256 :: string
  ma_plugin_manifest_sha256s :: "string list"
  ma_operator_client_id :: string
  ma_acknowledged_finding_codes :: "string set"
  ma_created_at_monotonic_s :: real
  ma_expires_at_monotonic_s :: real
  ma_approval_sha256 :: string

definition check_approval :: "plan_approval \<Rightarrow> unit outcome" where
  "check_approval a =
     (if list_all valid_identifier [ma_approval_id a, ma_mission_id a, ma_plan_id a, ma_operator_client_id a] \<and>
         list_all valid_sha256 ([ma_plan_sha256 a, ma_safety_case_sha256 a, ma_mission_source_sha256 a, ma_deployment_sha256 a,
           ma_approval_sha256 a] @ ma_plugin_manifest_sha256s a) \<and>
         (\<forall>c \<in> ma_acknowledged_finding_codes a. valid_identifier c) \<and>
         0 \<le> ma_created_at_monotonic_s a \<and> 0 < ma_expires_at_monotonic_s a
      then Inr () else Inl (ValidationError ''MissionPlanApproval field''))"

text \<open>The hashes of a receipt and of an approval's payload.\<close>

record approval_hashes =
  ah_plan :: "mission_plan_receipt \<Rightarrow> string"
  ah_approval :: "plan_approval \<Rightarrow> string"

definition plan_manifests :: "mission_plan_receipt \<Rightarrow> string list" where
  "plan_manifests m = sort (map ps_manifest_sha256 (pb_plugin_selections (mr_planning m)))"

definition create_approval ::
    "approval_hashes \<Rightarrow> mission_plan_receipt \<Rightarrow> string \<Rightarrow> string set \<Rightarrow> real \<Rightarrow> real \<Rightarrow> plan_approval outcome" where
  "create_approval A plan operator codes now validity =
     (let payload = \<lparr>ma_approval_id = '''', ma_mission_id = mr_mission_id plan, ma_plan_id = mr_plan_id plan, ma_plan_sha256 = ah_plan A plan,
        ma_safety_case_sha256 = sr_safety_case_sha256 (pb_safety_case (mr_planning plan)),
        ma_mission_source_sha256 = mr_mission_source_sha256 plan, ma_deployment_sha256 = mr_deployment_sha256 plan,
        ma_plugin_manifest_sha256s = plan_manifests plan, ma_operator_client_id = operator, ma_acknowledged_finding_codes = codes,
        ma_created_at_monotonic_s = now, ma_expires_at_monotonic_s = now + validity, ma_approval_sha256 = ''''\<rparr>;
          digest = ah_approval A payload;
          a = payload\<lparr>ma_approval_id := ''approval-'' @ take 24 digest, ma_approval_sha256 := digest\<rparr>
      in bind_ok (check_approval a) (\<lambda>_. Inr a))"

definition mismatch_reasons :: "approval_hashes \<Rightarrow> plan_approval \<Rightarrow> mission_plan_receipt \<Rightarrow> string \<Rightarrow> real \<Rightarrow> string list" where
  "mismatch_reasons A a plan operator now = map snd (filter fst
     [(now > ma_expires_at_monotonic_s a, ''approval expired''),
      (ma_operator_client_id a \<noteq> operator, ''approval belongs to another operator client''),
      (ma_mission_id a \<noteq> mr_mission_id plan, ''mission identity changed''),
      (ma_plan_id a \<noteq> mr_plan_id plan \<or> ma_plan_sha256 a \<noteq> ah_plan A plan, ''mission plan changed''),
      (ma_safety_case_sha256 a \<noteq> sr_safety_case_sha256 (pb_safety_case (mr_planning plan)), ''safety case changed''),
      (ma_mission_source_sha256 a \<noteq> mr_mission_source_sha256 plan, ''mission source changed''),
      (ma_deployment_sha256 a \<noteq> mr_deployment_sha256 plan, ''deployment changed''),
      (ma_plugin_manifest_sha256s a \<noteq> plan_manifests plan, ''selected plugin changed'')])"

section \<open>Approving and playing\<close>

definition required_codes :: "mission_plan_receipt \<Rightarrow> string set" where
  "required_codes plan = set (map pf_code (filter pf_requires_confirmation (mr_findings plan)))"

text \<open>
  The approve endpoint on the approvals the runtime holds, the gate of the start endpoint, and the
  start itself: \<open>launch\<close> stands for provisioning and the coordinators, which may raise before the
  approval is taken.
\<close>

definition approve_plan ::
    "approval_hashes \<Rightarrow> mission_plan_receipt \<Rightarrow> string \<Rightarrow> string set \<Rightarrow> string \<Rightarrow> real \<Rightarrow> (string, plan_approval) dict
       \<Rightarrow> (plan_approval \<times> (string, plan_approval) dict) outcome" where
  "approve_plan A plan expected codes operator now held =
     (if mr_status plan = MP_BLOCKED then Inl (cs_error PREFLIGHT_FAILED ''blocked mission plans cannot be approved'')
      else if expected \<noteq> ah_plan A plan then Inl (cs_error PREFLIGHT_FAILED ''mission plan changed before approval'')
      else if \<not> required_codes plan \<subseteq> codes then Inl (cs_error PREFLIGHT_FAILED ''confirmable mission-plan findings require acknowledgement'')
      else bind_ok (create_approval A plan operator codes now 300) (\<lambda>a. Inr (a, dict_set (ma_approval_id a) a held)))"

definition require_current_plan_approval ::
    "approval_hashes \<Rightarrow> (string, plan_approval) dict \<Rightarrow> mission_plan_receipt \<Rightarrow> string option \<Rightarrow> string option \<Rightarrow> string \<Rightarrow> real
       \<Rightarrow> plan_approval outcome" where
  "require_current_plan_approval A held plan approval_id expected operator now =
     (case (approval_id, expected) of
        (Some k, Some h) \<Rightarrow>
          if h \<noteq> ah_plan A plan then Inl (cs_error PREFLIGHT_FAILED ''approved mission plan hash is stale'')
          else (case dict_get held k of
              None \<Rightarrow> Inl (cs_error PREFLIGHT_FAILED ''mission plan approval is unknown or already consumed'')
            | Some a \<Rightarrow> if mismatch_reasons A a plan operator now \<noteq> [] then Inl (cs_error PREFLIGHT_FAILED ''mission plan approval is stale'')
                else Inr a)
      | _ \<Rightarrow> Inl (cs_error PREFLIGHT_FAILED ''Play requires approval of the exact current mission plan''))"

record start_request =
  sq_approval_id :: "string option"
  sq_expected_plan_sha256 :: "string option"
  sq_confirm_low_battery_risk :: bool

definition start_mission ::
    "approval_hashes \<Rightarrow> (mission_plan_receipt \<Rightarrow> unit outcome) \<Rightarrow> mission_plan_receipt \<Rightarrow> start_request \<Rightarrow> string \<Rightarrow> real
       \<Rightarrow> (string, plan_approval) dict \<Rightarrow> (plan_approval \<times> (string, plan_approval) dict) outcome" where
  "start_mission A launch plan q operator now held =
     (if mr_status plan = MP_BLOCKED then Inl (cs_error PREFLIGHT_FAILED ''mission planner rejected the mission before provisioning'')
      else bind_ok (require_current_plan_approval A held plan (sq_approval_id q) (sq_expected_plan_sha256 q) operator now) (\<lambda>a.
        if mr_status plan = MP_REQUIRES_CONFIRMATION \<and> \<not> sq_confirm_low_battery_risk q
        then Inl (cs_error PREFLIGHT_FAILED ''mission planner requires explicit simulation risk confirmation'')
        else bind_ok (launch plan) (\<lambda>_. Inr (a, AList.delete (ma_approval_id a) held))))"

section \<open>Approved and started\<close>

datatype approval_event =
    Approved plan_approval mission_plan_receipt string real
  | Started plan_approval mission_plan_receipt string real

text \<open>What the runtime holds after a history of requests; a request that raises changes nothing.\<close>

inductive approval_run ::
    "approval_hashes \<Rightarrow> (mission_plan_receipt \<Rightarrow> unit outcome) \<Rightarrow> (string, plan_approval) dict \<Rightarrow> approval_event list \<Rightarrow> bool"
  for A launch where
  idle: "approval_run A launch [] []"
| approve: "approval_run A launch held h \<Longrightarrow> approve_plan A plan expected codes operator now held = Inr (a, held') \<Longrightarrow>
     approval_run A launch held' (h @ [Approved a plan operator now])"
| start: "approval_run A launch held h \<Longrightarrow> start_mission A launch plan q operator now held = Inr (a, held') \<Longrightarrow>
     approval_run A launch held' (h @ [Started a plan operator now])"

fun approval_of :: "approval_event \<Rightarrow> string \<Rightarrow> nat" where
  "approval_of (Approved a plan operator now) k = (if ma_approval_id a = k then 1 else 0)"
| "approval_of (Started a plan operator now) k = 0"

fun start_of :: "approval_event \<Rightarrow> string \<Rightarrow> nat" where
  "start_of (Started a plan operator now) k = (if ma_approval_id a = k then 1 else 0)"
| "start_of (Approved a plan operator now) k = 0"

definition approvals_given :: "approval_event list \<Rightarrow> string \<Rightarrow> nat" where
  "approvals_given h k = sum_list (map (\<lambda>e. approval_of e k) h)"

definition starts_made :: "approval_event list \<Rightarrow> string \<Rightarrow> nat" where
  "starts_made h k = sum_list (map (\<lambda>e. start_of e k) h)"

lemma counts_append [simp]:
  "approvals_given (h @ [e]) k = approvals_given h k + approval_of e k" "starts_made (h @ [e]) k = starts_made h k + start_of e k"
  "approvals_given [] k = 0" "starts_made [] k = 0"
  by (simp_all add: approvals_given_def starts_made_def)

text \<open>What an approval owes to the receipt it was given for.\<close>

definition vouches :: "approval_hashes \<Rightarrow> plan_approval \<Rightarrow> mission_plan_receipt \<Rightarrow> string \<Rightarrow> real \<Rightarrow> bool" where
  "vouches A a plan operator now \<longleftrightarrow> ma_plan_sha256 a = ah_plan A plan \<and> ma_plan_id a = mr_plan_id plan \<and>
     ma_deployment_sha256 a = mr_deployment_sha256 plan \<and> ma_mission_source_sha256 a = mr_mission_source_sha256 plan \<and>
     ma_safety_case_sha256 a = sr_safety_case_sha256 (pb_safety_case (mr_planning plan)) \<and>
     ma_operator_client_id a = operator \<and> now \<le> ma_expires_at_monotonic_s a"

definition granted :: "approval_hashes \<Rightarrow> plan_approval \<Rightarrow> mission_plan_receipt \<Rightarrow> string \<Rightarrow> real \<Rightarrow> bool" where
  "granted A a plan operator now \<longleftrightarrow> vouches A a plan operator now \<and> mr_status plan \<noteq> MP_BLOCKED \<and>
     required_codes plan \<subseteq> ma_acknowledged_finding_codes a \<and> ma_expires_at_monotonic_s a = now + 300"

lemma approve_plan_Inr:
  assumes "approve_plan A plan expected codes operator now held = Inr (a, held')"
  shows "granted A a plan operator now" "held' = dict_set (ma_approval_id a) a held"
  using assms by (auto simp: approve_plan_def create_approval_def Let_def bind_ok_Inr granted_def vouches_def split: if_splits)

lemma start_mission_Inr:
  assumes "start_mission A launch plan q operator now held = Inr (a, held')"
  shows "vouches A a plan operator now" "mr_status plan \<noteq> MP_BLOCKED" "\<exists>k. dict_get held k = Some a" "held' = AList.delete (ma_approval_id a) held"
    "mr_status plan = MP_REQUIRES_CONFIRMATION \<longrightarrow> sq_confirm_low_battery_risk q"
  using assms
  by (auto simp: start_mission_def require_current_plan_approval_def mismatch_reasons_def vouches_def bind_ok_Inr filter_empty_conv
      split: if_splits option.splits)

lemma held_approvals:
  assumes "approval_run A launch held h"
  shows "(\<forall>k a. dict_get held k = Some a \<longrightarrow> ma_approval_id a = k \<and>
      (\<exists>plan operator now. Approved a plan operator now \<in> set h \<and> granted A a plan operator now)) \<and>
    (\<forall>k. starts_made h k + (if dict_get held k = None then 0 else 1) \<le> approvals_given h k)"
  using assms
proof (induction rule: approval_run.induct)
  case idle
  then show ?case by simp
next
  case (approve held h plan expected codes operator now a held')
  note a = approve_plan_Inr [OF approve.hyps(2)]
  show ?case
  proof (intro conjI allI impI)
    fix k b assume "dict_get held' k = Some b"
    with approve.IH a show "ma_approval_id b = k"
      "\<exists>p u t. Approved b p u t \<in> set (h @ [Approved a plan operator now]) \<and> granted A b p u t"
      by (auto split: if_splits) blast
  next
    fix k
    have "starts_made h k + (if dict_get held k = None then 0 else 1) \<le> approvals_given h k" using approve.IH by blast
    then show "starts_made (h @ [Approved a plan operator now]) k + (if dict_get held' k = None then 0 else 1)
        \<le> approvals_given (h @ [Approved a plan operator now]) k"
      unfolding a(2) by (simp split: if_splits)
  qed
next
  case (start held h plan q operator now a held')
  note a = start_mission_Inr [OF start.hyps(2)]
  have held: "dict_get held (ma_approval_id a) = Some a" using a(3) start.IH by metis
  show ?case
  proof (intro conjI allI impI)
    fix k b assume "dict_get held' k = Some b"
    then have "dict_get held k = Some b" unfolding a(4) by (auto simp: delete_conv' split: if_splits)
    with start.IH show "ma_approval_id b = k"
      "\<exists>p u t. Approved b p u t \<in> set (h @ [Started a plan operator now]) \<and> granted A b p u t"
      by auto
  next
    fix k
    have "starts_made h k + (if dict_get held k = None then 0 else 1) \<le> approvals_given h k" using start.IH by blast
    then show "starts_made (h @ [Started a plan operator now]) k + (if dict_get held' k = None then 0 else 1)
        \<le> approvals_given (h @ [Started a plan operator now]) k"
      unfolding a(4) using held by (auto simp: delete_conv' split: if_splits)
  qed
qed

text \<open>
  C11. A mission starts only on a live approval of its exact plan: whenever a start is admitted, the same
  operator was granted that approval before and at most 300 seconds ago, for a plan that was not
  blocked, whose confirmable findings were all acknowledged, and which agrees with the started plan in
  its hash, its name, the deployment, the mission source and the safety case; and no approval admits
  more starts than it was given.
\<close>

theorem start_needs_live_approval:
  assumes "approval_run A launch held h" "h = before @ Started a plan operator now # later"
  shows "(\<exists>plan' granted_at. Approved a plan' operator granted_at \<in> set before \<and> granted A a plan' operator granted_at
      \<and> now \<le> granted_at + 300 \<and> ah_plan A plan' = ah_plan A plan \<and> mr_plan_id plan' = mr_plan_id plan
      \<and> mr_deployment_sha256 plan' = mr_deployment_sha256 plan \<and> mr_mission_source_sha256 plan' = mr_mission_source_sha256 plan
      \<and> sr_safety_case_sha256 (pb_safety_case (mr_planning plan')) = sr_safety_case_sha256 (pb_safety_case (mr_planning plan)))
    \<and> mr_status plan \<noteq> MP_BLOCKED
    \<and> starts_made before (ma_approval_id a) < approvals_given before (ma_approval_id a)"
  using assms
proof (induction arbitrary: later rule: approval_run.induct)
  case idle
  then show ?case by simp
next
  case (approve held h plan' expected codes operator' now' b held')
  then show ?case by (cases later rule: rev_cases) auto
next
  case (start held h plan' q operator' now' b held')
  show ?case
  proof (cases later rule: rev_cases)
    case Nil
    with start.prems have e: "h = before" "b = a" "plan' = plan" "operator' = operator" "now' = now" by auto
    note b = start_mission_Inr [OF start.hyps(2), unfolded e]
    obtain k where k: "dict_get held k = Some a" using b(3) by blast
    note held = held_approvals [OF start.hyps(1)]
    from held k obtain p u t where id: "ma_approval_id a = k" and g: "Approved a p u t \<in> set before" "granted A a p u t" unfolding e by blast
    have u: "u = operator" using g(2) b(1) by (simp add: granted_def vouches_def)
    have count: "starts_made before (ma_approval_id a) < approvals_given before (ma_approval_id a)"
      using conjunct2 [OF held, THEN spec, of k] k unfolding e id by simp
    have same: "now \<le> t + 300 \<and> ah_plan A p = ah_plan A plan \<and> mr_plan_id p = mr_plan_id plan
        \<and> mr_deployment_sha256 p = mr_deployment_sha256 plan \<and> mr_mission_source_sha256 p = mr_mission_source_sha256 plan
        \<and> sr_safety_case_sha256 (pb_safety_case (mr_planning p)) = sr_safety_case_sha256 (pb_safety_case (mr_planning plan))"
      using g(2) b(1) by (simp add: granted_def vouches_def)
    show ?thesis
      by (rule conjI [OF exI [of _ p, OF exI [of _ t]] conjI [OF b(2) count]]) (use g same u in simp)
  next
    case (snoc ys y)
    with start.prems start.IH show ?thesis by auto
  qed
qed

section \<open>An approved start\<close>

lemma safety_case_valid: "compile_safety_case K policy decl ms = Inr r \<Longrightarrow> receipt_fields_ok r"
  unfolding compile_safety_case_def Let_def bind_ok_Inr by (elim exE conjE) (simp split: if_splits)

lemma selected_manifest: "from_manifest sha m caps = Inr s \<Longrightarrow> valid_sha256 (ps_manifest_sha256 s)"
  by (auto simp: from_manifest_def selection_fields_ok_def Let_def split: if_splits)

lemma map_ok_member: "map_ok f xs = Inr ys \<Longrightarrow> y \<in> set ys \<Longrightarrow> \<exists>x \<in> set xs. f x = Inr y"
  by (induction xs arbitrary: ys) (auto simp: bind_ok_Inr)

lemma built_plan_approvable:
  assumes "build_mission_plan X sha worker f d assignments policy ob = Inr m"
  shows "check_receipt m = Inr ()" "valid_sha256 (sr_safety_case_sha256 (pb_safety_case (mr_planning m)))"
    "list_all valid_sha256 (plan_manifests m)"
proof -
  show "check_receipt m = Inr ()"
    using assms unfolding build_mission_plan_def Let_def by (auto simp: bind_ok_Inr seal_receipt_def Let_def split: if_splits)
  from assms obtain inputs where "compile_operational_planning_bundle (xh_service X) (mf_mission_id f) d inputs policy (po_obstacles ob) = Inr (mr_planning m)"
    by (rule plan_parts)
  then obtain decl ms where "compile_safety_case (sh_kernel (xh_service X)) policy decl ms = Inr (pb_safety_case (mr_planning m))"
    and chosen: "selections (rh_manifest (sh_planning (xh_service X))) ms = Inr (pb_plugin_selections (mr_planning m))" by (rule bundle_parts)
  then show "valid_sha256 (sr_safety_case_sha256 (pb_safety_case (mr_planning m)))"
    using safety_case_valid by (auto simp: receipt_fields_ok_def)
  have "valid_sha256 (ps_manifest_sha256 s)" if "s \<in> set (pb_plugin_selections (mr_planning m))" for s
    using map_ok_member [OF chosen [unfolded selections_def] that] selected_manifest by blast
  then show "list_all valid_sha256 (plan_manifests m)" by (auto simp: plan_manifests_def list_all_iff)
qed

definition constant_approval_hashes :: approval_hashes where
  "constant_approval_hashes = \<lparr>ah_plan = \<lambda>_. sample_sha, ah_approval = \<lambda>_. sample_sha\<rparr>"

theorem start_needs_live_approval_witness:
  "\<exists>m a. climb_plan = Inr m
     \<and> approval_run constant_approval_hashes (\<lambda>_. Inr ()) [] [Approved a m ''operator'' 0, Started a m ''operator'' 10]
     \<and> (\<exists>p t. Approved a p ''operator'' t \<in> set [Approved a m ''operator'' 0] \<and> 10 \<le> t + 300)"
proof -
  let ?A = constant_approval_hashes
  obtain m where m: "climb_plan = Inr m" "mr_status m = MP_APPROVED" "mr_findings m = []" using climb_planned by (auto split: sum.splits)
  note ok = built_plan_approvable [OF m(1) [unfolded climb_plan_def]]
  have ids: "valid_identifier (''approval-'' @ take 24 sample_sha)" "valid_identifier ''operator''" by code_simp+
  obtain a where a: "create_approval ?A m ''operator'' {} 0 300 = Inr a"
    using ok ids by (auto simp: create_approval_def check_approval_def check_receipt_def constant_approval_hashes_def Let_def split: if_splits)
  let ?held = "[(ma_approval_id a, a)]"
  have approved: "approve_plan ?A m sample_sha {} ''operator'' 0 [] = Inr (a, ?held)"
    using a m by (simp add: approve_plan_def required_codes_def constant_approval_hashes_def)
  note run = approval_run.approve [OF approval_run.idle approved, of "\<lambda>_. Inr ()"]
  let ?q = "\<lparr>sq_approval_id = Some (ma_approval_id a), sq_expected_plan_sha256 = Some sample_sha, sq_confirm_low_battery_risk = False\<rparr>"
  have vouched: "vouches ?A a m ''operator'' 0" "ma_expires_at_monotonic_s a = 300" "ma_mission_id a = mr_mission_id m"
    "ma_plugin_manifest_sha256s a = plan_manifests m"
    using approve_plan_Inr(1) [OF approved] a by (auto simp: granted_def create_approval_def Let_def bind_ok_Inr)
  have "start_mission ?A (\<lambda>_. Inr ()) m ?q ''operator'' 10 ?held = Inr (a, [])"
    using m vouched by (simp add: start_mission_def require_current_plan_approval_def mismatch_reasons_def vouches_def constant_approval_hashes_def)
  from approval_run.start [OF run this]
  have run2: "approval_run ?A (\<lambda>_. Inr ()) [] [Approved a m ''operator'' 0, Started a m ''operator'' 10]" by simp
  with start_needs_live_approval [OF run2, of "[Approved a m ''operator'' 0]" a m "''operator''" 10 "[]"] m(1)
  show ?thesis by auto
qed

end
