(* ===== verification/Spec2Isabelle.thy ===== *)
theory Spec2Isabelle
  imports SafetyPolicy Docks Gates Approval
begin

text \<open>
  CrazySwarm flies several small quadrotors, simulated or real, from scripts, missions and a web
  interface. This library models the parts that decide who may command a vehicle, which motion is
  admitted, what happens when something fails, and who flies which task of a fleet. All paths below
  are under \<open>src/src/crazyswarm_app/\<close>.

  Parts and their theories.

  \<^item> \<open>Prelude\<close>: error codes and exceptions as values, Python dictionaries in insertion order,
    monotonic clock readings, identifiers, and the locales \<open>invariant_system\<close>, \<open>monotone_system\<close>,
    \<open>lease_authority\<close> and \<open>numbered_log\<close> through which the fleet components prove their invariants.
  \<^item> \<open>Effects\<close>: validators as sequences of checks, methods as programs over a state that return or
    raise, and the locale \<open>guarantee\<close>, which composes a relation between states over such programs.
  \<^item> \<open>Domain\<close> (\<open>domain/models.py\<close>), \<open>Trajectory\<close> (\<open>domain/trajectory.py\<close>, \<open>domain/goals.py\<close>),
    \<open>Telemetry\<close> (\<open>domain/telemetry.py\<close>), \<open>Commands\<close> (\<open>domain/commands.py\<close>): the contracts the
    components exchange, each class a record or a datatype with its field constraints and validator.
  \<^item> \<open>SafetyPolicy\<close> (\<open>safety/policy.py\<close>, \<open>safety/state_machine.py\<close>): the life-cycle table, the safety
    envelope and its tightening by a mission.
  \<^item> \<open>Guards\<close>, \<open>Supervisor\<close> (\<open>safety/supervisor.py\<close> with \<open>safety/models.py\<close>): the supervisor, which
    every command of every caller passes. \<open>Guards\<close> holds its decisions, \<open>Supervisor\<close> its methods:
    registry, control leases, modes, preflight, arming, flight, landing, abort, emergency stop, the
    health watchdog, telemetry ingestion, and \<open>_send\<close>. \<open>Admission\<close>, \<open>Oversight\<close> and \<open>Gates\<close> hold
    their theorems; \<open>Admission\<close> also holds the reference profile of \<open>simulation/vehicle.py\<close>.
  \<^item> \<open>Artifacts\<close> (\<open>fleet/artifacts.py\<close>), \<open>TaskLedger\<close> (\<open>fleet/tasks.py\<close>), \<open>Persistent\<close>
    (\<open>fleet/persistent.py\<close>), \<open>Docks\<close> (\<open>fleet/docks.py\<close>): the fleet. The ledger owns the task leases;
    the persistent-coverage coordinator hands tasks over between vehicles through it; a vehicle
    released by a completed handover returns to a dock.
  \<^item> \<open>Zones\<close> (\<open>fleet/zones.py\<close>, \<open>fleet/coordination.py\<close>): the first zone planner with its sampled
    obstacle test, and the leader and follower tracking of formations.
  \<^item> \<open>Retiming\<close>, \<open>Deconfliction\<close> (\<open>planning/deconfliction.py\<close>): slowing, delaying and bending an
    execution program, the sampled prediction, and the two-drone planner that tries the strategies
    in turn. \<open>Multidrone\<close> (\<open>planning/multidrone.py\<close>): the scheduler of three and more drones, which
    enumerates the orders of passage.
  \<^item> \<open>Routes\<close> (the route part of \<open>planning/contracts.py\<close>, \<open>planning/registry.py\<close>,
    \<open>planning/builtins.py\<close>): the plugin registry and the four built-in route planners. The locale
    \<open>route_plugin\<close> states what a planner promises, \<open>exclusive_plugin\<close> adds the respect of existing
    reservations; the planners are its interpretations.
  \<^item> \<open>Recovery\<close> (the policies and recoveries of \<open>planning/contracts.py\<close> and \<open>planning/builtins.py\<close>,
    \<open>planning/safety.py\<close>): the fleet policies, the recovery strategies and the safety kernel that admits
    their proposals. \<open>Intent\<close> (\<open>planning/intent.py\<close>): mission intents and their compilation into an
    execution graph by a depth-first search. \<open>Bundle\<close> (\<open>planning/service.py\<close>): a route for every active
    role, the launch order, the one-phase intent and the safety case, bound into one bundle.
  \<^item> \<open>MissionPlan\<close> (\<open>missions/planning.py\<close> with the step rules of \<open>missions/script.py\<close>): a mission flown on
    paper, its findings, the execution programs, and the receipt. \<open>Approval\<close> (\<open>planning/approval.py\<close>
    and the approve and start endpoints of \<open>api/app.py\<close>): who may start which plan, as a step relation.

  How state and effects are represented. An object is a record of its attributes; a method is a
  function of its arguments and the object that returns the outcome, a value or the exception,
  together with the object, which keeps every mutation made before a raise. In the fleet theories
  this is written out; in \<open>Supervisor\<close> it is a program of \<open>Effects\<close> over a \<open>world\<close> that also holds
  the clock, the log of adapter calls, and the environment of the coroutines. Each \<open>await\<close> takes one
  answer from the environment: what the other coroutines did to the supervisor in the meantime, and
  the value or exception of the awaited call (a time-out and a cancellation are exceptions). A
  statement for every environment covers every adapter behaviour and every interleaving at the
  awaits. The hypothesis \<open>rely\<close> asks of the other coroutines what \<open>Oversight\<close> proves of every method.

  What the lemmas show.

  \<^item> \<open>Oversight\<close> and \<open>Gates\<close>: under any calls, replies and interleavings every vehicle moves along
    logged, permitted transitions; only well-formed commands reach an adapter; arming and take-off
    are gated by ownership, preflight, authority and policy; stale telemetry renews nothing; the
    watchdog takes the worst action of an issue. The failure paths of \<open>land\<close>, \<open>emergency_stop\<close>, \<open>abort_and_land\<close>,
    \<open>release_control\<close>, \<open>set_mode\<close> and \<open>preflight\<close> that contradict their intent are theorems too.
  \<^item> \<open>Admission\<close>: the validators as conditions, their monotonicity under a tightened policy, and that
    an admitted move stays in the flight volume and within the limits at every instant.
  \<^item> \<open>Trajectory\<close>: the quintic segments are Hermite interpolants, the binary search equals the linear
    scan, accepted trajectories pass through their points, accepted programs have no gap and last
    exactly as long as they declare.
  \<^item> \<open>SafetyPolicy\<close>: an accepted override only tightens, and every valid tightening is accepted.
  \<^item> \<open>TaskLedger\<close>, \<open>Persistent\<close>, \<open>Docks\<close>: reachable states keep their invariants; a task has one
    owner per lease generation and a superseded lease is fenced for ever; a takeover is all or
    nothing, except after too long a reason, and needs separation; allocation is a matching; docks keep
    their capacity; the evidence log rebuilds a task record unless a call raised after writing it.

  \<^item> \<open>Retiming\<close>, \<open>Deconfliction\<close>, \<open>Multidrone\<close>: a retimed program flies the same path more slowly, a
    delayed one the same path later; the programs of an accepted plan keep the required separation
    at all samples, and between them up to what the speeds of the vehicles can close; the joint schedule is the
    best one of the orders tried.
  \<^item> \<open>Zones\<close>, \<open>Routes\<close>: the slab test decides whether a segment meets a box; a ready route stays in
    the volume, clear of obstacles and inside the corridor it reserves; routes whose corridors
    are reserved for overlapping times keep the separation; a coverage route visits every row; the registry resolves exactly
    the plugins that were registered and refuses every other name.
  \<^item> \<open>Recovery\<close>, \<open>Intent\<close>, \<open>Bundle\<close>: the kernel authorizes exactly the current, available and declared
    proposals; every trigger is answered when landing is possible; the compiler returns a graph
    for exactly the well-formed acyclic intents whose names fit, and every execution of it ends; the routes of a bundle are safe
    and its parts refer to each other.
  \<^item> \<open>MissionPlan\<close>, \<open>Approval\<close>: a plan that is not blocked is admissible, with obstacles
    checked along straight legs; its programs carry out the
    previewed waypoints; a mission starts only on a live approval of its exact plan. The curve of a
    program between two waypoints can leave the straight leg that was checked, which is a lemma too.

  Termination and bounds. Every function is total: loops over lists are structural, the binary search
  terminates by the length of its interval, the enumeration of orders by the length of the list, the
  search of \<open>Intent\<close> by the phases it has not reached, the compiler of operations by the waypoints that
  are left. The only fuel is the number of binary digits of \<open>isqrt\<close>, which evaluates roots of concrete
  numbers and gives up beyond. Python integers are \<open>int\<close>,
  floats are exact real numbers, so rounding, infinities and NaN are outside the statements; square
  roots of rationals that are rational, and the sine and cosine at zero, can be evaluated.

  Parameters and assumptions. The canonical SHA-256 of an object is a parameter, gathered in the
  records \<open>planning_hash\<close>, \<open>deconfliction_hash\<close>, \<open>multi_hash\<close>, \<open>planning_hashes\<close>, \<open>kernel_hashes\<close>,
  \<open>graph_hashes\<close>, \<open>service_hashes\<close>, \<open>plan_hashes\<close> and \<open>approval_hashes\<close>; the mission worker, a separate
  process, is the function \<open>worker\<close>, and the provisioning of a start the function \<open>launch\<close>. The depth of
  the interpreter's stack is not limited. A model instance
  that is a field of another is not validated again, as in pydantic. Monotonic readings
  are not negative. Vehicles are not registered or removed while a call is suspended; audit sinks
  cannot influence the supervisor, as \<open>_notify\<close> swallows their exceptions. The cancellation of a suspended
  call, and a store that fails to write after an approval was taken, are not modelled. UTC stamps, free-form
  details and literal schema fields are left out.

  Not modelled. \<open>fleet/coordinator.py\<close>, \<open>fleet/execution.py\<close>, \<open>fleet/preparation.py\<close>, the rest
  of \<open>missions\<close> (the runner, the parsing of scripts, the worker process), the qualification and release
  services of \<open>planning\<close>, and \<open>campaign\<close>: long asynchronous orchestration and reports around the parts
  above; the simulator's physics, the adapters,
  the Isaac bridge, observability, the rest of the API, the command line and the front end, which are numerical
  integration, drivers and I/O around the parts above.
\<close>

end
